(* ===== verification/Go_Prelude.thy ===== *)
theory Go_Prelude
  imports Main "HOL-Library.AList" "HOL-Library.Option_ord" "HOL-Library.Code_Target_Numeral"
    "HOL-Library.Multiset"
begin

text \<open>
  The part of the Go language and of its standard library that the backend leans on,
  shared by every component theory:
  \<^item> strings are byte lists (\<open>string\<close>); the functions of the package \<open>strings\<close> the
    source calls, with white space restricted to its ASCII members;
  \<^item> \<open>strconv.Atoi\<close> with its 64-bit range and \<open>strconv.Itoa\<close>;
  \<^item> the shapes of control flow: a call that may fail (\<open>bindR\<close>), a loop that returns at
    the first error (\<open>first_error\<close>, \<open>first_some\<close>), a loop that threads a state
    (\<open>fold_err\<close>);
  \<^item> Go maps read through \<open>map_of\<close> on key/value lists, sets of strings collected in
    first-insertion order (\<open>add_new\<close>) and sorted on the way out.
\<close>

named_theorems go_simps \<open>unfolding rules of the shared Go operations\<close>

section \<open>Results and loops\<close>

definition bindR :: "'e + 'a \<Rightarrow> ('a \<Rightarrow> 'e + 'b) \<Rightarrow> 'e + 'b" where
  "bindR m f = (case m of Inl e \<Rightarrow> Inl e | Inr a \<Rightarrow> f a)"

lemma bindR_simps [simp]: "bindR (Inl e) f = Inl e" "bindR (Inr a) f = f a"
  by (simp_all add: bindR_def)

lemma bindR_Inr: "bindR m f = Inr b \<longleftrightarrow> (\<exists>a. m = Inr a \<and> f a = Inr b)"
  by (cases m) auto

lemma bindR_Inl: "bindR m f = Inl e \<longleftrightarrow> m = Inl e \<or> (\<exists>a. m = Inr a \<and> f a = Inl e)"
  by (cases m) auto

text \<open>A guard: \<open>if cond { return err }\<close> followed by the rest of the body.\<close>

definition guardE :: "bool \<Rightarrow> 'e \<Rightarrow> 'e option \<Rightarrow> 'e option" where
  "guardE bad e rest = (if bad then Some e else rest)"

lemma guardE_simps [simp]: "guardE True e r = Some e" "guardE False e r = r"
  by (simp_all add: guardE_def)

lemma guardE_None [simp]: "guardE b e r = None \<longleftrightarrow> \<not> b \<and> r = None"
  by (simp add: guardE_def)

text \<open>\<open>for i, x := range xs\<close> with a body that returns on its first error.\<close>

primrec first_error :: "(nat \<Rightarrow> 'a \<Rightarrow> 'e option) \<Rightarrow> nat \<Rightarrow> 'a list \<Rightarrow> 'e option" where
  "first_error f i [] = None"
| "first_error f i (x # xs) = (case f i x of Some e \<Rightarrow> Some e | None \<Rightarrow> first_error f (Suc i) xs)"

lemma first_error_None:
  "first_error f i xs = None \<longleftrightarrow> (\<forall>j < length xs. f (i + j) (xs ! j) = None)"
proof (induction xs arbitrary: i)
  case (Cons x xs)
  show ?case
    by (auto simp: Cons.IH All_less_Suc2 split: option.splits)
qed simp

lemma first_error_None_all: "first_error (\<lambda>_. f) i xs = None \<longleftrightarrow> (\<forall>x \<in> set xs. f x = None)"
  by (induction xs arbitrary: i) (auto split: option.splits)

lemma first_error_Some:
  "first_error f i xs = Some e \<Longrightarrow> \<exists>j < length xs. f (i + j) (xs ! j) = Some e \<and> (\<forall>k < j. f (i + k) (xs ! k) = None)"
proof (induction xs arbitrary: i)
  case (Cons x xs)
  show ?case
  proof (cases "f i x")
    case None
    with Cons.prems have "first_error f (Suc i) xs = Some e" by simp
    from Cons.IH [OF this] obtain j where
      j: "j < length xs" "f (Suc i + j) (xs ! j) = Some e" "\<forall>k < j. f (Suc i + k) (xs ! k) = None" by blast
    have "\<forall>k < Suc j. f (i + k) ((x # xs) ! k) = None"
      using j(3) None by (auto simp: less_Suc_eq_0_disj)
    with j show ?thesis by (intro exI [of _ "Suc j"]) auto
  next
    case (Some e')
    with Cons.prems show ?thesis by (intro exI [of _ 0]) auto
  qed
qed simp

primrec first_some :: "'e option list \<Rightarrow> 'e option" where
  "first_some [] = None"
| "first_some (x # xs) = (case x of Some e \<Rightarrow> Some e | None \<Rightarrow> first_some xs)"

lemma first_some_None [simp]: "first_some xs = None \<longleftrightarrow> (\<forall>x \<in> set xs. x = None)"
  by (induction xs) (auto split: option.splits)

lemma first_some_Cons [simp]: "first_some (Some e # xs) = Some e" "first_some (None # xs) = first_some xs"
  by simp_all

text \<open>A loop that threads a state and stops at the first error.\<close>

primrec fold_err :: "('a \<Rightarrow> 's \<Rightarrow> 'e + 's) \<Rightarrow> 'a list \<Rightarrow> 's \<Rightarrow> 'e + 's" where
  "fold_err f [] s = Inr s"
| "fold_err f (x # xs) s = bindR (f x s) (fold_err f xs)"

lemma fold_err_invariant:
  assumes "fold_err f xs s = Inr t" and "P s"
    and "\<And>x s s'. x \<in> set xs \<Longrightarrow> P s \<Longrightarrow> f x s = Inr s' \<Longrightarrow> P s'"
  shows "P t"
  using assms by (induction xs arbitrary: s) (auto simp: bindR_Inr)

lemma fold_err_append: "fold_err f (xs @ ys) s = bindR (fold_err f xs s) (fold_err f ys)"
  by (induction xs arbitrary: s) (auto simp: bindR_def split: sum.splits)

section \<open>Strings\<close>

definition is_space :: "char \<Rightarrow> bool" where
  "is_space c \<longleftrightarrow> of_char c \<in> {9::nat, 10, 11, 12, 13, 32}"

text \<open>\<open>\s\<close> of the regular expressions, which has no vertical tab.\<close>

definition re_space :: "char \<Rightarrow> bool" where
  "re_space c \<longleftrightarrow> of_char c \<in> {9::nat, 10, 12, 13, 32}"

definition is_digit :: "char \<Rightarrow> bool" where
  "is_digit c \<longleftrightarrow> (48::nat) \<le> of_char c \<and> of_char c \<le> (57::nat)"

definition is_alpha :: "char \<Rightarrow> bool" where
  "is_alpha c \<longleftrightarrow> (65::nat) \<le> of_char c \<and> of_char c \<le> (90::nat) \<or> (97::nat) \<le> of_char c \<and> of_char c \<le> (122::nat)"

definition trim_space :: "string \<Rightarrow> string" where
  "trim_space s = rev (dropWhile is_space (rev (dropWhile is_space s)))"

definition has_prefix :: "string \<Rightarrow> string \<Rightarrow> bool" where
  "has_prefix s p = (take (length p) s = p)"

definition has_suffix :: "string \<Rightarrow> string \<Rightarrow> bool" where
  "has_suffix s p = (length p \<le> length s \<and> drop (length s - length p) s = p)"

definition trim_prefix :: "string \<Rightarrow> string \<Rightarrow> string" where
  "trim_prefix s p = (if has_prefix s p then drop (length p) s else s)"

fun contains_str :: "string \<Rightarrow> string \<Rightarrow> bool" where
  "contains_str [] p = (p = [])"
| "contains_str (c # s) p = (has_prefix (c # s) p \<or> contains_str s p)"

text \<open>\<open>strings.Split\<close> on a one-byte separator: never empty, one piece more than separators.\<close>

fun split_on :: "char \<Rightarrow> string \<Rightarrow> string list" where
  "split_on sep [] = [[]]"
| "split_on sep (c # s) =
     (if c = sep then [] # split_on sep s
      else case split_on sep s of [] \<Rightarrow> [[c]] | p # ps \<Rightarrow> (c # p) # ps)"

fun join_with :: "string \<Rightarrow> string list \<Rightarrow> string" where
  "join_with sep [] = []"
| "join_with sep [x] = x"
| "join_with sep (x # y # ys) = x @ sep @ join_with sep (y # ys)"

text \<open>\<open>strings.Fields\<close>: maximal runs of non-space bytes.\<close>

function fields :: "string \<Rightarrow> string list" where
  "fields s = (case dropWhile is_space s of [] \<Rightarrow> []
     | c # cs \<Rightarrow> (c # takeWhile (\<lambda>x. \<not> is_space x) cs) # fields (dropWhile (\<lambda>x. \<not> is_space x) cs))"
  by pat_completeness auto
termination
proof (relation "measure length", simp, clarsimp)
  fix s :: string and c cs
  assume "dropWhile is_space s = c # cs"
  then have "length (c # cs) \<le> length s" by (metis length_dropWhile_le)
  moreover have "length (dropWhile (\<lambda>x. \<not> is_space x) cs) \<le> length cs" by (rule length_dropWhile_le)
  ultimately show "length (dropWhile (\<lambda>x. \<not> is_space x) cs) < length s" by simp
qed

declare fields.simps [simp del]

text \<open>\<open>strings.Cut\<close> at the first separator: the part before it, the part after it.\<close>

definition cut_at :: "char \<Rightarrow> string \<Rightarrow> string \<times> string" where
  "cut_at sep s = (takeWhile (\<lambda>c. c \<noteq> sep) s, drop 1 (dropWhile (\<lambda>c. c \<noteq> sep) s))"

lemma split_on_nonempty [simp]: "split_on sep s \<noteq> []"
  by (induction s) (auto split: list.splits)

lemma has_prefix_append [simp]: "has_prefix (p @ s) p"
  by (simp add: has_prefix_def)

lemma has_prefix_Nil [simp]: "has_prefix s []"
  by (simp add: has_prefix_def)

lemma contains_str_prefix: "has_prefix s p \<Longrightarrow> contains_str s p"
  by (cases s) (auto simp: has_prefix_def)

lemma contains_str_append: "contains_str (a @ p @ b) p"
  by (induction a) (simp_all add: contains_str_prefix)

lemma join_split_on: "join_with [sep] (split_on sep s) = s"
proof (induction s)
  case (Cons c s)
  obtain p ps where "split_on sep s = p # ps" by (cases "split_on sep s") auto
  with Cons show ?case by (cases ps) auto
qed simp

lemma split_on_no_sep: "sep \<notin> set s \<Longrightarrow> split_on sep s = [s]"
  by (induction s) auto

lemma split_on_append: "sep \<notin> set a \<Longrightarrow> split_on sep (a @ sep # b) = a # split_on sep b"
  by (induction a) auto

section \<open>Integers as text\<close>

definition digit_char :: "nat \<Rightarrow> char" where
  "digit_char d = char_of (48 + d)"

definition digit_val :: "char \<Rightarrow> nat" where
  "digit_val c = of_char c - 48"

fun nat_str :: "nat \<Rightarrow> string" where
  "nat_str n = (if n < 10 then [digit_char n] else nat_str (n div 10) @ [digit_char (n mod 10)])"

declare nat_str.simps [simp del]

definition int_str :: "int \<Rightarrow> string" where
  "int_str i = (if i < 0 then ''-'' @ nat_str (nat (- i)) else nat_str (nat i))"

definition digits_val :: "string \<Rightarrow> nat" where
  "digits_val s = foldl (\<lambda>acc c. 10 * acc + digit_val c) 0 s"

text \<open>
  \<open>strconv.Atoi\<close>: an optional sign, at least one decimal digit and nothing else, and a
  value within the 64-bit range, \<open>None\<close> for its error.
\<close>

definition atoi :: "string \<Rightarrow> int option" where
  "atoi s =
     (let (neg, ds) = (case s of [] \<Rightarrow> (False, [])
                       | c # cs \<Rightarrow> if c = CHR ''-'' then (True, cs) else if c = CHR ''+'' then (False, cs) else (False, s));
          v = (if neg then - int (digits_val ds) else int (digits_val ds))
      in if ds \<noteq> [] \<and> list_all is_digit ds \<and> - (2 ^ 63) \<le> v \<and> v < 2 ^ 63 then Some v else None)"

lemma of_char_digit_char: "d < 10 \<Longrightarrow> of_char (digit_char d) = (48 + d :: nat)"
  by (simp add: digit_char_def)

lemma is_digit_digit_char [simp]: "d < 10 \<Longrightarrow> is_digit (digit_char d)"
  by (simp add: is_digit_def of_char_digit_char)

lemma digit_val_digit_char [simp]: "d < 10 \<Longrightarrow> digit_val (digit_char d) = d"
  by (simp add: digit_val_def of_char_digit_char)

lemma digits_val_snoc [simp]: "digits_val (s @ [c]) = 10 * digits_val s + digit_val c"
  by (simp add: digits_val_def)

lemma digits_val_single [simp]: "digits_val [c] = digit_val c"
  by (simp add: digits_val_def)

lemma nat_str_nonempty [simp]: "nat_str n \<noteq> []"
  by (subst nat_str.simps) simp

lemma nat_str_digits: "list_all is_digit (nat_str n)"
proof (induction n rule: nat_str.induct)
  case (1 n)
  then show ?case by (cases "n < 10") (auto simp: nat_str.simps [of n])
qed

lemma digits_val_nat_str [simp]: "digits_val (nat_str n) = n"
proof (induction n rule: nat_str.induct)
  case (1 n)
  show ?case
  proof (cases "n < 10")
    case True
    then have "nat_str n = [] @ [digit_char n]" by (simp add: nat_str.simps [of n])
    then show ?thesis using True by (simp del: append_Nil add: digits_val_def)
  next
    case False
    with 1 show ?thesis by (simp add: nat_str.simps [of n])
  qed
qed

lemma nat_str_inj: "nat_str m = nat_str n \<longleftrightarrow> m = n"
  by (metis digits_val_nat_str)

lemma is_digit_not_sign: "is_digit c \<Longrightarrow> c \<noteq> CHR ''-'' \<and> c \<noteq> CHR ''+''"
  by (auto simp: is_digit_def)

lemma is_digit_not_space: "is_digit c \<Longrightarrow> \<not> is_space c"
  by (auto simp: is_digit_def is_space_def)

lemma fields_word:
  assumes "w \<noteq> []" and "list_all (\<lambda>c. \<not> is_space c) w"
  shows "fields (w @ CHR '' '' # r) = w # fields r" and "fields w = [w]"
proof -
  obtain c cs where w: "w = c # cs" using assms(1) by (cases w) auto
  have all: "\<not> is_space c" "\<forall>x \<in> set cs. \<not> is_space x" using assms(2) w by (auto simp: list_all_iff)
  have sp: "is_space CHR '' ''" by (simp add: is_space_def)
  have "takeWhile (\<lambda>x. \<not> is_space x) (cs @ CHR '' '' # r) = cs" "dropWhile (\<lambda>x. \<not> is_space x) (cs @ CHR '' '' # r) = CHR '' '' # r"
    using all sp by (simp_all add: takeWhile_append2 dropWhile_append2)
  moreover have "fields (CHR '' '' # r) = fields r"
    using sp by (subst (1 2) fields.simps) simp
  ultimately show "fields (w @ CHR '' '' # r) = w # fields r"
    using all(1) w by (subst fields.simps) simp
  have tw: "takeWhile (\<lambda>x. \<not> is_space x) cs = cs" and dw: "dropWhile (\<lambda>x. \<not> is_space x) cs = []"
    using all by (simp_all add: takeWhile_eq_all_conv dropWhile_eq_Nil_conv)
  show "fields w = [w]"
    using all(1) w by (subst fields.simps) (simp add: tw dw fields.simps [of "[]"])
qed

lemma nat_str_word: "list_all (\<lambda>c. \<not> is_space c) (nat_str n)"
  using nat_str_digits [of n] is_digit_not_space by (auto simp: list_all_iff)

lemma atoi_nat_str: "int n < 2 ^ 63 \<Longrightarrow> atoi (nat_str n) = Some (int n)"
proof -
  assume n: "int n < 2 ^ 63"
  obtain c cs where c: "nat_str n = c # cs" by (cases "nat_str n") auto
  with nat_str_digits [of n] have d: "is_digit c" "list_all is_digit cs" by auto
  have v: "digits_val (c # cs) = n" using c digits_val_nat_str [of n] by simp
  have ns: "c \<noteq> CHR ''-''" "c \<noteq> CHR ''+''" using is_digit_not_sign [OF d(1)] by auto
  show ?thesis
    unfolding c atoi_def Let_def using d v n ns by simp
qed

section \<open>Maps, sets and sorted output\<close>

text \<open>A Go set used for membership only, kept as the list of its first insertions.\<close>

definition add_new :: "'a \<Rightarrow> 'a list \<Rightarrow> 'a list" where
  "add_new x xs = (if x \<in> set xs then xs else xs @ [x])"

lemma set_add_new [simp]: "set (add_new x xs) = insert x (set xs)"
  by (auto simp: add_new_def)

lemma distinct_add_new [simp]: "distinct (add_new x xs) = distinct xs"
  by (auto simp: add_new_def)

lemma set_fold_add_new [simp]: "set (fold add_new ys xs) = set xs \<union> set ys"
  by (induction ys arbitrary: xs) auto

text \<open>\<open>sort.Strings\<close>: byte-wise lexicographic order.\<close>

fun str_less :: "string \<Rightarrow> string \<Rightarrow> bool" where
  "str_less s [] = False"
| "str_less [] (b # bs) = True"
| "str_less (a # as) (b # bs) = ((of_char a :: nat) < of_char b \<or> a = b \<and> str_less as bs)"

lemma str_less_asym: "str_less a b \<Longrightarrow> \<not> str_less b a"
  by (induction a b rule: str_less.induct) auto

lemma str_less_linear: "str_less a b \<or> a = b \<or> str_less b a"
proof (induction a b rule: str_less.induct)
  case (1 s)
  then show ?case by (cases s) auto
next
  case (3 a as b bs)
  have "(of_char a :: nat) = of_char b \<Longrightarrow> a = b" by simp
  with 3 show ?case by fastforce
qed simp

definition str_le :: "string \<Rightarrow> string \<Rightarrow> bool" where
  "str_le a b \<longleftrightarrow> \<not> str_less b a"

fun insert_by :: "('a \<Rightarrow> 'a \<Rightarrow> bool) \<Rightarrow> 'a \<Rightarrow> 'a list \<Rightarrow> 'a list" where
  "insert_by le x [] = [x]"
| "insert_by le x (y # ys) = (if le x y then x # y # ys else y # insert_by le x ys)"

definition sort_by :: "('a \<Rightarrow> 'a \<Rightarrow> bool) \<Rightarrow> 'a list \<Rightarrow> 'a list" where
  "sort_by le xs = foldr (insert_by le) xs []"

definition sort_strings :: "string list \<Rightarrow> string list" where
  "sort_strings = sort_by str_le"

lemma set_insert_by [simp]: "set (insert_by le x xs) = insert x (set xs)"
  by (induction xs) auto

lemma set_sort_by [simp]: "set (sort_by le xs) = set xs"
  by (induction xs) (auto simp: sort_by_def)

lemma length_insert_by [simp]: "length (insert_by le x xs) = Suc (length xs)"
  by (induction xs) auto

lemma length_sort_by [simp]: "length (sort_by le xs) = length xs"
  by (induction xs) (auto simp: sort_by_def)

lemma set_sort_strings [simp]: "set (sort_strings xs) = set xs"
  by (simp add: sort_strings_def)

lemma distinct_insert_by: "distinct (insert_by le x xs) \<longleftrightarrow> x \<notin> set xs \<and> distinct xs"
  by (induction xs) auto

lemma distinct_sort_by [simp]: "distinct (sort_by le xs) = distinct xs"
proof (induction xs)
  case (Cons x xs)
  have "sort_by le (x # xs) = insert_by le x (sort_by le xs)" by (simp add: sort_by_def)
  then show ?case by (simp add: distinct_insert_by Cons.IH)
qed (simp add: sort_by_def)

lemma map_of_None_iff: "map_of kvs k = None \<longleftrightarrow> k \<notin> fst ` set kvs"
  by (simp add: map_of_eq_None_iff)

lemma fst_set_update [simp]: "fst ` set (AList.update k v al) = insert k (fst ` set al)"
  by (induction al) auto

subsection \<open>Distinct strings\<close>

text \<open>Distinct strings by merge sort, for long lists of names.\<close>

fun merge_str :: "string list \<Rightarrow> string list \<Rightarrow> string list" where
  "merge_str [] ys = ys"
| "merge_str xs [] = xs"
| "merge_str (x # xs) (y # ys) = (if str_less y x then y # merge_str (x # xs) ys else x # merge_str xs (y # ys))"

fun halves :: "'a list \<Rightarrow> 'a list \<times> 'a list" where
  "halves [] = ([], [])"
| "halves (x # xs) = (case halves xs of (ys, zs) \<Rightarrow> (x # zs, ys))"

fun msort_str :: "nat \<Rightarrow> string list \<Rightarrow> string list" where
  "msort_str 0 xs = xs"
| "msort_str (Suc n) xs = (case halves xs of (ys, zs) \<Rightarrow> merge_str (msort_str n ys) (msort_str n zs))"

fun increasing_str :: "string list \<Rightarrow> bool" where
  "increasing_str (x # y # ys) = (str_less x y \<and> increasing_str (y # ys))"
| "increasing_str _ = True"

lemma str_less_trans: "str_less a b \<Longrightarrow> str_less b c \<Longrightarrow> str_less a c"
proof (induction a b arbitrary: c rule: str_less.induct)
  case (2 b bs)
  then show ?case by (cases c) auto
next
  case (3 a as b bs)
  then show ?case by (cases c) auto
qed simp

lemma increasing_sorted: "increasing_str xs \<Longrightarrow> sorted_wrt str_less xs"
proof (induction xs rule: increasing_str.induct)
  case (1 x y ys)
  then show ?case using str_less_trans by (auto simp del: str_less.simps)
qed simp_all

lemma sorted_str_distinct: "sorted_wrt str_less xs \<Longrightarrow> distinct xs"
proof (induction xs)
  case (Cons x xs)
  then have "x \<notin> set xs" using str_less_asym by (metis sorted_wrt.simps(2))
  with Cons show ?case by simp
qed simp

lemma mset_merge_str: "mset (merge_str xs ys) = mset xs + mset ys"
  by (induction xs ys rule: merge_str.induct) auto

lemma mset_halves: "mset (fst (halves xs)) + mset (snd (halves xs)) = mset xs"
  by (induction xs) (auto simp: add.commute split: prod.splits)

lemma mset_msort_str: "mset (msort_str n xs) = mset xs"
proof (induction n arbitrary: xs)
  case (Suc n)
  then show ?case using mset_halves [of xs] by (auto simp: mset_merge_str split: prod.splits)
qed simp

lemma distinct_by_sort: "increasing_str (msort_str n xs) \<Longrightarrow> distinct xs"
proof -
  assume "increasing_str (msort_str n xs)"
  then have "sorted_wrt str_less (msort_str n xs)" by (rule increasing_sorted)
  then have "distinct (msort_str n xs)" by (rule sorted_str_distinct)
  with mset_msort_str [of n xs] show ?thesis by (metis mset_eq_imp_distinct_iff)
qed

end
