(* ===== verification/Net_Addr.thy ===== *)
theory Net_Addr
  imports Go_Prelude
begin

text \<open>
  Addresses as the backend reads them. \<open>parse_ip\<close> and \<open>parse_cidr\<close> are Go's
  \<open>net.ParseIP\<close> and \<open>net.ParseCIDR\<close> (no zone, no leading zero in an octet, one
  \<open>::\<close> at most, a dotted quad allowed at the end of an IPv6 address). \<open>ip_family\<close> is
  \<open>helpers.ipFamily\<close>, \<open>is_ipv6\<close> is \<open>capabilities.IsIPv6\<close>.
\<close>

section \<open>Go's address parsers\<close>

datatype ip_addr = V4 "nat list" | V6 "nat list"

definition parse_octet :: "string \<Rightarrow> nat option" where
  "parse_octet s =
     (if s \<noteq> [] \<and> list_all is_digit s \<and> (length s = 1 \<or> hd s \<noteq> CHR ''0'') \<and> digits_val s \<le> 255
      then Some (digits_val s) else None)"

definition parse_v4 :: "string \<Rightarrow> nat list option" where
  "parse_v4 s = (let os = map parse_octet (split_on CHR ''.'' s)
                 in if length os = 4 \<and> None \<notin> set os then Some (map the os) else None)"

definition is_hex :: "char \<Rightarrow> bool" where
  "is_hex c \<longleftrightarrow> is_digit c \<or> (97::nat) \<le> of_char c \<and> of_char c \<le> (102::nat) \<or> (65::nat) \<le> of_char c \<and> of_char c \<le> (70::nat)"

definition hex_val :: "char \<Rightarrow> nat" where
  "hex_val c = (if is_digit c then of_char c - 48 else if (97::nat) \<le> of_char c then of_char c - 87 else of_char c - 55)"

definition hex_group :: "string \<Rightarrow> nat" where
  "hex_group s = foldl (\<lambda>acc c. 16 * acc + hex_val c) 0 s"

text \<open>
  The loop of \<open>netip.parseIPv6\<close>: \<open>room\<close> counts the 16-bit groups still free, \<open>gs\<close>
  holds the groups read, \<open>el\<close> the position of the ellipsis. The result is \<open>None\<close> for
  an error and otherwise the groups, the ellipsis and the text left over.
\<close>

fun v6_loop :: "nat \<Rightarrow> nat list \<Rightarrow> nat option \<Rightarrow> string \<Rightarrow> (nat list \<times> nat option \<times> string) option" where
  "v6_loop 0 gs el s = Some (gs, el, s)"
| "v6_loop (Suc room) gs el s =
     (let h = takeWhile is_hex s; r = dropWhile is_hex s in
      if h = [] \<or> length h > 4 then None
      else case r of
        [] \<Rightarrow> Some (gs @ [hex_group h], el, [])
      | c # cs \<Rightarrow>
          if c = CHR ''.'' then
            (if el = None \<and> length gs \<noteq> 6 \<or> room = 0 then None
             else case parse_v4 s of
               None \<Rightarrow> None
             | Some os \<Rightarrow> Some (gs @ [256 * os ! 0 + os ! 1, 256 * os ! 2 + os ! 3], el, []))
          else if c \<noteq> CHR '':'' \<or> cs = [] then None
          else if hd cs = CHR '':'' then
            (if el \<noteq> None then None
             else if tl cs = [] then Some (gs @ [hex_group h], Some (Suc (length gs)), [])
             else v6_loop room (gs @ [hex_group h]) (Some (Suc (length gs))) (tl cs))
          else v6_loop room (gs @ [hex_group h]) el cs)"

definition v6_finish :: "nat list \<times> nat option \<times> string \<Rightarrow> nat list option" where
  "v6_finish p = (case p of (gs, el, rest) \<Rightarrow>
     if rest \<noteq> [] then None
     else case el of
       None \<Rightarrow> if length gs = 8 then Some gs else None
     | Some k \<Rightarrow> if length gs < 8 then Some (take k gs @ replicate (8 - length gs) 0 @ drop k gs) else None)"

definition parse_v6 :: "string \<Rightarrow> nat list option" where
  "parse_v6 s =
     (if has_prefix s ''::'' then
        (if length s = 2 then Some (replicate 8 0)
         else Option.bind (v6_loop 8 [] (Some 0) (drop 2 s)) v6_finish)
      else Option.bind (v6_loop 8 [] None s) v6_finish)"

text \<open>The first of \<open>.\<close>, \<open>:\<close> and \<open>%\<close> decides; a zone is refused.\<close>

definition parse_ip :: "string \<Rightarrow> ip_addr option" where
  "parse_ip s =
     (case dropWhile (\<lambda>c. c \<notin> {CHR ''.'', CHR '':'', CHR ''%''}) s of
        [] \<Rightarrow> None
      | c # _ \<Rightarrow>
          if c = CHR ''.'' then map_option V4 (parse_v4 s)
          else if c = CHR '':'' then (if CHR ''%'' \<in> set s then None else map_option V6 (parse_v6 s))
          else None)"

definition bit_len :: "ip_addr \<Rightarrow> nat" where
  "bit_len a = (case a of V4 _ \<Rightarrow> 32 | V6 _ \<Rightarrow> 128)"

definition parse_cidr :: "string \<Rightarrow> (ip_addr \<times> nat) option" where
  "parse_cidr s =
     (let (a, m) = cut_at CHR ''/'' s in
      if CHR ''/'' \<notin> set s then None
      else case parse_ip a of
        None \<Rightarrow> None
      | Some ip \<Rightarrow>
          if m \<noteq> [] \<and> list_all is_digit m \<and> digits_val m < 16777215 \<and> digits_val m \<le> bit_len ip
          then Some (ip, digits_val m) else None)"

text \<open>\<open>IP.To4() != nil\<close>: an IPv4 address, written dotted or mapped into IPv6.\<close>

fun to4_ok :: "ip_addr \<Rightarrow> bool" where
  "to4_ok (V4 _) = True"
| "to4_ok (V6 gs) = (take 6 gs = [0, 0, 0, 0, 0, 65535])"

section \<open>The family of an address\<close>

definition ip_family :: "string \<Rightarrow> nat" where
  "ip_family value =
     (case parse_ip (fst (cut_at CHR ''/'' (trim_space value))) of
        None \<Rightarrow> 0
      | Some ip \<Rightarrow> if to4_ok ip then 4 else 6)"

definition is_ipv6 :: "string \<Rightarrow> bool" where
  "is_ipv6 addr =
     (case parse_ip (fst (cut_at CHR ''/'' (trim_space addr))) of
        None \<Rightarrow> False
      | Some ip \<Rightarrow> \<not> to4_ok ip)"

lemma ip_family_range: "ip_family v \<in> {0, 4, 6}"
  by (simp add: ip_family_def split: option.splits)

lemma ip_family_6: "ip_family v = 6 \<longleftrightarrow> is_ipv6 v"
  by (simp add: ip_family_def is_ipv6_def split: option.splits)

subsection \<open>Dotted quads parse back\<close>

definition dotted :: "nat \<Rightarrow> nat \<Rightarrow> nat \<Rightarrow> nat \<Rightarrow> string" where
  "dotted a b c d = nat_str a @ ''.'' @ nat_str b @ ''.'' @ nat_str c @ ''.'' @ nat_str d"

lemma digit_neq [simp]:
  "is_digit CHR ''.'' = False" "is_digit CHR ''/'' = False" "is_digit CHR '':'' = False" "is_digit CHR ''%'' = False"
  by (simp_all add: is_digit_def)

lemma nat_str_no_char: "\<not> is_digit c \<Longrightarrow> c \<notin> set (nat_str n)"
  using nat_str_digits [of n] by (auto simp: list_all_iff)

lemma hd_nat_str_nonzero: "n \<noteq> 0 \<Longrightarrow> hd (nat_str n) \<noteq> CHR ''0''"
proof (induction n rule: nat_str.induct)
  case (1 n)
  show ?case
  proof (cases "n < 10")
    case True
    then have n: "nat_str n = [digit_char n]" by (simp add: nat_str.simps [of n])
    have "digit_val (digit_char n) \<noteq> digit_val CHR ''0''"
      using True "1.prems" by (simp add: digit_val_def [of "CHR ''0''"])
    with n show ?thesis by auto
  next
    case False
    then have "n div 10 \<noteq> 0" by simp
    with False "1.IH" have "hd (nat_str (n div 10)) \<noteq> CHR ''0''" by simp
    with False show ?thesis by (simp add: nat_str.simps [of n])
  qed
qed

lemma parse_octet_nat_str: "n \<le> 255 \<Longrightarrow> parse_octet (nat_str n) = Some n"
  using hd_nat_str_nonzero [of n] nat_str_digits [of n]
  by (cases "n = 0") (simp_all add: parse_octet_def nat_str.simps [of 0])

lemma parse_v4_dotted:
  assumes "a \<le> 255" "b \<le> 255" "c \<le> 255" "d \<le> 255"
  shows "parse_v4 (dotted a b c d) = Some [a, b, c, d]"
proof -
  have "split_on CHR ''.'' (dotted a b c d) = [nat_str a, nat_str b, nat_str c, nat_str d]"
    by (simp add: dotted_def split_on_append split_on_no_sep nat_str_no_char)
  then show ?thesis using assms by (simp add: parse_v4_def parse_octet_nat_str)
qed

lemma dropWhile_to: "(\<forall>x \<in> set xs. P x) \<Longrightarrow> \<not> P y \<Longrightarrow> dropWhile P (xs @ y # ys) = y # ys"
  by (induction xs) auto

lemma parse_ip_dotted:
  assumes "a \<le> 255" "b \<le> 255" "c \<le> 255" "d \<le> 255"
  shows "parse_ip (dotted a b c d) = Some (V4 [a, b, c, d])"
proof -
  have "dropWhile (\<lambda>c. c \<notin> {CHR ''.'', CHR '':'', CHR ''%''}) (dotted a b c d)
        = CHR ''.'' # nat_str b @ ''.'' @ nat_str c @ ''.'' @ nat_str d"
    unfolding dotted_def
    using nat_str_digits [of a] by (simp, subst dropWhile_to) (auto simp: list_all_iff)
  then show ?thesis using parse_v4_dotted [OF assms] by (simp add: parse_ip_def)
qed

end
