(* ===== verification/Topology_Types.thy ===== *)
theory Topology_Types
  imports Net_Addr
begin

text \<open>
  The request types of \<open>types/types.go\<close> and \<open>types/addrs.go\<close>: nodes, links, mounts and
  the addresses of a link end, with the JSON form of the latter. Go maps of a node (its
  environment, its selector) are key/value lists, in the order a run iterates them.
\<close>

section \<open>Addresses of a link end\<close>

type_synonym addrs = "string list"

datatype json = JNull | JString string | JArray "json list" | JOther

definition one_addr :: "string \<Rightarrow> addrs" where
  "one_addr s = (let t = trim_space s in if t = [] then [] else [t])"

definition addrs_first :: "addrs \<Rightarrow> string" where
  "addrs_first a = (case a of [] \<Rightarrow> [] | x # _ \<Rightarrow> x)"

definition addrs_extra :: "addrs \<Rightarrow> string list" where
  "addrs_extra a = (if length a < 2 then [] else tl a)"

definition addrs_string :: "addrs \<Rightarrow> string" where
  "addrs_string a = join_with '', '' a"

text \<open>Decoding an array element into a Go string: \<open>null\<close> leaves it empty.\<close>

fun json_elem :: "json \<Rightarrow> string option" where
  "json_elem (JString s) = Some s"
| "json_elem JNull = Some []"
| "json_elem _ = None"

definition addrs_unmarshal :: "json \<Rightarrow> unit + addrs" where
  "addrs_unmarshal j =
     (case j of
        JString s \<Rightarrow> Inr (one_addr s)
      | JNull \<Rightarrow> Inr (one_addr [])
      | JArray js \<Rightarrow>
          (if list_all (\<lambda>x. json_elem x \<noteq> None) js
           then Inr (filter (\<lambda>s. s \<noteq> []) (map (trim_space \<circ> the \<circ> json_elem) js))
           else Inl ())
      | JOther \<Rightarrow> Inl ())"

definition addrs_marshal :: "addrs \<Rightarrow> json" where
  "addrs_marshal a =
     (case a of [] \<Rightarrow> JString [] | [x] \<Rightarrow> JString x | _ \<Rightarrow> JArray (map JString a))"

text \<open>What decoding leaves: trimmed, non-empty addresses.\<close>

definition addrs_wf :: "addrs \<Rightarrow> bool" where
  "addrs_wf a \<longleftrightarrow> (\<forall>s \<in> set a. s \<noteq> [] \<and> trim_space s = s)"

lemma dropWhile_idem: "dropWhile P (dropWhile P xs) = dropWhile P xs"
  by (induction xs) auto

lemma dropWhile_hd: "xs \<noteq> [] \<Longrightarrow> \<not> P (hd xs) \<Longrightarrow> dropWhile P xs = xs"
  by (cases xs) auto

lemma trim_space_idem [simp]: "trim_space (trim_space s) = trim_space s"
proof -
  define a where "a = dropWhile is_space s"
  define b where "b = rev (dropWhile is_space (rev a))"
  have "dropWhile is_space b = b"
  proof (cases "b = []")
    case False
    obtain ys where ys: "a = b @ ys"
      by (metis b_def rev_append rev_rev_ident takeWhile_dropWhile_id)
    have "a \<noteq> []" and "hd b = hd a" using False ys by auto
    moreover have "\<not> is_space (hd a)" using \<open>a \<noteq> []\<close> by (metis a_def hd_dropWhile)
    ultimately show ?thesis using False by (simp add: dropWhile_hd)
  qed simp
  moreover have "rev (dropWhile is_space (rev b)) = b" by (simp add: b_def dropWhile_idem)
  ultimately show ?thesis by (simp add: trim_space_def a_def b_def)
qed

lemma trim_space_Nil [simp]: "trim_space [] = []"
  by (simp add: trim_space_def)

lemma addrs_unmarshal_wf: "addrs_unmarshal j = Inr a \<Longrightarrow> addrs_wf a"
  by (auto simp: addrs_unmarshal_def addrs_wf_def one_addr_def Let_def split: json.splits if_splits)

text \<open>
  What the API prints for a link end reads back as the same addresses, whatever their
  number: the string form of one address and the array form of several are the two sides of
  one encoding.
\<close>

theorem addrs_roundtrip: "addrs_wf a \<Longrightarrow> addrs_unmarshal (addrs_marshal a) = Inr a"
proof (cases a rule: list.exhaust [case_names Nil Cons])
  case (Cons x xs)
  assume wf: "addrs_wf a"
  show ?thesis
  proof (cases xs)
    case Nil
    with Cons wf show ?thesis
      by (simp add: addrs_marshal_def addrs_unmarshal_def one_addr_def addrs_wf_def)
  next
    case (Cons y ys)
    have m: "map (trim_space \<circ> the \<circ> json_elem) (map JString a) = a"
      using wf by (simp add: addrs_wf_def map_idI)
    have f: "filter (\<lambda>s. s \<noteq> []) a = a"
      using wf by (simp add: addrs_wf_def filter_id_conv)
    have "addrs_marshal a = JArray (map JString a)"
      using Cons \<open>a = x # xs\<close> by (simp add: addrs_marshal_def)
    moreover have "list_all (\<lambda>x. json_elem x \<noteq> None) (map JString a)" by (simp add: list_all_iff)
    ultimately show ?thesis by (simp add: addrs_unmarshal_def m f del: map_map)
  qed
qed (simp add: addrs_marshal_def addrs_unmarshal_def one_addr_def)

theorem addrs_roundtrip_witness:
  "addrs_wf [''10.0.0.1/24'', ''2001:db8::1/64''] \<and>
   addrs_unmarshal (addrs_marshal [''10.0.0.1/24'', ''2001:db8::1/64'']) = Inr [''10.0.0.1/24'', ''2001:db8::1/64'']"
proof -
  have wf: "addrs_wf [''10.0.0.1/24'', ''2001:db8::1/64'']" by code_simp
  show ?thesis using wf addrs_roundtrip [OF wf] by blast
qed

section \<open>Nodes, links and the deploy request\<close>

definition max_replicas :: int where "max_replicas = 128"

definition default_grace_seconds :: int where "default_grace_seconds = 2"

record mount_spec =
  m_file :: string
  m_to :: string
  m_sensitive :: bool
  m_missing :: bool

record node_spec =
  n_name :: string
  n_image :: string
  n_type :: string
  n_shell_mode :: string
  n_qemu :: bool
  n_privileged :: bool
  n_replicas :: int
  n_commands :: "string list"
  n_readiness :: "string list"
  n_env :: "(string \<times> string) list"
  n_mounts :: "mount_spec list"
  n_devices :: "string list"
  n_driver :: string
  n_grace :: int
  n_selector :: "(string \<times> string) list"
  n_node_name :: string

record link_spec =
  l_intf :: string
  l_node :: string
  l_peer :: string
  l_peer_intf :: string
  l_uid :: "int option"
  l_ip :: addrs
  l_peer_ip :: addrs
  l_peer_label :: string
  l_name :: string
  l_delay :: string
  l_jitter :: string
  l_loss :: string
  l_bandwidth :: string
  l_mtu :: int

record deploy_request =
  d_nodes :: "node_spec list"
  d_links :: "link_spec list"

record scale_spec =
  s_name :: string
  s_replicas :: int

record topo_warning =
  w_node :: string
  w_kind :: string
  w_file :: string

text \<open>A node with only what the topology operations read, for concrete examples.\<close>

definition basic_node :: "string \<Rightarrow> string \<Rightarrow> int \<Rightarrow> node_spec" where
  "basic_node name typ reps =
     \<lparr>n_name = name, n_image = ''img'', n_type = typ, n_shell_mode = [], n_qemu = False,
      n_privileged = False, n_replicas = reps, n_commands = [], n_readiness = [], n_env = [],
      n_mounts = [], n_devices = [], n_driver = [], n_grace = 2, n_selector = [], n_node_name = []\<rparr>"

definition basic_link :: "string \<Rightarrow> string \<Rightarrow> string \<Rightarrow> string \<Rightarrow> link_spec" where
  "basic_link a ia b ib =
     \<lparr>l_intf = ia, l_node = a, l_peer = b, l_peer_intf = ib, l_uid = None, l_ip = [], l_peer_ip = [],
      l_peer_label = [], l_name = [], l_delay = [], l_jitter = [], l_loss = [], l_bandwidth = [],
      l_mtu = 0\<rparr>"

end
