(* ===== verification/Pod_Names.thy ===== *)
theory Pod_Names
  imports Topology_Types
begin

text \<open>
  How a request names things: pods and their StatefulSet index (\<open>helpers/network.go\<close>,
  \<open>helpers/network_modify.go\<close>), the \<open>external\<close> end of an uplink and its literal at the CRD
  boundary, link names, and interface names (\<open>types/interfaces.go\<close>).
  The lemmas say when an endpoint that passes validation resolves to a pod that exists, and
  that the two readings of an indexed name agree.
\<close>

section \<open>External uplinks\<close>

definition external_node_name :: string where "external_node_name = ''external''"

definition crd_external_peer_pod :: string where "crd_external_peer_pod = ''localhost''"

definition to_crd_peer_pod :: "string \<Rightarrow> string" where
  "to_crd_peer_pod name = (if name = external_node_name then crd_external_peer_pod else name)"

definition from_crd_peer_pod :: "string \<Rightarrow> string" where
  "from_crd_peer_pod name = (if name = crd_external_peer_pod then external_node_name else name)"

lemma external_not_localhost [simp]: "external_node_name \<noteq> crd_external_peer_pod"
  by (simp add: external_node_name_def crd_external_peer_pod_def)

lemma from_to_crd_peer_pod [simp]:
  "name \<noteq> crd_external_peer_pod \<Longrightarrow> from_crd_peer_pod (to_crd_peer_pod name) = name"
  by (simp add: from_crd_peer_pod_def to_crd_peer_pod_def)

lemma to_crd_peer_pod_inj:
  "a \<noteq> crd_external_peer_pod \<Longrightarrow> b \<noteq> crd_external_peer_pod \<Longrightarrow>
   to_crd_peer_pod a = to_crd_peer_pod b \<longleftrightarrow> a = b"
  by (metis from_to_crd_peer_pod)

section \<open>Indexed pod names\<close>

text \<open>\<open>strings.LastIndex(name, "-")\<close> as the text before and after the last dash.\<close>

definition last_cut :: "char \<Rightarrow> string \<Rightarrow> (string \<times> string) option" where
  "last_cut sep s =
     (let r = rev s; t = takeWhile (\<lambda>c. c \<noteq> sep) r
      in if t = r then None else Some (rev (drop (Suc (length t)) r), rev t))"

lemma takeWhile_eq_self: "takeWhile P xs = xs \<longleftrightarrow> (\<forall>x \<in> set xs. P x)"
  by (simp add: takeWhile_eq_all_conv)

lemma last_cut_append: "sep \<notin> set t \<Longrightarrow> last_cut sep (b @ sep # t) = Some (b, t)"
proof -
  assume "sep \<notin> set t"
  then have "takeWhile (\<lambda>c. c \<noteq> sep) (rev t @ sep # rev b) = rev t"
    by (subst takeWhile_append2) auto
  then show ?thesis by (simp add: last_cut_def Let_def)
qed

lemma last_cut_SomeD: "last_cut sep s = Some (b, t) \<Longrightarrow> s = b @ sep # t \<and> sep \<notin> set t"
proof -
  assume a: "last_cut sep s = Some (b, t)"
  define r where "r = rev s"
  define w where "w = takeWhile (\<lambda>c. c \<noteq> sep) r"
  have ne: "w \<noteq> r" and b: "b = rev (drop (Suc (length w)) r)" and t: "t = rev w"
    using a by (auto simp: last_cut_def Let_def r_def w_def split: if_splits)
  have rw: "r = w @ dropWhile (\<lambda>c. c \<noteq> sep) r" by (simp add: w_def)
  with ne obtain x d where d: "dropWhile (\<lambda>c. c \<noteq> sep) r = x # d"
    by (cases "dropWhile (\<lambda>c. c \<noteq> sep) r") auto
  then have "x = sep" by (metis (mono_tags, lifting) dropWhile_eq_Cons_conv)
  with rw d have r: "r = w @ sep # d" by simp
  have "drop (Suc (length w)) r = d" by (subst r) simp
  with b have "b = rev d" by simp
  with r t have "rev r = b @ sep # t" by simp
  moreover have "sep \<notin> set t" unfolding t w_def by (auto dest: set_takeWhileD)
  ultimately show ?thesis by (simp add: r_def)
qed

definition is_indexed_pod_name :: "string \<Rightarrow> bool" where
  "is_indexed_pod_name name =
     (case last_cut CHR ''-'' name of
        None \<Rightarrow> False
      | Some (base, ds) \<Rightarrow> base \<noteq> [] \<and> CHR 0x0A \<notin> set base \<and> ds \<noteq> [] \<and> list_all is_digit ds)"

definition split_indexed_pod_name :: "string \<Rightarrow> (string \<times> int) option" where
  "split_indexed_pod_name name =
     (case last_cut CHR ''-'' name of
        None \<Rightarrow> None
      | Some (base, ds) \<Rightarrow>
          (if base = [] \<or> ds = [] then None
           else case atoi ds of None \<Rightarrow> None | Some idx \<Rightarrow> Some (base, idx)))"

text \<open>The name \<open>fmt.Sprintf("%s-%d", base, i)\<close> a StatefulSet gives its pod.\<close>

definition pod_name :: "string \<Rightarrow> nat \<Rightarrow> string" where
  "pod_name base i = base @ ''-'' @ nat_str i"

lemma nat_str_no_dash: "CHR ''-'' \<notin> set (nat_str n)"
  using nat_str_digits [of n] is_digit_not_sign by (auto simp: list_all_iff)

lemma last_cut_pod_name [simp]: "last_cut CHR ''-'' (pod_name base i) = Some (base, nat_str i)"
  using last_cut_append [OF nat_str_no_dash, of base i] by (simp add: pod_name_def)

lemma split_pod_name: "base \<noteq> [] \<Longrightarrow> int i < 2 ^ 63 \<Longrightarrow> split_indexed_pod_name (pod_name base i) = Some (base, int i)"
  by (simp add: split_indexed_pod_name_def atoi_nat_str)

lemma is_indexed_pod_name_pod_name:
  "base \<noteq> [] \<Longrightarrow> CHR 0x0A \<notin> set base \<Longrightarrow> is_indexed_pod_name (pod_name base i)"
  by (simp add: is_indexed_pod_name_def nat_str_digits)

lemma pod_name_inj: "pod_name a i = pod_name b j \<longleftrightarrow> a = b \<and> i = j"
proof
  assume "pod_name a i = pod_name b j"
  then have "last_cut CHR ''-'' (pod_name a i) = last_cut CHR ''-'' (pod_name b j)" by simp
  then show "a = b \<and> i = j" by (simp add: nat_str_inj)
qed simp

section \<open>From a link reference to a pod\<close>

definition node_names :: "node_spec list \<Rightarrow> string list" where
  "node_names nodes = map n_name nodes"

definition resolve_pod_name :: "string \<Rightarrow> node_spec list \<Rightarrow> string" where
  "resolve_pod_name name nodes =
     (if name = [] then name
      else if name = external_node_name then name
      else if list_ex (\<lambda>n. n_name n = name) nodes then name @ ''-0''
      else if is_indexed_pod_name name then
        (case split_indexed_pod_name name of
           None \<Rightarrow> name
         | Some (base, _) \<Rightarrow> if list_ex (\<lambda>n. n_name n = base) nodes then name else name)
      else name)"

lemma resolve_pod_name_simp:
  "resolve_pod_name name nodes =
     (if name \<noteq> [] \<and> name \<noteq> external_node_name \<and> name \<in> set (node_names nodes) then name @ ''-0'' else name)"
  by (auto simp: resolve_pod_name_def node_names_def list_ex_iff split: option.splits)

lemma resolve_external [simp]: "resolve_pod_name external_node_name nodes = external_node_name"
  by (simp add: resolve_pod_name_def)

lemma resolve_not_node: "name \<notin> set (node_names nodes) \<Longrightarrow> resolve_pod_name name nodes = name"
  by (simp add: resolve_pod_name_simp)

text \<open>\<open>SanitizeLinksForQemuNodes\<close>: the per-driver rewrite hook, which rewrites nothing.\<close>

definition sanitize_links_for_qemu :: "link_spec list \<Rightarrow> node_spec list \<Rightarrow> link_spec list" where
  "sanitize_links_for_qemu links all_nodes = links"

definition convert_to_node_name_if_single_replica :: "string \<Rightarrow> (string \<times> int) list \<Rightarrow> string" where
  "convert_to_node_name_if_single_replica pod counts =
     (if \<not> is_indexed_pod_name pod then pod
      else case last_cut CHR ''-'' pod of
             None \<Rightarrow> pod
           | Some (base, _) \<Rightarrow> if map_of counts base = Some 1 then base else pod)"

section \<open>Validation of links\<close>

text \<open>
  The errors of this component, with the fields the messages print: the index of the link and
  the name of the field.
\<close>

datatype link_error =
    LNameTooLong nat string
  | LNameSpace nat string
  | LNameNonPrintable nat string
  | LNameForbidden nat string
  | LEndpointMissing nat
  | LBothExternal nat
  | LNoSuchNode nat string string
  | LOutOfRange nat string string int
  | LAmbiguous nat string string int
  | LIntfBusy nat string string
  | LIntfName nat string string
  | LLabelTaken nat string string
  | LIntfTaken nat string string
  | LListFailed

definition ends_trimmed :: "string \<Rightarrow> bool" where
  "ends_trimmed s \<longleftrightarrow> trim_space s = s"

primrec check_name_runes :: "string \<Rightarrow> nat \<Rightarrow> string \<Rightarrow> link_error option" where
  "check_name_runes name i [] = None"
| "check_name_runes name i (c # cs) =
     (if (of_char c :: nat) < 0x20 \<or> (of_char c :: nat) > 0x7E then Some (LNameNonPrintable i name)
      else if c = CHR ''/'' \<or> c = CHR 0x22 \<or> c = CHR 0x5C then Some (LNameForbidden i name)
      else check_name_runes name i cs)"

definition validate_link_name :: "string \<Rightarrow> nat \<Rightarrow> link_error option" where
  "validate_link_name name i =
     (if name = [] then None
      else if length name > 16 then Some (LNameTooLong i name)
      else if trim_space name \<noteq> name then Some (LNameSpace i name)
      else check_name_runes name i name)"

text \<open>
  \<open>replicasByNode\<close> is filled in node order, so the last of two equal names wins: the list is
  reversed for \<open>map_of\<close>.
\<close>

definition replicas_by_node :: "node_spec list \<Rightarrow> string \<rightharpoonup> int" where
  "replicas_by_node nodes = map_of (rev (map (\<lambda>n. (n_name n, n_replicas n)) nodes))"

definition validate_link_endpoint :: "string \<Rightarrow> (string \<rightharpoonup> int) \<Rightarrow> nat \<Rightarrow> string \<Rightarrow> link_error option" where
  "validate_link_endpoint endpoint replicas i field =
     (if endpoint = external_node_name then None
      else case split_indexed_pod_name endpoint of
        Some (base, idx) \<Rightarrow>
          (case replicas base of
             None \<Rightarrow> Some (LNoSuchNode i field endpoint)
           | Some r \<Rightarrow> if idx < 0 \<or> idx \<ge> r then Some (LOutOfRange i field endpoint r) else None)
      | None \<Rightarrow>
          (case replicas endpoint of
             None \<Rightarrow> Some (LNoSuchNode i field endpoint)
           | Some r \<Rightarrow> if r > 1 then Some (LAmbiguous i field endpoint r) else None))"

definition validate_link_for_modify :: "(string \<rightharpoonup> int) \<Rightarrow> nat \<Rightarrow> link_spec \<Rightarrow> link_error option" where
  "validate_link_for_modify replicas i l =
     (if trim_space (l_node l) = [] \<or> trim_space (l_peer l) = [] then Some (LEndpointMissing i)
      else if l_node l = external_node_name \<and> l_peer l = external_node_name then Some (LBothExternal i)
      else first_some [validate_link_endpoint (l_node l) replicas i ''node'',
                       validate_link_endpoint (l_peer l) replicas i ''peerNode'',
                       validate_link_name (l_name l) i])"

definition validate_links_for_modify :: "link_spec list \<Rightarrow> node_spec list \<Rightarrow> link_error option" where
  "validate_links_for_modify links nodes =
     first_error (validate_link_for_modify (replicas_by_node nodes)) 0 links"

text \<open>The pods the StatefulSets of the nodes run: \<open>fmt.Sprintf("%s-%d", node.Name, i)\<close>.\<close>

definition pods_of_node :: "node_spec \<Rightarrow> string list" where
  "pods_of_node n = map (pod_name (n_name n)) [0 ..< nat (n_replicas n)]"

definition pods_of :: "node_spec list \<Rightarrow> string list" where
  "pods_of nodes = concat (map pods_of_node nodes)"

lemma pods_of_iff: "p \<in> set (pods_of nodes) \<longleftrightarrow> (\<exists>n \<in> set nodes. \<exists>i. int i < n_replicas n \<and> p = pod_name (n_name n) i)"
  by (fastforce simp: pods_of_def pods_of_node_def zless_nat_eq_int_zless)

lemma replicas_by_node_SomeD: "replicas_by_node nodes b = Some r \<Longrightarrow> \<exists>n \<in> set nodes. n_name n = b \<and> n_replicas n = r"
  by (auto simp: replicas_by_node_def dest!: map_of_SomeD)

lemma replicas_by_node_None: "replicas_by_node nodes b = None \<longleftrightarrow> b \<notin> set (node_names nodes)"
  by (auto simp: replicas_by_node_def map_of_eq_None_iff node_names_def image_image)

lemma replicas_by_node_distinct:
  assumes "distinct (node_names nodes)" and "n \<in> set nodes"
  shows "replicas_by_node nodes (n_name n) = Some (n_replicas n)"
proof -
  have "distinct (map fst (rev (map (\<lambda>n. (n_name n, n_replicas n)) nodes)))"
    using assms(1) by (simp add: node_names_def rev_map o_def distinct_rev [symmetric, of "map n_name nodes"])
  then show ?thesis using assms(2) by (simp add: replicas_by_node_def map_of_eq_Some_iff)
qed

lemma pod_name_zero: "b @ ''-0'' = pod_name b 0"
proof -
  have "nat_str 0 = ''0''" by code_simp
  then show ?thesis by (simp add: pod_name_def)
qed

lemma split_indexed_pod_name_SomeD:
  "split_indexed_pod_name s = Some (b, i) \<Longrightarrow> \<exists>ds. last_cut CHR ''-'' s = Some (b, ds) \<and> atoi ds = Some i \<and> b \<noteq> []"
  by (auto simp: split_indexed_pod_name_def split: option.splits if_splits prod.splits)

text \<open>An endpoint in the one spelling the cluster uses for it: a node name, or base, dash and index without sign or leading zero.\<close>

definition canonical_endpoint :: "string \<Rightarrow> bool" where
  "canonical_endpoint e =
     (case split_indexed_pod_name e of None \<Rightarrow> True | Some (b, i) \<Rightarrow> 0 \<le> i \<and> e = pod_name b (nat i))"

text \<open>
  C8: take an endpoint, neither empty nor \<open>external\<close>, that \<open>ValidateLinkEndpoint\<close> accepts in a
  namespace whose nodes run one replica or more. It resolves to the first pod of the node it is
  the name of, also when that name reads as an indexed pod of another node (a direct match wins),
  and else to itself. What it resolves to is a pod that one of the nodes runs exactly when it is a
  node name or is written canonically: the validator reads the index with \<open>Atoi\<close>, which also
  accepts a sign and leading zeros, while the resolver keeps the name as it is spelled.
\<close>

theorem validated_endpoint_resolves:
  assumes ok: "validate_link_endpoint e (replicas_by_node nodes) i f = None"
    and ext: "e \<noteq> external_node_name"
    and one: "\<forall>n \<in> set nodes. n_replicas n \<ge> 1"
    and ne: "e \<noteq> []"
  shows "resolve_pod_name e nodes = (if e \<in> set (node_names nodes) then pod_name e 0 else e) \<and>
    (resolve_pod_name e nodes \<in> set (pods_of nodes) \<longleftrightarrow> e \<in> set (node_names nodes) \<or> canonical_endpoint e)"
proof (cases "e \<in> set (node_names nodes)")
  case True
  then obtain n where n: "n \<in> set nodes" "n_name n = e" by (auto simp: node_names_def)
  have "int 0 < n_replicas n" using one n(1) by fastforce
  with n have "pod_name e 0 \<in> set (pods_of nodes)" unfolding pods_of_iff by blast
  with True ne ext show ?thesis by (simp add: resolve_pod_name_simp pod_name_zero)
next
  case False
  have "replicas_by_node nodes e = None" using False by (simp add: replicas_by_node_None)
  with ok ext obtain b idx where bi: "split_indexed_pod_name e = Some (b, idx)"
    by (auto simp: validate_link_endpoint_def split: option.splits)
  with ok ext obtain r where r: "replicas_by_node nodes b = Some r" "0 \<le> idx" "idx < r"
    by (auto simp: validate_link_endpoint_def split: option.splits if_splits)
  then obtain n where n: "n \<in> set nodes" "n_name n = b" "n_replicas n = r" by (auto dest: replicas_by_node_SomeD)
  have res: "resolve_pod_name e nodes = e" using False by (rule resolve_not_node)
  have "e \<in> set (pods_of nodes) \<longleftrightarrow> e = pod_name b (nat idx)"
  proof
    assume "e \<in> set (pods_of nodes)"
    then obtain m :: node_spec and j where m: "e = pod_name (n_name m) j" unfolding pods_of_iff by blast
    obtain ds where ds: "last_cut CHR ''-'' e = Some (b, ds)" "atoi ds = Some idx"
      using split_indexed_pod_name_SomeD [OF bi] by blast
    with m have "b = n_name m" "ds = nat_str j" by auto
    moreover have "idx = int j"
    proof -
      have "list_all is_digit (nat_str j)" by (rule nat_str_digits)
      moreover obtain c cs where "nat_str j = c # cs" by (cases "nat_str j") auto
      ultimately show ?thesis
        using ds(2) \<open>ds = nat_str j\<close> is_digit_not_sign [of c] digits_val_nat_str [of j]
        by (auto simp: atoi_def Let_def split: if_splits)
    qed
    ultimately show "e = pod_name b (nat idx)" using m by simp
  next
    assume "e = pod_name b (nat idx)"
    moreover have "int (nat idx) < n_replicas n" using r n by simp
    ultimately show "e \<in> set (pods_of nodes)" unfolding pods_of_iff using n by blast
  qed
  with res bi r(2) False show ?thesis by (simp add: canonical_endpoint_def)
qed

theorem validated_endpoint_resolves_witness:
  "let two = [basic_node ''r'' ''router'' 2]; both = [basic_node ''r'' ''router'' 2, basic_node ''r-1'' ''router'' 1] in
   resolve_pod_name ''r-1'' two \<in> set (pods_of two) \<and> resolve_pod_name ''r-01'' two \<notin> set (pods_of two) \<and>
   resolve_pod_name ''r-1'' both = pod_name ''r-1'' 0"
proof -
  let ?t = "[basic_node ''r'' ''router'' 2]" and ?b = "[basic_node ''r'' ''router'' 2, basic_node ''r-1'' ''router'' 1]"
  have ok: "validate_link_endpoint ''r-1'' (replicas_by_node ?t) 0 ''node'' = None"
    "validate_link_endpoint ''r-01'' (replicas_by_node ?t) 0 ''node'' = None"
    "validate_link_endpoint ''r-1'' (replicas_by_node ?b) 0 ''node'' = None"
    by code_simp+
  have ext: "''r-1'' \<noteq> external_node_name" "''r-01'' \<noteq> external_node_name" by code_simp+
  have one: "\<forall>n \<in> set ?t. n_replicas n \<ge> 1" "\<forall>n \<in> set ?b. n_replicas n \<ge> 1" by code_simp+
  have c: "canonical_endpoint ''r-1''" "\<not> canonical_endpoint ''r-01''"
    "''r-01'' \<notin> set (node_names ?t)" "''r-1'' \<in> set (node_names ?b)" by code_simp+
  show ?thesis
    using validated_endpoint_resolves [OF ok(1) ext(1) one(1)] validated_endpoint_resolves [OF ok(2) ext(2) one(1)]
      validated_endpoint_resolves [OF ok(3) ext(1) one(2)] c by (simp only: Let_def if_True) blast
qed

end
