(* ===== verification/Drivers.thy ===== *)
theory Drivers
  imports Pod_Names
begin

text \<open>
  The driver registry (\<open>drivers/registry/registry.go\<close>) and what a node takes from its driver:
  the resolved driver and runtime (\<open>helpers/driver_resolver.go\<close>, \<open>helpers/runtime.go\<close>), the
  untested-image warning (\<open>helpers/images.go\<close>), devices, shells, the grace period and the rules
  on interface names (\<open>types/interfaces.go\<close>, \<open>helpers/network.go\<close>).
  A driver value is the record of the optional interfaces it implements, by a method of its own or
  of a base struct it embeds. The registry is a
  key/value list, a later entry of a name replacing an earlier one.
\<close>

section \<open>Drivers and their registry\<close>

record iface_rules =
  ir_pattern :: "(string \<Rightarrow> bool) option"
  ir_human :: string
  ir_reserved :: "string list"

record shell_spec =
  sh_mode :: string
  sh_label :: string
  sh_command :: "string list"

record driver =
  d_name :: string
  d_type :: string
  d_caps :: "string list"
  d_iface :: "iface_rules option"
  d_runtime :: "string option"
  d_images :: "string list option"
  d_devices :: "string list"
  d_shells :: "shell_spec list"
  d_executor :: string

type_synonym registry = "(string \<times> driver) list"

datatype registry_error =
    RNoMeta
  | RContract string string
  | RUnknownDriver string
  | RNoDefault string
  | RWrongType string string string
  | RBadGrace string

definition check_type_contract :: "driver \<Rightarrow> registry_error option" where
  "check_type_contract d =
     (if ''L2Capable'' \<notin> set (d_caps d) then Some (RContract (d_name d) ''L2Capable'')
      else if d_type d = ''router'' \<or> d_type d = ''host'' then
        (if ''L3Capable'' \<notin> set (d_caps d) then Some (RContract (d_name d) ''L3Capable'') else None)
      else if d_type d = ''switch'' then
        (if ''SwitchCapable'' \<notin> set (d_caps d) then Some (RContract (d_name d) ''SwitchCapable'') else None)
      else None)"

definition default_driver_by_type :: "(string \<times> string) list" where
  "default_driver_by_type =
     [(''host'', ''HostDriver''), (''switch'', ''LinuxSwitchDriver''), (''router'', ''LinuxRouterDriver'')]"

definition driver_aliases :: "(string \<times> string) list" where
  "driver_aliases = [(''BasicHostDriver'', ''HostDriver'')]"

definition canonical_name :: "string \<Rightarrow> string \<times> bool" where
  "canonical_name name =
     (case map_of driver_aliases name of Some target \<Rightarrow> (target, True) | None \<Rightarrow> (name, False))"

text \<open>\<open>Register\<close>: an \<open>Inl\<close> is its panic.\<close>

definition register_driver :: "driver \<Rightarrow> registry \<Rightarrow> registry_error + registry" where
  "register_driver d reg =
     (if d_name d = [] \<or> d_type d = [] then Inl RNoMeta
      else case check_type_contract d of
             Some e \<Rightarrow> Inl e
           | None \<Rightarrow> Inr (AList.update (d_name d) d reg))"

definition is_registered :: "registry \<Rightarrow> string \<Rightarrow> bool" where
  "is_registered reg name = (map_of reg (fst (canonical_name name)) \<noteq> None)"

definition type_of_driver :: "registry \<Rightarrow> string \<Rightarrow> string option" where
  "type_of_driver reg name = map_option d_type (map_of reg (fst (canonical_name name)))"

definition valid_drivers_for_type :: "registry \<Rightarrow> string \<Rightarrow> string list" where
  "valid_drivers_for_type reg t = map fst (filter (\<lambda>(_, d). d_type d = t) reg)"

definition new_by_name :: "registry \<Rightarrow> string \<Rightarrow> registry_error + driver" where
  "new_by_name reg name =
     (case map_of reg (fst (canonical_name name)) of None \<Rightarrow> Inl (RUnknownDriver name) | Some d \<Rightarrow> Inr d)"

definition resolve_default_for_type :: "string \<Rightarrow> registry_error + string" where
  "resolve_default_for_type t =
     (case map_of default_driver_by_type t of Some d \<Rightarrow> Inr d | None \<Rightarrow> Inl (RNoDefault t))"

definition is_default_for_type :: "registry \<Rightarrow> string \<Rightarrow> bool" where
  "is_default_for_type reg name =
     (case map_of reg name of
        None \<Rightarrow> False
      | Some d \<Rightarrow> map_of default_driver_by_type (d_type d) = Some name)"

text \<open>What every registered driver satisfies.\<close>

definition registry_ok :: "registry \<Rightarrow> bool" where
  "registry_ok reg \<longleftrightarrow> (\<forall>(name, d) \<in> set reg. name = d_name d \<and> d_name d \<noteq> [] \<and> d_type d \<noteq> [] \<and> check_type_contract d = None)"

lemma registry_ok_Nil [simp]: "registry_ok []"
  by (simp add: registry_ok_def)

lemma set_AList_update: "set (AList.update k v al) \<subseteq> insert (k, v) (set al)"
  by (induction al) auto

lemma register_driver_ok:
  assumes "register_driver d reg = Inr reg'" and "registry_ok reg"
  shows "registry_ok reg'"
proof -
  have r: "reg' = AList.update (d_name d) d reg" "d_name d \<noteq> []" "d_type d \<noteq> []" "check_type_contract d = None"
    using assms(1) by (auto simp: register_driver_def split: if_splits option.splits)
  then show ?thesis using set_AList_update [of "d_name d" d reg] assms(2) by (auto simp: registry_ok_def)
qed

lemma register_driver_keys: "register_driver d reg = Inr reg' \<Longrightarrow> distinct (map fst reg) \<Longrightarrow> distinct (map fst reg')"
  by (auto simp: register_driver_def distinct_update split: if_splits option.splits)

lemma register_driver_lookup:
  "register_driver d reg = Inr reg' \<Longrightarrow> map_of reg' = (map_of reg)(d_name d \<mapsto> d)"
  by (auto simp: register_driver_def update_conv' split: if_splits option.splits)

lemma new_by_name_registered: "is_registered reg name \<longleftrightarrow> (\<exists>d. new_by_name reg name = Inr d)"
  by (auto simp: is_registered_def new_by_name_def split: option.splits)

text \<open>Registration of a list of constructors, as \<open>drivers/register_all.go\<close> does at startup.\<close>

definition register_all :: "driver list \<Rightarrow> registry_error + registry" where
  "register_all ds = fold_err register_driver ds []"

lemma register_all_ok: "register_all ds = Inr reg \<Longrightarrow> registry_ok reg"
  unfolding register_all_def by (rule fold_err_invariant [where P = registry_ok]) (auto intro: register_driver_ok)

section \<open>Image references\<close>

definition cut_str_at :: "char \<Rightarrow> string \<Rightarrow> (string \<times> string) option" where
  "cut_str_at sep s = (if sep \<in> set s then Some (cut_at sep s) else None)"

definition image_ref :: "string \<Rightarrow> string \<times> string" where
  "image_ref raw =
     (let ref = trim_space raw;
          (name, version) =
            (case cut_str_at CHR ''@'' ref of
               Some (n, d) \<Rightarrow> (n, ''@'' @ d)
             | None \<Rightarrow>
                 (case last_cut CHR '':'' ref of
                    Some (n, t) \<Rightarrow> if CHR ''/'' \<in> set t then (ref, '':latest'') else (n, '':'' @ t)
                  | None \<Rightarrow> (ref, '':latest'')))
      in case cut_str_at CHR ''/'' name of
           None \<Rightarrow> (''docker.io/library/'' @ name, version)
         | Some (first, rest) \<Rightarrow>
             if first = ''docker.io'' \<and> CHR ''/'' \<notin> set rest then (''docker.io/library/'' @ rest, version)
             else if CHR ''.'' \<notin> set first \<and> CHR '':'' \<notin> set first \<and> first \<noteq> ''localhost''
             then (''docker.io/'' @ name, version)
             else (name, version))"

definition image_known :: "string list \<Rightarrow> string \<Rightarrow> bool" where
  "image_known known img = list_ex (\<lambda>k. image_ref k = image_ref img) known"

lemma image_ref_examples:
  "image_ref ''alpine:3.24.2'' = image_ref ''docker.io/library/alpine:3.24.2''"
  "image_ref ''localhost:5000/a/b'' = (''localhost:5000/a/b'', '':latest'')"
  by code_simp+

section \<open>Resolving the driver of each request node\<close>

record resolve_warning =
  rw_node :: string
  rw_kind :: string
  rw_detail :: string

definition untested_image :: "string \<Rightarrow> string \<Rightarrow> driver \<Rightarrow> resolve_warning option" where
  "untested_image node img d =
     (case d_images d of
        None \<Rightarrow> None
      | Some known \<Rightarrow>
          if img = [] \<or> known = [] \<or> image_known known img then None
          else Some \<lparr>rw_node = node, rw_kind = ''image_untested'', rw_detail = img\<rparr>)"

definition runtime_qemu :: string where "runtime_qemu = ''qemu''"

text \<open>The choice of the driver: the type's default, or the named one with its alias rewritten.\<close>

definition resolve_driver_choice :: "registry \<Rightarrow> node_spec \<Rightarrow> registry_error + (string \<times> resolve_warning list)" where
  "resolve_driver_choice reg n =
     (if trim_space (n_driver n) = [] then
        (case resolve_default_for_type (n_type n) of Inl e \<Rightarrow> Inl e | Inr d \<Rightarrow> Inr (d, []))
      else if \<not> is_registered reg (n_driver n) then Inl (RUnknownDriver (n_driver n))
      else if \<exists>t \<in> set_option (type_of_driver reg (n_driver n)). t \<noteq> n_type n
      then Inl (RWrongType (n_name n) (n_driver n) (n_type n))
      else (case canonical_name (n_driver n) of
              (canonical, True) \<Rightarrow>
                Inr (canonical, [\<lparr>rw_node = n_name n, rw_kind = ''driver_deprecated'', rw_detail = n_driver n\<rparr>])
            | (_, False) \<Rightarrow> Inr (n_driver n, [])))"

definition resolve_driver_for_node :: "registry \<Rightarrow> node_spec \<Rightarrow> registry_error + (node_spec \<times> resolve_warning list)" where
  "resolve_driver_for_node reg n =
     bindR (resolve_driver_choice reg n) (\<lambda>(drv, ws).
       case new_by_name reg drv of
         Inl _ \<Rightarrow> Inr (n\<lparr>n_driver := drv, n_qemu := False\<rparr>, ws)
       | Inr d \<Rightarrow> Inr (n\<lparr>n_driver := drv, n_qemu := (d_runtime d = Some runtime_qemu)\<rparr>,
                       ws @ (case untested_image (n_name n) (n_image n) d of None \<Rightarrow> [] | Some w \<Rightarrow> [w])))"

primrec resolve_drivers_for_nodes ::
  "registry \<Rightarrow> node_spec list \<Rightarrow> registry_error + (node_spec list \<times> resolve_warning list)" where
  "resolve_drivers_for_nodes reg [] = Inr ([], [])"
| "resolve_drivers_for_nodes reg (n # ns) =
     bindR (resolve_driver_for_node reg n) (\<lambda>(n', ws).
       bindR (resolve_drivers_for_nodes reg ns) (\<lambda>(ns', ws'). Inr (n' # ns', ws @ ws')))"

text \<open>The default driver of every type is registered under that type, as at startup.\<close>

definition defaults_registered :: "registry \<Rightarrow> bool" where
  "defaults_registered reg \<longleftrightarrow>
     (\<forall>(t, name) \<in> set default_driver_by_type. \<exists>d. map_of reg name = Some d \<and> d_type d = t)"

definition resolved_node :: "registry \<Rightarrow> node_spec \<Rightarrow> node_spec \<Rightarrow> bool" where
  "resolved_node reg n n' \<longleftrightarrow>
     (\<exists>d. map_of reg (n_driver n') = Some d \<and> d_type d = n_type n \<and>
          n' = n\<lparr>n_driver := n_driver n', n_qemu := (d_runtime d = Some runtime_qemu)\<rparr>)"

lemma canonical_name_idem: "canonical_name (fst (canonical_name s)) = (fst (canonical_name s), False)"
proof (cases "map_of driver_aliases s")
  case None
  then show ?thesis by (simp add: canonical_name_def)
next
  case (Some t)
  then have "t = ''HostDriver''" by (auto simp: driver_aliases_def split: if_splits)
  with Some show ?thesis by (simp add: canonical_name_def driver_aliases_def)
qed

lemma default_type_canonical: "resolve_default_for_type t = Inr d \<Longrightarrow> canonical_name d = (d, False)"
  by (auto simp: resolve_default_for_type_def default_driver_by_type_def canonical_name_def driver_aliases_def
      split: option.splits if_splits)

lemma resolve_driver_choice_canonical:
  assumes "resolve_driver_choice reg n = Inr (drv, ws)" and "defaults_registered reg"
  shows "canonical_name drv = (drv, False) \<and> (\<exists>d. map_of reg drv = Some d \<and> d_type d = n_type n)"
proof (cases "trim_space (n_driver n) = []")
  case True
  with assms(1) have d: "resolve_default_for_type (n_type n) = Inr drv"
    by (auto simp: resolve_driver_choice_def split: sum.splits)
  then have "(n_type n, drv) \<in> set default_driver_by_type"
    by (auto simp: resolve_default_for_type_def split: option.splits dest: map_of_SomeD)
  with assms(2) have "\<exists>d. map_of reg drv = Some d \<and> d_type d = n_type n" by (auto simp: defaults_registered_def)
  with default_type_canonical [OF d] show ?thesis by simp
next
  case False
  obtain c dep where c: "canonical_name (n_driver n) = (c, dep)" by (cases "canonical_name (n_driver n)")
  have drv: "drv = c"
    using assms(1) False c
    by (auto simp: resolve_driver_choice_def canonical_name_def split: if_splits bool.splits option.splits)
  obtain d where "map_of reg c = Some d" "d_type d = n_type n"
    using assms(1) False c
    by (auto simp: resolve_driver_choice_def is_registered_def type_of_driver_def split: if_splits)
  with drv c canonical_name_idem [of "n_driver n"] show ?thesis by simp
qed

lemma resolve_driver_for_node_ok:
  assumes "resolve_driver_for_node reg n = Inr (n', ws)" and "defaults_registered reg"
  shows "resolved_node reg n n'"
proof -
  obtain drv w where dw: "resolve_driver_choice reg n = Inr (drv, w)"
    using assms(1) by (auto simp: resolve_driver_for_node_def bindR_Inr)
  from resolve_driver_choice_canonical [OF dw assms(2)] obtain d where
    d: "canonical_name drv = (drv, False)" "map_of reg drv = Some d" "d_type d = n_type n" by blast
  then have "new_by_name reg drv = Inr d" by (simp add: new_by_name_def)
  with assms(1) dw have "n' = n\<lparr>n_driver := drv, n_qemu := (d_runtime d = Some runtime_qemu)\<rparr>"
    by (simp add: resolve_driver_for_node_def)
  with d show ?thesis by (simp add: resolved_node_def)
qed

lemma resolve_drivers_for_nodes_step:
  "resolve_drivers_for_nodes reg ns = Inr (ns', ws) \<Longrightarrow> defaults_registered reg \<Longrightarrow>
   list_all2 (resolved_node reg) ns ns'"
  by (induction ns arbitrary: ns' ws) (auto simp: bindR_Inr intro: resolve_driver_for_node_ok)

text \<open>
  After \<open>ResolveDriversForNodes\<close> every node names, without an alias, a driver registered
  for its own type, its runtime flag is that driver's and not the request's, and nothing else
  of the node changed.
\<close>

theorem resolve_drivers_sound:
  assumes "resolve_drivers_for_nodes reg nodes = Inr (nodes', ws)" and "defaults_registered reg"
  shows "list_all2 (resolved_node reg) nodes nodes'"
  using assms by (rule resolve_drivers_for_nodes_step)

section \<open>The drivers the backend registers\<close>

text \<open>The patterns \<open>^eth\d+$\<close> (\<open>router_vyos.go\<close>) and \<open>^eth([1-9]|1[0-2])$\<close> (\<open>switch_exos.go\<close>).\<close>

definition vyos_iface_rules :: iface_rules where
  "vyos_iface_rules =
     \<lparr>ir_pattern = Some (\<lambda>s. has_prefix s ''eth'' \<and> drop 3 s \<noteq> [] \<and> list_all is_digit (drop 3 s)),
      ir_human = ''^eth'' @ CHR 0x5C # ''d+$ (e.g. eth1, eth10, eth42)'', ir_reserved = [''eth0'', ''eth999'']\<rparr>"

definition exos_iface_rules :: iface_rules where
  "exos_iface_rules =
     \<lparr>ir_pattern = Some (\<lambda>s. has_prefix s ''eth'' \<and>
        (let p = drop 3 s in (length p = 1 \<and> is_digit (hd p) \<and> p \<noteq> ''0'') \<or> p \<in> {''10'', ''11'', ''12''})),
      ir_human = ''^eth([1-9]|1[0-2])$ (eth1 to eth12, the VM has twelve ports)'', ir_reserved = [''eth0'']\<rparr>"

definition host_driver :: driver where
  "host_driver =
     \<lparr>d_name = ''HostDriver'', d_type = ''host'',
      d_caps = [''L2Capable'', ''L3Capable'', ''SubinterfaceCapable'', ''DefaultRoute6Remover'',
        ''RouteInspector'', ''NeighborInspector''],
      d_iface = None, d_runtime = None, d_images = None,
      d_devices = [], d_shells = [],
      d_executor = []\<rparr>"

definition faucet_driver :: driver where
  "faucet_driver =
     \<lparr>d_name = ''FaucetControllerDriver'', d_type = ''host'',
      d_caps = [''L2Capable'', ''L3Capable'', ''SubinterfaceCapable'', ''SDNControllerCapable'',
        ''SDNControllerInspector'', ''DefaultRoute6Remover'',
        ''RouteInspector'', ''NeighborInspector''],
      d_iface = None, d_runtime = None, d_images = Some [''faucet/faucet:1.10.12''],
      d_devices = [], d_shells = [],
      d_executor = []\<rparr>"

definition linux_switch_driver :: driver where
  "linux_switch_driver =
     \<lparr>d_name = ''LinuxSwitchDriver'', d_type = ''switch'',
      d_caps = [''L2Capable'', ''SwitchCapable'', ''VLANCapable'', ''STPCapable'', ''FDBInspector'',
        ''VLANInspector'', ''STPInspector''],
      d_iface = None, d_runtime = None, d_images = Some [''alpine:3.24.2'', ''ubuntu:26.04''],
      d_devices = [], d_shells = [],
      d_executor = []\<rparr>"

definition ovs_driver :: driver where
  "ovs_driver =
     \<lparr>d_name = ''OpenVSwitchDriver'', d_type = ''switch'',
      d_caps = [''L2Capable'', ''SwitchCapable'', ''VLANCapable'', ''VLANInspector'',
        ''STPCapable'', ''STPInspector'', ''OpenFlowCapable'', ''OpenFlowInspector'',
        ''FDBInspector''],
      d_iface = None, d_runtime = None, d_images = Some [''ghcr.io/emigcm98/kubendt-ovs:3.7.1'', ''globocom/openvswitch:latest''],
      d_devices = [], d_shells = [],
      d_executor = []\<rparr>"

definition exos_driver :: driver where
  "exos_driver =
     \<lparr>d_name = ''EXOSSwitchDriver'', d_type = ''switch'',
      d_caps = [''L2Capable'', ''SwitchCapable'', ''VLANCapable'', ''VLANInspector'',
        ''STPCapable'', ''STPInspector'', ''FDBInspector''],
      d_iface = Some exos_iface_rules, d_runtime = Some runtime_qemu, d_images = Some [''localhost/exos-switch:dev''],
      d_devices = [''/dev/kvm''], d_shells = [],
      d_executor = ''exos_api''\<rparr>"

definition linux_router_driver :: driver where
  "linux_router_driver =
     \<lparr>d_name = ''LinuxRouterDriver'', d_type = ''router'',
      d_caps = [''L2Capable'', ''L3Capable'', ''SubinterfaceCapable'', ''SwitchCapable'',
        ''VLANCapable'', ''STPCapable'', ''NATCapable'', ''NAT64Capable'', ''DefaultRoute6Remover'',
        ''RouteInspector'', ''NeighborInspector'',
        ''FDBInspector'', ''VLANInspector'', ''STPInspector'', ''NATRuleInspector''],
      d_iface = None, d_runtime = None, d_images = Some [''alpine:3.24.2'', ''ubuntu:26.04''],
      d_devices = [], d_shells = [],
      d_executor = []\<rparr>"

definition frr_driver :: driver where
  "frr_driver =
     \<lparr>d_name = ''FRRRouterDriver'', d_type = ''router'',
      d_caps = [''L2Capable'', ''L3Capable'', ''SubinterfaceCapable'', ''SwitchCapable'',
        ''VLANCapable'', ''STPCapable'', ''DefaultRoute6Remover'', ''NATCapable'',
        ''NAT64Capable'', ''OSPFCapable'', ''RIPCapable'', ''OSPF6Capable'', ''BGPCapable'',
        ''ISISCapable'', ''VtyshRunner'', ''RouteInspector'', ''OSPFInspector'',
        ''OSPF6Inspector'', ''RIPInspector'', ''BGPInspector'', ''ISISInspector'',
        ''NeighborInspector'', ''FDBInspector'', ''VLANInspector'', ''STPInspector'', ''NATRuleInspector''],
      d_iface = None, d_runtime = None, d_images = Some [''quay.io/frrouting/frr:10.7.1''],
      d_devices = [], d_shells = [\<lparr>sh_mode = ''vtysh'', sh_label = ''vtysh console'', sh_command = [''vtysh'']\<rparr>],
      d_executor = []\<rparr>"

definition vyos_driver :: driver where
  "vyos_driver =
     \<lparr>d_name = ''VyOSRouterDriver'', d_type = ''router'',
      d_caps = [''L2Capable'', ''L3Capable'', ''OSPFCapable'', ''RIPCapable'', ''OSPF6Capable'',
        ''BGPCapable'', ''ISISCapable'', ''VtyshRunner'', ''RouteInspector'',
        ''NeighborInspector'', ''NATRuleInspector'', ''OSPFInspector'', ''OSPF6Inspector'',
        ''RIPInspector'', ''BGPInspector'', ''ISISInspector'', ''SubinterfaceCapable'',
        ''NATCapable'', ''NAT64Capable'', ''DefaultRoute6Remover''],
      d_iface = Some vyos_iface_rules, d_runtime = Some runtime_qemu, d_images = Some [''localhost/vyos-router:dev''],
      d_devices = [''/dev/kvm''], d_shells = [\<lparr>sh_mode = ''vyos'', sh_label = ''VyOS CLI (ssh)'', sh_command = [''ssh_qemu'']\<rparr>],
      d_executor = ''vyos_api_apply''\<rparr>"

definition xrd_driver :: driver where
  "xrd_driver =
     \<lparr>d_name = ''XRDRouterDriver'', d_type = ''router'',
      d_caps = [''L2Capable'', ''L3Capable''],
      d_iface = None, d_runtime = None, d_images = None,
      d_devices = [''/dev/net/tun'', ''/dev/fuse''], d_shells = [],
      d_executor = ''xr_apply''\<rparr>"

definition all_drivers :: "driver list" where
  "all_drivers =
     [host_driver, faucet_driver, linux_switch_driver, ovs_driver, exos_driver,
      linux_router_driver, frr_driver, vyos_driver, xrd_driver]"

definition startup_registry :: registry where
  "startup_registry = map (\<lambda>d. (d_name d, d)) all_drivers"

lemmas driver_defs = host_driver_def faucet_driver_def linux_switch_driver_def ovs_driver_def
  exos_driver_def linux_router_driver_def frr_driver_def vyos_driver_def xrd_driver_def

lemma register_fresh:
  assumes "d_name d \<noteq> []" and "d_type d \<noteq> []" and "check_type_contract d = None"
    and "d_name d \<notin> fst ` set reg"
  shows "register_driver d reg = Inr (reg @ [(d_name d, d)])"
proof -
  have "AList.update (d_name d) d reg = reg @ [(d_name d, d)]"
    using assms(4) by (induction reg) auto
  with assms show ?thesis by (simp add: register_driver_def)
qed

lemma fold_register_fresh:
  assumes "list_all (\<lambda>d. d_name d \<noteq> [] \<and> d_type d \<noteq> [] \<and> check_type_contract d = None) ds"
    and "distinct (map fst reg @ map d_name ds)"
  shows "fold_err register_driver ds reg = Inr (reg @ map (\<lambda>d. (d_name d, d)) ds)"
  using assms
proof (induction ds arbitrary: reg)
  case (Cons d ds)
  then have "register_driver d reg = Inr (reg @ [(d_name d, d)])"
    by (intro register_fresh) auto
  moreover have "fold_err register_driver ds (reg @ [(d_name d, d)]) =
      Inr ((reg @ [(d_name d, d)]) @ map (\<lambda>d. (d_name d, d)) ds)"
    using Cons.prems by (intro Cons.IH) auto
  ultimately show ?case by simp
qed simp

lemma all_drivers_contract:
  "list_all (\<lambda>d. d_name d \<noteq> [] \<and> d_type d \<noteq> [] \<and> check_type_contract d = None) all_drivers"
  by (simp add: all_drivers_def driver_defs check_type_contract_def)

lemma all_drivers_names: "distinct (map d_name all_drivers)"
  by (simp add: all_drivers_def driver_defs)

lemma startup_defaults: "defaults_registered startup_registry"
  by (simp add: defaults_registered_def default_driver_by_type_def startup_registry_def all_drivers_def driver_defs)

text \<open>
  The startup registration never panics: each of the nine drivers meets the contract of its
  type and has a name of its own, the registry that results keeps all nine, and the default of
  every node type is among them, so a node without a driver always gets one.
\<close>

theorem startup_registration:
  "register_all all_drivers = Inr startup_registry \<and> registry_ok startup_registry \<and>
   length startup_registry = 9 \<and> defaults_registered startup_registry"
proof -
  have r: "register_all all_drivers = Inr startup_registry"
    using fold_register_fresh [OF all_drivers_contract, of "[]"] all_drivers_names
    by (simp add: register_all_def startup_registry_def)
  have "length startup_registry = 9" by (simp add: startup_registry_def all_drivers_def)
  with r register_all_ok [OF r] startup_defaults show ?thesis by simp
qed

theorem resolve_drivers_sound_witness:
  "list_all2 (resolved_node startup_registry)
     [(basic_node ''a'' ''host'' 1)\<lparr>n_driver := ''BasicHostDriver''\<rparr>]
     [(basic_node ''a'' ''host'' 1)\<lparr>n_driver := ''HostDriver'', n_qemu := False\<rparr>]"
proof -
  have "resolve_drivers_for_nodes startup_registry [(basic_node ''a'' ''host'' 1)\<lparr>n_driver := ''BasicHostDriver''\<rparr>] =
     Inr ([(basic_node ''a'' ''host'' 1)\<lparr>n_driver := ''HostDriver'', n_qemu := False\<rparr>],
          [\<lparr>rw_node = ''a'', rw_kind = ''driver_deprecated'', rw_detail = ''BasicHostDriver''\<rparr>])"
    by (simp add: resolve_driver_for_node_def resolve_driver_choice_def basic_node_def trim_space_def is_space_def
        is_registered_def canonical_name_def driver_aliases_def type_of_driver_def startup_registry_def
        all_drivers_def driver_defs new_by_name_def untested_image_def runtime_qemu_def)
  then show ?thesis using startup_defaults by (rule resolve_drivers_sound)
qed

section \<open>Runtime labels, devices, shells and the grace period\<close>

definition runtime_label_value :: "bool \<Rightarrow> string" where
  "runtime_label_value qemu = (if qemu then ''qemu'' else ''k8s-linux'')"

definition label :: "(string \<times> string) list \<Rightarrow> string \<Rightarrow> string" where
  "label ls k = (case map_of ls k of Some v \<Rightarrow> v | None \<Rightarrow> [])"

definition runtime_of :: "(string \<times> string) list \<Rightarrow> string" where
  "runtime_of ls =
     (if label ls ''kubendt/runtime'' \<noteq> [] then label ls ''kubendt/runtime''
      else if label ls ''kubendt/qemu'' = ''true'' then ''qemu''
      else ''k8s-linux'')"

definition is_guest_vm :: "(string \<times> string) list \<Rightarrow> bool" where
  "is_guest_vm ls \<longleftrightarrow> runtime_of ls = ''qemu''"

lemma is_guest_vm_label: "is_guest_vm ((''kubendt/runtime'', runtime_label_value q) # ls) \<longleftrightarrow> q"
  by (simp add: is_guest_vm_def runtime_of_def label_def runtime_label_value_def)

definition driver_devices :: "registry \<Rightarrow> string \<Rightarrow> string list" where
  "driver_devices reg name =
     (case new_by_name reg (trim_space name) of Inl _ \<Rightarrow> [] | Inr d \<Rightarrow> d_devices d)"

fun append_devices :: "string list \<Rightarrow> string list \<Rightarrow> string list \<Rightarrow> string list" where
  "append_devices eff seen [] = eff"
| "append_devices eff seen (d # ds) =
     (let p = trim_space d in
      if p = [] \<or> p \<in> set seen then append_devices eff seen ds
      else append_devices (eff @ [p]) (p # seen) ds)"

definition resolve_effective_devices :: "registry \<Rightarrow> node_spec \<Rightarrow> string list" where
  "resolve_effective_devices reg n =
     append_devices (n_devices n) (filter (\<lambda>p. p \<noteq> []) (map trim_space (n_devices n)))
       (driver_devices reg (n_driver n))"

lemma append_devices_prefix: "\<exists>ds'. append_devices eff seen ds = eff @ ds' \<and> distinct ds' \<and> set ds' \<inter> set seen = {}"
proof (induction ds arbitrary: eff seen)
  case (Cons d ds)
  show ?case
  proof (cases "trim_space d = [] \<or> trim_space d \<in> set seen")
    case False
    with Cons.IH [of "eff @ [trim_space d]" "trim_space d # seen"] obtain ds' where
      "append_devices eff seen (d # ds) = eff @ trim_space d # ds'" "distinct ds'"
      "set ds' \<inter> set (trim_space d # seen) = {}" by (auto simp: Let_def)
    with False show ?thesis by (intro exI [of _ "trim_space d # ds'"]) auto
  qed (use Cons.IH in \<open>simp add: Let_def\<close>)
qed simp

lemma append_devices_covers:
  "x \<in> set ds \<Longrightarrow> trim_space x \<noteq> [] \<Longrightarrow> trim_space x \<in> set seen \<union> set (append_devices eff seen ds)"
proof (induction ds arbitrary: eff seen)
  case (Cons d ds)
  show ?case
  proof (cases "trim_space d = [] \<or> trim_space d \<in> set seen")
    case True
    with Cons show ?thesis by (auto simp: Let_def)
  next
    case False
    obtain ds' where ds': "append_devices (eff @ [trim_space d]) (trim_space d # seen) ds = (eff @ [trim_space d]) @ ds'"
      using append_devices_prefix by blast
    from False Cons.prems Cons.IH [of "trim_space d # seen" "eff @ [trim_space d]"]
    show ?thesis by (auto simp: Let_def ds')
  qed
qed simp

definition pod_shell :: shell_spec where
  "pod_shell = \<lparr>sh_mode = ''sh'', sh_label = ''pod shell (sh)'', sh_command = []\<rparr>"

definition serial_shell :: shell_spec where
  "serial_shell = \<lparr>sh_mode = ''serial'', sh_label = ''serial console (attach)'', sh_command = []\<rparr>"

definition has_serial_console :: "(string \<times> string) list \<Rightarrow> bool" where
  "has_serial_console ls \<longleftrightarrow> is_guest_vm ls \<or> label ls ''kubendt/shell-mode'' = ''serial''"

definition shells_for :: "driver option \<Rightarrow> bool \<Rightarrow> shell_spec list" where
  "shells_for drv serial =
     [pod_shell] @ (if serial then [serial_shell] else []) @ (case drv of None \<Rightarrow> [] | Some d \<Rightarrow> d_shells d)"

definition find_shell :: "shell_spec list \<Rightarrow> string \<Rightarrow> shell_spec option" where
  "find_shell shells mode = find (\<lambda>s. sh_mode s = mode) shells"

definition default_shell :: "shell_spec list \<Rightarrow> shell_spec" where
  "default_shell shells = (case find_shell shells ''serial'' of Some s \<Rightarrow> s | None \<Rightarrow> pod_shell)"

definition normalize_grace :: "node_spec \<Rightarrow> registry_error + node_spec" where
  "normalize_grace n =
     (if n_grace n = 0 then Inr (n\<lparr>n_grace := default_grace_seconds\<rparr>)
      else if n_grace n < 0 then Inl (RBadGrace (n_name n))
      else Inr n)"

lemma normalize_grace_pos: "normalize_grace n = Inr n' \<Longrightarrow> n_grace n' \<ge> 1"
  by (auto simp: normalize_grace_def default_grace_seconds_def split: if_splits)

section \<open>Interface names\<close>

datatype iface_error = IfEmpty | IfTooLong | IfBadChar | IfBadName | IfReserved | IfPattern string | IfDriverReserved string

definition pseudo_interface_bases :: "string list" where
  "pseudo_interface_bases =
     [''pimreg'', ''pim6reg'', ''ip6tnl0'', ''tunl0'', ''sit0'', ''gre0'', ''gretap0'', ''erspan0'',
      ''ip_vti0'', ''ip6_vti0'', ''ip6gre0'']"

definition is_pseudo_interface :: "string \<Rightarrow> bool" where
  "is_pseudo_interface name =
     (takeWhile (\<lambda>c. c \<noteq> CHR ''@'') (trim_space name) \<in> set pseudo_interface_bases)"

text \<open>The class \<open>[^\s:/]\<close> of \<open>validIfaceRe\<close>: \<open>\s\<close> is tab, newline, form feed, return and space.\<close>

definition iface_char :: "char \<Rightarrow> bool" where
  "iface_char c \<longleftrightarrow> c \<noteq> CHR ''/'' \<and> c \<noteq> CHR '':'' \<and> (of_char c :: nat) \<notin> {9, 10, 12, 13, 32}"

definition validate_linux_interface_name :: "string \<Rightarrow> iface_error option" where
  "validate_linux_interface_name name =
     (if name = [] then Some IfEmpty
      else if length name > 15 then Some IfTooLong
      else if list_ex (\<lambda>c. c \<in> {CHR ''/'', CHR '':'', CHR '' '', CHR 0x09, CHR 0x0A}) name then Some IfBadChar
      else if \<not> list_all iface_char name then Some IfBadName
      else None)"

definition iface_constraints_for :: "registry \<Rightarrow> string \<Rightarrow> iface_rules option" where
  "iface_constraints_for reg drv =
     (if drv = [] then None else case new_by_name reg drv of Inl _ \<Rightarrow> None | Inr d \<Rightarrow> d_iface d)"

definition validate_interface_name_for_driver :: "registry \<Rightarrow> string \<Rightarrow> string \<Rightarrow> iface_error option" where
  "validate_interface_name_for_driver reg name drv =
     (case validate_linux_interface_name name of
        Some e \<Rightarrow> Some e
      | None \<Rightarrow>
          if name = ''eth0'' \<or> name = ''lo'' then Some IfReserved
          else case iface_constraints_for reg drv of
            None \<Rightarrow> None
          | Some c \<Rightarrow>
              if (case ir_pattern c of None \<Rightarrow> False | Some p \<Rightarrow> \<not> p name) then Some (IfPattern (ir_human c))
              else if name \<in> set (ir_reserved c) then Some (IfDriverReserved drv)
              else None)"

text \<open>\<open>driverByNode\<close> is filled in node order: the last of two equal names wins.\<close>

definition driver_by_node :: "node_spec list \<Rightarrow> string \<rightharpoonup> string" where
  "driver_by_node nodes = map_of (rev (map (\<lambda>n. (n_name n, n_driver n)) nodes))"

definition resolve_driver_for_endpoint :: "string \<Rightarrow> (string \<rightharpoonup> string) \<Rightarrow> string" where
  "resolve_driver_for_endpoint endpoint drv_of =
     (if endpoint = external_node_name then []
      else case drv_of endpoint of
        Some d \<Rightarrow> d
      | None \<Rightarrow>
          (case split_indexed_pod_name endpoint of
             None \<Rightarrow> []
           | Some (base, _) \<Rightarrow> (case drv_of base of Some d \<Rightarrow> d | None \<Rightarrow> [])))"

definition validate_link_interface_names ::
  "registry \<Rightarrow> link_spec list \<Rightarrow> node_spec list \<Rightarrow> (nat \<times> bool \<times> iface_error) option" where
  "validate_link_interface_names reg links nodes =
     (let drv_of = driver_by_node nodes in
      first_error (\<lambda>i l.
        case validate_interface_name_for_driver reg (l_intf l) (resolve_driver_for_endpoint (l_node l) drv_of) of
          Some e \<Rightarrow> Some (i, True, e)
        | None \<Rightarrow>
            (case validate_interface_name_for_driver reg (l_peer_intf l) (resolve_driver_for_endpoint (l_peer l) drv_of) of
               Some e \<Rightarrow> Some (i, False, e)
             | None \<Rightarrow> None)) 0 links)"

text \<open>A name the kernel takes and the platform does not use itself.\<close>

definition usable_iface :: "string \<Rightarrow> bool" where
  "usable_iface name \<longleftrightarrow>
     1 \<le> length name \<and> length name \<le> 15 \<and> list_all iface_char name \<and> name \<noteq> ''eth0'' \<and> name \<noteq> ''lo''"

definition obeys_rules :: "iface_rules \<Rightarrow> string \<Rightarrow> bool" where
  "obeys_rules c name \<longleftrightarrow> (\<forall>p \<in> set_option (ir_pattern c). p name) \<and> name \<notin> set (ir_reserved c)"

lemma iface_char_not_bad: "iface_char c \<Longrightarrow> c \<notin> {CHR ''/'', CHR '':'', CHR '' '', CHR 0x09, CHR 0x0A}"
  by (auto simp: iface_char_def)

lemma validate_linux_interface_name_None:
  "validate_linux_interface_name name = None \<longleftrightarrow> 1 \<le> length name \<and> length name \<le> 15 \<and> list_all iface_char name"
proof -
  have "list_all iface_char name \<Longrightarrow> \<not> list_ex (\<lambda>c. c \<in> {CHR ''/'', CHR '':'', CHR '' '', CHR 0x09, CHR 0x0A}) name"
    using iface_char_not_bad by (simp add: list_ex_iff list_all_iff del: insert_iff)
  then show ?thesis
    by (cases name) (simp_all add: validate_linux_interface_name_def del: insert_iff)
qed

lemma validate_interface_name_for_driver_None:
  "validate_interface_name_for_driver reg name drv = None \<longleftrightarrow>
     usable_iface name \<and> (\<forall>c \<in> set_option (iface_constraints_for reg drv). obeys_rules c name)"
proof (cases "validate_linux_interface_name name")
  case None
  then have "1 \<le> length name \<and> length name \<le> 15 \<and> list_all iface_char name"
    by (simp only: validate_linux_interface_name_None)
  with None show ?thesis
    by (cases "iface_constraints_for reg drv"; cases "ir_pattern (the (iface_constraints_for reg drv))")
      (auto simp: validate_interface_name_for_driver_def usable_iface_def obeys_rules_def)
next
  case (Some e)
  then have "\<not> (1 \<le> length name \<and> length name \<le> 15 \<and> list_all iface_char name)"
    using validate_linux_interface_name_None [of name] by simp
  with Some show ?thesis
    by (auto simp: validate_interface_name_for_driver_def usable_iface_def)
qed

lemma driver_by_node_Some:
  "distinct (node_names nodes) \<Longrightarrow> n \<in> set nodes \<Longrightarrow> driver_by_node nodes (n_name n) = Some (n_driver n)"
proof -
  assume a: "distinct (node_names nodes)" "n \<in> set nodes"
  have "distinct (map fst (rev (map (\<lambda>n. (n_name n, n_driver n)) nodes)))"
    using a(1) by (simp add: node_names_def rev_map o_def distinct_rev [symmetric, of "map n_name nodes"])
  then show ?thesis using a(2) by (simp add: driver_by_node_def map_of_eq_Some_iff)
qed

lemma driver_by_node_None: "driver_by_node nodes b = None \<longleftrightarrow> b \<notin> set (node_names nodes)"
  by (auto simp: driver_by_node_def map_of_eq_None_iff node_names_def image_image)

lemma resolve_driver_of_pod:
  assumes "distinct (node_names nodes)" and "n \<in> set nodes" and "n_name n \<noteq> []"
    and "pod_name (n_name n) i \<notin> set (node_names nodes)" and "pod_name (n_name n) i \<noteq> external_node_name"
    and "int i < 2 ^ 63"
  shows "resolve_driver_for_endpoint (pod_name (n_name n) i) (driver_by_node nodes) = n_driver n"
  using assms driver_by_node_None [of nodes "pod_name (n_name n) i"]
  by (auto simp: resolve_driver_for_endpoint_def split_pod_name driver_by_node_Some split: option.splits)

text \<open>
  When \<open>ValidateLinkInterfaceNamesForDrivers\<close> accepts the links, every interface name of both
  ends fits the kernel's rules, is neither \<open>eth0\<close> nor \<open>lo\<close>, and obeys the rules of the driver of
  the node at that end, whether the end is written as a node or as one of its indexed pods.
\<close>

theorem link_interface_names_checked:
  assumes ok: "validate_link_interface_names reg links nodes = None"
    and l: "l \<in> set links" and d: "distinct (node_names nodes)" and n: "n \<in> set nodes"
    and at: "l_node l = n_name n \<or> (\<exists>i. int i < 2 ^ 63 \<and> l_node l = pod_name (n_name n) i \<and> l_node l \<notin> set (node_names nodes))"
    and nm: "n_name n \<noteq> []" and ne: "l_node l \<noteq> external_node_name"
  shows "usable_iface (l_intf l) \<and> usable_iface (l_peer_intf l) \<and>
     (\<forall>c \<in> set_option (iface_constraints_for reg (n_driver n)). obeys_rules c (l_intf l))"
proof -
  obtain j where j: "j < length links" "l = links ! j" using l by (auto simp: in_set_conv_nth)
  let ?dn = "resolve_driver_for_endpoint (l_node l) (driver_by_node nodes)"
  let ?dp = "resolve_driver_for_endpoint (l_peer l) (driver_by_node nodes)"
  have v: "validate_interface_name_for_driver reg (l_intf l) ?dn = None"
    "validate_interface_name_for_driver reg (l_peer_intf l) ?dp = None"
    using ok [unfolded validate_link_interface_names_def Let_def first_error_None, rule_format, OF j(1)] j(2)
    by (simp_all split: option.splits)
  have "?dn = n_driver n"
    using at
  proof
    assume "l_node l = n_name n"
    then show ?thesis using ne driver_by_node_Some [OF d n] by (simp add: resolve_driver_for_endpoint_def)
  next
    assume "\<exists>i. int i < 2 ^ 63 \<and> l_node l = pod_name (n_name n) i \<and> l_node l \<notin> set (node_names nodes)"
    then show ?thesis using resolve_driver_of_pod [OF d n nm] ne by auto
  qed
  with v show ?thesis by (auto simp: validate_interface_name_for_driver_None)
qed

theorem link_interface_names_checked_witness:
  "usable_iface ''eth3'' \<and> usable_iface ''eth1'' \<and>
   (\<exists>c. iface_constraints_for startup_registry ''VyOSRouterDriver'' = Some c \<and> obeys_rules c ''eth3'')"
proof -
  let ?v = "(basic_node ''v'' ''router'' 2)\<lparr>n_driver := ''VyOSRouterDriver''\<rparr>"
  let ?l = "basic_link ''v-1'' ''eth3'' ''external'' ''eth1''"
  have ok: "validate_link_interface_names startup_registry [?l] [?v] = None" by code_simp
  have at: "l_node ?l = n_name ?v \<or>
      (\<exists>i. int i < 2 ^ 63 \<and> l_node ?l = pod_name (n_name ?v) i \<and> l_node ?l \<notin> set (node_names [?v]))"
  proof -
    have "l_node ?l = pod_name (n_name ?v) 1" "l_node ?l \<notin> set (node_names [?v])" by code_simp+
    then show ?thesis by (intro disjI2 exI [of _ 1]) simp
  qed
  have "usable_iface (l_intf ?l) \<and> usable_iface (l_peer_intf ?l) \<and>
     (\<forall>c \<in> set_option (iface_constraints_for startup_registry (n_driver ?v)). obeys_rules c (l_intf ?l))"
    by (rule link_interface_names_checked [OF ok _ _ _ at])
       (simp_all add: node_names_def basic_node_def basic_link_def external_node_name_def)
  moreover have "iface_constraints_for startup_registry ''VyOSRouterDriver'' \<noteq> None" by code_simp
  ultimately show ?thesis by (auto simp: basic_link_def basic_node_def)
qed

end
