(* ===== verification/Topology_Validation.thy ===== *)
theory Topology_Validation
  imports Drivers
begin

text \<open>
  The static checks of a request, \<open>helpers/topology_validation.go\<close>: node inputs, container paths,
  addresses on links and the gate that keeps addresses off nodes without L3; and the placement
  check of \<open>helpers/placement.go\<close>. The file manager and the label selector of Kubernetes are
  parameters (\<open>file_exists\<close>, \<open>sel\<close>).
\<close>

section \<open>Node inputs\<close>

datatype path_error = PathEmpty | PathRelative | PathNul | PathTraversal

definition validate_container_path :: "string \<Rightarrow> path_error option" where
  "validate_container_path p =
     (if trim_space p = [] then Some PathEmpty
      else if \<not> has_prefix p ''/'' then Some PathRelative
      else if CHR 0x00 \<in> set p then Some PathNul
      else if ''..'' \<in> set (split_on CHR ''/'' p) then Some PathTraversal
      else None)"

definition env_name_ok :: "string \<Rightarrow> bool" where
  "env_name_ok k \<longleftrightarrow>
     (case k of [] \<Rightarrow> False
      | c # cs \<Rightarrow> (is_alpha c \<or> c = CHR ''_'') \<and> list_all (\<lambda>x. is_alpha x \<or> is_digit x \<or> x = CHR ''_'') cs)"

datatype node_error =
    NImage string
  | NEnv string string
  | NMountFile string
  | NMountPath string string path_error
  | NMountDup string string
  | NMountRead string string
  | NMountMissing string string
  | NDevice string path_error

fun check_mounts :: "(string \<Rightarrow> bool option) \<Rightarrow> string \<Rightarrow> string list \<Rightarrow> mount_spec list \<Rightarrow> node_error option" where
  "check_mounts file_exists node seen [] = None"
| "check_mounts file_exists node seen (m # ms) =
     (if trim_space (m_file m) = [] then Some (NMountFile node)
      else case validate_container_path (m_to m) of
        Some e \<Rightarrow> Some (NMountPath node (m_file m) e)
      | None \<Rightarrow>
          if m_to m \<in> set seen then Some (NMountDup node (m_to m))
          else case file_exists (m_file m) of
            None \<Rightarrow> Some (NMountRead node (m_file m))
          | Some False \<Rightarrow> Some (NMountMissing node (m_file m))
          | Some True \<Rightarrow> check_mounts file_exists node (m_to m # seen) ms)"

definition validate_node_input :: "(string \<Rightarrow> bool option) \<Rightarrow> node_spec \<Rightarrow> node_error option" where
  "validate_node_input file_exists n =
     (if trim_space (n_image n) = [] then Some (NImage (n_name n))
      else case find (\<lambda>(k, _). \<not> env_name_ok k) (n_env n) of
        Some (k, _) \<Rightarrow> Some (NEnv (n_name n) k)
      | None \<Rightarrow>
          (case check_mounts file_exists (n_name n) [] (n_mounts n) of
             Some e \<Rightarrow> Some e
           | None \<Rightarrow> first_error (\<lambda>_ d. map_option (NDevice (n_name n)) (validate_container_path d)) 0 (n_devices n)))"

definition validate_node_inputs :: "(string \<Rightarrow> bool option) \<Rightarrow> node_spec list \<Rightarrow> node_error option" where
  "validate_node_inputs file_exists nodes = first_error (\<lambda>_. validate_node_input file_exists) 0 nodes"

text \<open>Absolute, free of \<open>NUL\<close> and of the segment \<open>..\<close>.\<close>

definition safe_path :: "string \<Rightarrow> bool" where
  "safe_path p \<longleftrightarrow> has_prefix p ''/'' \<and> CHR 0x00 \<notin> set p \<and> ''..'' \<notin> set (split_on CHR ''/'' p)"

lemma validate_container_path_safe: "validate_container_path p = None \<Longrightarrow> safe_path p"
  by (simp add: validate_container_path_def safe_path_def split: if_splits)

lemma check_mounts_None:
  "check_mounts fe node seen ms = None \<Longrightarrow>
     (\<forall>m \<in> set ms. safe_path (m_to m) \<and> fe (m_file m) = Some True \<and> m_to m \<notin> set seen) \<and> distinct (map m_to ms)"
proof (induction ms arbitrary: seen)
  case (Cons m ms)
  from Cons.prems have h: "validate_container_path (m_to m) = None" "m_to m \<notin> set seen"
    "fe (m_file m) = Some True" "check_mounts fe node (m_to m # seen) ms = None"
    by (simp_all split: if_splits option.splits bool.splits)
  from Cons.IH [OF h(4)] h validate_container_path_safe [OF h(1)] show ?case by auto
qed simp

definition node_input_ok :: "(string \<Rightarrow> bool option) \<Rightarrow> node_spec \<Rightarrow> bool" where
  "node_input_ok fe n \<longleftrightarrow>
     trim_space (n_image n) \<noteq> [] \<and> (\<forall>(k, v) \<in> set (n_env n). env_name_ok k) \<and>
     (\<forall>m \<in> set (n_mounts n). safe_path (m_to m) \<and> fe (m_file m) = Some True) \<and>
     distinct (map m_to (n_mounts n)) \<and> (\<forall>d \<in> set (n_devices n). safe_path d)"

lemma validate_node_input_ok: "validate_node_input fe n = None \<Longrightarrow> node_input_ok fe n"
proof -
  assume a: "validate_node_input fe n = None"
  then have h: "trim_space (n_image n) \<noteq> []" "find (\<lambda>(k, _). \<not> env_name_ok k) (n_env n) = None"
    "check_mounts fe (n_name n) [] (n_mounts n) = None"
    "\<forall>d \<in> set (n_devices n). validate_container_path d = None"
    by (auto simp: validate_node_input_def first_error_None_all split: if_splits option.splits)
  from h(2) have e: "\<forall>(k, v) \<in> set (n_env n). env_name_ok k" by (auto simp: find_None_iff)
  from h(4) validate_container_path_safe have d: "\<forall>d \<in> set (n_devices n). safe_path d" by blast
  from check_mounts_None [OF h(3)] h(1) e d show ?thesis by (simp add: node_input_ok_def)
qed

text \<open>
  Nodes that pass \<open>ValidateNodeInputs\<close> have an image, only C identifiers as environment
  variables, mounts of existing files onto distinct absolute paths without \<open>..\<close>, and devices at
  such paths.
\<close>

theorem node_inputs_sound:
  assumes "validate_node_inputs fe nodes = None"
  shows "list_all (node_input_ok fe) nodes"
  using assms by (simp add: validate_node_inputs_def first_error_None_all list_all_iff validate_node_input_ok)

theorem node_inputs_sound_witness:
  "list_all (node_input_ok (\<lambda>f. Some (f = ''a.conf'')))
     [(basic_node ''r'' ''router'' 1)\<lparr>n_env := [(''A_1'', ''x'')],
        n_mounts := [\<lparr>m_file = ''a.conf'', m_to = ''/etc/a.conf'', m_sensitive = False, m_missing = False\<rparr>]\<rparr>]"
  by (rule node_inputs_sound) code_simp

section \<open>Addresses on links\<close>

datatype ip_error =
    IpEmpty nat string nat
  | IpNotCidr nat string string
  | IpNeedsPrefix nat string string
  | IpInvalid nat string string
  | IpRepeats nat string string
  | IpBothEnds nat string
  | IpNoFamily nat
  | IpNoL3 nat string

fun check_addrs_from :: "nat \<Rightarrow> string \<Rightarrow> nat \<Rightarrow> string list \<Rightarrow> addrs \<Rightarrow> ip_error option" where
  "check_addrs_from idx side n seen [] = None"
| "check_addrs_from idx side n seen (raw # rest) =
     (let v = trim_space raw;
          bad = (if v = [] then Some (IpEmpty idx side (n + 1))
                 else if contains_str v ''/'' then
                   (if parse_cidr v = None then Some (IpNotCidr idx side v) else None)
                 else if n > 0 then Some (IpNeedsPrefix idx side v)
                 else if parse_ip v = None then Some (IpInvalid idx side v)
                 else None)
      in case bad of
           Some e \<Rightarrow> Some e
         | None \<Rightarrow> if v \<in> set seen then Some (IpRepeats idx side v)
                   else check_addrs_from idx side (n + 1) (v # seen) rest)"

definition check_end_addrs :: "nat \<Rightarrow> string \<Rightarrow> addrs \<Rightarrow> ip_error option" where
  "check_end_addrs idx side a = check_addrs_from idx side 0 [] a"

definition share_family :: "addrs \<Rightarrow> addrs \<Rightarrow> bool" where
  "share_family a b = list_ex (\<lambda>y. ip_family y \<in> set (map ip_family a)) b"

definition validate_link_ip :: "nat \<Rightarrow> link_spec \<Rightarrow> ip_error option" where
  "validate_link_ip i l =
     (case check_end_addrs i ''local'' (l_ip l) of
        Some e \<Rightarrow> Some e
      | None \<Rightarrow>
          (case check_end_addrs i ''peer'' (l_peer_ip l) of
             Some e \<Rightarrow> Some e
           | None \<Rightarrow>
               (case find (\<lambda>a. a \<in> set (l_peer_ip l)) (l_ip l) of
                  Some a \<Rightarrow> Some (IpBothEnds i a)
                | None \<Rightarrow>
                    if l_ip l \<noteq> [] \<and> l_peer_ip l \<noteq> [] \<and> \<not> share_family (l_ip l) (l_peer_ip l)
                    then Some (IpNoFamily i) else None)))"

definition validate_link_ips :: "link_spec list \<Rightarrow> ip_error option" where
  "validate_link_ips links = first_error validate_link_ip 0 links"

text \<open>An end's addresses as the check leaves them: the first a bare IP or a CIDR, the others CIDRs.\<close>

definition addr_ok :: "nat \<Rightarrow> string \<Rightarrow> bool" where
  "addr_ok n v \<longleftrightarrow> (if contains_str v ''/'' then parse_cidr v \<noteq> None else n = 0 \<and> parse_ip v \<noteq> None)"

definition end_ok :: "addrs \<Rightarrow> bool" where
  "end_ok a \<longleftrightarrow> distinct (map trim_space a) \<and> (\<forall>n < length a. addr_ok n (trim_space (a ! n)))"

lemma check_addrs_from_None:
  "check_addrs_from idx side n seen a = None \<Longrightarrow>
     distinct (map trim_space a) \<and> set (map trim_space a) \<inter> set seen = {} \<and>
     (\<forall>j < length a. addr_ok (n + j) (trim_space (a ! j)))"
proof (induction a arbitrary: n seen)
  case (Cons raw rest)
  let ?v = "trim_space raw"
  from Cons.prems have ok: "addr_ok n ?v" and fresh: "?v \<notin> set seen"
    and rest: "check_addrs_from idx side (n + 1) (?v # seen) rest = None"
    by (auto simp: Let_def addr_ok_def split: if_splits option.splits)
  from Cons.IH [OF rest] ok fresh show ?case by (auto simp: All_less_Suc2)
qed simp

lemma check_end_addrs_None: "check_end_addrs idx side a = None \<Longrightarrow> end_ok a"
  using check_addrs_from_None [of idx side 0 "[]" a] by (simp add: check_end_addrs_def end_ok_def)

definition link_ip_ok :: "link_spec \<Rightarrow> bool" where
  "link_ip_ok l \<longleftrightarrow>
     end_ok (l_ip l) \<and> end_ok (l_peer_ip l) \<and> set (l_ip l) \<inter> set (l_peer_ip l) = {} \<and>
     (l_ip l \<noteq> [] \<longrightarrow> l_peer_ip l \<noteq> [] \<longrightarrow>
        (\<exists>x \<in> set (l_ip l). \<exists>y \<in> set (l_peer_ip l). ip_family x = ip_family y))"

lemma share_family_iff: "share_family a b \<longleftrightarrow> (\<exists>x \<in> set a. \<exists>y \<in> set b. ip_family x = ip_family y)"
proof
  assume "share_family a b"
  then obtain y where y: "y \<in> set b" "ip_family y \<in> ip_family ` set a"
    by (auto simp: share_family_def list_ex_iff)
  from y(2) obtain x where "ip_family y = ip_family x" "x \<in> set a" by (rule imageE)
  with y(1) show "\<exists>x \<in> set a. \<exists>y \<in> set b. ip_family x = ip_family y" by metis
next
  assume "\<exists>x \<in> set a. \<exists>y \<in> set b. ip_family x = ip_family y"
  then obtain x y where xy: "x \<in> set a" "y \<in> set b" "ip_family y = ip_family x" by metis
  then have "ip_family y \<in> ip_family ` set a" by simp
  with xy(2) show "share_family a b" unfolding share_family_def list_ex_iff by auto
qed

lemma validate_link_ip_ok: "validate_link_ip i l = None \<Longrightarrow> link_ip_ok l"
proof -
  assume a: "validate_link_ip i l = None"
  then have h: "check_end_addrs i ''local'' (l_ip l) = None" "check_end_addrs i ''peer'' (l_peer_ip l) = None"
    "find (\<lambda>a. a \<in> set (l_peer_ip l)) (l_ip l) = None"
    "l_ip l \<noteq> [] \<Longrightarrow> l_peer_ip l \<noteq> [] \<Longrightarrow> share_family (l_ip l) (l_peer_ip l)"
    by (auto simp: validate_link_ip_def split: option.splits if_splits)
  from h(3) have "set (l_ip l) \<inter> set (l_peer_ip l) = {}" by (auto simp: find_None_iff)
  moreover have "l_ip l \<noteq> [] \<longrightarrow> l_peer_ip l \<noteq> [] \<longrightarrow>
      (\<exists>x \<in> set (l_ip l). \<exists>y \<in> set (l_peer_ip l). ip_family x = ip_family y)"
    using h(4) by (simp add: share_family_iff)
  ultimately show ?thesis using h(1,2) by (simp add: link_ip_ok_def check_end_addrs_None)
qed

text \<open>
  C11: links that pass \<open>ValidateLinkIPs\<close> carry, on each end, addresses that parse (every one past
  the first with its prefix), none twice on an end and none on both, and two addressed ends have
  an address family in common.
\<close>

theorem link_ips_sound:
  assumes "validate_link_ips links = None"
  shows "list_all link_ip_ok links"
proof -
  have "\<forall>j < length links. link_ip_ok (links ! j)"
    by (intro allI impI, rule validate_link_ip_ok,
        rule assms [unfolded validate_link_ips_def first_error_None, rule_format])
  then show ?thesis by (simp add: list_all_length)
qed

theorem link_ips_sound_witness:
  "list_all link_ip_ok
     [(basic_link ''a'' ''eth1'' ''b'' ''eth1'')\<lparr>l_ip := [''10.0.0.1/30'', ''2001:db8::1/64''], l_peer_ip := [''10.0.0.2'']\<rparr>]"
  by (rule link_ips_sound) code_simp

section \<open>Addresses only where the driver does L3\<close>

definition driver_instance_for_node :: "registry \<Rightarrow> node_spec \<Rightarrow> registry_error + driver" where
  "driver_instance_for_node reg n =
     (let name = trim_space (n_driver n) in
      if name = [] then bindR (resolve_default_for_type (n_type n)) (new_by_name reg)
      else new_by_name reg name)"

definition node_by_name :: "node_spec list \<Rightarrow> string \<rightharpoonup> node_spec" where
  "node_by_name nodes = map_of (rev (map (\<lambda>n. (n_name n, n)) nodes))"

text \<open>\<open>supportsL3\<close>: \<open>None\<close> when the endpoint is not known here.\<close>

definition supports_l3 :: "registry \<Rightarrow> node_spec list \<Rightarrow> string \<Rightarrow> bool option" where
  "supports_l3 reg nodes name =
     (if name = [] \<or> name = external_node_name then None
      else case node_by_name nodes name of
        None \<Rightarrow> None
      | Some n \<Rightarrow> Some (case driver_instance_for_node reg n of
                          Inl _ \<Rightarrow> False
                        | Inr d \<Rightarrow> ''L3Capable'' \<in> set (d_caps d)))"

definition validate_link_ip_capability :: "registry \<Rightarrow> node_spec list \<Rightarrow> nat \<Rightarrow> link_spec \<Rightarrow> ip_error option" where
  "validate_link_ip_capability reg nodes i l =
     (if l_ip l \<noteq> [] \<and> supports_l3 reg nodes (l_node l) = Some False then Some (IpNoL3 i (l_node l))
      else if l_peer_ip l \<noteq> [] \<and> supports_l3 reg nodes (l_peer l) = Some False then Some (IpNoL3 i (l_peer l))
      else None)"

definition validate_link_ip_capabilities :: "registry \<Rightarrow> link_spec list \<Rightarrow> node_spec list \<Rightarrow> ip_error option" where
  "validate_link_ip_capabilities reg links nodes = first_error (validate_link_ip_capability reg nodes) 0 links"

lemma node_by_name_distinct:
  "distinct (node_names nodes) \<Longrightarrow> n \<in> set nodes \<Longrightarrow> node_by_name nodes (n_name n) = Some n"
proof -
  assume a: "distinct (node_names nodes)" "n \<in> set nodes"
  have "distinct (map fst (rev (map (\<lambda>n. (n_name n, n)) nodes)))"
    using a(1) by (simp add: node_names_def rev_map o_def distinct_rev [symmetric, of "map n_name nodes"])
  then show ?thesis using a(2) by (simp add: node_by_name_def map_of_eq_Some_iff)
qed

text \<open>
  When \<open>ValidateLinkIPCapabilities\<close> accepts the links, an end that is written as the name of
  a node and carries an address belongs to a node whose driver has L3.
\<close>

theorem link_ip_capability_sound:
  assumes ok: "validate_link_ip_capabilities reg links nodes = None"
    and l: "l \<in> set links" and d: "distinct (node_names nodes)" and n: "n \<in> set nodes"
    and at: "l_node l = n_name n \<and> l_ip l \<noteq> [] \<or> l_peer l = n_name n \<and> l_peer_ip l \<noteq> []"
    and nm: "n_name n \<noteq> []" "n_name n \<noteq> external_node_name"
  shows "\<exists>drv. driver_instance_for_node reg n = Inr drv \<and> ''L3Capable'' \<in> set (d_caps drv)"
proof -
  obtain j where j: "j < length links" "l = links ! j" using l by (auto simp: in_set_conv_nth)
  have "validate_link_ip_capability reg nodes (0 + j) (links ! j) = None"
    using ok [unfolded validate_link_ip_capabilities_def first_error_None] j(1) by blast
  then have "supports_l3 reg nodes (n_name n) \<noteq> Some False"
    using at j(2) by (auto simp: validate_link_ip_capability_def split: if_splits)
  then show ?thesis
    using nm node_by_name_distinct [OF d n] by (auto simp: supports_l3_def split: sum.splits)
qed

theorem link_ip_capability_sound_witness:
  "\<exists>drv. driver_instance_for_node startup_registry (basic_node ''r'' ''router'' 1) = Inr drv \<and> ''L3Capable'' \<in> set (d_caps drv)"
  by (rule link_ip_capability_sound
      [where links = "[(basic_link ''r'' ''eth1'' ''s'' ''eth1'')\<lparr>l_ip := [''10.0.0.1/24'']\<rparr>]"
        and nodes = "[basic_node ''r'' ''router'' 1, basic_node ''s'' ''switch'' 1]"
        and l = "(basic_link ''r'' ''eth1'' ''s'' ''eth1'')\<lparr>l_ip := [''10.0.0.1/24'']\<rparr>"]) code_simp+

text \<open>
  The same gate does not look behind an indexed name: an address on a pod of a switch with
  two replicas, which a link can only name with its index, is accepted by every check of the
  request, while the same address on a switch with one replica is refused.
\<close>

theorem link_ip_capability_misses_indexed_pods:
  "let sw = (\<lambda>r. basic_node ''sw'' ''switch'' r);
       l = (\<lambda>e. (basic_link e ''eth1'' ''h'' ''eth1'')\<lparr>l_ip := [''10.0.0.1/24'']\<rparr>);
       h = basic_node ''h'' ''host'' 1
   in validate_links_for_modify [l ''sw-0''] [sw 2, h] = None \<and>
      validate_links_for_modify [l ''sw''] [sw 2, h] \<noteq> None \<and>
      validate_link_ip_capabilities startup_registry [l ''sw-0''] [sw 2, h] = None \<and>
      resolve_pod_name ''sw-0'' [sw 2, h] \<in> set (pods_of_node (sw 2)) \<and>
      validate_link_ip_capabilities startup_registry [l ''sw''] [sw 1, h] = Some (IpNoL3 0 ''sw'')"
  unfolding Let_def by (intro conjI; code_simp)

section \<open>Placement\<close>

record cluster_node =
  k_name :: string
  k_labels :: "(string \<times> string) list"
  k_conditions :: "(string \<times> string) list"

datatype placement_error = PlNoNode string string | PlLabels string string | PlNoReady string | PlList

definition node_is_ready :: "cluster_node \<Rightarrow> bool" where
  "node_is_ready k = (case find (\<lambda>(t, _). t = ''Ready'') (k_conditions k) of
     None \<Rightarrow> False | Some (_, st) \<Rightarrow> st = ''True'')"

definition cluster_by_name :: "cluster_node list \<Rightarrow> string \<rightharpoonup> cluster_node" where
  "cluster_by_name ks = map_of (rev (map (\<lambda>k. (k_name k, k)) ks))"

definition check_placement_of ::
  "((string \<times> string) list \<Rightarrow> (string \<times> string) list \<Rightarrow> bool) \<Rightarrow> cluster_node list \<Rightarrow> node_spec \<Rightarrow> placement_error option" where
  "check_placement_of sel ks n =
     (if n_node_name n \<noteq> [] then
        (case cluster_by_name ks (n_node_name n) of
           None \<Rightarrow> Some (PlNoNode (n_name n) (n_node_name n))
         | Some k \<Rightarrow> if n_selector n \<noteq> [] \<and> \<not> sel (n_selector n) (k_labels k)
                     then Some (PlLabels (n_name n) (n_node_name n)) else None)
      else if n_selector n \<noteq> [] then
        (if list_ex (\<lambda>k. node_is_ready k \<and> sel (n_selector n) (k_labels k)) ks then None
         else Some (PlNoReady (n_name n)))
      else None)"

definition check_placement ::
  "((string \<times> string) list \<Rightarrow> (string \<times> string) list \<Rightarrow> bool) \<Rightarrow> node_spec list \<Rightarrow> cluster_node list \<Rightarrow> placement_error option" where
  "check_placement sel specs ks = first_error (\<lambda>_. check_placement_of sel ks) 0 specs"

text \<open>\<open>ValidateNodePlacement\<close>: the cluster is listed only when a node asks for something; \<open>listed\<close> is the list call.\<close>

definition validate_node_placement ::
  "((string \<times> string) list \<Rightarrow> (string \<times> string) list \<Rightarrow> bool) \<Rightarrow> cluster_node list option \<Rightarrow> node_spec list \<Rightarrow> placement_error option" where
  "validate_node_placement sel listed specs =
     (if list_ex (\<lambda>n. n_node_name n \<noteq> [] \<or> n_selector n \<noteq> []) specs then
        (case listed of None \<Rightarrow> Some PlList | Some ks \<Rightarrow> check_placement sel specs ks)
      else None)"

definition placeable ::
  "((string \<times> string) list \<Rightarrow> (string \<times> string) list \<Rightarrow> bool) \<Rightarrow> cluster_node list \<Rightarrow> node_spec \<Rightarrow> bool" where
  "placeable sel ks n \<longleftrightarrow>
     (n_selector n = [] \<and> n_node_name n = []) \<or>
     (\<exists>k \<in> set ks. (n_node_name n \<noteq> [] \<longrightarrow> k_name k = n_node_name n) \<and>
        (n_selector n \<noteq> [] \<longrightarrow> sel (n_selector n) (k_labels k)))"

lemma cluster_by_name_SomeD: "cluster_by_name ks x = Some k \<Longrightarrow> k \<in> set ks \<and> k_name k = x"
  by (auto simp: cluster_by_name_def dest!: map_of_SomeD)

lemma check_placement_of_placeable:
  assumes ok: "check_placement_of sel ks n = None"
  shows "placeable sel ks n"
proof (cases "n_node_name n = []")
  case False
  with ok obtain k where k: "cluster_by_name ks (n_node_name n) = Some k"
    "n_selector n \<noteq> [] \<longrightarrow> sel (n_selector n) (k_labels k)"
    by (auto simp: check_placement_of_def split: option.splits if_splits)
  with cluster_by_name_SomeD [OF k(1)] show ?thesis unfolding placeable_def by metis
next
  case True
  show ?thesis
  proof (cases "n_selector n = []")
    case False
    with ok True have "list_ex (\<lambda>k. node_is_ready k \<and> sel (n_selector n) (k_labels k)) ks"
      by (simp add: check_placement_of_def split: if_splits)
    then obtain k where "k \<in> set ks" "sel (n_selector n) (k_labels k)" by (auto simp: list_ex_iff)
    with True show ?thesis unfolding placeable_def by metis
  qed (use True in \<open>simp add: placeable_def\<close>)
qed

text \<open>
  A request that passes \<open>ValidateNodePlacement\<close> has, for every node that asks for a worker
  by name, by labels or by both, a worker of the cluster that satisfies all it asks.
\<close>

theorem placement_sound:
  assumes "validate_node_placement sel (Some ks) specs = None" and "n \<in> set specs"
  shows "placeable sel ks n"
proof (cases "list_ex (\<lambda>n. n_node_name n \<noteq> [] \<or> n_selector n \<noteq> []) specs")
  case True
  with assms show ?thesis
    by (simp add: validate_node_placement_def check_placement_def first_error_None_all check_placement_of_placeable)
next
  case False
  with assms(2) show ?thesis by (auto simp: list_ex_iff placeable_def)
qed

theorem placement_sound_witness:
  "placeable (\<lambda>s ls. set s \<subseteq> set ls)
     [\<lparr>k_name = ''w1'', k_labels = [(''kvm'', ''1'')], k_conditions = [(''Ready'', ''True'')]\<rparr>]
     ((basic_node ''v'' ''router'' 1)\<lparr>n_selector := [(''kvm'', ''1'')]\<rparr>)"
  by (rule placement_sound [where specs = "[(basic_node ''v'' ''router'' 1)\<lparr>n_selector := [(''kvm'', ''1'')]\<rparr>]"])
    code_simp+

end
