(* ===== verification/Store.thy ===== *)
theory Store
  imports Go_Prelude
begin

text \<open>
  The database of \<open>database/database.go\<close> as its clients see it: a table of rows behind a handle
  that may be missing (\<open>DB == nil\<close>), the identity of the current cluster, and statements that
  may fail. Which statements fail is a list of booleans in the state, one consumed by each
  statement; past its end every statement succeeds. A transaction restores the rows it found
  when its body or its commit fails.
\<close>

section \<open>Operations with a state and an error\<close>

type_synonym ('s, 'e, 'a) op = "'s \<Rightarrow> ('e + 'a) \<times> 's"

definition op_ret :: "'a \<Rightarrow> ('s, 'e, 'a) op" where "op_ret a = (\<lambda>s. (Inr a, s))"

definition op_fail :: "'e \<Rightarrow> ('s, 'e, 'a) op" where "op_fail e = (\<lambda>s. (Inl e, s))"

definition op_bind :: "('s, 'e, 'a) op \<Rightarrow> ('a \<Rightarrow> ('s, 'e, 'b) op) \<Rightarrow> ('s, 'e, 'b) op" where
  "op_bind m f = (\<lambda>s. case m s of (Inl e, t) \<Rightarrow> (Inl e, t) | (Inr a, t) \<Rightarrow> f a t)"

definition op_lift :: "'e + 'a \<Rightarrow> ('s, 'e, 'a) op" where "op_lift r = (\<lambda>s. (r, s))"

lemma op_ret_apply [simp]: "op_ret a s = (Inr a, s)" by (simp add: op_ret_def)

lemma op_fail_apply [simp]: "op_fail e s = (Inl e, s)" by (simp add: op_fail_def)

lemma op_lift_apply [simp]: "op_lift r s = (r, s)" by (simp add: op_lift_def)

lemma op_bind_Inr: "op_bind m f s = (Inr b, u) \<longleftrightarrow> (\<exists>a t. m s = (Inr a, t) \<and> f a t = (Inr b, u))"
  by (auto simp: op_bind_def split: prod.splits sum.splits)

lemma op_bind_Inl:
  "op_bind m f s = (Inl e, u) \<longleftrightarrow> m s = (Inl e, u) \<or> (\<exists>a t. m s = (Inr a, t) \<and> f a t = (Inl e, u))"
  by (auto simp: op_bind_def split: prod.splits sum.splits)

lemma op_bind_ok: "m s = (Inr a, t) \<Longrightarrow> op_bind m f s = f a t"
  by (simp add: op_bind_def)

lemma op_bind_err: "m s = (Inl e, t) \<Longrightarrow> op_bind m f s = (Inl e, t)"
  by (simp add: op_bind_def)

definition op_map_err :: "('e \<Rightarrow> 'f) \<Rightarrow> ('s, 'e, 'a) op \<Rightarrow> ('s, 'f, 'a) op" where
  "op_map_err g m = (\<lambda>s. case m s of (Inl e, t) \<Rightarrow> (Inl (g e), t) | (Inr a, t) \<Rightarrow> (Inr a, t))"

lemma op_map_err_Inr: "op_map_err g m s = (Inr a, t) \<longleftrightarrow> m s = (Inr a, t)"
  by (auto simp: op_map_err_def split: prod.splits sum.splits)

section \<open>A table\<close>

record 'row store =
  st_open :: bool
  st_cluster :: "string option"
  st_faults :: "bool list"
  st_rows :: "'row list"

datatype db_error = DbClosed | NoCluster | StmtFailed string

definition need_open :: "('row store, db_error, unit) op" where
  "need_open = (\<lambda>s. if st_open s then (Inr (), s) else (Inl DbClosed, s))"

definition need_cluster :: "('row store, db_error, string) op" where
  "need_cluster = (\<lambda>s. case st_cluster s of None \<Rightarrow> (Inl NoCluster, s) | Some c \<Rightarrow> (Inr c, s))"

definition next_fault :: "'row store \<Rightarrow> bool \<times> 'row store" where
  "next_fault s = (case st_faults s of [] \<Rightarrow> (False, s) | b # bs \<Rightarrow> (b, s\<lparr>st_faults := bs\<rparr>))"

definition db_query :: "string \<Rightarrow> ('row list \<Rightarrow> 'a) \<Rightarrow> ('row store, db_error, 'a) op" where
  "db_query what f = (\<lambda>s. let (bad, t) = next_fault s in
     if bad then (Inl (StmtFailed what), t) else (Inr (f (st_rows t)), t))"

definition db_exec :: "string \<Rightarrow> ('row list \<Rightarrow> 'row list) \<Rightarrow> ('row store, db_error, unit) op" where
  "db_exec what f = (\<lambda>s. let (bad, t) = next_fault s in
     if bad then (Inl (StmtFailed what), t) else (Inr (), t\<lparr>st_rows := f (st_rows t)\<rparr>))"

text \<open>
  \<open>DB.Begin\<close>, the body, \<open>Commit\<close>, with the deferred \<open>Rollback\<close> on every other way out.
\<close>

definition db_tx :: "('row store, db_error, 'a) op \<Rightarrow> ('row store, db_error, 'a) op" where
  "db_tx body = (\<lambda>s. let (bad, t) = next_fault s in
     if bad then (Inl (StmtFailed ''begin''), t)
     else (case body t of
             (Inl e, u) \<Rightarrow> (Inl e, u\<lparr>st_rows := st_rows t\<rparr>)
           | (Inr a, u) \<Rightarrow>
               (let (bad', v) = next_fault u in
                if bad' then (Inl (StmtFailed ''commit''), v\<lparr>st_rows := st_rows t\<rparr>) else (Inr a, v))))"

lemma next_fault_rows [simp]:
  "st_rows (snd (next_fault s)) = st_rows s" "st_open (snd (next_fault s)) = st_open s"
  "st_cluster (snd (next_fault s)) = st_cluster s"
  by (simp_all add: next_fault_def split: list.splits)

lemma next_fault_SomeD: "next_fault s = (b, t) \<Longrightarrow> st_rows t = st_rows s \<and> st_open t = st_open s \<and> st_cluster t = st_cluster s"
  using next_fault_rows [of s] by simp

lemma next_fault_clean [simp]: "st_faults s = [] \<Longrightarrow> next_fault s = (False, s)"
  by (simp add: next_fault_def)

lemma db_query_Inr: "db_query w f s = (Inr a, t) \<Longrightarrow> a = f (st_rows s) \<and> st_rows t = st_rows s \<and> st_open t = st_open s \<and> st_cluster t = st_cluster s"
  by (auto simp: db_query_def Let_def split: prod.splits if_splits dest!: next_fault_SomeD)

lemma db_query_rows: "st_rows (snd (db_query w f s)) = st_rows s"
  by (auto simp: db_query_def Let_def split: prod.splits if_splits dest!: next_fault_SomeD)

lemma db_exec_Inr: "db_exec w f s = (Inr a, t) \<Longrightarrow> st_rows t = f (st_rows s) \<and> st_open t = st_open s \<and> st_cluster t = st_cluster s"
  by (auto simp: db_exec_def Let_def split: prod.splits if_splits dest!: next_fault_SomeD)

lemma db_exec_Inl: "db_exec w f s = (Inl e, t) \<Longrightarrow> st_rows t = st_rows s"
  by (auto simp: db_exec_def Let_def split: prod.splits if_splits dest!: next_fault_SomeD)

lemma db_exec_cases: "st_rows (snd (db_exec w f s)) \<in> {st_rows s, f (st_rows s)}"
  by (auto simp: db_exec_def Let_def split: prod.splits if_splits dest!: next_fault_SomeD)

lemma db_exec_keeps: "db_exec w f s = (r, t) \<Longrightarrow> st_cluster t = st_cluster s \<and> st_open t = st_open s"
  by (auto simp: db_exec_def Let_def split: prod.splits if_splits dest!: next_fault_SomeD)

lemma need_open_Inr [simp]: "need_open s = (Inr u, t) \<longleftrightarrow> st_open s \<and> t = s"
  by (auto simp: need_open_def)

lemma need_open_Inl: "need_open s = (Inl e, t) \<Longrightarrow> t = s \<and> \<not> st_open s \<and> e = DbClosed"
  by (auto simp: need_open_def split: if_splits)

lemma need_cluster_Inr [simp]: "need_cluster s = (Inr c, t) \<longleftrightarrow> st_cluster s = Some c \<and> t = s"
  by (auto simp: need_cluster_def split: option.splits)

lemma need_cluster_Inl: "need_cluster s = (Inl e, t) \<Longrightarrow> t = s \<and> st_cluster s = None \<and> e = NoCluster"
  by (auto simp: need_cluster_def split: option.splits)

lemma db_tx_Inl: "db_tx body s = (Inl e, t) \<Longrightarrow> st_rows t = st_rows s"
  by (auto simp: db_tx_def Let_def split: prod.splits if_splits sum.splits dest!: next_fault_SomeD)

lemma db_tx_Inr:
  "db_tx body s = (Inr a, t) \<Longrightarrow>
     \<exists>s' u. st_rows s' = st_rows s \<and> st_open s' = st_open s \<and> st_cluster s' = st_cluster s \<and>
            body s' = (Inr a, u) \<and> st_rows t = st_rows u"
  by (fastforce simp: db_tx_def Let_def split: prod.splits if_splits sum.splits dest!: next_fault_SomeD)

text \<open>A loop of statements.\<close>

primrec op_each :: "('x \<Rightarrow> ('s, 'e, unit) op) \<Rightarrow> 'x list \<Rightarrow> ('s, 'e, unit) op" where
  "op_each f [] = op_ret ()"
| "op_each f (x # xs) = op_bind (f x) (\<lambda>_. op_each f xs)"

lemma op_each_invariant:
  assumes "op_each f xs s = (Inr u, t)" and "P s"
    and "\<And>x s s'. x \<in> set xs \<Longrightarrow> P s \<Longrightarrow> f x s = (Inr (), s') \<Longrightarrow> P s'"
  shows "P t"
  using assms by (induction xs arbitrary: s) (auto simp: op_bind_Inr)

lemma op_each_exec_rows:
  assumes "op_each (\<lambda>x. db_exec w (g x)) xs s = (Inr u, t)"
  shows "st_rows t = fold g xs (st_rows s)"
  using assms by (induction xs arbitrary: s) (auto simp: op_bind_Inr dest!: db_exec_Inr)

end
