(* ===== verification/Topology_CRDs.thy ===== *)
theory Topology_CRDs
  imports Topology_Validation Store
begin

text \<open>
  The Topology resources that carry the wiring to the controller: how the links of a request
  are written, one entry on each pod (\<open>helpers/network.go\<close>, \<open>helpers/network_modify.go\<close>), how links
  are added to, removed from and read back out of them, and the two checks that read them
  before a write (interface conflicts, external labels).
  The API server is the record \<open>kube\<close>: the topologies of one namespace in listing order, and a
  list saying which calls fail. A Go map iterated by the code is the list of its entries in
  iteration order.
\<close>

section \<open>Resources and the API server\<close>

record crd_link =
  c_local_intf :: string
  c_local_ip :: string
  c_peer_pod :: string
  c_peer_intf :: string
  c_peer_ip :: string
  c_uid :: "int option"

text \<open>An item of \<open>spec.links\<close>: a link, or something that is not an object.\<close>

datatype crd_item = CLink crd_link | CJunk string

record topology =
  t_links :: "crd_item list option"
  t_label :: string
  t_names :: "(string \<times> string) list"

record kube =
  kb_topos :: "(string \<times> topology) list"
  kb_faults :: "bool list"

datatype kube_error = KFault | KNotFound | KExists

definition kube_fault :: "kube \<Rightarrow> bool \<times> kube" where
  "kube_fault s = (case kb_faults s of [] \<Rightarrow> (False, s) | b # bs \<Rightarrow> (b, s\<lparr>kb_faults := bs\<rparr>))"

definition topo_list :: "(kube, kube_error, (string \<times> topology) list) op" where
  "topo_list = (\<lambda>s. let (bad, t) = kube_fault s in if bad then (Inl KFault, t) else (Inr (kb_topos t), t))"

definition topo_get :: "string \<Rightarrow> (kube, kube_error, topology) op" where
  "topo_get name = (\<lambda>s. let (bad, t) = kube_fault s in
     if bad then (Inl KFault, t)
     else case map_of (kb_topos t) name of None \<Rightarrow> (Inl KNotFound, t) | Some x \<Rightarrow> (Inr x, t))"

definition topo_create :: "string \<Rightarrow> topology \<Rightarrow> (kube, kube_error, unit) op" where
  "topo_create name x = (\<lambda>s. let (bad, t) = kube_fault s in
     if bad then (Inl KFault, t)
     else if map_of (kb_topos t) name \<noteq> None then (Inl KExists, t)
     else (Inr (), t\<lparr>kb_topos := kb_topos t @ [(name, x)]\<rparr>))"

definition topo_update :: "string \<Rightarrow> topology \<Rightarrow> (kube, kube_error, unit) op" where
  "topo_update name x = (\<lambda>s. let (bad, t) = kube_fault s in
     if bad then (Inl KFault, t)
     else if map_of (kb_topos t) name = None then (Inl KNotFound, t)
     else (Inr (), t\<lparr>kb_topos := AList.update name x (kb_topos t)\<rparr>))"

definition topo_delete :: "string \<Rightarrow> (kube, kube_error, unit) op" where
  "topo_delete name = (\<lambda>s. let (bad, t) = kube_fault s in
     if bad then (Inl KFault, t)
     else if map_of (kb_topos t) name = None then (Inl KNotFound, t)
     else (Inr (), t\<lparr>kb_topos := AList.delete name (kb_topos t)\<rparr>))"

lemma kube_faultD: "kube_fault s = (b, t) \<Longrightarrow> kb_topos t = kb_topos s"
  by (auto simp: kube_fault_def split: list.splits)

lemma topo_list_Inr: "topo_list s = (Inr xs, t) \<Longrightarrow> xs = kb_topos s \<and> kb_topos t = kb_topos s"
  by (auto simp: topo_list_def Let_def split: prod.splits if_splits dest!: kube_faultD)

lemma topo_get_Inr: "topo_get n s = (Inr x, t) \<Longrightarrow> map_of (kb_topos s) n = Some x \<and> kb_topos t = kb_topos s"
  by (auto simp: topo_get_def Let_def split: prod.splits if_splits option.splits dest!: kube_faultD)

lemma topo_get_Inl: "topo_get n s = (Inl e, t) \<Longrightarrow> kb_topos t = kb_topos s \<and> (e = KNotFound \<longrightarrow> map_of (kb_topos s) n = None)"
  by (auto simp: topo_get_def Let_def split: prod.splits if_splits option.splits dest!: kube_faultD)

lemma topo_create_Inr:
  "topo_create n x s = (Inr u, t) \<Longrightarrow> kb_topos t = kb_topos s @ [(n, x)] \<and> n \<notin> fst ` set (kb_topos s)"
  by (auto simp: topo_create_def Let_def map_of_eq_None_iff split: prod.splits if_splits dest!: kube_faultD)

lemma topo_update_Inr:
  "topo_update n x s = (Inr u, t) \<Longrightarrow> kb_topos t = AList.update n x (kb_topos s) \<and> n \<in> fst ` set (kb_topos s)"
  by (auto simp: topo_update_def Let_def map_of_eq_None_iff split: prod.splits if_splits dest!: kube_faultD)

section \<open>Interface conflicts\<close>

type_synonym claims = "(string \<times> string list) list"

definition links_of :: "topology \<Rightarrow> crd_link list" where
  "links_of t = (case t_links t of None \<Rightarrow> []
     | Some items \<Rightarrow> concat (map (\<lambda>i. case i of CLink c \<Rightarrow> [c] | CJunk _ \<Rightarrow> []) items))"

definition add_pods :: "node_spec list \<Rightarrow> link_spec \<Rightarrow> string list \<Rightarrow> string list" where
  "add_pods nodes l acc =
     (let acc1 = (if l_node l \<noteq> external_node_name then add_new (resolve_pod_name (l_node l) nodes) acc else acc)
      in if l_peer l \<noteq> external_node_name then add_new (resolve_pod_name (l_peer l) nodes) acc1 else acc1)"

definition pods_referenced :: "link_spec list \<Rightarrow> node_spec list \<Rightarrow> string list" where
  "pods_referenced links nodes = fold (add_pods nodes) links []"

definition claimed_interfaces :: "(string \<times> topology) list \<Rightarrow> string list \<Rightarrow> claims" where
  "claimed_interfaces items pods =
     fold (\<lambda>(name, t) m. if name \<in> set pods
        then AList.update name (filter (\<lambda>i. i \<noteq> []) (map c_local_intf (links_of t))) m else m) items []"

definition used_on :: "claims \<Rightarrow> string \<Rightarrow> string list" where
  "used_on m pod = (case map_of m pod of None \<Rightarrow> [] | Some xs \<Rightarrow> xs)"

definition claim :: "string \<Rightarrow> string \<Rightarrow> claims \<Rightarrow> claims" where
  "claim pod intf m = AList.update pod (intf # used_on m pod) m"

text \<open>One end of a link: checked against everything claimed so far, then claimed.\<close>

definition claim_end :: "node_spec list \<Rightarrow> nat \<Rightarrow> string \<Rightarrow> string \<Rightarrow> claims \<Rightarrow> link_error + claims" where
  "claim_end nodes i node intf m =
     (if node = external_node_name then Inr m
      else let pod = resolve_pod_name node nodes in
           if intf \<in> set (used_on m pod) then Inl (LIntfBusy i intf pod) else Inr (claim pod intf m))"

fun check_conflicts_from :: "node_spec list \<Rightarrow> nat \<Rightarrow> link_spec list \<Rightarrow> claims \<Rightarrow> link_error + claims" where
  "check_conflicts_from nodes i [] m = Inr m"
| "check_conflicts_from nodes i (l # ls) m =
     bindR (claim_end nodes i (l_node l) (l_intf l) m) (\<lambda>m1.
       bindR (claim_end nodes i (l_peer l) (l_peer_intf l) m1) (\<lambda>m2. check_conflicts_from nodes (Suc i) ls m2))"

definition check_interface_conflicts :: "link_spec list \<Rightarrow> node_spec list \<Rightarrow> claims \<Rightarrow> link_error option" where
  "check_interface_conflicts links nodes m =
     (case check_conflicts_from nodes 0 links m of Inl e \<Rightarrow> Some e | Inr _ \<Rightarrow> None)"

definition validate_interface_conflicts :: "link_spec list \<Rightarrow> node_spec list \<Rightarrow> kube \<Rightarrow> link_error option" where
  "validate_interface_conflicts links nodes s =
     (case topo_list s of
        (Inl _, _) \<Rightarrow> Some LListFailed
      | (Inr items, _) \<Rightarrow>
          check_interface_conflicts links nodes (claimed_interfaces items (pods_referenced links nodes)))"

text \<open>The pod interfaces a list of links takes, in the order the check visits them.\<close>

definition end_of :: "node_spec list \<Rightarrow> string \<Rightarrow> string \<Rightarrow> (string \<times> string) list" where
  "end_of nodes node intf = (if node = external_node_name then [] else [(resolve_pod_name node nodes, intf)])"

definition ends_of :: "node_spec list \<Rightarrow> link_spec list \<Rightarrow> (string \<times> string) list" where
  "ends_of nodes links =
     concat (map (\<lambda>l. end_of nodes (l_node l) (l_intf l) @ end_of nodes (l_peer l) (l_peer_intf l)) links)"

definition claimed :: "claims \<Rightarrow> (string \<times> string) set" where
  "claimed m = {(pod, intf). intf \<in> set (used_on m pod)}"

lemma claimed_claim [simp]: "claimed (claim pod intf m) = insert (pod, intf) (claimed m)"
  by (auto simp: claimed_def claim_def used_on_def update_conv' split: if_splits)

lemma claim_end_Inr:
  "claim_end nodes i node intf m = Inr m' \<Longrightarrow>
     set (end_of nodes node intf) \<inter> claimed m = {} \<and> claimed m' = claimed m \<union> set (end_of nodes node intf)"
  by (auto simp: claim_end_def end_of_def claimed_def Let_def used_on_def claim_def update_conv' split: if_splits)

lemma claim_end_ok:
  "set (end_of nodes node intf) \<inter> claimed m = {} \<Longrightarrow> \<exists>m'. claim_end nodes i node intf m = Inr m'"
  by (auto simp: claim_end_def end_of_def claimed_def Let_def split: if_splits)

lemma distinct_end_of [simp]: "distinct (end_of nodes node intf)"
  by (simp add: end_of_def)

lemma check_conflicts_from_iff:
  "(\<exists>m'. check_conflicts_from nodes i links m = Inr m') \<longleftrightarrow>
     distinct (ends_of nodes links) \<and> set (ends_of nodes links) \<inter> claimed m = {}"
proof (induction links arbitrary: i m)
  case (Cons l ls)
  let ?a = "end_of nodes (l_node l) (l_intf l)" and ?b = "end_of nodes (l_peer l) (l_peer_intf l)"
  have ends: "ends_of nodes (l # ls) = ?a @ ?b @ ends_of nodes ls" by (simp add: ends_of_def)
  show ?case
  proof
    assume "\<exists>m'. check_conflicts_from nodes i (l # ls) m = Inr m'"
    then obtain m1 m2 m3 where
      s: "claim_end nodes i (l_node l) (l_intf l) m = Inr m1" "claim_end nodes i (l_peer l) (l_peer_intf l) m1 = Inr m2"
         "check_conflicts_from nodes (Suc i) ls m2 = Inr m3"
      by (auto simp: bindR_Inr)
    from Cons.IH [of "Suc i" m2] s(3) have "distinct (ends_of nodes ls)" "set (ends_of nodes ls) \<inter> claimed m2 = {}" by auto
    with claim_end_Inr [OF s(1)] claim_end_Inr [OF s(2)] show "distinct (ends_of nodes (l # ls)) \<and> set (ends_of nodes (l # ls)) \<inter> claimed m = {}"
      unfolding ends by auto
  next
    assume "distinct (ends_of nodes (l # ls)) \<and> set (ends_of nodes (l # ls)) \<inter> claimed m = {}"
    then have d: "set ?a \<inter> set ?b = {}" "(set ?a \<union> set ?b) \<inter> set (ends_of nodes ls) = {}" "distinct (ends_of nodes ls)"
      "set ?a \<inter> claimed m = {}" "set ?b \<inter> claimed m = {}" "set (ends_of nodes ls) \<inter> claimed m = {}"
      unfolding ends by auto
    obtain m1 where m1: "claim_end nodes i (l_node l) (l_intf l) m = Inr m1" using claim_end_ok d(4) by blast
    have "set ?b \<inter> claimed m1 = {}" using claim_end_Inr [OF m1] d by auto
    then obtain m2 where m2: "claim_end nodes i (l_peer l) (l_peer_intf l) m1 = Inr m2" using claim_end_ok by blast
    have "set (ends_of nodes ls) \<inter> claimed m2 = {}" using claim_end_Inr [OF m1] claim_end_Inr [OF m2] d by auto
    with d Cons.IH [of "Suc i" m2] m1 m2 show "\<exists>m'. check_conflicts_from nodes i (l # ls) m = Inr m'" by auto
  qed
qed (simp add: ends_of_def)

lemma check_interface_conflicts_None:
  "check_interface_conflicts links nodes m = None \<longleftrightarrow>
     distinct (ends_of nodes links) \<and> set (ends_of nodes links) \<inter> claimed m = {}"
  using check_conflicts_from_iff [of nodes 0 links m]
  by (auto simp: check_interface_conflicts_def split: sum.splits)

lemma used_on_update [simp]: "used_on (AList.update n v m) k = (if k = n then v else used_on m k)"
  by (simp add: used_on_def update_conv')

lemma used_on_Nil [simp]: "used_on [] k = []"
  by (simp add: used_on_def)

lemma fold_claimed_absent:
  "name \<notin> fst ` set items \<Longrightarrow>
   used_on (fold (\<lambda>(n, t) m. if n \<in> set pods then AList.update n (f t) m else m) items m) name = used_on m name"
  by (induction items arbitrary: m) auto

lemma used_on_fold:
  assumes "distinct (map fst items)" and "(name, t) \<in> set items"
  shows "used_on (fold (\<lambda>(n, t) m. if n \<in> set pods then AList.update n (f t) m else m) items m) name =
     (if name \<in> set pods then f t else used_on m name)"
  using assms
proof (induction items arbitrary: m)
  case (Cons x items)
  obtain n u where x: "x = (n, u)" by (cases x)
  show ?case
  proof (cases "n = name")
    case True
    with Cons.prems x have "u = t" "name \<notin> fst ` set items" by (force simp: image_iff)+
    with True x show ?thesis by (simp add: fold_claimed_absent)
  next
    case False
    with Cons.prems x have "(name, t) \<in> set items" "distinct (map fst items)" by auto
    with False x show ?thesis by (simp add: Cons.IH)
  qed
qed simp

lemma claimed_claimed_interfaces:
  assumes "distinct (map fst items)"
  shows "(p, i) \<in> claimed (claimed_interfaces items pods) \<longleftrightarrow>
     p \<in> set pods \<and> i \<noteq> [] \<and> (\<exists>t. (p, t) \<in> set items \<and> i \<in> c_local_intf ` set (links_of t))"
proof (cases "p \<in> fst ` set items")
  case True
  then obtain t where t: "(p, t) \<in> set items" by auto
  have u: "(p, t') \<in> set items \<Longrightarrow> t' = t" for t'
    using assms t by (metis map_of_eq_Some_iff option.inject)
  have ex: "(\<exists>t. (p, t) \<in> set items \<and> i \<in> c_local_intf ` set (links_of t)) \<longleftrightarrow> i \<in> c_local_intf ` set (links_of t)"
    using t u by blast
  show ?thesis
    unfolding claimed_def claimed_interfaces_def mem_Collect_eq prod.case ex
    unfolding used_on_fold [OF assms t, of pods "\<lambda>t. filter (\<lambda>i. i \<noteq> []) (map c_local_intf (links_of t))" "[]"]
    by auto
next
  case False
  then have "\<not> (\<exists>t. (p, t) \<in> set items)" by force
  then show ?thesis
    unfolding claimed_def claimed_interfaces_def mem_Collect_eq prod.case fold_claimed_absent [OF False] by simp
qed

lemma set_add_pods:
  "set (add_pods nodes l acc) =
     set acc \<union> fst ` set (end_of nodes (l_node l) (l_intf l) @ end_of nodes (l_peer l) (l_peer_intf l))"
  by (auto simp: add_pods_def end_of_def Let_def)

lemma set_pods_referenced: "set (pods_referenced links nodes) = fst ` set (ends_of nodes links)"
proof -
  have "set (fold (add_pods nodes) links acc) = set acc \<union> fst ` set (ends_of nodes links)" for acc
  proof (induction links arbitrary: acc)
    case (Cons l ls)
    have "set (fold (add_pods nodes) (l # ls) acc) = set (add_pods nodes l acc) \<union> fst ` set (ends_of nodes ls)"
      using Cons.IH by simp
    then show ?case unfolding set_add_pods by (simp add: ends_of_def image_Un Un_assoc)
  qed (simp add: ends_of_def)
  then show ?thesis by (simp add: pods_referenced_def)
qed

lemma pods_referenced_ends: "(p, i) \<in> set (ends_of nodes links) \<Longrightarrow> p \<in> set (pods_referenced links nodes)"
  unfolding set_pods_referenced by force

lemma topo_list_clean: "kb_faults s = [] \<Longrightarrow> topo_list s = (Inr (kb_topos s), s)"
  by (simp add: topo_list_def kube_fault_def)

text \<open>
  C3: on a namespace that can be listed, \<open>ValidateInterfaceConflicts\<close> accepts a list of links
  exactly when no two of their ends land on the same interface of the same pod and no end lands
  on an interface the pod's Topology already wires. Ends on the external network never conflict.
\<close>

theorem interface_conflicts_exact:
  assumes "distinct (map fst (kb_topos s))" and "kb_faults s = []"
  shows "validate_interface_conflicts links nodes s = None \<longleftrightarrow>
     distinct (ends_of nodes links) \<and>
     (\<forall>p i t. (p, i) \<in> set (ends_of nodes links) \<and> (p, t) \<in> set (kb_topos s) \<and> i \<noteq> [] \<longrightarrow>
        i \<notin> c_local_intf ` set (links_of t))"
proof -
  let ?E = "set (ends_of nodes links)" and ?P = "pods_referenced links nodes"
  have "?E \<inter> claimed (claimed_interfaces (kb_topos s) ?P) = {} \<longleftrightarrow>
     (\<forall>p i. (p, i) \<in> ?E \<longrightarrow> (p, i) \<notin> claimed (claimed_interfaces (kb_topos s) ?P))" by auto
  also have "\<dots> \<longleftrightarrow> (\<forall>p i t. (p, i) \<in> ?E \<and> (p, t) \<in> set (kb_topos s) \<and> i \<noteq> [] \<longrightarrow>
        i \<notin> c_local_intf ` set (links_of t))"
    unfolding claimed_claimed_interfaces [OF assms(1)] using pods_referenced_ends by blast
  finally show ?thesis
    by (simp add: validate_interface_conflicts_def topo_list_clean [OF assms(2)] check_interface_conflicts_None)
qed

definition wired_example :: kube where
  "wired_example =
     \<lparr>kb_topos = [(''a-0'', \<lparr>t_links = Some [CLink \<lparr>c_local_intf = ''eth1'', c_local_ip = [], c_peer_pod = ''b-0'',
        c_peer_intf = ''eth1'', c_peer_ip = [], c_uid = Some 1000000\<rparr>], t_label = [], t_names = []\<rparr>)], kb_faults = []\<rparr>"

theorem interface_conflicts_exact_witness:
  "validate_interface_conflicts [basic_link ''a'' ''eth1'' ''external'' ''eno1''] [basic_node ''a'' ''host'' 1] wired_example \<noteq> None \<and>
   validate_interface_conflicts [basic_link ''a'' ''eth2'' ''external'' ''eno1''] [basic_node ''a'' ''host'' 1] wired_example = None"
proof -
  have d: "distinct (map fst (kb_topos wired_example))" "kb_faults wired_example = []" by (simp_all add: wired_example_def)
  have e: "ends_of [basic_node ''a'' ''host'' 1] [basic_link ''a'' ''eth1'' ''external'' ''eno1''] = [(''a-0'', ''eth1'')]"
    "ends_of [basic_node ''a'' ''host'' 1] [basic_link ''a'' ''eth2'' ''external'' ''eno1''] = [(''a-0'', ''eth2'')]"
    by code_simp+
  show ?thesis
    unfolding interface_conflicts_exact [OF d] e by (simp add: wired_example_def links_of_def)
qed

section \<open>External labels\<close>

text \<open>The pairs (host interface, label) in force: every uplink entry of a labelled pod.\<close>

definition external_pairs :: "(string \<times> topology) list \<Rightarrow> (string \<times> string) list" where
  "external_pairs items =
     concat (map (\<lambda>(name, t).
       (let lab = trim_space (t_label t) in
        if lab = [] then []
        else concat (map (\<lambda>c. if c_peer_pod c = crd_external_peer_pod \<and> trim_space (c_peer_intf c) \<noteq> []
                              then [(trim_space (c_peer_intf c), lab)] else []) (links_of t)))) items)"

text \<open>Both maps, filled in order: a later pair overwrites an earlier one.\<close>

definition external_label_maps :: "(string \<times> topology) list \<Rightarrow> (string \<times> string) list \<times> (string \<times> string) list" where
  "external_label_maps items =
     fold (\<lambda>(intf, lab) (m1, m2). (AList.update intf lab m1, AList.update lab intf m2)) (external_pairs items) ([], [])"

definition extract_external_side :: "link_spec \<Rightarrow> (string \<times> string) option" where
  "extract_external_side l =
     (if l_peer l = external_node_name then Some (trim_space (l_peer_intf l), trim_space (l_peer_label l))
      else if l_node l = external_node_name then Some (trim_space (l_intf l), trim_space (l_peer_label l))
      else None)"

fun check_labels_from :: "nat \<Rightarrow> link_spec list \<Rightarrow> (string \<times> string) list \<Rightarrow> (string \<times> string) list \<Rightarrow> link_error option" where
  "check_labels_from i [] m1 m2 = None"
| "check_labels_from i (l # ls) m1 m2 =
     (case extract_external_side l of
        None \<Rightarrow> check_labels_from (Suc i) ls m1 m2
      | Some (intf, lab) \<Rightarrow>
          if intf = [] \<or> lab = [] then check_labels_from (Suc i) ls m1 m2
          else if map_of m1 intf \<notin> {None, Some lab} then Some (LLabelTaken i intf lab)
          else if map_of m2 lab \<notin> {None, Some intf} then Some (LIntfTaken i intf lab)
          else check_labels_from (Suc i) ls (AList.update intf lab m1) (AList.update lab intf m2))"

definition validate_external_label_consistency :: "link_spec list \<Rightarrow> kube \<Rightarrow> link_error option" where
  "validate_external_label_consistency links s =
     (case topo_list s of
        (Inl _, _) \<Rightarrow> Some LListFailed
      | (Inr items, _) \<Rightarrow> (let (m1, m2) = external_label_maps items in check_labels_from 0 links m1 m2))"

definition label_pairs :: "link_spec list \<Rightarrow> (string \<times> string) list" where
  "label_pairs links =
     concat (map (\<lambda>l. case extract_external_side l of None \<Rightarrow> []
        | Some (i, lab) \<Rightarrow> if i = [] \<or> lab = [] then [] else [(i, lab)]) links)"

text \<open>A relation that is one-to-one in both directions.\<close>

definition one_to_one :: "('a \<times> 'b) set \<Rightarrow> bool" where
  "one_to_one R \<longleftrightarrow> (\<forall>(a, b) \<in> R. \<forall>(c, d) \<in> R. a = c \<longleftrightarrow> b = d)"

lemma one_to_oneD1: "one_to_one R \<Longrightarrow> (a, b) \<in> R \<Longrightarrow> (a, d) \<in> R \<Longrightarrow> b = d"
  by (fastforce simp: one_to_one_def)

lemma one_to_oneD2: "one_to_one R \<Longrightarrow> (a, b) \<in> R \<Longrightarrow> (c, b) \<in> R \<Longrightarrow> a = c"
  by (fastforce simp: one_to_one_def)

lemma one_to_oneI:
  "(\<And>a b d. (a, b) \<in> R \<Longrightarrow> (a, d) \<in> R \<Longrightarrow> b = d) \<Longrightarrow> (\<And>a b c. (a, b) \<in> R \<Longrightarrow> (c, b) \<in> R \<Longrightarrow> a = c) \<Longrightarrow> one_to_one R"
  unfolding one_to_one_def by blast

text \<open>The two maps hold a one-to-one relation \<open>R\<close>.\<close>

definition maps_hold :: "(string \<times> string) set \<Rightarrow> (string \<times> string) list \<Rightarrow> (string \<times> string) list \<Rightarrow> bool" where
  "maps_hold R m1 m2 \<longleftrightarrow>
     (\<forall>a b. map_of m1 a = Some b \<longleftrightarrow> (a, b) \<in> R) \<and> (\<forall>a b. map_of m2 b = Some a \<longleftrightarrow> (a, b) \<in> R)"

lemma maps_hold_one_to_one: "maps_hold R m1 m2 \<Longrightarrow> one_to_one R"
  unfolding maps_hold_def by (rule one_to_oneI) (metis option.inject)+

lemma maps_hold_insert:
  assumes h: "maps_hold R m1 m2" and a: "map_of m1 a \<in> {None, Some b}" and b: "map_of m2 b \<in> {None, Some a}"
  shows "maps_hold (insert (a, b) R) (AList.update a b m1) (AList.update b a m2)"
proof -
  have h1: "(x, y) \<in> R \<longleftrightarrow> map_of m1 x = Some y" and h2: "(x, y) \<in> R \<longleftrightarrow> map_of m2 y = Some x" for x y
    using h by (auto simp: maps_hold_def)
  have "map_of (AList.update a b m1) x = Some y \<longleftrightarrow> (x, y) \<in> insert (a, b) R" for x y
    using a h1 [of x y] by (auto simp: update_conv' simp del: map_of_eq_Some_iff)
  moreover have "map_of (AList.update b a m2) y = Some x \<longleftrightarrow> (x, y) \<in> insert (a, b) R" for x y
    using b h2 [of x y] by (auto simp: update_conv' simp del: map_of_eq_Some_iff)
  ultimately show ?thesis by (simp add: maps_hold_def)
qed

lemma check_labels_from_hold:
  "check_labels_from i links m1 m2 = None \<Longrightarrow> maps_hold R m1 m2 \<Longrightarrow>
   \<exists>m1' m2'. maps_hold (R \<union> set (label_pairs links)) m1' m2'"
proof (induction links arbitrary: i m1 m2 R)
  case Nil
  then show ?case by (auto simp: label_pairs_def)
next
  case (Cons l ls)
  show ?case
  proof (cases "\<exists>intf lab. extract_external_side l = Some (intf, lab) \<and> intf \<noteq> [] \<and> lab \<noteq> []")
    case False
    then have "label_pairs (l # ls) = label_pairs ls" by (auto simp: label_pairs_def split: option.splits)
    moreover have "check_labels_from (Suc i) ls m1 m2 = None"
      using Cons.prems(1) False by (auto split: option.splits if_splits)
    ultimately show ?thesis using Cons.IH Cons.prems(2) by simp
  next
    case True
    then obtain intf lab where e: "extract_external_side l = Some (intf, lab)" "intf \<noteq> []" "lab \<noteq> []" by blast
    with Cons.prems(1) have c: "map_of m1 intf \<in> {None, Some lab}" "map_of m2 lab \<in> {None, Some intf}"
      "check_labels_from (Suc i) ls (AList.update intf lab m1) (AList.update lab intf m2) = None"
      by (auto split: if_splits)
    from Cons.IH [OF c(3) maps_hold_insert [OF Cons.prems(2) c(1,2)]] e show ?thesis
      by (simp add: label_pairs_def)
  qed
qed

lemma external_label_maps_hold:
  assumes "one_to_one (R \<union> set ps)" and "maps_hold R m1 m2"
  shows "case fold (\<lambda>(intf, lab) (m1, m2). (AList.update intf lab m1, AList.update lab intf m2)) ps (m1, m2) of
     (m1', m2') \<Rightarrow> maps_hold (R \<union> set ps) m1' m2'"
  using assms
proof (induction ps arbitrary: R m1 m2)
  case (Cons p ps)
  obtain a b where p: "p = (a, b)" by (cases p)
  have o: "one_to_one (insert (a, b) R \<union> set ps)" using Cons.prems(1) p by simp
  have "map_of m1 a \<in> {None, Some b}"
    using Cons.prems one_to_oneD1 [OF Cons.prems(1), of a b] p by (cases "map_of m1 a") (auto simp: maps_hold_def)
  moreover have "map_of m2 b \<in> {None, Some a}"
    using Cons.prems one_to_oneD2 [OF Cons.prems(1), of a b] p by (cases "map_of m2 b") (auto simp: maps_hold_def)
  ultimately have "maps_hold (insert (a, b) R) (AList.update a b m1) (AList.update b a m2)"
    using maps_hold_insert Cons.prems(2) by blast
  from Cons.IH [OF o this] p show ?case by simp
qed (simp add: maps_hold_def)

lemma check_labels_from_complete:
  "maps_hold R m1 m2 \<Longrightarrow> one_to_one (R \<union> set (label_pairs links)) \<Longrightarrow> check_labels_from i links m1 m2 = None"
proof (induction links arbitrary: i m1 m2 R)
  case (Cons l ls)
  show ?case
  proof (cases "\<exists>intf lab. extract_external_side l = Some (intf, lab) \<and> intf \<noteq> [] \<and> lab \<noteq> []")
    case False
    then have "label_pairs (l # ls) = label_pairs ls" by (auto simp: label_pairs_def split: option.splits)
    with Cons.IH [OF Cons.prems(1)] Cons.prems(2) False show ?thesis by (auto split: option.splits)
  next
    case True
    then obtain intf lab where e: "extract_external_side l = Some (intf, lab)" "intf \<noteq> []" "lab \<noteq> []" by blast
    then have lp: "label_pairs (l # ls) = (intf, lab) # label_pairs ls" by (simp add: label_pairs_def)
    have o: "one_to_one (insert (intf, lab) R \<union> set (label_pairs ls))" using Cons.prems(2) lp by simp
    have "map_of m1 intf \<in> {None, Some lab}"
      using Cons.prems(1) one_to_oneD1 [OF o, of intf lab] by (cases "map_of m1 intf") (auto simp: maps_hold_def)
    moreover have "map_of m2 lab \<in> {None, Some intf}"
      using Cons.prems(1) one_to_oneD2 [OF o, of intf lab] by (cases "map_of m2 lab") (auto simp: maps_hold_def)
    moreover from Cons.IH [OF maps_hold_insert [OF Cons.prems(1) calculation] o]
    have "check_labels_from (Suc i) ls (AList.update intf lab m1) (AList.update lab intf m2) = None" .
    ultimately show ?thesis using e by auto
  qed
qed simp

text \<open>
  The pairs of host interface and label, read off the Topologies of the namespace, where the label
  of a pod goes with each of its uplinks, and off the links of a request.
\<close>

definition pairs_in_force :: "(string \<times> topology) set \<Rightarrow> (string \<times> string) set" where
  "pairs_in_force T = {(i, lab). i \<noteq> [] \<and> lab \<noteq> [] \<and> (\<exists>(pod, t) \<in> T. lab = trim_space (t_label t) \<and>
     (\<exists>c \<in> set (links_of t). c_peer_pod c = ''localhost'' \<and> i = trim_space (c_peer_intf c)))}"

definition pairs_asked :: "link_spec set \<Rightarrow> (string \<times> string) set" where
  "pairs_asked L = {(i, lab). i \<noteq> [] \<and> lab \<noteq> [] \<and> (\<exists>l \<in> L. lab = trim_space (l_peer_label l) \<and>
     (l_peer l = ''external'' \<and> i = trim_space (l_peer_intf l) \<or>
      l_peer l \<noteq> ''external'' \<and> l_node l = ''external'' \<and> i = trim_space (l_intf l)))}"

lemma pairs_in_force: "pairs_in_force (set items) = set (external_pairs items)"
  by (fastforce simp: pairs_in_force_def external_pairs_def crd_external_peer_pod_def Let_def split: if_splits)

lemma pairs_asked: "pairs_asked (set links) = set (label_pairs links)"
  by (fastforce simp: pairs_asked_def label_pairs_def extract_external_side_def external_node_name_def split: if_splits)

text \<open>
  C10: when the uplinks of the namespace pair host interfaces and labels one to one,
  \<open>ValidateExternalLabelConsistency\<close> accepts exactly the links whose labelled uplinks, together
  with the pairs in force, pair them one to one; a link without a label or without the external
  network plays no part. The check is on the pairs as requested: a Topology holds one label for
  all the uplinks of its pod, so two uplinks of one pod with different labels pass and are stored
  under the label of the second (\<open>per_pod_label_breaks_pairs\<close>).
\<close>

theorem external_labels_one_to_one:
  assumes inv: "one_to_one (pairs_in_force (set (kb_topos s)))" and nf: "kb_faults s = []"
  shows "validate_external_label_consistency links s = None \<longleftrightarrow>
     one_to_one (pairs_in_force (set (kb_topos s)) \<union> pairs_asked (set links))"
proof -
  let ?R = "set (external_pairs (kb_topos s))"
  obtain m1 m2 where m: "external_label_maps (kb_topos s) = (m1, m2)" by (cases "external_label_maps (kb_topos s)")
  have h: "maps_hold ?R m1 m2"
    using external_label_maps_hold [of "{}" "external_pairs (kb_topos s)" "[]" "[]"] inv m
    by (simp add: external_label_maps_def maps_hold_def pairs_in_force)
  have v: "validate_external_label_consistency links s = check_labels_from 0 links m1 m2"
    by (simp add: validate_external_label_consistency_def topo_list_clean [OF nf] m)
  show ?thesis unfolding pairs_in_force pairs_asked v
    using check_labels_from_hold [OF _ h] check_labels_from_complete [OF h] maps_hold_one_to_one by blast
qed

theorem external_labels_one_to_one_witness:
  "validate_external_label_consistency
     [(basic_link ''a'' ''eth2'' ''external'' ''eno1'')\<lparr>l_peer_label := ''lab''\<rparr>,
      (basic_link ''external'' ''eno1'' ''b'' ''eth3'')\<lparr>l_peer_label := ''wan''\<rparr>] wired_example \<noteq> None \<and>
   validate_external_label_consistency
     [(basic_link ''a'' ''eth2'' ''external'' ''eno1'')\<lparr>l_peer_label := ''lab''\<rparr>] wired_example = None"
proof -
  have i: "one_to_one (pairs_in_force (set (kb_topos wired_example)))" "kb_faults wired_example = []"
    unfolding pairs_in_force by code_simp+
  have "\<not> one_to_one (pairs_in_force (set (kb_topos wired_example)) \<union> pairs_asked (set
      [(basic_link ''a'' ''eth2'' ''external'' ''eno1'')\<lparr>l_peer_label := ''lab''\<rparr>,
       (basic_link ''external'' ''eno1'' ''b'' ''eth3'')\<lparr>l_peer_label := ''wan''\<rparr>]))"
    "one_to_one (pairs_in_force (set (kb_topos wired_example)) \<union> pairs_asked (set
      [(basic_link ''a'' ''eth2'' ''external'' ''eno1'')\<lparr>l_peer_label := ''lab''\<rparr>]))"
    unfolding pairs_in_force pairs_asked by code_simp+
  then show ?thesis unfolding external_labels_one_to_one [OF i] by blast
qed

end
