(* ===== verification/Topology_Wiring.thy ===== *)
theory Topology_Wiring
  imports Topology_CRDs
begin

text \<open>
  Writing links into Topology resources and reading them back. Deploy and scale-up write one
  resource per pod (\<open>createTopologyForPod\<close>); modify appends to and removes from the resources
  of the pods a link touches (\<open>upsertAppendLinksInTopologies\<close>,
  \<open>RemoveSpecificLinksFromTopologies\<close>, \<open>RemoveLinksReferencingDeletedPods\<close>);
  \<open>BuildLinksFromTopologyCRDs\<close> rebuilds the links of the API from all of them.
  The order in which Go iterates a map is the parameter \<open>order\<close>, any permutation.
\<close>

section \<open>Entries of a link\<close>

datatype topo_error =
    TNoTopology string
  | TFetch string
  | TCreate string
  | TUpdate string
  | TDelete string
  | TLinkMissing string
  | TList

text \<open>The entry on the side of the link's own node, and on the side of its peer.\<close>

definition near_entry :: "node_spec list \<Rightarrow> link_spec \<Rightarrow> int option \<Rightarrow> crd_link" where
  "near_entry nodes l uid =
     \<lparr>c_local_intf = l_intf l, c_local_ip = addrs_first (l_ip l),
      c_peer_pod = to_crd_peer_pod (resolve_pod_name (l_peer l) nodes), c_peer_intf = l_peer_intf l,
      c_peer_ip = addrs_first (l_peer_ip l), c_uid = uid\<rparr>"

definition far_entry :: "node_spec list \<Rightarrow> link_spec \<Rightarrow> int option \<Rightarrow> crd_link" where
  "far_entry nodes l uid =
     \<lparr>c_local_intf = l_peer_intf l, c_local_ip = addrs_first (l_peer_ip l),
      c_peer_pod = to_crd_peer_pod (resolve_pod_name (l_node l) nodes), c_peer_intf = l_intf l,
      c_peer_ip = addrs_first (l_ip l), c_uid = uid\<rparr>"

section \<open>Deploy: one resource per pod\<close>

text \<open>\<open>resolveLinkUIDs\<close>; \<open>rnd i\<close> is the draw \<open>rand.Intn(9_000_000)\<close> of the i-th link.\<close>

definition resolve_link_uids :: "(nat \<Rightarrow> int) \<Rightarrow> link_spec list \<Rightarrow> int list" where
  "resolve_link_uids rnd links =
     map (\<lambda>(i, l). case l_uid l of Some u \<Rightarrow> u | None \<Rightarrow> rnd i + 1000000) (enumerate 0 links)"

definition pod_entry :: "node_spec list \<Rightarrow> string \<Rightarrow> link_spec \<Rightarrow> int \<Rightarrow> crd_link option" where
  "pod_entry nodes pod l uid =
     (let rn = resolve_pod_name (l_node l) nodes; rp = resolve_pod_name (l_peer l) nodes in
      if rn \<noteq> pod \<and> rp \<noteq> pod then None
      else if rp = pod then Some (far_entry nodes l (Some uid))
      else Some (near_entry nodes l (Some uid)))"

fun pod_topology_from :: "node_spec list \<Rightarrow> string \<Rightarrow> (link_spec \<times> int) list \<Rightarrow> topology \<Rightarrow> topology" where
  "pod_topology_from nodes pod [] t = t"
| "pod_topology_from nodes pod ((l, uid) # ls) t =
     (case pod_entry nodes pod l uid of
        None \<Rightarrow> pod_topology_from nodes pod ls t
      | Some c \<Rightarrow>
          pod_topology_from nodes pod ls
            (t\<lparr>t_links := Some ((case t_links t of None \<Rightarrow> [] | Some xs \<Rightarrow> xs) @ [CLink c]),
               t_label := (if l_peer_label l \<noteq> [] \<and> (l_peer l = external_node_name \<or> l_node l = external_node_name)
                           then l_peer_label l else t_label t),
               t_names := (if l_name l \<noteq> [] then AList.update (int_str uid) (l_name l) (t_names t) else t_names t)\<rparr>))"

text \<open>A pod without links is written with a null list, which the API server stores as an absent one.\<close>

definition pod_topology :: "node_spec list \<Rightarrow> string \<Rightarrow> (link_spec \<times> int) list \<Rightarrow> topology" where
  "pod_topology nodes pod ls = pod_topology_from nodes pod ls \<lparr>t_links = None, t_label = [], t_names = []\<rparr>"

definition create_topology_for_pod ::
  "node_spec list \<Rightarrow> link_spec list \<Rightarrow> int list \<Rightarrow> string \<Rightarrow> (kube, topo_error, unit) op" where
  "create_topology_for_pod nodes links uids pod =
     op_map_err (\<lambda>_. TCreate pod) (topo_create pod (pod_topology nodes pod (zip links uids)))"

definition create_topology_object ::
  "(nat \<Rightarrow> int) \<Rightarrow> node_spec \<Rightarrow> link_spec list \<Rightarrow> node_spec list \<Rightarrow> (kube, topo_error, unit) op" where
  "create_topology_object rnd node links nodes =
     (let ls = sanitize_links_for_qemu links nodes; uids = resolve_link_uids rnd ls in
      op_each (create_topology_for_pod nodes ls uids) (pods_of_node node))"

text \<open>
  The deploy handler calls it for every node of the request. Each call draws its own numbers, which
  only links without a UID use; the handler has given every link one before, so one \<open>rnd\<close> stands
  for all the calls.
\<close>

definition create_topologies ::
  "(nat \<Rightarrow> int) \<Rightarrow> node_spec list \<Rightarrow> link_spec list \<Rightarrow> (kube, topo_error, unit) op" where
  "create_topologies rnd nodes links = op_each (\<lambda>n. create_topology_object rnd n links nodes) nodes"

section \<open>Modify: entries added to and removed from resources\<close>

definition link_entries :: "node_spec list \<Rightarrow> link_spec \<Rightarrow> int option \<Rightarrow> (string \<times> crd_link) list" where
  "link_entries nodes l uid =
     (let rn = resolve_pod_name (l_node l) nodes; rp = resolve_pod_name (l_peer l) nodes in
      (if rn \<noteq> external_node_name then [(rn, near_entry nodes l uid)] else []) @
      (if rp \<noteq> external_node_name then [(rp, far_entry nodes l uid)] else []))"

text \<open>\<open>m[k] = append(m[k], e)\<close> for each pair in turn.\<close>

definition group_entries :: "(string \<times> 'a) list \<Rightarrow> (string \<times> 'a list) list" where
  "group_entries es = fold (\<lambda>(p, e) m. AList.update p ((case map_of m p of None \<Rightarrow> [] | Some xs \<Rightarrow> xs) @ [e]) m) es []"

definition build_per_pod_link_entries :: "link_spec list \<Rightarrow> node_spec list \<Rightarrow> (string \<times> crd_link list) list" where
  "build_per_pod_link_entries links nodes =
     group_entries (concat (map (\<lambda>l. link_entries nodes l None) (sanitize_links_for_qemu links nodes)))"

definition topology_link_key :: "crd_link \<Rightarrow> string" where
  "topology_link_key c =
     join_with ''|'' [c_local_intf c, c_local_ip c, c_peer_pod c, c_peer_intf c, c_peer_ip c]"

definition topology_link_key_for_modify :: "crd_link \<Rightarrow> string" where
  "topology_link_key_for_modify c = join_with ''|'' [c_local_intf c, c_peer_pod c, c_peer_intf c]"

definition items_of :: "topology \<Rightarrow> crd_item list" where
  "items_of t = (case t_links t of None \<Rightarrow> [] | Some xs \<Rightarrow> xs)"

definition validate_delete_links_exist ::
  "((string \<times> crd_link list) list \<Rightarrow> (string \<times> crd_link list) list) \<Rightarrow> link_spec list \<Rightarrow> node_spec list \<Rightarrow> (kube, topo_error, unit) op" where
  "validate_delete_links_exist order links nodes =
     op_each (\<lambda>(pod, entries).
       op_bind (op_map_err (\<lambda>e. if e = KNotFound then TNoTopology pod else TFetch pod) (topo_get pod)) (\<lambda>t.
         let keys = map topology_link_key_for_modify (links_of t) in
         op_lift (case find (\<lambda>e. topology_link_key_for_modify e \<notin> set keys) entries of
                    Some _ \<Rightarrow> Inl (TLinkMissing pod) | None \<Rightarrow> Inr ())))
       (order (build_per_pod_link_entries links nodes))"

text \<open>The items kept, and whether any was dropped.\<close>

definition drop_items :: "(crd_link \<Rightarrow> bool) \<Rightarrow> crd_item list \<Rightarrow> crd_item list" where
  "drop_items bad = filter (\<lambda>i. case i of CJunk _ \<Rightarrow> True | CLink c \<Rightarrow> \<not> bad c)"

definition drops_some :: "(crd_link \<Rightarrow> bool) \<Rightarrow> crd_item list \<Rightarrow> bool" where
  "drops_some bad = list_ex (\<lambda>i. case i of CJunk _ \<Rightarrow> False | CLink c \<Rightarrow> bad c)"

text \<open>A loop that collects the pods it touched: \<open>None\<close> from a step is a \<open>continue\<close>.\<close>

primrec op_touch :: "('x \<Rightarrow> ('s, 'e, string option) op) \<Rightarrow> 'x list \<Rightarrow> ('s, 'e, string list) op" where
  "op_touch f [] = op_ret []"
| "op_touch f (x # xs) = op_bind (f x) (\<lambda>r. op_bind (op_touch f xs) (\<lambda>rs.
     op_ret (case r of None \<Rightarrow> rs | Some p \<Rightarrow> p # rs)))"

definition remove_specific_step :: "string \<times> crd_link list \<Rightarrow> (kube, topo_error, string option) op" where
  "remove_specific_step pe =
     (case pe of (pod, entries) \<Rightarrow>
       op_bind (op_map_err (\<lambda>_. TFetch pod) (topo_get pod)) (\<lambda>t.
         let keys = map topology_link_key_for_modify entries;
             bad = (\<lambda>c. topology_link_key_for_modify c \<in> set keys)
         in if \<not> drops_some bad (items_of t) then op_ret None
            else op_bind (op_map_err (\<lambda>_. TUpdate pod)
                   (topo_update pod (t\<lparr>t_links := Some (drop_items bad (items_of t))\<rparr>)))
                   (\<lambda>_. op_ret (Some pod))))"

definition remove_specific_links ::
  "((string \<times> crd_link list) list \<Rightarrow> (string \<times> crd_link list) list) \<Rightarrow> link_spec list \<Rightarrow> node_spec list \<Rightarrow>
   (kube, topo_error, string list) op" where
  "remove_specific_links order links nodes =
     op_touch remove_specific_step (order (build_per_pod_link_entries links nodes))"

definition remove_deleted_step :: "string list \<Rightarrow> string \<times> topology \<Rightarrow> (kube, topo_error, string option) op" where
  "remove_deleted_step deleted nt =
     (case nt of (pod, t) \<Rightarrow>
       if pod \<in> set deleted then op_ret None
       else case t_links t of
         None \<Rightarrow> op_ret None
       | Some items \<Rightarrow>
           (let bad = (\<lambda>c. c_peer_pod c \<in> set deleted) in
            if \<not> drops_some bad items then op_ret None
            else op_bind (op_map_err (\<lambda>_. TUpdate pod) (topo_update pod (t\<lparr>t_links := Some (drop_items bad items)\<rparr>)))
                   (\<lambda>_. op_ret (Some pod))))"

definition remove_links_referencing_deleted_pods :: "string list \<Rightarrow> (kube, topo_error, string list) op" where
  "remove_links_referencing_deleted_pods deleted =
     op_bind (op_map_err (\<lambda>_. TList) topo_list) (op_touch (remove_deleted_step deleted))"

text \<open>\<open>append\<close> of the added links whose key is not there yet.\<close>

fun append_missing :: "string list \<Rightarrow> crd_item list \<Rightarrow> crd_link list \<Rightarrow> crd_item list" where
  "append_missing keys items [] = items"
| "append_missing keys items (c # cs) =
     (let k = topology_link_key c in
      if k \<in> set keys then append_missing keys items cs
      else append_missing (k # keys) (items @ [CLink c]) cs)"

definition upsert_step :: "(string \<times> string) list \<Rightarrow> string \<times> crd_link list \<Rightarrow> (kube, topo_error, string option) op" where
  "upsert_step labels pe =
     (case pe of (pod, added) \<Rightarrow>
       if pod = external_node_name then op_ret None
       else (\<lambda>s. case topo_get pod s of
         (Inl KNotFound, s1) \<Rightarrow>
           op_bind (op_map_err (\<lambda>_. TCreate pod)
             (topo_create pod \<lparr>t_links = Some (map CLink added), t_label = label labels pod, t_names = []\<rparr>))
             (\<lambda>_. op_ret (Some pod)) s1
       | (Inl _, s1) \<Rightarrow> (Inl (TFetch pod), s1)
       | (Inr t, s1) \<Rightarrow>
           (let new = append_missing (map topology_link_key (links_of t)) (items_of t) added in
            if new = items_of t then (Inr None, s1)
            else op_bind (op_map_err (\<lambda>_. TUpdate pod)
                   (topo_update pod (t\<lparr>t_links := Some new,
                      t_label := (if label labels pod \<noteq> [] then label labels pod else t_label t)\<rparr>)))
                   (\<lambda>_. op_ret (Some pod)) s1)))"

definition peer_labels_by_pod :: "link_spec list \<Rightarrow> node_spec list \<Rightarrow> (string \<times> string) list" where
  "peer_labels_by_pod links nodes =
     fold (\<lambda>l m.
       (let rn = resolve_pod_name (l_node l) nodes; rp = resolve_pod_name (l_peer l) nodes;
            m1 = (if rn \<noteq> external_node_name \<and> l_peer_label l \<noteq> [] \<and>
                     (l_peer l = external_node_name \<or> l_node l = external_node_name)
                  then AList.update rn (l_peer_label l) m else m)
        in if rp \<noteq> external_node_name \<and> l_peer_label l \<noteq> [] \<and> l_node l = external_node_name
           then AList.update rp (l_peer_label l) m1 else m1)) links []"

definition upsert_append_links ::
  "((string \<times> crd_link list) list \<Rightarrow> (string \<times> crd_link list) list) \<Rightarrow> (nat \<Rightarrow> int) \<Rightarrow>
   link_spec list \<Rightarrow> node_spec list \<Rightarrow> (kube, topo_error, string list) op" where
  "upsert_append_links order rnd links nodes =
     (if links = [] then op_ret []
      else let ls = sanitize_links_for_qemu links nodes; uids = resolve_link_uids rnd ls in
           op_touch (upsert_step (peer_labels_by_pod ls nodes))
             (order (group_entries (concat (map (\<lambda>(l, u). link_entries nodes l (Some u)) (zip ls uids))))))"

section \<open>Reading the links back\<close>

definition crd_end :: "string \<Rightarrow> string \<Rightarrow> string" where
  "crd_end pod intf = pod @ ''/'' @ intf"

definition crd_link_key :: "string \<Rightarrow> crd_link \<Rightarrow> string" where
  "crd_link_key pod c =
     (let left = crd_end pod (c_local_intf c); right = crd_end (c_peer_pod c) (c_peer_intf c) in
      if str_less right left then right @ ''<->'' @ left else left @ ''<->'' @ right)"

definition link_of_crd :: "string \<Rightarrow> crd_link \<Rightarrow> link_spec" where
  "link_of_crd pod c =
     (basic_link pod (c_local_intf c) (from_crd_peer_pod (c_peer_pod c)) (c_peer_intf c))
       \<lparr>l_ip := one_addr (c_local_ip c), l_peer_ip := one_addr (c_peer_ip c), l_uid := c_uid c\<rparr>"

fun dedup_by :: "('a \<Rightarrow> 'k) \<Rightarrow> 'k list \<Rightarrow> 'a list \<Rightarrow> 'a list" where
  "dedup_by f seen [] = []"
| "dedup_by f seen (x # xs) =
     (if f x \<in> set seen then dedup_by f seen xs else x # dedup_by f (f x # seen) xs)"

definition crd_entries :: "(string \<times> topology) list \<Rightarrow> (string \<times> crd_link) list" where
  "crd_entries items = concat (map (\<lambda>(pod, t). map (Pair pod) (links_of t)) items)"

definition links_from_crds :: "(string \<times> topology) list \<Rightarrow> link_spec list" where
  "links_from_crds items =
     map (\<lambda>(pod, c). link_of_crd pod c) (dedup_by (\<lambda>(pod, c). crd_link_key pod c) [] (crd_entries items))"

definition build_links_from_topology_crds :: "(kube, topo_error, link_spec list) op" where
  "build_links_from_topology_crds =
     op_bind (op_map_err (\<lambda>_. TList) topo_list) (\<lambda>items. op_ret (links_from_crds items))"

subsection \<open>The key of a link identifies its two ends\<close>

definition safe_end :: "string \<Rightarrow> string \<Rightarrow> bool" where
  "safe_end pod intf \<longleftrightarrow> CHR ''/'' \<notin> set pod \<and> CHR ''<'' \<notin> set pod \<and> CHR ''/'' \<notin> set intf"

lemma joined_ends_inj:
  assumes "safe_end p i" and "safe_end q j" and "safe_end p' i'" and "safe_end q' j'"
    and "crd_end p i @ ''<->'' @ crd_end q j = crd_end p' i' @ ''<->'' @ crd_end q' j'"
  shows "p = p' \<and> i = i' \<and> q = q' \<and> j = j'"
proof -
  have cut: "safe_end a x \<Longrightarrow> safe_end b y \<Longrightarrow>
      split_on CHR ''/'' (crd_end a x @ ''<->'' @ crd_end b y) = [a, x @ ''<->'' @ b, y]" for a x b y
  proof -
    assume s: "safe_end a x" "safe_end b y"
    have "split_on CHR ''/'' (a @ CHR ''/'' # ((x @ ''<->'' @ b) @ CHR ''/'' # y)) = [a, x @ ''<->'' @ b, y]"
      using s by (subst split_on_append) (auto simp: safe_end_def split_on_append split_on_no_sep simp del: append_assoc)
    then show ?thesis by (simp add: crd_end_def)
  qed
  from assms(5) cut [OF assms(1,2)] cut [OF assms(3,4)]
  have e: "p = p'" "i @ ''<->'' @ q = i' @ ''<->'' @ q'" "j = j'" by auto
  have lc: "safe_end b y \<Longrightarrow> last_cut CHR ''<'' (x @ ''<->'' @ b) = Some (x, ''->'' @ b)" for b y x
    using last_cut_append [of "CHR ''<''" "''->'' @ b" x] by (simp add: safe_end_def)
  from e(2) lc [OF assms(2), of i] lc [OF assms(4), of i'] have "i = i'" "q = q'" by auto
  with e show ?thesis by simp
qed

definition ends_set :: "string \<Rightarrow> crd_link \<Rightarrow> (string \<times> string) set" where
  "ends_set pod c = {(pod, c_local_intf c), (c_peer_pod c, c_peer_intf c)}"

definition safe_entry :: "string \<Rightarrow> crd_link \<Rightarrow> bool" where
  "safe_entry pod c \<longleftrightarrow> safe_end pod (c_local_intf c) \<and> safe_end (c_peer_pod c) (c_peer_intf c)"

lemma crd_link_key_inj:
  assumes s: "safe_entry p c" "safe_entry p' c'"
  shows "crd_link_key p c = crd_link_key p' c' \<longleftrightarrow> ends_set p c = ends_set p' c'"
proof -
  let ?L = "crd_end p (c_local_intf c)" and ?R = "crd_end (c_peer_pod c) (c_peer_intf c)"
  let ?L' = "crd_end p' (c_local_intf c')" and ?R' = "crd_end (c_peer_pod c') (c_peer_intf c')"
  have k: "crd_link_key p c = ?L @ ''<->'' @ ?R \<or> crd_link_key p c = ?R @ ''<->'' @ ?L"
    "crd_link_key p' c' = ?L' @ ''<->'' @ ?R' \<or> crd_link_key p' c' = ?R' @ ''<->'' @ ?L'"
    by (auto simp: crd_link_key_def Let_def)
  have se: "safe_end p (c_local_intf c)" "safe_end (c_peer_pod c) (c_peer_intf c)"
    "safe_end p' (c_local_intf c')" "safe_end (c_peer_pod c') (c_peer_intf c')"
    using s by (auto simp: safe_entry_def)
  show ?thesis
  proof
    assume "crd_link_key p c = crd_link_key p' c'"
    with k consider "?L @ ''<->'' @ ?R = ?L' @ ''<->'' @ ?R'" | "?L @ ''<->'' @ ?R = ?R' @ ''<->'' @ ?L'"
      | "?R @ ''<->'' @ ?L = ?L' @ ''<->'' @ ?R'" | "?R @ ''<->'' @ ?L = ?R' @ ''<->'' @ ?L'" by metis
    then show "ends_set p c = ends_set p' c'"
    proof cases
      case 1 then show ?thesis using joined_ends_inj [OF se(1,2,3,4)] by (simp add: ends_set_def)
    next
      case 2 then show ?thesis using joined_ends_inj [OF se(1,2,4,3)] by (simp add: ends_set_def insert_commute)
    next
      case 3 then show ?thesis using joined_ends_inj [OF se(2,1,3,4)] by (simp add: ends_set_def insert_commute)
    next
      case 4 then show ?thesis using joined_ends_inj [OF se(2,1,4,3)] by (simp add: ends_set_def insert_commute)
    qed
  next
    assume "ends_set p c = ends_set p' c'"
    then consider "?L = ?L'" "?R = ?R'" | "?L = ?R'" "?R = ?L'"
      by (auto simp: ends_set_def doubleton_eq_iff)
    then show "crd_link_key p c = crd_link_key p' c'"
    proof cases
      case 1 then show ?thesis by (simp add: crd_link_key_def)
    next
      case 2
      then show ?thesis using str_less_asym [of ?L' ?R'] str_less_linear [of ?L' ?R']
        by (auto simp: crd_link_key_def Let_def)
    qed
  qed
qed

lemma dedup_by_set: "f ` set (dedup_by f seen xs) = f ` set xs - set seen"
  by (induction xs arbitrary: seen) auto

lemma dedup_by_subset: "set (dedup_by f seen xs) \<subseteq> set xs"
  by (induction xs arbitrary: seen) (auto split: if_splits)

lemma dedup_by_distinct: "distinct (map f (dedup_by f seen xs))"
proof (induction xs arbitrary: seen)
  case (Cons x xs)
  have "f x \<notin> f ` set (dedup_by f (f x # seen) xs)" unfolding dedup_by_set by simp
  with Cons show ?case by auto
qed simp

lemma length_dedup_by: "length (dedup_by f [] xs) = card (f ` set xs)"
  using distinct_card [OF dedup_by_distinct [of f "[]" xs]] dedup_by_set [of f "[]" xs] by simp

subsection \<open>What a deploy writes\<close>

definition request_entries :: "node_spec list \<Rightarrow> (link_spec \<times> int) list \<Rightarrow> (string \<times> crd_link) list" where
  "request_entries nodes ls = concat (map (\<lambda>(l, u). link_entries nodes l (Some u)) ls)"

text \<open>A link that the checks let through: each end a pod of the request or the external network, not both external, not a pod with itself, names without the separators of the key.\<close>

definition wirable :: "node_spec list \<Rightarrow> link_spec \<Rightarrow> bool" where
  "wirable nodes l \<longleftrightarrow>
     (let rn = resolve_pod_name (l_node l) nodes; rp = resolve_pod_name (l_peer l) nodes in
      rn \<in> insert external_node_name (set (pods_of nodes)) \<and>
      rp \<in> insert external_node_name (set (pods_of nodes)) \<and> rn \<noteq> rp \<and>
      CHR ''/'' \<notin> set (l_intf l) \<and> CHR ''/'' \<notin> set (l_peer_intf l))"

definition plain_nodes :: "node_spec list \<Rightarrow> bool" where
  "plain_nodes nodes \<longleftrightarrow>
     distinct (pods_of nodes) \<and> (\<forall>n \<in> set nodes. CHR ''/'' \<notin> set (n_name n) \<and> CHR ''<'' \<notin> set (n_name n))"

lemma links_of_pod_topology_from:
  "links_of (pod_topology_from nodes pod ls t) =
     links_of t @ concat (map (\<lambda>(l, u). case pod_entry nodes pod l u of None \<Rightarrow> [] | Some c \<Rightarrow> [c]) ls)"
proof (induction ls arbitrary: t)
  case (Cons x ls)
  obtain l u where x: "x = (l, u)" by (cases x)
  show ?case
  proof (cases "pod_entry nodes pod l u")
    case (Some c)
    have "links_of (t\<lparr>t_links := Some ((case t_links t of None \<Rightarrow> [] | Some xs \<Rightarrow> xs) @ [CLink c]), t_label := a, t_names := b\<rparr>)
        = links_of t @ [c]" for a b
      by (simp add: links_of_def split: option.splits)
    with Some x Cons.IH show ?thesis by simp
  qed (simp add: x Cons.IH)
qed simp

lemma links_of_pod_topology:
  "links_of (pod_topology nodes pod ls) =
     concat (map (\<lambda>(l, u). case pod_entry nodes pod l u of None \<Rightarrow> [] | Some c \<Rightarrow> [c]) ls)"
  unfolding pod_topology_def links_of_pod_topology_from by (simp add: links_of_def)

lemma op_each_create:
  "op_each (create_topology_for_pod nodes ls uids) ps s = (Inr u, t) \<Longrightarrow>
     kb_topos t = kb_topos s @ map (\<lambda>p. (p, pod_topology nodes p (zip ls uids))) ps"
proof (induction ps arbitrary: s)
  case (Cons p ps)
  from Cons.prems obtain s1 where
    s1: "create_topology_for_pod nodes ls uids p s = (Inr (), s1)"
        "op_each (create_topology_for_pod nodes ls uids) ps s1 = (Inr u, t)"
    by (auto simp: op_bind_Inr)
  then have "topo_create p (pod_topology nodes p (zip ls uids)) s = (Inr (), s1)"
    by (simp add: create_topology_for_pod_def op_map_err_Inr)
  with Cons.IH [OF s1(2)] topo_create_Inr [of p "pod_topology nodes p (zip ls uids)" s "()" s1]
  show ?case by simp
qed simp

lemma create_topologies_kube:
  assumes "create_topologies rnd nodes links s = (Inr u, t)"
  shows "kb_topos t = kb_topos s @
     map (\<lambda>p. (p, pod_topology nodes p (zip links (resolve_link_uids rnd links)))) (pods_of nodes)"
proof -
  have "op_each (\<lambda>n. create_topology_object rnd n links nodes) ns s = (Inr u, t) \<Longrightarrow> kb_topos t = kb_topos s @
     map (\<lambda>p. (p, pod_topology nodes p (zip links (resolve_link_uids rnd links)))) (pods_of ns)" for ns
  proof (induction ns arbitrary: s)
    case (Cons n ns)
    from Cons.prems obtain s1 where
      s1: "create_topology_object rnd n links nodes s = (Inr (), s1)"
          "op_each (\<lambda>n. create_topology_object rnd n links nodes) ns s1 = (Inr u, t)"
      by (auto simp: op_bind_Inr)
    from op_each_create s1(1) have "kb_topos s1 = kb_topos s @
        map (\<lambda>p. (p, pod_topology nodes p (zip links (resolve_link_uids rnd links)))) (pods_of_node n)"
      by (auto simp: create_topology_object_def Let_def sanitize_links_for_qemu_def)
    with Cons.IH [OF s1(2)] show ?case by (simp add: pods_of_def)
  qed (simp add: pods_of_def)
  with assms show ?thesis by (simp add: create_topologies_def)
qed

lemma pod_name_not_external: "pod_name b i \<noteq> external_node_name" "pod_name b i \<noteq> crd_external_peer_pod"
proof -
  have "CHR ''-'' \<in> set (pod_name b i)" by (simp add: pod_name_def)
  then show "pod_name b i \<noteq> external_node_name" "pod_name b i \<noteq> crd_external_peer_pod"
    by (auto simp: external_node_name_def crd_external_peer_pod_def)
qed

lemma pods_of_not_external: "p \<in> set (pods_of nodes) \<Longrightarrow> p \<noteq> external_node_name \<and> p \<noteq> crd_external_peer_pod"
  by (auto simp: pods_of_iff pod_name_not_external)

lemma to_crd_pod: "p \<in> set (pods_of nodes) \<Longrightarrow> to_crd_peer_pod p = p"
  using pods_of_not_external [of p nodes] by (simp add: to_crd_peer_pod_def)

text \<open>Deploy and modify write the same entries for a wirable link.\<close>

lemma pod_entry_link_entries:
  assumes "wirable nodes l" and "p \<in> set (pods_of nodes)"
  shows "pod_entry nodes p l u = Some c \<longleftrightarrow> (p, c) \<in> set (link_entries nodes l (Some u))"
  using assms pods_of_not_external [OF assms(2)]
  by (auto simp: wirable_def pod_entry_def link_entries_def Let_def)

lemma link_entries_pod:
  "wirable nodes l \<Longrightarrow> (p, c) \<in> set (link_entries nodes l u) \<Longrightarrow> p \<in> set (pods_of nodes)"
  by (auto simp: wirable_def link_entries_def Let_def split: if_splits)

lemma set_crd_entries: "set (crd_entries items) = {(p, c). \<exists>t. (p, t) \<in> set items \<and> c \<in> set (links_of t)}"
  by (auto simp: crd_entries_def)

lemma set_option_list: "c \<in> set (case x of None \<Rightarrow> [] | Some y \<Rightarrow> [y]) \<longleftrightarrow> x = Some c"
  by (cases x) auto

lemma deploy_entries:
  assumes "create_topologies rnd nodes links s = (Inr u, t)" and "kb_topos s = []"
    and w: "\<forall>l \<in> set links. wirable nodes l"
  shows "set (crd_entries (kb_topos t)) = set (request_entries nodes (zip links (resolve_link_uids rnd links)))"
    (is "?A = ?B")
proof -
  let ?z = "zip links (resolve_link_uids rnd links)"
  have k: "kb_topos t = map (\<lambda>p. (p, pod_topology nodes p ?z)) (pods_of nodes)"
    using create_topologies_kube [OF assms(1)] assms(2) by simp
  have wz: "(l, x) \<in> set ?z \<Longrightarrow> wirable nodes l" for l x using w by (auto dest: set_zip_leftD)
  have A: "(p, c) \<in> ?A \<longleftrightarrow> p \<in> set (pods_of nodes) \<and> (\<exists>(l, x) \<in> set ?z. pod_entry nodes p l x = Some c)" for p c
  proof -
    have "(p, c) \<in> ?A \<longleftrightarrow> p \<in> set (pods_of nodes) \<and> c \<in> set (links_of (pod_topology nodes p ?z))"
      unfolding set_crd_entries k by auto
    also have "c \<in> set (links_of (pod_topology nodes p ?z)) \<longleftrightarrow> (\<exists>(l, x) \<in> set ?z. pod_entry nodes p l x = Some c)"
      unfolding links_of_pod_topology by (simp add: case_prod_unfold set_option_list eq_commute [of "Some c"])
    finally show ?thesis .
  qed
  have B: "(p, c) \<in> ?B \<longleftrightarrow> (\<exists>(l, x) \<in> set ?z. (p, c) \<in> set (link_entries nodes l (Some x)))" for p c
    by (auto simp: request_entries_def)
  have "(p, c) \<in> ?A \<longleftrightarrow> (p, c) \<in> ?B" for p c
  proof
    assume "(p, c) \<in> ?A"
    then obtain l x where "p \<in> set (pods_of nodes)" "(l, x) \<in> set ?z" "pod_entry nodes p l x = Some c"
      unfolding A by blast
    with wz pod_entry_link_entries show "(p, c) \<in> ?B" unfolding B by blast
  next
    assume "(p, c) \<in> ?B"
    then obtain l x where lx: "(l, x) \<in> set ?z" "(p, c) \<in> set (link_entries nodes l (Some x))" unfolding B by blast
    with wz link_entries_pod have "p \<in> set (pods_of nodes)" by blast
    with lx wz pod_entry_link_entries show "(p, c) \<in> ?A" unfolding A by blast
  qed
  then show ?thesis by auto
qed

subsection \<open>Reading a deploy back\<close>

definition link_ends :: "node_spec list \<Rightarrow> link_spec \<Rightarrow> (string \<times> string) set" where
  "link_ends nodes l =
     {(to_crd_peer_pod (resolve_pod_name (l_node l) nodes), l_intf l),
      (to_crd_peer_pod (resolve_pod_name (l_peer l) nodes), l_peer_intf l)}"

definition own_ends :: "node_spec list \<Rightarrow> link_spec \<Rightarrow> (string \<times> string) list" where
  "own_ends nodes l = end_of nodes (l_node l) (l_intf l) @ end_of nodes (l_peer l) (l_peer_intf l)"

lemma ends_of_Cons: "ends_of nodes (l # ls) = own_ends nodes l @ ends_of nodes ls"
  by (simp add: ends_of_def own_ends_def)

lemma own_ends_subset: "l \<in> set links \<Longrightarrow> set (own_ends nodes l) \<subseteq> set (ends_of nodes links)"
  by (auto simp: ends_of_def own_ends_def)

lemma resolve_eq_external: "resolve_pod_name name nodes = external_node_name \<longleftrightarrow> name = external_node_name"
proof -
  have "name @ ''-0'' \<noteq> external_node_name" unfolding pod_name_zero by (rule pod_name_not_external)
  then show ?thesis by (auto simp: resolve_pod_name_simp)
qed

lemma pod_name_safe_chars:
  assumes "plain_nodes nodes" and "p \<in> set (pods_of nodes)"
  shows "CHR ''/'' \<notin> set p" "CHR ''<'' \<notin> set p"
proof -
  obtain n :: node_spec and i where n: "n \<in> set nodes" "p = pod_name (n_name n) i" using assms(2) unfolding pods_of_iff by blast
  have "\<not> is_digit CHR ''/''" "\<not> is_digit CHR ''<''" by (simp_all add: is_digit_def)
  then have "CHR ''/'' \<notin> set (nat_str i)" "CHR ''<'' \<notin> set (nat_str i)"
    using nat_str_digits [of i] by (auto simp: list_all_iff)
  with n assms(1) show "CHR ''/'' \<notin> set p" "CHR ''<'' \<notin> set p" by (auto simp: pod_name_def plain_nodes_def)
qed

lemma wirable_end_cases:
  assumes "wirable nodes l"
  shows "resolve_pod_name (l_node l) nodes = external_node_name \<or> resolve_pod_name (l_node l) nodes \<in> set (pods_of nodes)"
    and "resolve_pod_name (l_peer l) nodes = external_node_name \<or> resolve_pod_name (l_peer l) nodes \<in> set (pods_of nodes)"
    and "resolve_pod_name (l_node l) nodes \<noteq> resolve_pod_name (l_peer l) nodes"
  using assms by (auto simp: wirable_def Let_def)

lemma to_crd_safe:
  assumes "plain_nodes nodes" and "p = external_node_name \<or> p \<in> set (pods_of nodes)" and "CHR ''/'' \<notin> set i"
  shows "safe_end (to_crd_peer_pod p) i"
proof (cases "p = external_node_name")
  case True
  then show ?thesis using assms(3) by (simp add: safe_end_def to_crd_peer_pod_def crd_external_peer_pod_def)
next
  case False
  with assms(2) have p: "p \<in> set (pods_of nodes)" by simp
  with pod_name_safe_chars [OF assms(1) p] assms(3) show ?thesis by (simp add: safe_end_def to_crd_pod)
qed

lemma entry_ends:
  assumes w: "wirable nodes l" and pn: "plain_nodes nodes" and e: "(p, c) \<in> set (link_entries nodes l u)"
  shows "ends_set p c = link_ends nodes l" and "safe_entry p c"
proof -
  let ?rn = "resolve_pod_name (l_node l) nodes" and ?rp = "resolve_pod_name (l_peer l) nodes"
  have i: "CHR ''/'' \<notin> set (l_intf l)" "CHR ''/'' \<notin> set (l_peer_intf l)"
    using w by (auto simp: wirable_def Let_def)
  have sn: "safe_end (to_crd_peer_pod ?rn) (l_intf l)" and sp: "safe_end (to_crd_peer_pod ?rp) (l_peer_intf l)"
    using to_crd_safe [OF pn wirable_end_cases(1) [OF w] i(1)] to_crd_safe [OF pn wirable_end_cases(2) [OF w] i(2)] by auto
  from e consider "p = ?rn" "?rn \<noteq> external_node_name" "c = near_entry nodes l u"
    | "p = ?rp" "?rp \<noteq> external_node_name" "c = far_entry nodes l u"
    by (auto simp: link_entries_def Let_def split: if_splits)
  then have "ends_set p c = link_ends nodes l \<and> safe_entry p c"
  proof cases
    case 1
    with wirable_end_cases(1) [OF w] have "to_crd_peer_pod p = p" using to_crd_pod by metis
    with 1 sn sp show ?thesis
      by (simp add: ends_set_def link_ends_def near_entry_def safe_entry_def)
  next
    case 2
    with wirable_end_cases(2) [OF w] have "to_crd_peer_pod p = p" using to_crd_pod by metis
    with 2 sn sp show ?thesis
      by (simp add: ends_set_def link_ends_def far_entry_def safe_entry_def insert_commute)
  qed
  then show "ends_set p c = link_ends nodes l" "safe_entry p c" by auto
qed

lemma link_entries_nonempty: "wirable nodes l \<Longrightarrow> \<exists>p c. (p, c) \<in> set (link_entries nodes l u)"
  using pods_of_not_external [of "resolve_pod_name (l_node l) nodes" nodes]
    pods_of_not_external [of "resolve_pod_name (l_peer l) nodes" nodes]
  by (simp add: wirable_def link_entries_def Let_def) metis

lemma link_ends_meet:
  assumes w: "wirable nodes l" "wirable nodes l'" and e: "link_ends nodes l = link_ends nodes l'"
  shows "set (own_ends nodes l) \<inter> set (own_ends nodes l') \<noteq> {}"
proof -
  have own: "wirable nodes k \<Longrightarrow> (p, i) \<in> set (own_ends nodes k) \<longleftrightarrow>
      (p, i) \<in> link_ends nodes k \<and> p \<noteq> crd_external_peer_pod" for k p i
  proof -
    assume k: "wirable nodes k"
    show ?thesis
      using wirable_end_cases [OF k] pods_of_not_external [of _ nodes] to_crd_pod [of _ nodes]
        resolve_eq_external [of _ nodes]
      by (auto simp: own_ends_def end_of_def link_ends_def to_crd_peer_pod_def)
  qed
  have "\<exists>p i. (p, i) \<in> set (own_ends nodes l)"
    using wirable_end_cases(3) [OF w(1)] by (auto simp: own_ends_def end_of_def resolve_eq_external)
  then obtain p i where pi: "(p, i) \<in> set (own_ends nodes l)" by blast
  with own [OF w(1)] own [OF w(2)] e have "(p, i) \<in> set (own_ends nodes l')" by simp
  with pi show ?thesis by blast
qed

lemma link_ends_distinct:
  assumes "\<forall>l \<in> set links. wirable nodes l" and "distinct (ends_of nodes links)"
  shows "distinct (map (link_ends nodes) links)"
  using assms
proof (induction links)
  case (Cons l ls)
  have "link_ends nodes l \<notin> set (map (link_ends nodes) ls)"
  proof
    assume "link_ends nodes l \<in> set (map (link_ends nodes) ls)"
    then obtain l' where l': "l' \<in> set ls" "link_ends nodes l = link_ends nodes l'" by auto
    with link_ends_meet Cons.prems(1) have "set (own_ends nodes l) \<inter> set (own_ends nodes l') \<noteq> {}" by simp
    with own_ends_subset [OF l'(1), of nodes] Cons.prems(2) show False by (auto simp: ends_of_Cons)
  qed
  with Cons show ?case by (simp add: ends_of_Cons)
qed simp

lemma card_image_same_kernel:
  assumes "finite X" and "\<forall>x \<in> X. \<forall>y \<in> X. f x = f y \<longleftrightarrow> g x = g y"
  shows "card (f ` X) = card (g ` X)"
proof -
  define h where "h = (\<lambda>v. g (inv_into X f v))"
  have hf: "h (f x) = g x" if "x \<in> X" for x
    using that assms(2) by (metis h_def f_inv_into_f image_eqI inv_into_into)
  have "h ` f ` X = g ` X" using hf by (auto simp: image_image)
  moreover have "inj_on h (f ` X)" using hf assms(2) by (auto simp: inj_on_def)
  ultimately show ?thesis by (metis card_image)
qed

text \<open>The link as the API prints it: its resolved ends, each with its first address, in either direction.\<close>

definition same_link :: "node_spec list \<Rightarrow> link_spec \<Rightarrow> int \<Rightarrow> link_spec \<Rightarrow> bool" where
  "same_link nodes l u k \<longleftrightarrow>
     l_uid k = Some u \<and>
     (let rn = resolve_pod_name (l_node l) nodes; rp = resolve_pod_name (l_peer l) nodes;
          a = one_addr (addrs_first (l_ip l)); b = one_addr (addrs_first (l_peer_ip l)) in
      (l_node k = rn \<and> l_intf k = l_intf l \<and> l_ip k = a \<and> l_peer k = rp \<and> l_peer_intf k = l_peer_intf l \<and> l_peer_ip k = b) \<or>
      (l_node k = rp \<and> l_intf k = l_peer_intf l \<and> l_ip k = b \<and> l_peer k = rn \<and> l_peer_intf k = l_intf l \<and> l_peer_ip k = a))"

lemma from_to_crd_end:
  "p = external_node_name \<or> p \<in> set (pods_of nodes) \<Longrightarrow> from_crd_peer_pod (to_crd_peer_pod p) = p"
  using pods_of_not_external [of p nodes] by auto

lemma link_of_entry:
  assumes w: "wirable nodes l" and e: "(p, c) \<in> set (link_entries nodes l (Some u))"
  shows "same_link nodes l u (link_of_crd p c)"
  using e from_to_crd_end [OF wirable_end_cases(1) [OF w]] from_to_crd_end [OF wirable_end_cases(2) [OF w]]
  by (auto simp: link_entries_def Let_def same_link_def link_of_crd_def near_entry_def far_entry_def basic_link_def
      split: if_splits)

lemma zip_uids:
  "l \<in> set links \<Longrightarrow> \<exists>u. (l, u) \<in> set (zip links (resolve_link_uids rnd links))"
  "length (resolve_link_uids rnd links) = length links"
proof -
  show len: "length (resolve_link_uids rnd links) = length links" by (simp add: resolve_link_uids_def)
  show "l \<in> set links \<Longrightarrow> \<exists>u. (l, u) \<in> set (zip links (resolve_link_uids rnd links))"
  proof -
    assume "l \<in> set links"
    then obtain j where "j < length links" "l = links ! j" by (auto simp: in_set_conv_nth)
    then have "zip links (resolve_link_uids rnd links) ! j = (l, resolve_link_uids rnd links ! j)"
      "j < length (zip links (resolve_link_uids rnd links))" using len by simp_all
    then show ?thesis by (metis nth_mem)
  qed
qed

lemma zip_uids_keep:
  assumes "(l, u) \<in> set (zip links (resolve_link_uids rnd links))" and "l_uid l = Some v"
  shows "u = v"
proof -
  obtain j where "j < length links" "l = links ! j" "u = resolve_link_uids rnd links ! j"
    using assms(1) by (auto simp: set_zip)
  with assms(2) show ?thesis by (simp add: resolve_link_uids_def nth_enumerate_eq)
qed

lemma links_from_entries:
  assumes es: "set (crd_entries items) = set (request_entries nodes ls)"
    and w: "\<forall>(l, u) \<in> set ls. wirable nodes l" and pn: "plain_nodes nodes"
    and d: "distinct (ends_of nodes (map fst ls))"
  shows "length (links_from_crds items) = length ls"
    and "(l, u) \<in> set ls \<Longrightarrow> \<exists>k \<in> set (links_from_crds items). same_link nodes l u k"
proof -
  let ?X = "set (crd_entries items)" and ?f = "\<lambda>(pod, c). crd_link_key pod c" and ?g = "\<lambda>(pod, c). ends_set pod c"
  have ex: "\<exists>l u. (l, u) \<in> set ls \<and> x \<in> set (link_entries nodes l (Some u))" if "x \<in> ?X" for x
    using that unfolding es request_entries_def by auto
  have wl: "wirable nodes l" if "(l, u) \<in> set ls" for l u using w that by blast
  have fg: "\<forall>x \<in> ?X. \<forall>y \<in> ?X. ?f x = ?f y \<longleftrightarrow> ?g x = ?g y"
  proof (intro ballI)
    fix x y assume xy: "x \<in> ?X" "y \<in> ?X"
    obtain l u l' u' where l: "(l, u) \<in> set ls" "x \<in> set (link_entries nodes l (Some u))"
      "(l', u') \<in> set ls" "y \<in> set (link_entries nodes l' (Some u'))" using ex xy by blast
    have "safe_entry (fst x) (snd x)" "safe_entry (fst y) (snd y)"
      using entry_ends(2) [OF wl [OF l(1)] pn] entry_ends(2) [OF wl [OF l(3)] pn] l(2,4) by (metis prod.collapse)+
    then show "?f x = ?f y \<longleftrightarrow> ?g x = ?g y"
      using crd_link_key_inj by (simp add: case_prod_unfold)
  qed
  have gl: "?g ` ?X = link_ends nodes ` set (map fst ls)"
  proof
    show "?g ` ?X \<subseteq> link_ends nodes ` set (map fst ls)"
    proof
      fix v assume "v \<in> ?g ` ?X"
      then obtain p c where pc: "(p, c) \<in> ?X" "v = ends_set p c" by auto
      then obtain l u where "(l, u) \<in> set ls" "(p, c) \<in> set (link_entries nodes l (Some u))" using ex by blast
      with pc entry_ends(1) [OF wl pn] show "v \<in> link_ends nodes ` set (map fst ls)" by force
    qed
    show "link_ends nodes ` set (map fst ls) \<subseteq> ?g ` ?X"
    proof
      fix v assume "v \<in> link_ends nodes ` set (map fst ls)"
      then obtain l u where l: "(l, u) \<in> set ls" "v = link_ends nodes l" by auto
      obtain p c where pc: "(p, c) \<in> set (link_entries nodes l (Some u))" using link_entries_nonempty [OF wl [OF l(1)]] by blast
      with l(1) have "(p, c) \<in> ?X" unfolding es request_entries_def by auto
      with entry_ends(1) [OF wl [OF l(1)] pn pc] l(2) show "v \<in> ?g ` ?X" by force
    qed
  qed
  have wm: "\<forall>l \<in> set (map fst ls). wirable nodes l" using w by auto
  have dl: "distinct (map (link_ends nodes) (map fst ls))" by (rule link_ends_distinct [OF wm d])
  have "length (links_from_crds items) = card (?f ` ?X)"
    by (simp add: links_from_crds_def length_dedup_by)
  also have "\<dots> = card (?g ` ?X)" by (rule card_image_same_kernel [OF _ fg]) simp
  also have "\<dots> = length ls" unfolding gl using distinct_card [OF dl] by (simp add: image_image)
  finally show "length (links_from_crds items) = length ls" .
  assume l: "(l, u) \<in> set ls"
  obtain p c where pc: "(p, c) \<in> set (link_entries nodes l (Some u))" using link_entries_nonempty [OF wl [OF l]] by blast
  with l have X: "(p, c) \<in> ?X" unfolding es request_entries_def by auto
  then have "?f (p, c) \<in> ?f ` set (dedup_by ?f [] (crd_entries items))"
    unfolding dedup_by_set by (simp only: set_empty list.set Diff_empty) (rule imageI)
  then obtain y where y: "y \<in> set (dedup_by ?f [] (crd_entries items))" "?f (p, c) = ?f y" by auto
  then have yX: "y \<in> ?X" using dedup_by_subset by fastforce
  then obtain l' u' where l': "(l', u') \<in> set ls" "y \<in> set (link_entries nodes l' (Some u'))" using ex by blast
  have "?g (p, c) = ?g y" using fg X yX y(2) by blast
  then have eq: "link_ends nodes l = link_ends nodes l'"
    using entry_ends(1) [OF wl [OF l] pn pc] entry_ends(1) [OF wl [OF l'(1)] pn, of "fst y" "snd y"] l'(2)
    by (simp add: case_prod_unfold)
  have "(l, u) = (l', u')"
  proof -
    obtain a b where ab: "a < length ls" "ls ! a = (l, u)" "b < length ls" "ls ! b = (l', u')"
      using l l'(1) by (metis in_set_conv_nth)
    then have "map (link_ends nodes) (map fst ls) ! a = map (link_ends nodes) (map fst ls) ! b" using eq by simp
    then have "a = b" using nth_eq_iff_index_eq [OF dl, of a b] ab by simp
    with ab show ?thesis by simp
  qed
  with l'(2) have "same_link nodes l u (link_of_crd (fst y) (snd y))"
    using link_of_entry [OF wl [OF l]] by simp
  moreover have "link_of_crd (fst y) (snd y) \<in> set (links_from_crds items)"
    unfolding links_from_crds_def set_map using imageI [OF y(1), of "\<lambda>(pod, c). link_of_crd pod c"]
    by (simp add: case_prod_unfold)
  ultimately show "\<exists>k \<in> set (links_from_crds items). same_link nodes l u k" by (rule bexI)
qed

text \<open>
  C2: a deployed topology reads back as the request. When every link is wirable and no two ends
  share a pod interface, writing the Topology of every pod of an empty namespace and rebuilding
  the links from them gives exactly one link per requested one, with its UID, its resolved ends
  and the first address of each, in one of the two directions; an uplink comes back as
  \<open>external\<close>.
\<close>

theorem deploy_reads_back:
  assumes "create_topologies rnd nodes links s = (Inr u, t)" and "kb_topos s = []"
    and "build_links_from_topology_crds t = (Inr ks, t')"
    and "\<forall>l \<in> set links. wirable nodes l" and "plain_nodes nodes" and "distinct (ends_of nodes links)"
  shows "length ks = length links \<and>
     (\<forall>l \<in> set links. \<exists>k \<in> set ks. \<exists>u. same_link nodes l u k \<and> (\<forall>v. l_uid l = Some v \<longrightarrow> u = v))"
proof -
  let ?ls = "zip links (resolve_link_uids rnd links)"
  have ks: "ks = links_from_crds (kb_topos t)"
    using assms(3) topo_list_Inr by (auto simp: build_links_from_topology_crds_def op_bind_Inr op_map_err_Inr)
  have es: "set (crd_entries (kb_topos t)) = set (request_entries nodes ?ls)"
    by (rule deploy_entries [OF assms(1,2,4)])
  have w: "\<forall>(l, u) \<in> set ?ls. wirable nodes l" using assms(4) by (auto dest: set_zip_leftD)
  have m: "map fst ?ls = links" using zip_uids(2) by simp
  have d: "distinct (ends_of nodes (map fst ?ls))" using assms(6) unfolding m .
  have "length ks = length links" using links_from_entries(1) [OF es w assms(5) d] ks zip_uids(2) by simp
  moreover have "\<exists>k \<in> set ks. \<exists>u. same_link nodes l u k \<and> (\<forall>v. l_uid l = Some v \<longrightarrow> u = v)" if l: "l \<in> set links" for l
  proof -
    obtain u where u: "(l, u) \<in> set ?ls" using zip_uids(1) [OF l] by blast
    with links_from_entries(2) [OF es w assms(5) d u] zip_uids_keep [OF u] ks show ?thesis by blast
  qed
  ultimately show ?thesis by blast
qed

definition demo_nodes :: "node_spec list" where
  "demo_nodes = [basic_node ''a'' ''host'' 1, basic_node ''r'' ''router'' 2]"

definition demo_links :: "link_spec list" where
  "demo_links = [(basic_link ''a'' ''eth1'' ''r-1'' ''eth1'')\<lparr>l_uid := Some 1000007, l_ip := [''10.0.0.1/24'']\<rparr>,
     (basic_link ''external'' ''eno1'' ''r-0'' ''eth5'')\<lparr>l_uid := Some 1000008\<rparr>]"

definition empty_kube :: kube where "empty_kube = \<lparr>kb_topos = [], kb_faults = []\<rparr>"

theorem deploy_reads_back_witness:
  "length (links_from_crds (kb_topos (snd (create_topologies (\<lambda>_. 0) demo_nodes demo_links empty_kube)))) = 2"
proof -
  have c: "create_topologies (\<lambda>_. 0) demo_nodes demo_links empty_kube =
      (Inr (), snd (create_topologies (\<lambda>_. 0) demo_nodes demo_links empty_kube))"
    by code_simp
  have b: "build_links_from_topology_crds (snd (create_topologies (\<lambda>_. 0) demo_nodes demo_links empty_kube)) =
      (Inr (links_from_crds (kb_topos (snd (create_topologies (\<lambda>_. 0) demo_nodes demo_links empty_kube)))),
       snd (create_topologies (\<lambda>_. 0) demo_nodes demo_links empty_kube))"
    by code_simp
  have "kb_topos empty_kube = []" "\<forall>l \<in> set demo_links. wirable demo_nodes l" "plain_nodes demo_nodes"
    "distinct (ends_of demo_nodes demo_links)" by code_simp+
  from deploy_reads_back [OF c this(1) b this(2,3,4)] show ?thesis by (simp add: demo_links_def)
qed

text \<open>
  A link of a pod with itself is where the two writers part: the modify path writes both of
  its ends, the deploy path only the one of the peer, so the same request wires differently.
\<close>

theorem self_link_written_once:
  "let l = (basic_link ''a'' ''eth1'' ''a'' ''eth2'')\<lparr>l_uid := Some 1000001\<rparr>; ns = [basic_node ''a'' ''host'' 1] in
   validate_links_for_modify [l] ns = None \<and>
   validate_interface_conflicts [l] ns empty_kube = None \<and>
   map c_local_intf (map snd (crd_entries (kb_topos (snd (create_topologies (\<lambda>_. 0) ns [l] empty_kube))))) = [''eth2''] \<and>
   map c_local_intf (map snd (crd_entries (kb_topos (snd (upsert_append_links (\<lambda>m. m) (\<lambda>_. 0) [l] ns empty_kube))))) = [''eth1'', ''eth2'']"
  unfolding Let_def by (intro conjI; code_simp)

end
