(* ===== verification/Topology_Updates.thy ===== *)
theory Topology_Updates
  imports Topology_Wiring
begin

text \<open>
  What the updates of \<open>helpers/network_modify.go\<close> leave in the Topology resources: removing the
  links of a request or of deleted pods, appending links, and the scope of a modify. The
  interface \<open>topology_api\<close> states what these loops need of the API server; it is interpreted on
  the model of \<open>Topology_CRDs\<close>.
\<close>

section \<open>The API server as the loops see it\<close>

locale topology_api =
  fixes get :: "string \<Rightarrow> ('s, kube_error, topology) op"
    and put :: "string \<Rightarrow> topology \<Rightarrow> ('s, kube_error, unit) op"
    and view :: "'s \<Rightarrow> string \<rightharpoonup> topology"
  assumes get_view: "get p s = (Inr x, t) \<Longrightarrow> view s p = Some x \<and> view t = view s"
    and put_view: "put p x s = (Inr u, t) \<Longrightarrow> view t = (view s)(p \<mapsto> x)"
begin

text \<open>A pass that rewrites each of a list of distinct pods, or leaves it alone.\<close>

definition rewrite_step :: "(string \<Rightarrow> topology \<Rightarrow> topology option) \<Rightarrow> string \<Rightarrow> ('s, kube_error, string option) op" where
  "rewrite_step f p =
     op_bind (get p) (\<lambda>x. case f p x of None \<Rightarrow> op_ret None
       | Some y \<Rightarrow> op_bind (put p y) (\<lambda>_. op_ret (Some p)))"

lemma rewrite_step_view:
  assumes "rewrite_step f p s = (Inr r, t)"
  obtains x where "view s p = Some x"
    and "view t = (view s)(p \<mapsto> (case f p x of None \<Rightarrow> x | Some y \<Rightarrow> y))"
    and "r = (case f p x of None \<Rightarrow> None | Some y \<Rightarrow> Some p)"
proof -
  obtain x s1 where g: "get p s = (Inr x, s1)"
    and c: "(case f p x of None \<Rightarrow> op_ret None | Some y \<Rightarrow> op_bind (put p y) (\<lambda>_. op_ret (Some p))) s1 = (Inr r, t)"
    using assms by (auto simp: rewrite_step_def op_bind_Inr)
  from get_view [OF g] have v: "view s p = Some x" "view s1 = view s" by auto
  show thesis
  proof (cases "f p x")
    case None
    with c v have "view t = (view s)(p \<mapsto> x)" "r = None" by (auto simp: fun_upd_idem)
    with None v that show thesis by simp
  next
    case (Some y)
    with c obtain u s2 where "put p y s1 = (Inr u, s2)" "t = s2" "r = Some p" by (auto simp: op_bind_Inr)
    with put_view v have "view t = (view s)(p \<mapsto> y)" by metis
    with Some v that \<open>r = Some p\<close> show thesis by simp
  qed
qed

lemma rewrite_all_view:
  assumes "op_touch (rewrite_step f) ps s = (Inr rs, t)" and "distinct ps"
  shows "view t q = (if q \<in> set ps then map_option (\<lambda>x. case f q x of None \<Rightarrow> x | Some y \<Rightarrow> y) (view s q) else view s q)"
    and "set ps \<subseteq> dom (view s)"
    and "rs = filter (\<lambda>p. \<exists>x y. view s p = Some x \<and> f p x = Some y) ps"
proof -
  have "view t q = (if q \<in> set ps then map_option (\<lambda>x. case f q x of None \<Rightarrow> x | Some y \<Rightarrow> y) (view s q) else view s q)
      \<and> set ps \<subseteq> dom (view s) \<and> rs = filter (\<lambda>p. \<exists>x y. view s p = Some x \<and> f p x = Some y) ps"
    using assms
  proof (induction ps arbitrary: s rs)
    case (Cons p ps)
    from Cons.prems(1) obtain r s1 rs' where
      s1: "rewrite_step f p s = (Inr r, s1)" "op_touch (rewrite_step f) ps s1 = (Inr rs', t)"
      and rs: "rs = (case r of None \<Rightarrow> rs' | Some p \<Rightarrow> p # rs')"
      by (auto simp: op_bind_Inr)
    from s1(1) obtain x where x: "view s p = Some x"
      "view s1 = (view s)(p \<mapsto> (case f p x of None \<Rightarrow> x | Some y \<Rightarrow> y))"
      "r = (case f p x of None \<Rightarrow> None | Some y \<Rightarrow> Some p)" by (rule rewrite_step_view)
    have d: "p \<notin> set ps" "distinct ps" using Cons.prems(2) by auto
    from Cons.IH [OF s1(2) d(2)] have ih:
      "view t q = (if q \<in> set ps then map_option (\<lambda>x. case f q x of None \<Rightarrow> x | Some y \<Rightarrow> y) (view s1 q) else view s1 q)"
      "set ps \<subseteq> dom (view s1)" "rs' = filter (\<lambda>p. \<exists>x y. view s1 p = Some x \<and> f p x = Some y) ps" by auto
    have "filter (\<lambda>p. \<exists>x y. view s1 p = Some x \<and> f p x = Some y) ps =
        filter (\<lambda>p. \<exists>x y. view s p = Some x \<and> f p x = Some y) ps"
      using d(1) x(2) by (intro filter_cong) auto
    moreover have "dom (view s1) = dom (view s)" using x(1,2) by auto
    ultimately show ?case using ih x d(1) rs by (auto split: option.splits)
  qed simp
  then show "view t q = (if q \<in> set ps then map_option (\<lambda>x. case f q x of None \<Rightarrow> x | Some y \<Rightarrow> y) (view s q) else view s q)"
    and "set ps \<subseteq> dom (view s)"
    and "rs = filter (\<lambda>p. \<exists>x y. view s p = Some x \<and> f p x = Some y) ps" by auto
qed

text \<open>A pass over a listing, writing the pods that change.\<close>

definition scan_step :: "(string \<Rightarrow> topology \<Rightarrow> topology option) \<Rightarrow> string \<times> topology \<Rightarrow> ('s, kube_error, string option) op" where
  "scan_step f pt =
     (case f (fst pt) (snd pt) of None \<Rightarrow> op_ret None
       | Some y \<Rightarrow> op_bind (put (fst pt) y) (\<lambda>_. op_ret (Some (fst pt))))"

lemma scan_view:
  assumes "op_touch (scan_step f) items s = (Inr rs, t)" and "distinct (map fst items)"
  shows "view t q = (case map_of items q of Some x \<Rightarrow> (case f q x of None \<Rightarrow> view s q | Some y \<Rightarrow> Some y) | None \<Rightarrow> view s q)
    \<and> rs = map fst (filter (\<lambda>pt. f (fst pt) (snd pt) \<noteq> None) items)"
  using assms
proof (induction items arbitrary: s rs)
  case (Cons pt items)
  obtain p x where pt: "pt = (p, x)" by (cases pt)
  from Cons.prems(1) obtain r s1 rs' where
    s1: "scan_step f pt s = (Inr r, s1)" "op_touch (scan_step f) items s1 = (Inr rs', t)"
    and rs: "rs = (case r of None \<Rightarrow> rs' | Some p \<Rightarrow> p # rs')"
    by (auto simp: op_bind_Inr)
  have d: "p \<notin> set (map fst items)" "distinct (map fst items)" using Cons.prems(2) pt by auto
  have mn: "map_of items p = None" using d(1) by (simp add: map_of_eq_None_iff)
  note ih = Cons.IH [OF s1(2) d(2)]
  show ?case
  proof (cases "f p x")
    case None
    with s1(1) pt have "s1 = s" "r = None" by (auto simp: scan_step_def)
    with None ih rs pt mn show ?thesis by auto
  next
    case (Some y)
    with s1(1) pt obtain u where "put p y s = (Inr u, s1)" "r = Some p" by (auto simp: scan_step_def op_bind_Inr)
    then have "view s1 = (view s)(p \<mapsto> y)" "r = Some p" using put_view by auto
    with Some ih rs pt mn show ?thesis by (cases "q = p") (auto split: option.splits)
  qed
qed simp

end

lemma topo_put_view: "topo_update p x s = (Inr u, t) \<Longrightarrow> map_of (kb_topos t) = (map_of (kb_topos s))(p \<mapsto> x)"
  using topo_update_Inr [of p x s u t] by (auto simp: update_conv')

interpretation kube_api: topology_api topo_get topo_update "\<lambda>s. map_of (kb_topos s)"
proof unfold_locales
  show "topo_get p s = (Inr x, t) \<Longrightarrow> map_of (kb_topos s) p = Some x \<and> map_of (kb_topos t) = map_of (kb_topos s)"
    for p s x t using topo_get_Inr [of p s x t] by simp
qed (rule topo_put_view)

section \<open>Removing the links of a request\<close>

lemma filter_key_absent: "q \<notin> fst ` set es \<Longrightarrow> filter (\<lambda>x. fst x = q) es = []"
  by (force simp: filter_empty_conv)

lemma set_group_entries_aux:
  "map_of (fold (\<lambda>(p, e) m. AList.update p ((case map_of m p of None \<Rightarrow> [] | Some xs \<Rightarrow> xs) @ [e]) m) es m) q =
     (if q \<in> fst ` set es
      then Some ((case map_of m q of None \<Rightarrow> [] | Some xs \<Rightarrow> xs) @ map snd (filter (\<lambda>x. fst x = q) es))
      else map_of m q)"
  by (induction es arbitrary: m) (auto simp: update_conv' filter_key_absent split: option.splits)

lemma map_of_group_entries:
  "map_of (group_entries es) q =
     (if q \<in> fst ` set es then Some (map snd (filter (\<lambda>x. fst x = q) es)) else None)"
  by (simp add: group_entries_def set_group_entries_aux)

lemma distinct_group_entries: "distinct (map fst (group_entries es))"
proof -
  have "distinct (map fst m) \<Longrightarrow> distinct (map fst
      (fold (\<lambda>(p, e) m. AList.update p ((case map_of m p of None \<Rightarrow> [] | Some xs \<Rightarrow> xs) @ [e]) m) es m))" for m
    by (induction es arbitrary: m) (auto simp: distinct_update)
  then show ?thesis by (simp add: group_entries_def)
qed

text \<open>The iteration order of a Go map: any permutation of its entries.\<close>

definition permutes :: "('a list \<Rightarrow> 'a list) \<Rightarrow> bool" where
  "permutes order \<longleftrightarrow> (\<forall>xs. mset (order xs) = mset xs)"

lemma permutes_set: "permutes order \<Longrightarrow> set (order xs) = set xs"
  unfolding permutes_def by (metis set_mset_mset)

lemma permutes_distinct: "permutes order \<Longrightarrow> distinct (map fst (order xs)) \<longleftrightarrow> distinct (map fst xs)"
proof -
  assume "permutes order"
  then have "mset (map fst (order xs)) = mset (map fst xs)" by (simp add: permutes_def)
  then show ?thesis by (rule mset_eq_imp_distinct_iff)
qed

lemma permutes_map_of: "permutes order \<Longrightarrow> distinct (map fst xs) \<Longrightarrow> map_of (order xs) = map_of xs"
  by (rule map_of_eqI) (auto simp: permutes_set permutes_distinct map_of_eq_Some_iff)

lemma op_touch_mono:
  assumes "op_touch f xs s = (Inr rs, t)"
    and "\<And>x s r t. x \<in> set xs \<Longrightarrow> f x s = (Inr r, t) \<Longrightarrow> g (h x) s = (Inr r, t)"
  shows "op_touch g (map h xs) s = (Inr rs, t)"
  using assms
proof (induction xs arbitrary: s rs)
  case (Cons x xs)
  from Cons.prems(1) obtain r s1 rs' where
    s1: "f x s = (Inr r, s1)" "op_touch f xs s1 = (Inr rs', t)" "rs = (case r of None \<Rightarrow> rs' | Some p \<Rightarrow> p # rs')"
    by (auto simp: op_bind_Inr)
  have "op_touch g (map h xs) s1 = (Inr rs', t)" by (rule Cons.IH [OF s1(2)]) (simp add: Cons.prems(2))
  moreover have "g (h x) s = (Inr r, s1)" using Cons.prems(2) s1(1) by simp
  ultimately show ?case using s1(3) by (auto simp: op_bind_Inr)
qed simp

definition drop_from :: "(crd_link \<Rightarrow> bool) \<Rightarrow> topology \<Rightarrow> topology option" where
  "drop_from bad t =
     (if drops_some bad (items_of t) then Some (t\<lparr>t_links := Some (drop_items bad (items_of t))\<rparr>) else None)"

lemma links_of_items: "links_of t = concat (map (\<lambda>i. case i of CLink c \<Rightarrow> [c] | CJunk _ \<Rightarrow> []) (items_of t))"
  by (auto simp: links_of_def items_of_def split: option.splits)

lemma concat_drop_items:
  "concat (map (\<lambda>i. case i of CLink c \<Rightarrow> [c] | CJunk _ \<Rightarrow> []) (drop_items bad xs)) =
   filter (\<lambda>c. \<not> bad c) (concat (map (\<lambda>i. case i of CLink c \<Rightarrow> [c] | CJunk _ \<Rightarrow> []) xs))"
  by (induction xs) (auto simp: drop_items_def split: crd_item.splits)

lemma drops_some_links: "drops_some bad (items_of t) \<longleftrightarrow> (\<exists>c \<in> set (links_of t). bad c)"
proof -
  have "drops_some bad xs \<longleftrightarrow> (\<exists>c \<in> set (concat (map (\<lambda>i. case i of CLink c \<Rightarrow> [c] | CJunk _ \<Rightarrow> []) xs)). bad c)" for xs
    by (induction xs) (auto simp: drops_some_def split: crd_item.splits)
  then show ?thesis by (simp add: links_of_items)
qed

lemma links_of_drop_from:
  "links_of (case drop_from bad t of None \<Rightarrow> t | Some y \<Rightarrow> y) = filter (\<lambda>c. \<not> bad c) (links_of t)"
proof (cases "drops_some bad (items_of t)")
  case True
  have "links_of (t\<lparr>t_links := Some (drop_items bad (items_of t))\<rparr>) = filter (\<lambda>c. \<not> bad c) (links_of t)"
    unfolding links_of_items [of t] concat_drop_items [symmetric] by (simp add: links_of_def)
  with True show ?thesis by (simp add: drop_from_def)
next
  case False
  then have "filter (\<lambda>c. \<not> bad c) (links_of t) = links_of t"
    unfolding drops_some_links by (auto simp: filter_id_conv)
  with False show ?thesis by (simp add: drop_from_def)
qed

definition doomed :: "(string \<times> crd_link list) list \<Rightarrow> string \<Rightarrow> crd_link \<Rightarrow> bool" where
  "doomed per_pod p c \<longleftrightarrow>
     (\<exists>es. map_of per_pod p = Some es \<and> topology_link_key_for_modify c \<in> set (map topology_link_key_for_modify es))"

lemma remove_specific_rewrite:
  assumes "(p, es) \<in> set m" and "distinct (map fst m)" and "remove_specific_step (p, es) s = (Inr r, t)"
  shows "kube_api.rewrite_step (\<lambda>p. drop_from (doomed m p)) p s = (Inr r, t)"
proof -
  have "map_of m p = Some es" using assms(1,2) by simp
  then have bad: "doomed m p = (\<lambda>c. topology_link_key_for_modify c \<in> set (map topology_link_key_for_modify es))"
    by (intro ext) (simp add: doomed_def)
  obtain x s1 where g: "topo_get p s = (Inr x, s1)"
    using assms(3) by (auto simp: remove_specific_step_def op_bind_Inr op_map_err_Inr)
  show ?thesis
    using assms(3) g unfolding kube_api.rewrite_step_def remove_specific_step_def bad
    by (auto simp: op_bind_ok op_bind_Inr op_map_err_Inr drop_from_def Let_def split: if_splits)
qed

lemma remove_specific_view:
  assumes ok: "remove_specific_links order links nodes s = (Inr touched, t)" and p: "permutes order"
  shows "map_option links_of (map_of (kb_topos t) q) =
      map_option (\<lambda>x. filter (\<lambda>c. \<not> doomed (build_per_pod_link_entries links nodes) q c) (links_of x)) (map_of (kb_topos s) q) \<and>
    (q \<in> set touched \<longleftrightarrow> (\<exists>x c. map_of (kb_topos s) q = Some x \<and> c \<in> set (links_of x) \<and>
           doomed (build_per_pod_link_entries links nodes) q c))"
proof -
  let ?g = "build_per_pod_link_entries links nodes" and ?m = "order (build_per_pod_link_entries links nodes)"
  have dg: "distinct (map fst ?g)" unfolding build_per_pod_link_entries_def by (rule distinct_group_entries)
  have dm: "distinct (map fst ?m)" using permutes_distinct [OF p] dg by simp
  have mo: "map_of ?m = map_of ?g" by (rule permutes_map_of [OF p dg])
  then have dd: "doomed ?m = doomed ?g" by (simp add: doomed_def fun_eq_iff)
  have "op_touch (kube_api.rewrite_step (\<lambda>p. drop_from (doomed ?m p))) (map fst ?m) s = (Inr touched, t)"
    using ok [unfolded remove_specific_links_def]
    by (rule op_touch_mono) (auto intro: remove_specific_rewrite [OF _ dm])
  note r = kube_api.rewrite_all_view [OF this dm, unfolded dd]
  have nd: "\<not> doomed ?g q c" if "q \<notin> set (map fst ?m)" for c
  proof -
    have "map_of ?m q = None" using that by (simp add: map_of_eq_None_iff)
    then show ?thesis unfolding mo by (simp add: doomed_def)
  qed
  have a: "map_option links_of (map_of (kb_topos t) q) =
      map_option (\<lambda>x. filter (\<lambda>c. \<not> doomed ?g q c) (links_of x)) (map_of (kb_topos s) q)"
  proof (cases "q \<in> set (map fst ?m)")
    case True
    then have "map_of (kb_topos t) q =
        map_option (\<lambda>x. case drop_from (doomed ?g q) x of None \<Rightarrow> x | Some y \<Rightarrow> y) (map_of (kb_topos s) q)"
      using r(1) [of q] by (simp only: if_True)
    then show ?thesis by (simp add: option.map_comp o_def links_of_drop_from)
  next
    case False
    with r(1) [of q] nd [OF False] show ?thesis by (simp only: if_False) simp
  qed
  have f: "(\<exists>y. drop_from (doomed ?g q) x = Some y) \<longleftrightarrow> (\<exists>c \<in> set (links_of x). doomed ?g q c)" for x
    by (simp add: drop_from_def drops_some_links)
  have "q \<in> set touched \<longleftrightarrow> q \<in> set (map fst ?m) \<and> (\<exists>x. map_of (kb_topos s) q = Some x \<and> (\<exists>c \<in> set (links_of x). doomed ?g q c))"
    unfolding r(3) set_filter f [symmetric] by blast
  with nd have "q \<in> set touched \<longleftrightarrow> (\<exists>x c. map_of (kb_topos s) q = Some x \<and> c \<in> set (links_of x) \<and> doomed ?g q c)"
    by blast
  with a show ?thesis by blast
qed

text \<open>
  The entries a list of links names, read off the links: the entry of a link at one of its ends
  sits in the Topology of the pod that end resolves to, and names the interface there, the pod
  at the other end and the interface there, in that order.
\<close>

definition entry_at :: "node_spec list \<Rightarrow> string \<Rightarrow> string \<Rightarrow> string \<Rightarrow> string \<Rightarrow> string \<Rightarrow> crd_link \<Rightarrow> bool" where
  "entry_at nodes here intf there there_intf q e \<longleftrightarrow>
     q \<noteq> external_node_name \<and> q = resolve_pod_name here nodes \<and>
     c_local_intf e @ ''|'' @ c_peer_pod e @ ''|'' @ c_peer_intf e =
       intf @ ''|'' @ to_crd_peer_pod (resolve_pod_name there nodes) @ ''|'' @ there_intf"

definition named_by :: "link_spec list \<Rightarrow> node_spec list \<Rightarrow> string \<Rightarrow> crd_link \<Rightarrow> bool" where
  "named_by links nodes q e \<longleftrightarrow>
     (\<exists>l \<in> set links. entry_at nodes (l_node l) (l_intf l) (l_peer l) (l_peer_intf l) q e \<or>
        entry_at nodes (l_peer l) (l_peer_intf l) (l_node l) (l_intf l) q e)"

lemma join_three: "join_with ''|'' [a, b, c] = a @ ''|'' @ b @ ''|'' @ c"
  by simp

lemma entry_at_near:
  "entry_at nodes (l_node l) (l_intf l) (l_peer l) (l_peer_intf l) q e \<longleftrightarrow>
     q \<noteq> external_node_name \<and> q = resolve_pod_name (l_node l) nodes \<and>
     topology_link_key_for_modify e = topology_link_key_for_modify (near_entry nodes l u)"
  by (simp add: entry_at_def topology_link_key_for_modify_def near_entry_def)

lemma entry_at_far:
  "entry_at nodes (l_peer l) (l_peer_intf l) (l_node l) (l_intf l) q e \<longleftrightarrow>
     q \<noteq> external_node_name \<and> q = resolve_pod_name (l_peer l) nodes \<and>
     topology_link_key_for_modify e = topology_link_key_for_modify (far_entry nodes l u)"
  by (simp add: entry_at_def topology_link_key_for_modify_def far_entry_def)

lemma doomed_group_entries:
  "doomed (group_entries es) q e \<longleftrightarrow>
     (\<exists>c. (q, c) \<in> set es \<and> topology_link_key_for_modify e = topology_link_key_for_modify c)"
  unfolding doomed_def map_of_group_entries by force

lemma doomed_named_by: "doomed (build_per_pod_link_entries links nodes) = named_by links nodes"
proof (intro ext)
  fix q e
  have k: "(\<exists>c. (q, c) \<in> set (link_entries nodes l None) \<and> topology_link_key_for_modify e = topology_link_key_for_modify c) \<longleftrightarrow>
      entry_at nodes (l_node l) (l_intf l) (l_peer l) (l_peer_intf l) q e \<or>
      entry_at nodes (l_peer l) (l_peer_intf l) (l_node l) (l_intf l) q e" for l
    unfolding entry_at_near [where u = None] entry_at_far [where u = None]
    by (auto simp: link_entries_def Let_def)
  show "doomed (build_per_pod_link_entries links nodes) q e \<longleftrightarrow> named_by links nodes q e"
    unfolding build_per_pod_link_entries_def sanitize_links_for_qemu_def doomed_group_entries named_by_def k [symmetric]
    by (simp only: set_concat set_map UN_iff bex_simps) blast
qed



section \<open>Removing the links of deleted pods\<close>

definition cut_from_deleted :: "string list \<Rightarrow> string \<Rightarrow> topology \<Rightarrow> topology option" where
  "cut_from_deleted deleted p t =
     (if p \<in> set deleted then None else drop_from (\<lambda>c. c_peer_pod c \<in> set deleted) t)"

lemma remove_deleted_scan:
  assumes "remove_deleted_step deleted pt s = (Inr r, t)"
  shows "kube_api.scan_step (cut_from_deleted deleted) pt s = (Inr r, t)"
proof -
  obtain p x where pt: "pt = (p, x)" by (cases pt)
  show ?thesis
  proof (cases "p \<in> set deleted \<or> t_links x = None")
    case True
    then have "cut_from_deleted deleted p x = None"
      by (auto simp: cut_from_deleted_def drop_from_def items_of_def drops_some_def)
    moreover have "r = None \<and> t = s"
      using True assms pt by (cases "p \<in> set deleted") (auto simp: remove_deleted_step_def)
    ultimately show ?thesis using pt by (simp add: kube_api.scan_step_def)
  next
    case False
    then obtain xs where "t_links x = Some xs" "p \<notin> set deleted" by auto
    with assms pt show ?thesis
      by (auto simp: kube_api.scan_step_def remove_deleted_step_def cut_from_deleted_def drop_from_def items_of_def
          Let_def op_bind_Inr op_map_err_Inr split: if_splits)
  qed
qed

lemma remove_deleted_view:
  assumes ok: "remove_links_referencing_deleted_pods deleted s = (Inr touched, t)"
    and d: "distinct (map fst (kb_topos s))"
  shows "map_option links_of (map_of (kb_topos t) q) =
      map_option (\<lambda>x. filter (\<lambda>c. q \<in> set deleted \<or> c_peer_pod c \<notin> set deleted) (links_of x)) (map_of (kb_topos s) q) \<and>
    (q \<in> set touched \<longleftrightarrow> q \<notin> set deleted \<and>
       (\<exists>x c. map_of (kb_topos s) q = Some x \<and> c \<in> set (links_of x) \<and> c_peer_pod c \<in> set deleted))"
proof -
  obtain items s1 where l: "topo_list s = (Inr items, s1)" and "op_touch (remove_deleted_step deleted) items s1 = (Inr touched, t)"
    using ok by (auto simp: remove_links_referencing_deleted_pods_def op_bind_Inr op_map_err_Inr)
  from topo_list_Inr [OF l] have i: "items = kb_topos s" "kb_topos s1 = kb_topos s" by auto
  have "op_touch (kube_api.scan_step (cut_from_deleted deleted)) (map id items) s1 = (Inr touched, t)"
    by (rule op_touch_mono [OF \<open>op_touch (remove_deleted_step deleted) items s1 = (Inr touched, t)\<close>])
      (simp add: remove_deleted_scan)
  then have "op_touch (kube_api.scan_step (cut_from_deleted deleted)) (kb_topos s) s1 = (Inr touched, t)"
    using i by simp
  note r = kube_api.scan_view [OF this d, of q, unfolded i(2)]
  have a: "map_option links_of (map_of (kb_topos t) q) =
      map_option (\<lambda>x. filter (\<lambda>c. q \<in> set deleted \<or> c_peer_pod c \<notin> set deleted) (links_of x)) (map_of (kb_topos s) q)"
  proof (cases "map_of (kb_topos s) q")
    case (Some x)
    then have "map_of (kb_topos t) q = Some (case cut_from_deleted deleted q x of None \<Rightarrow> x | Some y \<Rightarrow> y)"
      using r by (auto split: option.splits)
    with Some show ?thesis
      using links_of_drop_from [of x "\<lambda>c. c_peer_pod c \<in> set deleted"] by (simp add: cut_from_deleted_def)
  qed (use r in simp)
  have c: "cut_from_deleted deleted q x \<noteq> None \<longleftrightarrow> q \<notin> set deleted \<and> (\<exists>c \<in> set (links_of x). c_peer_pod c \<in> set deleted)" for x
    by (simp add: cut_from_deleted_def drop_from_def drops_some_links)
  have "q \<in> set touched \<longleftrightarrow> (\<exists>x. (q, x) \<in> set (kb_topos s) \<and> cut_from_deleted deleted q x \<noteq> None)"
    using r by force
  also have "\<dots> \<longleftrightarrow> q \<notin> set deleted \<and>
       (\<exists>x c. map_of (kb_topos s) q = Some x \<and> c \<in> set (links_of x) \<and> c_peer_pod c \<in> set deleted)"
    unfolding c map_of_eq_Some_iff [OF d] by blast
  finally show ?thesis using a by blast
qed

text \<open>
  C6: after \<open>RemoveLinksReferencingDeletedPods\<close> the Topology of a surviving pod holds exactly the
  entries it held towards pods that survive, in their order, so nothing refers to a deleted pod;
  the Topologies of the deleted pods are not written; and the pods returned are the survivors
  that lost an entry.
\<close>

theorem remove_deleted_pods_exact:
  assumes ok: "remove_links_referencing_deleted_pods deleted s = (Inr touched, t)"
    and d: "distinct (map fst (kb_topos s))"
  shows "map_option links_of (map_of (kb_topos t) q) =
      map_option (\<lambda>x. filter (\<lambda>c. q \<in> set deleted \<or> c_peer_pod c \<notin> set deleted) (links_of x)) (map_of (kb_topos s) q) \<and>
    (q \<in> set touched \<longleftrightarrow> q \<notin> set deleted \<and>
       (\<exists>x c. map_of (kb_topos s) q = Some x \<and> c \<in> set (links_of x) \<and> c_peer_pod c \<in> set deleted))"
  by (rule remove_deleted_view [OF ok d])

theorem remove_deleted_pods_exact_witness:
  "let s = snd (create_topologies (\<lambda>_. 0) demo_nodes demo_links empty_kube);
       r = remove_links_referencing_deleted_pods [''r-1''] s in
   map_option links_of (map_of (kb_topos (snd r)) ''a-0'') =
      map_option (\<lambda>x. filter (\<lambda>c. c_peer_pod c \<noteq> ''r-1'') (links_of x)) (map_of (kb_topos s) ''a-0'') \<and>
   (\<exists>x c. map_of (kb_topos s) ''a-0'' = Some x \<and> c \<in> set (links_of x) \<and> c_peer_pod c = ''r-1'')"
proof -
  let ?s = "snd (create_topologies (\<lambda>_. 0) demo_nodes demo_links empty_kube)"
  let ?r = "remove_links_referencing_deleted_pods [''r-1''] ?s"
  have r: "?r = (Inr [''a-0''], snd ?r)" by code_simp
  have "distinct (map fst (kb_topos ?s))" by code_simp
  from remove_deleted_pods_exact [OF r this, of "''a-0''"] show ?thesis by (simp add: Let_def)
qed

section \<open>Appending the links of a request\<close>

text \<open>The entries \<open>append_missing\<close> adds: those whose key is neither there nor added before.\<close>

fun missing_of :: "string list \<Rightarrow> crd_link list \<Rightarrow> crd_link list" where
  "missing_of keys [] = []"
| "missing_of keys (c # cs) =
     (if topology_link_key c \<in> set keys then missing_of keys cs else c # missing_of (topology_link_key c # keys) cs)"

lemma append_missing_eq: "append_missing keys items cs = items @ map CLink (missing_of keys cs)"
  by (induction cs arbitrary: keys items) (auto simp: Let_def)

lemma missing_of_subset: "set (missing_of keys cs) \<subseteq> set cs"
  by (induction cs arbitrary: keys) auto

lemma missing_of_covers: "c \<in> set cs \<Longrightarrow> topology_link_key c \<in> set keys \<union> topology_link_key ` set (missing_of keys cs)"
proof (induction cs arbitrary: keys)
  case (Cons d cs)
  show ?case
  proof (cases "c = d")
    case False
    with Cons.prems have "c \<in> set cs" by simp
    then show ?thesis using Cons.IH [of keys] Cons.IH [of "topology_link_key d # keys"] by auto
  qed auto
qed simp

text \<open>What one pod of the request ends up with.\<close>

definition upserted :: "topology option \<Rightarrow> crd_link list \<Rightarrow> crd_link list" where
  "upserted old added = (case old of None \<Rightarrow> added
     | Some t \<Rightarrow> links_of t @ missing_of (map topology_link_key (links_of t)) added)"

lemma links_of_CLinks: "links_of \<lparr>t_links = Some (map CLink cs), t_label = l, t_names = n\<rparr> = cs"
  by (induction cs) (simp_all add: links_of_def)

lemma links_of_appended: "links_of (t\<lparr>t_links := Some (items_of t @ map CLink cs), t_label := l\<rparr>) = links_of t @ cs"
proof -
  have "concat (map (\<lambda>i. case i of CLink c \<Rightarrow> [c] | CJunk _ \<Rightarrow> []) (map CLink cs)) = cs" by (induction cs) auto
  then show ?thesis unfolding links_of_items [of t] by (simp add: links_of_def)
qed

lemma upsert_step_view:
  assumes "upsert_step labels (p, added) s = (Inr r, t)" and "p \<noteq> external_node_name"
  shows "\<exists>x. map_of (kb_topos t) = (map_of (kb_topos s))(p \<mapsto> x) \<and> links_of x = upserted (map_of (kb_topos s) p) added"
proof (cases "topo_get p s")
  case (Pair g s1)
  show ?thesis
  proof (cases g)
    case (Inl e)
    with assms Pair have e: "e = KNotFound" by (cases e) (auto simp: upsert_step_def)
    with Pair Inl have v: "map_of (kb_topos s) p = None" "kb_topos s1 = kb_topos s" using topo_get_Inl by auto
    let ?x = "\<lparr>t_links = Some (map CLink added), t_label = label labels p, t_names = []\<rparr>"
    obtain u where "topo_create p ?x s1 = (Inr u, t)"
      using assms Pair Inl e by (auto simp: upsert_step_def op_bind_Inr op_map_err_Inr)
    from topo_create_Inr [OF this] v have "map_of (kb_topos t) = (map_of (kb_topos s))(p \<mapsto> ?x)"
      by (auto simp: map_add_def fun_eq_iff split: option.splits)
    with v show ?thesis by (intro exI [of _ ?x]) (simp add: upserted_def links_of_CLinks)
  next
    case (Inr x)
    from topo_get_Inr [of p s x s1] Pair Inr have v: "map_of (kb_topos s) p = Some x" "kb_topos s1 = kb_topos s" by auto
    let ?m = "missing_of (map topology_link_key (links_of x)) added"
    show ?thesis
    proof (cases "?m = []")
      case True
      with assms Pair Inr have "t = s1" by (auto simp: upsert_step_def append_missing_eq Let_def)
      with v True show ?thesis by (intro exI [of _ x]) (simp add: upserted_def fun_upd_idem)
    next
      case False
      let ?y = "x\<lparr>t_links := Some (items_of x @ map CLink ?m), t_label := (if label labels p \<noteq> [] then label labels p else t_label x)\<rparr>"
      obtain u where "topo_update p ?y s1 = (Inr u, t)"
        using assms Pair Inr False by (auto simp: upsert_step_def append_missing_eq Let_def op_bind_Inr op_map_err_Inr)
      from topo_put_view [OF this] v show ?thesis
        by (intro exI [of _ ?y]) (simp add: upserted_def links_of_appended)
    qed
  qed
qed

lemma upsert_pass_view:
  assumes "op_touch (upsert_step labels) es s = (Inr rs, t)" and "distinct (map fst es)"
    and "external_node_name \<notin> fst ` set es"
  shows "map_option links_of (map_of (kb_topos t) q) =
     (case map_of es q of None \<Rightarrow> map_option links_of (map_of (kb_topos s) q)
      | Some added \<Rightarrow> Some (upserted (map_of (kb_topos s) q) added))"
  using assms
proof (induction es arbitrary: s rs)
  case (Cons e es)
  obtain p added where e: "e = (p, added)" by (cases e)
  from Cons.prems(1) e obtain r s1 rs' where
    s1: "upsert_step labels (p, added) s = (Inr r, s1)" "op_touch (upsert_step labels) es s1 = (Inr rs', t)"
    by (auto simp: op_bind_Inr)
  have d: "p \<notin> set (map fst es)" "distinct (map fst es)" "external_node_name \<notin> fst ` set es" "p \<noteq> external_node_name"
    using Cons.prems e by auto
  have mn: "map_of es p = None" using d(1) by (simp add: map_of_eq_None_iff)
  obtain x where x: "map_of (kb_topos s1) = (map_of (kb_topos s))(p \<mapsto> x)" "links_of x = upserted (map_of (kb_topos s) p) added"
    using upsert_step_view [OF s1(1) d(4)] by blast
  from Cons.IH [OF s1(2) d(2,3)] x mn e show ?case by (auto split: option.splits)
qed simp

definition wanted :: "(nat \<Rightarrow> int) \<Rightarrow> link_spec list \<Rightarrow> node_spec list \<Rightarrow> string \<Rightarrow> crd_link list" where
  "wanted rnd links nodes q =
     map snd (filter (\<lambda>x. fst x = q) (request_entries nodes (zip links (resolve_link_uids rnd links))))"

lemma request_entries_not_external: "external_node_name \<notin> fst ` set (request_entries nodes ls)"
  by (auto simp: request_entries_def link_entries_def Let_def split: if_splits)

lemma upsert_append_links_view:
  assumes "upsert_append_links order rnd links nodes s = (Inr touched, t)" and p: "permutes order"
  shows "map_option links_of (map_of (kb_topos t) q) =
     (if wanted rnd links nodes q = [] then map_option links_of (map_of (kb_topos s) q)
      else Some (upserted (map_of (kb_topos s) q) (wanted rnd links nodes q)))"
proof (cases "links = []")
  case True
  with assms show ?thesis by (simp add: upsert_append_links_def wanted_def request_entries_def)
next
  case False
  let ?R = "request_entries nodes (zip links (resolve_link_uids rnd links))"
  have dg: "distinct (map fst (group_entries ?R))" by (rule distinct_group_entries)
  have dm: "distinct (map fst (order (group_entries ?R)))" using permutes_distinct [OF p] dg by simp
  have mo: "map_of (order (group_entries ?R)) = map_of (group_entries ?R)" by (rule permutes_map_of [OF p dg])
  have dom: "q \<in> fst ` set ?R \<longleftrightarrow> wanted rnd links nodes q \<noteq> []" for q
    by (force simp: wanted_def filter_empty_conv)
  have "external_node_name \<notin> fst ` set (order (group_entries ?R))"
  proof -
    have "map_of (group_entries ?R) external_node_name = None"
      using request_entries_not_external [of nodes] by (simp add: map_of_group_entries)
    then show ?thesis by (simp add: permutes_set [OF p] map_of_eq_None_iff)
  qed
  from upsert_pass_view [OF _ dm this] assms(1) False
  have "map_option links_of (map_of (kb_topos t) q) =
     (case map_of (group_entries ?R) q of None \<Rightarrow> map_option links_of (map_of (kb_topos s) q)
      | Some added \<Rightarrow> Some (upserted (map_of (kb_topos s) q) added))"
    unfolding mo [symmetric]
    by (simp add: upsert_append_links_def Let_def sanitize_links_for_qemu_def request_entries_def)
  then show ?thesis using dom [of q] by (simp add: map_of_group_entries wanted_def)
qed

text \<open>
  The entries a list of links asks for on a pod, read off the links: each link that has an end on
  the pod asks for that end, in the order of the links, with the UID the link names or the one
  drawn for it.
\<close>

definition asked_on :: "(nat \<Rightarrow> int) \<Rightarrow> link_spec list \<Rightarrow> node_spec list \<Rightarrow> string \<Rightarrow> crd_link list" where
  "asked_on rnd links nodes q = concat (map (\<lambda>i.
     let l = links ! i; u = (case l_uid l of Some u \<Rightarrow> u | None \<Rightarrow> 1000000 + rnd i);
         here = (\<lambda>n. q \<noteq> external_node_name \<and> resolve_pod_name n nodes = q) in
     (if here (l_node l)
      then [\<lparr>c_local_intf = l_intf l, c_local_ip = addrs_first (l_ip l),
              c_peer_pod = to_crd_peer_pod (resolve_pod_name (l_peer l) nodes), c_peer_intf = l_peer_intf l,
              c_peer_ip = addrs_first (l_peer_ip l), c_uid = Some u\<rparr>] else []) @
     (if here (l_peer l)
      then [\<lparr>c_local_intf = l_peer_intf l, c_local_ip = addrs_first (l_peer_ip l),
              c_peer_pod = to_crd_peer_pod (resolve_pod_name (l_node l) nodes), c_peer_intf = l_intf l,
              c_peer_ip = addrs_first (l_ip l), c_uid = Some u\<rparr>] else [])) [0 ..< length links])"

lemma resolve_link_uids_nth:
  "i < length links \<Longrightarrow> resolve_link_uids rnd links ! i = (case l_uid (links ! i) of Some u \<Rightarrow> u | None \<Rightarrow> 1000000 + rnd i)"
  by (simp add: resolve_link_uids_def nth_enumerate_eq split: option.splits)

lemma select_concat:
  "map snd (filter P (concat (map f zs))) = concat (map (\<lambda>z. map snd (filter P (f z))) zs)"
  by (induction zs) simp_all

lemma wanted_asked: "wanted rnd links nodes q = asked_on rnd links nodes q"
proof -
  let ?z = "zip links (resolve_link_uids rnd links)"
  have z: "?z = map (\<lambda>i. (links ! i, resolve_link_uids rnd links ! i)) [0 ..< length links]"
    by (rule nth_equalityI) (simp_all add: resolve_link_uids_def)
  have "wanted rnd links nodes q =
      concat (map (\<lambda>z. map snd (filter (\<lambda>x. fst x = q) (link_entries nodes (fst z) (Some (snd z))))) ?z)"
    unfolding wanted_def request_entries_def select_concat by (simp only: split_beta)
  also have "\<dots> = asked_on rnd links nodes q"
    unfolding z asked_on_def map_map
    by (rule arg_cong [where f = concat], rule map_cong [OF refl])
      (auto simp: resolve_link_uids_nth link_entries_def near_entry_def far_entry_def Let_def)
  finally show ?thesis .
qed

lemma missing_of_distinct: "distinct (map topology_link_key (missing_of keys cs))"
  and missing_of_fresh: "topology_link_key ` set (missing_of keys cs) \<inter> set keys = {}"
proof -
  have "distinct (map topology_link_key (missing_of keys cs)) \<and> topology_link_key ` set (missing_of keys cs) \<inter> set keys = {}"
  proof (induction cs arbitrary: keys)
    case (Cons c cs)
    show ?case
    proof (cases "topology_link_key c \<in> set keys")
      case True
      then show ?thesis using Cons.IH by simp
    next
      case False
      then show ?thesis using Cons.IH [of "topology_link_key c # keys"] by auto
    qed
  qed simp
  then show "distinct (map topology_link_key (missing_of keys cs))"
    and "topology_link_key ` set (missing_of keys cs) \<inter> set keys = {}" by auto
qed

text \<open>
  C7: \<open>upsertAppendLinksInTopologies\<close> loses nothing and adds only what was asked. A pod with a
  Topology keeps every entry it had, in front and in order; what follows comes from the request,
  under keys that were not there and each once; and every entry the request asks for on the pod
  is there, under its key. A pod without one gets a Topology with exactly the entries asked for
  on it, and none when none is asked for. A pod the request does not touch is as it was.
\<close>

theorem upsert_append_links_sound:
  assumes ok: "upsert_append_links order rnd links nodes s = (Inr touched, t)" and p: "permutes order"
  shows "case map_of (kb_topos s) q of
     None \<Rightarrow> map_option links_of (map_of (kb_topos t) q) =
       (if asked_on rnd links nodes q = [] then None else Some (asked_on rnd links nodes q))
   | Some x \<Rightarrow> \<exists>y new. map_of (kb_topos t) q = Some y \<and> links_of y = links_of x @ new \<and>
       set new \<subseteq> set (asked_on rnd links nodes q) \<and>
       topology_link_key ` set (asked_on rnd links nodes q) \<subseteq> topology_link_key ` set (links_of y) \<and>
       distinct (map topology_link_key new) \<and> topology_link_key ` set new \<inter> topology_link_key ` set (links_of x) = {}"
proof (cases "map_of (kb_topos s) q")
  case None
  with upsert_append_links_view [OF ok p, of q] show ?thesis by (simp add: wanted_asked upserted_def)
next
  case (Some x)
  let ?w = "asked_on rnd links nodes q" and ?k = "map topology_link_key (links_of x)"
  let ?n = "missing_of ?k ?w"
  have "map_option links_of (map_of (kb_topos t) q) = Some (links_of x @ ?n)"
    using upsert_append_links_view [OF ok p, of q] Some by (auto simp: upserted_def wanted_asked)
  then obtain y where y: "map_of (kb_topos t) q = Some y" "links_of y = links_of x @ ?n" by auto
  have "topology_link_key c \<in> topology_link_key ` set (links_of y)" if "c \<in> set ?w" for c
    using missing_of_covers [OF that, of ?k] y(2) by (auto simp: image_Un)
  then have "topology_link_key ` set ?w \<subseteq> topology_link_key ` set (links_of y)" by blast
  then show ?thesis using y missing_of_subset [of ?k ?w] missing_of_distinct [of ?k ?w] missing_of_fresh [of ?k ?w] Some
    by auto
qed

theorem upsert_append_links_sound_witness:
  "let s = snd (create_topologies (\<lambda>_. 0) demo_nodes demo_links empty_kube);
       new_link = (basic_link ''a'' ''eth2'' ''x'' ''eth1'')\<lparr>l_uid := Some 1000009\<rparr>;
       nodes = basic_node ''x'' ''router'' 1 # demo_nodes;
       r = upsert_append_links rev (\<lambda>_. 0) [new_link] nodes s;
       x = the (map_of (kb_topos s) ''a-0'')
   in (\<exists>y new. map_of (kb_topos (snd r)) ''a-0'' = Some y \<and> links_of y = links_of x @ new \<and>
         set new \<subseteq> set (asked_on (\<lambda>_. 0) [new_link] nodes ''a-0'')) \<and>
      map_option links_of (map_of (kb_topos (snd r)) ''x-0'') = Some (asked_on (\<lambda>_. 0) [new_link] nodes ''x-0'')"
proof -
  let ?s = "snd (create_topologies (\<lambda>_. 0) demo_nodes demo_links empty_kube)"
  let ?l = "(basic_link ''a'' ''eth2'' ''x'' ''eth1'')\<lparr>l_uid := Some 1000009\<rparr>"
  let ?n = "basic_node ''x'' ''router'' 1 # demo_nodes"
  let ?r = "upsert_append_links rev (\<lambda>_. 0) [?l] ?n ?s"
  have r: "?r = (Inr [''x-0'', ''a-0''], snd ?r)" by code_simp
  have p: "permutes rev" by (simp add: permutes_def)
  have x: "map_of (kb_topos ?s) ''a-0'' = Some (the (map_of (kb_topos ?s) ''a-0''))" by code_simp
  have n: "map_of (kb_topos ?s) ''x-0'' = None" "asked_on (\<lambda>_. 0) [?l] ?n ''x-0'' \<noteq> []" by code_simp+
  from upsert_append_links_sound [OF r p, of "''a-0''"]
  have "\<exists>y new. map_of (kb_topos (snd ?r)) ''a-0'' = Some y \<and> links_of y = links_of (the (map_of (kb_topos ?s) ''a-0'')) @ new \<and>
         set new \<subseteq> set (asked_on (\<lambda>_. 0) [?l] ?n ''a-0'')"
    by (subst (asm) x) (simp only: option.case, blast)
  moreover from upsert_append_links_sound [OF r p, of "''x-0''"]
  have "map_option links_of (map_of (kb_topos (snd ?r)) ''x-0'') = Some (asked_on (\<lambda>_. 0) [?l] ?n ''x-0'')"
    by (simp only: n option.case if_False)
  ultimately show ?thesis unfolding Let_def by blast
qed

section \<open>The scope of a modify\<close>

fun grow_scope :: "string list \<Rightarrow> link_spec list \<Rightarrow> string list" where
  "grow_scope scope [] = scope"
| "grow_scope scope (l # ls) =
     (if l_node l \<in> set scope \<or> l_peer l \<in> set scope then
        (let s1 = (if l_node l \<noteq> [] \<and> l_node l \<noteq> external_node_name then add_new (l_node l) scope else scope);
             s2 = (if l_peer l \<noteq> [] \<and> l_peer l \<noteq> external_node_name then add_new (l_peer l) s1 else s1)
         in grow_scope s2 ls)
      else grow_scope scope ls)"

definition filter_links_by_pods :: "link_spec list \<Rightarrow> string list \<Rightarrow> link_spec list" where
  "filter_links_by_pods links pods =
     (if links = [] \<or> pods = [] then links
      else let scope = fold add_new (filter (\<lambda>p. p \<noteq> [] \<and> p \<noteq> external_node_name) pods) [] in
           if scope = [] then links
           else let scope' = grow_scope scope links;
                    kept = filter (\<lambda>l. l_node l \<in> set scope' \<or> l_peer l \<in> set scope') links
                in if kept = [] then links else kept)"

lemma grow_scope_mono: "set scope \<subseteq> set (grow_scope scope ls)"
proof (induction ls arbitrary: scope)
  case (Cons l ls)
  show ?case
    using Cons.IH [of scope]
      Cons.IH [of "add_new (l_node l) scope"] Cons.IH [of "add_new (l_peer l) scope"]
      Cons.IH [of "add_new (l_peer l) (add_new (l_node l) scope)"]
    by (auto simp: Let_def)
qed simp

lemma grow_scope_neighbours:
  "l \<in> set ls \<Longrightarrow> l_node l \<in> set scope \<or> l_peer l \<in> set scope \<Longrightarrow>
   q \<in> {l_node l, l_peer l} \<Longrightarrow> q \<noteq> [] \<Longrightarrow> q \<noteq> external_node_name \<Longrightarrow> q \<in> set (grow_scope scope ls)"
proof (induction ls arbitrary: scope)
  case (Cons k ls)
  let ?s1 = "if l_node k \<noteq> [] \<and> l_node k \<noteq> external_node_name then add_new (l_node k) scope else scope"
  let ?s2 = "if l_peer k \<noteq> [] \<and> l_peer k \<noteq> external_node_name then add_new (l_peer k) ?s1 else ?s1"
  have sub: "set scope \<subseteq> set ?s2" by auto
  show ?case
  proof (cases "l = k")
    case True
    with Cons.prems have "q \<in> set ?s2" by auto
    with grow_scope_mono [of ?s2 ls] have "q \<in> set (grow_scope ?s2 ls)" by blast
    with True Cons.prems(2) show ?thesis by (simp add: Let_def)
  next
    case False
    with Cons.prems have l: "l \<in> set ls" by simp
    show ?thesis
    proof (cases "l_node k \<in> set scope \<or> l_peer k \<in> set scope")
      case True
      have "q \<in> set (grow_scope ?s2 ls)" using Cons.IH [OF l _ Cons.prems(3-5)] Cons.prems(2) sub by blast
      with True show ?thesis by (simp add: Let_def)
    next
      case False
      with Cons.IH [OF l Cons.prems(2-5)] show ?thesis by simp
    qed
  qed
qed simp

text \<open>
  The scope of a modify leaves out no link it must look at: of the links that touch an
  impacted pod, and of the links that touch a neighbour of one, none is filtered away.
\<close>

theorem filter_links_by_pods_covers:
  assumes "l \<in> set links" and "p \<in> set pods" and "p \<noteq> []" and "p \<noteq> external_node_name"
    and "p \<in> {l_node l, l_peer l}" and "k \<in> set links" and "q \<in> {l_node l, l_peer l}"
    and "q \<noteq> []" and "q \<noteq> external_node_name" and "q \<in> {l_node k, l_peer k}"
  shows "k \<in> set (filter_links_by_pods links pods)"
proof -
  let ?s = "fold add_new (filter (\<lambda>p. p \<noteq> [] \<and> p \<noteq> external_node_name) pods) []"
  have ps: "p \<in> set ?s" using assms(2-4) by simp
  have "l_node l \<in> set ?s \<or> l_peer l \<in> set ?s" using ps assms(5) by blast
  then have q: "q \<in> set (grow_scope ?s links)" by (rule grow_scope_neighbours [OF assms(1) _ assms(7-9)])
  then have "k \<in> set (filter (\<lambda>l. l_node l \<in> set (grow_scope ?s links) \<or> l_peer l \<in> set (grow_scope ?s links)) links)"
    using assms(6,10) by auto
  with assms(6) show ?thesis unfolding filter_links_by_pods_def Let_def by (auto simp del: filter.simps)
qed

theorem filter_links_by_pods_covers_witness:
  "basic_link ''b'' ''eth2'' ''c'' ''eth1'' \<in> set (filter_links_by_pods
     [basic_link ''b'' ''eth2'' ''c'' ''eth1'', basic_link ''a'' ''eth1'' ''b'' ''eth1''] [''a''])"
  by (rule filter_links_by_pods_covers [where l = "basic_link ''a'' ''eth1'' ''b'' ''eth1''" and p = "''a''" and q = "''b''"])
    (simp_all add: basic_link_def external_node_name_def)

section \<open>One label for all the uplinks of a pod\<close>

text \<open>
  \<open>ValidateExternalLabelConsistency\<close> accepts two uplinks of one pod with different labels in an
  empty namespace; the Topology the deploy writes holds the second label for both, so one label
  names two host interfaces, and the next request that gives the first uplink its own label is
  refused.
\<close>

lemma per_pod_label_breaks_pairs:
  "let up = (\<lambda>i h lab. (basic_link ''b'' i ''external'' h)\<lparr>l_peer_label := lab, l_uid := Some 1000000\<rparr>);
       ls = [up ''eth1'' ''eno1'' ''lab'', up ''eth2'' ''eno2'' ''wan''];
       s = snd (create_topologies (\<lambda>_. 0) [basic_node ''b'' ''host'' 1] ls empty_kube) in
   validate_external_label_consistency ls empty_kube = None \<and>
   pairs_in_force (set (kb_topos s)) = {(''eno1'', ''wan''), (''eno2'', ''wan'')} \<and>
   validate_external_label_consistency ls s \<noteq> None"
  unfolding pairs_in_force Let_def by (intro conjI) code_simp+

end
