(* ===== verification/Link_UIDs.thy ===== *)
theory Link_UIDs
  imports Topology_Updates
begin

text \<open>
  The registry of link UIDs, \<open>helpers/network_uids.go\<close>: UIDs are unique in a cluster, across its
  namespaces. The table \<open>link_uid_registry\<close> is rebuilt from the Topology resources and read
  before a request gets its UIDs. \<open>rnd k\<close> is the k-th draw of \<open>rand.Intn\<close> over the range.
\<close>

section \<open>Owners and the registry\<close>

definition min_link_uid :: int where "min_link_uid = 1000000"
definition max_link_uid :: int where "max_link_uid = 9999999"
definition max_link_uid_random_tries :: nat where "max_link_uid_random_tries = 256"

record uid_owner =
  o_ns :: string
  o_node :: string
  o_intf :: string
  o_peer :: string
  o_peer_intf :: string
  o_uid :: int

record uid_row =
  u_cluster :: string
  u_uid :: int
  u_ns :: string
  u_node :: string
  u_intf :: string
  u_peer :: "string option"
  u_peer_intf :: "string option"

datatype uid_error =
    UDb db_error
  | UList string
  | UOutOfRange nat int
  | UInUse uid_owner uid_owner
  | UNoFree

definition nullable :: "string \<Rightarrow> string option" where
  "nullable s = (if s = [] then None else Some s)"

definition owner_from_spec :: "string \<Rightarrow> link_spec \<Rightarrow> uid_owner" where
  "owner_from_spec ns l =
     \<lparr>o_ns = ns, o_node = l_node l, o_intf = l_intf l, o_peer = l_peer l, o_peer_intf = l_peer_intf l,
      o_uid = (case l_uid l of None \<Rightarrow> 0 | Some u \<Rightarrow> u)\<rparr>"

definition owner_of_row :: "uid_row \<Rightarrow> uid_owner" where
  "owner_of_row r =
     \<lparr>o_ns = u_ns r, o_node = u_node r, o_intf = u_intf r,
      o_peer = (case u_peer r of None \<Rightarrow> [] | Some s \<Rightarrow> s),
      o_peer_intf = (case u_peer_intf r of None \<Rightarrow> [] | Some s \<Rightarrow> s), o_uid = u_uid r\<rparr>"

text \<open>\<open>ORDER BY uid, namespace, node_name, interface_name\<close>.\<close>

definition row_le :: "uid_row \<Rightarrow> uid_row \<Rightarrow> bool" where
  "row_le a b \<longleftrightarrow>
     u_uid a < u_uid b \<or> u_uid a = u_uid b \<and>
     (str_less (u_ns a) (u_ns b) \<or> u_ns a = u_ns b \<and>
      (str_less (u_node a) (u_node b) \<or> u_node a = u_node b \<and> str_le (u_intf a) (u_intf b)))"

fun first_owners :: "uid_row list \<Rightarrow> (int \<times> uid_owner) list \<Rightarrow> (int \<times> uid_owner) list" where
  "first_owners [] m = m"
| "first_owners (r # rs) m =
     first_owners rs (if map_of m (u_uid r) = None then AList.update (u_uid r) (owner_of_row r) m else m)"

type_synonym registry_db = "uid_row store"

definition op_uid :: "('s, db_error, 'a) op \<Rightarrow> ('s, uid_error, 'a) op" where
  "op_uid m = op_map_err UDb m"

definition get_registered_link_uids :: "(registry_db, uid_error, (int \<times> uid_owner) list) op" where
  "get_registered_link_uids =
     op_bind (op_uid need_open) (\<lambda>_.
     op_bind (op_uid need_cluster) (\<lambda>cid.
     op_uid (db_query ''read'' (\<lambda>rows. first_owners (sort_by row_le (filter (\<lambda>r. u_cluster r = cid) rows)) []))))"

section \<open>UIDs of a request\<close>

text \<open>The first pass: the UIDs the request brings, each checked and reserved.\<close>

fun reserve_given :: "string \<Rightarrow> (int \<times> uid_owner) list \<Rightarrow> nat \<Rightarrow> link_spec list \<Rightarrow> (int \<times> uid_owner) list \<Rightarrow>
    uid_error + (int \<times> uid_owner) list" where
  "reserve_given ns used i [] res = Inr res"
| "reserve_given ns used i (l # ls) res =
     (case l_uid l of
        None \<Rightarrow> reserve_given ns used (Suc i) ls res
      | Some uid \<Rightarrow>
          if uid < min_link_uid \<or> uid > max_link_uid then Inl (UOutOfRange i uid)
          else case map_of res uid of
            Some e \<Rightarrow> Inl (UInUse (owner_from_spec ns l) e)
          | None \<Rightarrow>
              (case map_of used uid of
                 Some e \<Rightarrow> Inl (UInUse (owner_from_spec ns l) e)
               | None \<Rightarrow> reserve_given ns used (Suc i) ls (AList.update uid (owner_from_spec ns l) res)))"

text \<open>Up to \<open>n\<close> random draws, from draw \<open>k\<close> on: the candidate, and the next draw's index.\<close>

fun draw_uid :: "(nat \<Rightarrow> int) \<Rightarrow> nat \<Rightarrow> nat \<Rightarrow> (int \<Rightarrow> bool) \<Rightarrow> int option \<times> nat" where
  "draw_uid rnd 0 k taken = (None, k)"
| "draw_uid rnd (Suc n) k taken =
     (let c = rnd k + min_link_uid in if taken c then draw_uid rnd n (Suc k) taken else (Some c, Suc k))"

function scan_uid :: "int \<Rightarrow> (int \<Rightarrow> bool) \<Rightarrow> int option" where
  "scan_uid c taken =
     (if c > max_link_uid then None else if taken c then scan_uid (c + 1) taken else Some c)"
  by pat_completeness auto
termination by (relation "measure (\<lambda>(c, _). nat (max_link_uid + 1 - c))") auto

declare scan_uid.simps [simp del]

definition is_taken :: "(int \<times> uid_owner) list \<Rightarrow> (int \<times> uid_owner) list \<Rightarrow> int \<Rightarrow> bool" where
  "is_taken used res c \<longleftrightarrow> map_of used c \<noteq> None \<or> map_of res c \<noteq> None"

definition generate_available_link_uid ::
  "(nat \<Rightarrow> int) \<Rightarrow> nat \<Rightarrow> (int \<times> uid_owner) list \<Rightarrow> (int \<times> uid_owner) list \<Rightarrow> (uid_error + int) \<times> nat" where
  "generate_available_link_uid rnd k used res =
     (case draw_uid rnd max_link_uid_random_tries k (is_taken used res) of
        (Some c, k') \<Rightarrow> (Inr c, k')
      | (None, k') \<Rightarrow>
          (case scan_uid min_link_uid (is_taken used res) of
             Some c \<Rightarrow> (Inr c, k')
           | None \<Rightarrow> (Inl UNoFree, k')))"

fun assign_missing :: "(nat \<Rightarrow> int) \<Rightarrow> nat \<Rightarrow> string \<Rightarrow> (int \<times> uid_owner) list \<Rightarrow> (int \<times> uid_owner) list \<Rightarrow> link_spec list \<Rightarrow>
    uid_error + link_spec list" where
  "assign_missing rnd k ns used res [] = Inr []"
| "assign_missing rnd k ns used res (l # ls) =
     (case l_uid l of
        Some _ \<Rightarrow> bindR (assign_missing rnd k ns used res ls) (\<lambda>ls'. Inr (l # ls'))
      | None \<Rightarrow>
          (case generate_available_link_uid rnd k used res of
             (Inl e, _) \<Rightarrow> Inl e
           | (Inr uid, k') \<Rightarrow>
               bindR (assign_missing rnd k' ns used
                        (AList.update uid ((owner_from_spec ns l)\<lparr>o_uid := uid\<rparr>) res) ls)
                 (\<lambda>ls'. Inr (l\<lparr>l_uid := Some uid\<rparr> # ls'))))"

definition prepare_unique_link_uids ::
  "(nat \<Rightarrow> int) \<Rightarrow> string \<Rightarrow> link_spec list \<Rightarrow> (registry_db, uid_error, link_spec list) op" where
  "prepare_unique_link_uids rnd ns links =
     op_bind get_registered_link_uids (\<lambda>used.
       op_lift (bindR (reserve_given ns used 0 links []) (\<lambda>res. assign_missing rnd 0 ns used res links)))"

lemma draw_uid_Some: "draw_uid rnd n k taken = (Some c, k') \<Longrightarrow> \<not> taken c \<and> (\<exists>j. c = rnd j + min_link_uid)"
  by (induction n arbitrary: k) (auto simp: Let_def split: if_splits)

lemma scan_uid_Some: "scan_uid b taken = Some c \<Longrightarrow> \<not> taken c \<and> b \<le> c \<and> c \<le> max_link_uid"
  by (induction b taken rule: scan_uid.induct) (subst (asm) scan_uid.simps, auto split: if_splits)

lemma scan_uid_None: "scan_uid b taken = None \<Longrightarrow> b \<le> c \<Longrightarrow> c \<le> max_link_uid \<Longrightarrow> taken c"
proof (induction b taken rule: scan_uid.induct)
  case (1 b taken)
  from 1(2) 1(3,4) have t: "taken b" "scan_uid (b + 1) taken = None"
    by (simp_all add: scan_uid.simps [of b] split: if_splits)
  show ?case
  proof (cases "c = b")
    case False
    with 1(3) have "b + 1 \<le> c" by simp
    then show ?thesis using 1(1) t 1(3,4) by simp
  qed (use t in simp)
qed

definition in_uid_range :: "int \<Rightarrow> bool" where
  "in_uid_range c \<longleftrightarrow> min_link_uid \<le> c \<and> c \<le> max_link_uid"

text \<open>What \<open>rand.Intn(maxLinkUID-minLinkUID+1)\<close> may return.\<close>

definition draws_ok :: "(nat \<Rightarrow> int) \<Rightarrow> bool" where
  "draws_ok rnd \<longleftrightarrow> (\<forall>k. 0 \<le> rnd k \<and> rnd k \<le> max_link_uid - min_link_uid)"

lemma generate_Inr:
  assumes "generate_available_link_uid rnd k used res = (Inr c, k')" and "draws_ok rnd"
  shows "\<not> is_taken used res c \<and> in_uid_range c"
proof (cases "draw_uid rnd max_link_uid_random_tries k (is_taken used res)")
  case (Pair r k1)
  show ?thesis
  proof (cases r)
    case None
    with Pair assms(1) have "scan_uid min_link_uid (is_taken used res) = Some c"
      by (auto simp: generate_available_link_uid_def split: option.splits)
    from scan_uid_Some [OF this] show ?thesis by (simp add: in_uid_range_def)
  next
    case (Some d)
    with Pair assms(1) have "d = c" by (auto simp: generate_available_link_uid_def)
    with Pair Some have "draw_uid rnd max_link_uid_random_tries k (is_taken used res) = (Some c, k1)" by simp
    from draw_uid_Some [OF this] obtain j where j: "\<not> is_taken used res c" "c = rnd j + min_link_uid" by blast
    have "0 \<le> rnd j" "rnd j \<le> max_link_uid - min_link_uid" using assms(2) by (auto simp: draws_ok_def)
    with j show ?thesis by (simp add: in_uid_range_def)
  qed
qed

lemma generate_Inl:
  assumes "generate_available_link_uid rnd k used res = (Inl e, k')" and "in_uid_range c"
  shows "is_taken used res c"
proof -
  obtain d k1 where dk: "draw_uid rnd max_link_uid_random_tries k (is_taken used res) = (d, k1)"
    by (cases "draw_uid rnd max_link_uid_random_tries k (is_taken used res)")
  have "scan_uid min_link_uid (is_taken used res) = None"
    using assms(1) unfolding generate_available_link_uid_def dk
    by (cases d; cases "scan_uid min_link_uid (is_taken used res)") simp_all
  then show ?thesis using assms(2) unfolding in_uid_range_def by (blast intro: scan_uid_None)
qed

text \<open>
  C9: a free UID is always found: however the random draws fall, \<open>generateAvailableLinkUID\<close>
  fails only when every UID of the range is registered or reserved, and what it returns is in
  the range and neither.
\<close>

theorem generate_uid_total:
  assumes "draws_ok rnd"
  shows "case fst (generate_available_link_uid rnd k used res) of
      Inr c \<Rightarrow> in_uid_range c \<and> \<not> is_taken used res c
    | Inl _ \<Rightarrow> \<forall>c. in_uid_range c \<longrightarrow> is_taken used res c"
proof (cases "generate_available_link_uid rnd k used res")
  case (Pair r k')
  show ?thesis
  proof (cases r)
    case (Inl e)
    with Pair generate_Inl show ?thesis by auto
  next
    case (Inr c)
    with Pair generate_Inr [OF _ assms] show ?thesis by auto
  qed
qed

theorem generate_uid_total_witness:
  "\<exists>c. fst (generate_available_link_uid (\<lambda>_. 3) 0 [] []) = Inr c \<and> in_uid_range c \<and> \<not> is_taken [] [] c"
proof -
  have "draws_ok (\<lambda>_. 3)" by (simp add: draws_ok_def max_link_uid_def min_link_uid_def)
  note total = generate_uid_total [OF this, where k = 0 and used = "[]" and res = "[]"]
  have "in_uid_range min_link_uid" "\<not> is_taken [] [] min_link_uid" by code_simp+
  with total show ?thesis by (auto split: sum.splits)
qed

text \<open>The UIDs a request brings.\<close>

primrec given_uids :: "link_spec list \<Rightarrow> int list" where
  "given_uids [] = []"
| "given_uids (l # ls) = (case l_uid l of None \<Rightarrow> given_uids ls | Some u \<Rightarrow> u # given_uids ls)"

lemma reserve_given_Inr:
  assumes "reserve_given ns used i ls res = Inr res'"
  shows "set (given_uids ls) \<inter> (fst ` set used \<union> fst ` set res) = {} \<and> distinct (given_uids ls) \<and>
     (\<forall>u \<in> set (given_uids ls). in_uid_range u) \<and>
     dom (map_of res') = dom (map_of res) \<union> set (given_uids ls)"
  using assms
proof (induction ls arbitrary: i res)
  case (Cons l ls)
  show ?case
  proof (cases "l_uid l")
    case None
    with Cons show ?thesis by simp
  next
    case (Some u)
    from Cons.prems Some have h: "in_uid_range u" "map_of res u = None" "map_of used u = None"
      "reserve_given ns used (Suc i) ls (AList.update u (owner_from_spec ns l) res) = Inr res'"
      by (auto simp: in_uid_range_def split: if_splits option.splits)
    have f: "fst ` set (AList.update u (owner_from_spec ns l) res) = insert u (fst ` set res)"
      by simp
    from Cons.IH [OF h(4)] h(1-3) Some f show ?thesis
      by (auto simp: map_of_eq_None_iff update_conv')
  qed
qed simp

definition uids_of :: "link_spec list \<Rightarrow> int list" where
  "uids_of ls = map (\<lambda>l. the (l_uid l)) ls"

text \<open>A link as the request gave it, but with a UID: its own if it had one.\<close>

definition uid_filled :: "link_spec \<Rightarrow> link_spec \<Rightarrow> bool" where
  "uid_filled l l' \<longleftrightarrow> (\<exists>u. l' = l\<lparr>l_uid := Some u\<rparr> \<and> (\<forall>v. l_uid l = Some v \<longrightarrow> v = u))"

lemma is_taken_update: "is_taken used (AList.update u x res) c \<longleftrightarrow> c = u \<or> is_taken used res c"
  by (auto simp: is_taken_def update_conv')

text \<open>
  The second pass: with the given UIDs in \<open>G\<close> all reserved, the new ones avoid everything
  reserved, registered or handed out before.
\<close>

lemma assign_missing_Inr:
  assumes "assign_missing rnd k ns used res ls = Inr ls'" and "draws_ok rnd"
    and "\<forall>u \<in> set (given_uids ls). is_taken used res u" and "distinct (given_uids ls)"
  shows "list_all2 uid_filled ls ls' \<and> distinct (uids_of ls') \<and>
     (\<forall>u \<in> set (uids_of ls'). u \<in> set (given_uids ls) \<or> in_uid_range u \<and> \<not> is_taken used res u)"
  using assms
proof (induction ls arbitrary: k res ls')
  case Nil
  then show ?case by (auto simp: uids_of_def)
next
  case (Cons l ls)
  show ?case
  proof (cases "l_uid l")
    case (Some u)
    from Cons.prems(1) Some obtain rest where rest: "assign_missing rnd k ns used res ls = Inr rest" "ls' = l # rest"
      by (auto simp: bindR_Inr)
    have m: "given_uids (l # ls) = u # given_uids ls"
      using Some by simp
    from Cons.prems(3,4) m have pre: "\<forall>u \<in> set (given_uids ls). is_taken used res u"
      "distinct (given_uids ls)" "u \<notin> set (given_uids ls)" "is_taken used res u" by auto
    from Cons.IH [OF rest(1) Cons.prems(2) pre(1,2)] have ih:
      "list_all2 uid_filled ls rest" "distinct (uids_of rest)"
      "\<forall>u \<in> set (uids_of rest). u \<in> set (given_uids ls) \<or> in_uid_range u \<and> \<not> is_taken used res u" by auto
    have "u \<notin> set (uids_of rest)" using ih(3) pre(3,4) by blast
    moreover have "uid_filled l l" using Some by (auto simp: uid_filled_def)
    moreover have "uids_of ls' = u # uids_of rest" using rest(2) Some by (simp add: uids_of_def)
    ultimately show ?thesis using ih rest(2) m by auto
  next
    case None
    obtain r k' where g: "generate_available_link_uid rnd k used res = (r, k')"
      by (cases "generate_available_link_uid rnd k used res")
    from Cons.prems(1) None g obtain u rest where u: "r = Inr u"
      and rest: "assign_missing rnd k' ns used (AList.update u ((owner_from_spec ns l)\<lparr>o_uid := u\<rparr>) res) ls = Inr rest"
      and ls': "ls' = l\<lparr>l_uid := Some u\<rparr> # rest"
      by (auto simp: bindR_Inr split: sum.splits)
    have m: "given_uids (l # ls) = given_uids ls" using None by simp
    from g u generate_Inr [OF _ Cons.prems(2)] have fresh: "\<not> is_taken used res u" "in_uid_range u" by auto
    have pre: "\<forall>v \<in> set (given_uids ls). is_taken used (AList.update u ((owner_from_spec ns l)\<lparr>o_uid := u\<rparr>) res) v"
      "distinct (given_uids ls)"
      using Cons.prems(3,4) unfolding m by (simp_all add: is_taken_update)
    from Cons.IH [OF rest Cons.prems(2) pre] have ih: "list_all2 uid_filled ls rest" "distinct (uids_of rest)"
      "\<forall>v \<in> set (uids_of rest). v \<in> set (given_uids ls) \<or> in_uid_range v \<and> v \<noteq> u \<and> \<not> is_taken used res v"
      by (auto simp: is_taken_update)
    have "u \<notin> set (given_uids ls)" using Cons.prems(3) m fresh(1) by auto
    with ih(3) have "u \<notin> set (uids_of rest)" by blast
    moreover have "uid_filled l (l\<lparr>l_uid := Some u\<rparr>)" using None by (auto simp: uid_filled_def)
    moreover have "uids_of ls' = u # uids_of rest" using ls' by (simp add: uids_of_def)
    ultimately show ?thesis using ih ls' m fresh(2,1) by auto
  qed
qed

lemma first_owners_dom: "fst ` set (first_owners rs m) = u_uid ` set rs \<union> fst ` set m"
proof (induction rs arbitrary: m)
  case (Cons r rs)
  have "fst ` set (AList.update (u_uid r) (owner_of_row r) m) = insert (u_uid r) (fst ` set m)"
    by simp
  moreover have "map_of m (u_uid r) \<noteq> None \<Longrightarrow> u_uid r \<in> fst ` set m" by (simp add: map_of_eq_None_iff)
  ultimately show ?case using Cons.IH by auto
qed simp

definition registered_uids :: "string \<Rightarrow> registry_db \<Rightarrow> int set" where
  "registered_uids cid db = {u_uid r | r. r \<in> set (st_rows db) \<and> u_cluster r = cid}"

lemma op_uid_Inr: "op_uid m s = (Inr a, t) \<longleftrightarrow> m s = (Inr a, t)"
  by (simp add: op_uid_def op_map_err_Inr)

lemma get_registered_Inr:
  assumes "get_registered_link_uids db = (Inr used, db')"
  shows "\<exists>cid. st_cluster db = Some cid \<and> fst ` set used = registered_uids cid db \<and> st_rows db' = st_rows db"
proof -
  obtain cid where c: "st_cluster db = Some cid"
    and q: "db_query ''read'' (\<lambda>rows. first_owners (sort_by row_le (filter (\<lambda>r. u_cluster r = cid) rows)) []) db = (Inr used, db')"
    using assms by (auto simp: get_registered_link_uids_def op_bind_Inr op_uid_Inr)
  from db_query_Inr [OF q] c show ?thesis
    by (auto simp: first_owners_dom registered_uids_def)
qed

text \<open>
  C1: the UIDs \<open>PrepareUniqueLinkUIDs\<close> hands out are the request's own where it named them and
  fresh elsewhere; all of them lie in the allowed range, no two links share one, and none is
  registered in this cluster by any namespace. Nothing else of the links changes, nor does the
  registry.
\<close>

theorem prepare_unique_link_uids_sound:
  assumes ok: "prepare_unique_link_uids rnd ns links db = (Inr links', db')" and d: "draws_ok rnd"
  shows "list_all2 uid_filled links links' \<and> distinct (uids_of links') \<and>
     (\<exists>cid. st_cluster db = Some cid \<and>
        (\<forall>u \<in> set (uids_of links'). in_uid_range u \<and> u \<notin> registered_uids cid db)) \<and> st_rows db' = st_rows db"
proof -
  obtain used res where u: "get_registered_link_uids db = (Inr used, db')"
    and res: "reserve_given ns used 0 links [] = Inr res" and a: "assign_missing rnd 0 ns used res links = Inr links'"
    using ok by (auto simp: prepare_unique_link_uids_def op_bind_Inr bindR_Inr)
  from get_registered_Inr [OF u] obtain cid where c: "st_cluster db = Some cid" "fst ` set used = registered_uids cid db"
    "st_rows db' = st_rows db" by blast
  from reserve_given_Inr [OF res] have g: "set (given_uids links) \<inter> fst ` set used = {}"
    "distinct (given_uids links)" "\<forall>u \<in> set (given_uids links). in_uid_range u"
    "dom (map_of res) = set (given_uids links)" by auto
  have t: "\<forall>u \<in> set (given_uids links). is_taken used res u"
    using g(4) by (auto simp: is_taken_def)
  from assign_missing_Inr [OF a d t g(2)] have r: "list_all2 uid_filled links links'" "distinct (uids_of links')"
    "\<forall>u \<in> set (uids_of links'). u \<in> set (given_uids links) \<or> in_uid_range u \<and> \<not> is_taken used res u" by auto
  have nt: "\<not> is_taken used res u \<Longrightarrow> u \<notin> registered_uids cid db" for u
    unfolding c(2) [symmetric] by (auto simp: is_taken_def map_of_eq_None_iff)
  have "\<forall>u \<in> set (uids_of links'). in_uid_range u \<and> u \<notin> registered_uids cid db"
    using r(3) g(1,3) nt unfolding c(2) by blast
  with r c show ?thesis by blast
qed

definition demo_registry :: registry_db where
  "demo_registry = \<lparr>st_open = True, st_cluster = Some ''c1'', st_faults = [],
     st_rows = [\<lparr>u_cluster = ''c1'', u_uid = 1000003, u_ns = ''lab'', u_node = ''x-0'', u_intf = ''eth1'',
                 u_peer = Some ''y-0'', u_peer_intf = Some ''eth1''\<rparr>]\<rparr>"

theorem prepare_unique_link_uids_sound_witness:
  "\<exists>links'. fst (prepare_unique_link_uids (\<lambda>k. if k < 3 then 3 else 5) ''lab2''
       [(basic_link ''a'' ''eth1'' ''b'' ''eth1'')\<lparr>l_uid := Some 1000005\<rparr>, basic_link ''a'' ''eth2'' ''b'' ''eth2''] demo_registry) = Inr links' \<and>
     distinct (uids_of links') \<and> 1000003 \<notin> set (uids_of links')"
proof -
  let ?ls = "[(basic_link ''a'' ''eth1'' ''b'' ''eth1'')\<lparr>l_uid := Some 1000005\<rparr>, basic_link ''a'' ''eth2'' ''b'' ''eth2'']"
  let ?p = "prepare_unique_link_uids (\<lambda>k. if k < 3 then 3 else 5) ''lab2'' ?ls demo_registry"
  have r: "isl (fst ?p) = False" by code_simp
  then obtain ls' where ls': "?p = (Inr ls', snd ?p)" by (cases "fst ?p") (auto simp: prod_eq_iff)
  have d: "draws_ok (\<lambda>k. if k < 3 then 3 else 5)" by (simp add: draws_ok_def max_link_uid_def min_link_uid_def)
  have "st_cluster demo_registry = Some cid \<Longrightarrow> 1000003 \<in> registered_uids cid demo_registry" for cid
    by (auto simp: demo_registry_def registered_uids_def)
  with prepare_unique_link_uids_sound [OF ls' d] show ?thesis using ls' by (metis fst_conv)
qed

section \<open>Rebuilding the registry from the cluster\<close>

fun owners_by_uid :: "string \<Rightarrow> (string \<times> crd_link) list \<Rightarrow> (int \<times> uid_owner) list \<Rightarrow> (int \<times> uid_owner) list" where
  "owners_by_uid ns [] m = m"
| "owners_by_uid ns ((pod, c) # es) m =
     (case c_uid c of
        None \<Rightarrow> owners_by_uid ns es m
      | Some uid \<Rightarrow>
          if map_of m uid \<noteq> None then owners_by_uid ns es m
          else owners_by_uid ns es (AList.update uid
            \<lparr>o_ns = ns, o_node = pod, o_intf = c_local_intf c, o_peer = from_crd_peer_pod (c_peer_pod c),
             o_peer_intf = c_peer_intf c, o_uid = uid\<rparr> m))"

text \<open>\<open>listing\<close> is the namespace's List call; \<open>order\<close> the iteration of \<open>ownersByUID\<close>.\<close>

definition collect_namespace_link_uid_owners ::
  "((int \<times> uid_owner) list \<Rightarrow> (int \<times> uid_owner) list) \<Rightarrow> string \<Rightarrow> (string \<times> topology) list option \<Rightarrow> uid_error + uid_owner list" where
  "collect_namespace_link_uid_owners order ns listing =
     (case listing of
        None \<Rightarrow> Inl (UList ns)
      | Some items \<Rightarrow> Inr (map snd (order (owners_by_uid ns (crd_entries items) []))))"

definition owner_key :: "uid_owner \<Rightarrow> string" where
  "owner_key w = join_with ''|'' [int_str (o_uid w), o_ns w, o_node w, o_intf w]"

definition row_of_owner :: "string \<Rightarrow> uid_owner \<Rightarrow> uid_row" where
  "row_of_owner cid w =
     \<lparr>u_cluster = cid, u_uid = o_uid w, u_ns = o_ns w, u_node = o_node w, u_intf = o_intf w,
      u_peer = nullable (o_peer w), u_peer_intf = nullable (o_peer_intf w)\<rparr>"

fun insert_link_uid_owners :: "string \<Rightarrow> uid_owner list \<Rightarrow> string list \<Rightarrow> (registry_db, db_error, string list) op" where
  "insert_link_uid_owners cid [] inserted = op_ret inserted"
| "insert_link_uid_owners cid (w # ws) inserted =
     (if owner_key w \<in> set inserted then insert_link_uid_owners cid ws inserted
      else op_bind (db_exec ''insert'' (\<lambda>rows. rows @ [row_of_owner cid w]))
             (\<lambda>_. insert_link_uid_owners cid ws (owner_key w # inserted)))"

definition sync_namespace_link_uid_registry ::
  "((int \<times> uid_owner) list \<Rightarrow> (int \<times> uid_owner) list) \<Rightarrow> string \<Rightarrow> (string \<times> topology) list option \<Rightarrow> (registry_db, uid_error, unit) op" where
  "sync_namespace_link_uid_registry order ns listing =
     op_bind (op_uid need_open) (\<lambda>_.
     op_bind (op_uid need_cluster) (\<lambda>cid.
     op_bind (op_lift (collect_namespace_link_uid_owners order ns listing)) (\<lambda>owners.
     op_uid (db_tx
       (op_bind (db_exec ''clear'' (filter (\<lambda>r. \<not> (u_cluster r = cid \<and> u_ns r = ns)))) (\<lambda>_.
        op_bind (db_query ''prepare'' (\<lambda>_. ())) (\<lambda>_.
        op_bind (insert_link_uid_owners cid owners []) (\<lambda>_. op_ret ()))))))))"

text \<open>The loop of the cluster-wide rebuild over the namespaces, inside its transaction.\<close>

fun sync_each_namespace ::
  "((int \<times> uid_owner) list \<Rightarrow> (int \<times> uid_owner) list) \<Rightarrow> string \<Rightarrow> (string \<times> (string \<times> topology) list option) list \<Rightarrow>
   string list \<Rightarrow> (registry_db, uid_error, unit) op" where
  "sync_each_namespace order cid [] inserted = op_ret ()"
| "sync_each_namespace order cid ((ns, listing) # nss) inserted =
     op_bind (op_lift (collect_namespace_link_uid_owners order ns listing)) (\<lambda>owners.
     op_bind (op_uid (insert_link_uid_owners cid owners inserted)) (sync_each_namespace order cid nss))"

text \<open>The transaction of the rebuild, whose errors are of both kinds.\<close>

definition registry_tx :: "(registry_db, uid_error, 'a) op \<Rightarrow> (registry_db, uid_error, 'a) op" where
  "registry_tx body = (\<lambda>s. let (bad, t) = next_fault s in
     if bad then (Inl (UDb (StmtFailed ''begin'')), t)
     else (case body t of
             (Inl e, u) \<Rightarrow> (Inl e, u\<lparr>st_rows := st_rows t\<rparr>)
           | (Inr a, u) \<Rightarrow>
               (let (bad', v) = next_fault u in
                if bad' then (Inl (UDb (StmtFailed ''commit'')), v\<lparr>st_rows := st_rows t\<rparr>) else (Inr a, v))))"

text \<open>\<open>SyncLinkUIDRegistryFromCluster\<close>; \<open>namespaces\<close> is the List of namespaces, with each one's topologies.\<close>

definition sync_link_uid_registry_from_cluster ::
  "((int \<times> uid_owner) list \<Rightarrow> (int \<times> uid_owner) list) \<Rightarrow> (string \<times> (string \<times> topology) list option) list option \<Rightarrow>
   (registry_db, uid_error, unit) op" where
  "sync_link_uid_registry_from_cluster order namespaces =
     op_bind (op_uid need_cluster) (\<lambda>cid.
     op_bind (op_lift (case namespaces of None \<Rightarrow> Inl (UList []) | Some nss \<Rightarrow> Inr nss)) (\<lambda>nss.
     op_bind (op_uid need_open) (\<lambda>_.
     registry_tx
       (op_bind (op_uid (db_exec ''clear'' (filter (\<lambda>r. u_cluster r \<noteq> cid)))) (\<lambda>_.
        op_bind (op_uid (db_query ''prepare'' (\<lambda>_. ()))) (\<lambda>_.
        sync_each_namespace order cid nss []))))))"

definition delete_namespace_link_uid_registry :: "string \<Rightarrow> (registry_db, uid_error, unit) op" where
  "delete_namespace_link_uid_registry ns =
     op_bind (op_uid need_open) (\<lambda>_.
     op_bind (op_uid need_cluster) (\<lambda>cid.
     op_uid (db_exec ''delete'' (filter (\<lambda>r. \<not> (u_cluster r = cid \<and> u_ns r = ns))))))"

definition crd_uids :: "(string \<times> topology) list \<Rightarrow> int set" where
  "crd_uids items = {u. \<exists>(pod, c) \<in> set (crd_entries items). c_uid c = Some u}"

definition entry_uids :: "(string \<times> crd_link) list \<Rightarrow> int set" where
  "entry_uids es = {u. \<exists>p c. (p, c) \<in> set es \<and> c_uid c = Some u}"

lemma entry_uids_Cons: "entry_uids ((p, c) # es) = set_option (c_uid c) \<union> entry_uids es"
  by (auto simp: entry_uids_def)

lemma owners_by_uid_dom: "fst ` set (owners_by_uid ns es m) = entry_uids es \<union> fst ` set m"
proof (induction es arbitrary: m)
  case (Cons e es)
  obtain p c where e: "e = (p, c)" by (cases e)
  have "map_of m u \<noteq> None \<Longrightarrow> u \<in> fst ` set m" for u by (simp add: map_of_eq_None_iff)
  then show ?case unfolding e entry_uids_Cons by (auto simp: Cons.IH split: option.splits)
qed (simp add: entry_uids_def)

lemma owners_by_uid_ok:
  "\<forall>(u, w) \<in> set m. o_uid w = u \<and> o_ns w = ns \<Longrightarrow> \<forall>(u, w) \<in> set (owners_by_uid ns es m). o_uid w = u \<and> o_ns w = ns"
proof (induction es arbitrary: m)
  case (Cons e es)
  obtain p c where e: "e = (p, c)" by (cases e)
  show ?case
  proof (cases "\<exists>u. c_uid c = Some u \<and> map_of m u = None")
    case True
    then obtain u where u: "c_uid c = Some u" "map_of m u = None" by blast
    let ?w = "\<lparr>o_ns = ns, o_node = p, o_intf = c_local_intf c, o_peer = from_crd_peer_pod (c_peer_pod c),
         o_peer_intf = c_peer_intf c, o_uid = u\<rparr>"
    have "\<forall>(x, w) \<in> set (AList.update u ?w m). o_uid w = x \<and> o_ns w = ns"
      using Cons.prems set_AList_update [of u ?w m] by force
    from Cons.IH [OF this] u e show ?thesis by simp
  next
    case False
    then have "owners_by_uid ns (e # es) m = owners_by_uid ns es m"
      using e by (cases "c_uid c") auto
    with Cons show ?thesis by simp
  qed
qed simp

lemma int_str_no_bar: "CHR ''|'' \<notin> set (int_str i)"
proof -
  have "CHR ''|'' \<notin> set (nat_str n)" for n
    using nat_str_digits [of n] by (auto simp: list_all_iff is_digit_def)
  then show ?thesis by (simp add: int_str_def)
qed

lemma int_str_inj: "int_str i = int_str j \<Longrightarrow> i = j"
proof -
  have nd: "nat_str n \<noteq> CHR ''-'' # t" for n t using nat_str_no_dash [of n] by auto
  have nd': "CHR ''-'' # t \<noteq> nat_str n" for n t using nd by metis
  assume "int_str i = int_str j"
  then show "i = j" by (auto simp: int_str_def nat_str_inj nd nd' split: if_splits)
qed

lemma owner_key_uid: "owner_key a = owner_key b \<Longrightarrow> o_uid a = o_uid b"
proof -
  assume "owner_key a = owner_key b"
  then have "split_on CHR ''|'' (owner_key a) = split_on CHR ''|'' (owner_key b)" by simp
  then have "int_str (o_uid a) = int_str (o_uid b)"
    by (simp add: owner_key_def split_on_append [OF int_str_no_bar])
  then show ?thesis by (rule int_str_inj)
qed

lemma insert_link_uid_owners_Inr:
  assumes "insert_link_uid_owners cid ws inserted s = (Inr ins, t)"
  shows "\<exists>new. st_rows t = st_rows s @ map (row_of_owner cid) new \<and> set new \<subseteq> set ws \<and>
     owner_key ` set ws \<subseteq> owner_key ` set new \<union> set inserted"
  using assms
proof (induction ws arbitrary: s inserted)
  case (Cons w ws)
  show ?case
  proof (cases "owner_key w \<in> set inserted")
    case True
    with Cons.prems have "insert_link_uid_owners cid ws inserted s = (Inr ins, t)" by simp
    from Cons.IH [OF this] True show ?thesis by auto
  next
    case False
    with Cons.prems obtain s1 where s1: "db_exec ''insert'' (\<lambda>rows. rows @ [row_of_owner cid w]) s = (Inr (), s1)"
      "insert_link_uid_owners cid ws (owner_key w # inserted) s1 = (Inr ins, t)" by (auto simp: op_bind_Inr)
    from Cons.IH [OF s1(2)] obtain new where new: "st_rows t = st_rows s1 @ map (row_of_owner cid) new"
      "set new \<subseteq> set ws" "owner_key ` set ws \<subseteq> owner_key ` set new \<union> set (owner_key w # inserted)" by blast
    with db_exec_Inr [OF s1(1)] show ?thesis by (intro exI [of _ "w # new"]) auto
  qed
qed auto

lemma sync_owner_uids:
  assumes "collect_namespace_link_uid_owners order ns (Some items) = Inr ws" and "permutes order"
  shows "o_uid ` set ws = crd_uids items" and "\<forall>w \<in> set ws. o_ns w = ns"
proof -
  let ?m = "owners_by_uid ns (crd_entries items) []"
  have ws: "set ws = snd ` set ?m"
    using assms(1) permutes_set [OF assms(2), of ?m]
    by (simp add: collect_namespace_link_uid_owners_def) (metis set_map)
  have ok: "\<forall>(u, w) \<in> set ?m. o_uid w = u \<and> o_ns w = ns" by (rule owners_by_uid_ok) simp
  then have "o_uid ` snd ` set ?m = fst ` set ?m" by (force simp: image_iff)
  also have "\<dots> = crd_uids items" by (auto simp: owners_by_uid_dom crd_uids_def entry_uids_def)
  finally show "o_uid ` set ws = crd_uids items" unfolding ws .
  show "\<forall>w \<in> set ws. o_ns w = ns" using ok unfolding ws by auto
qed

text \<open>
  C4: a successful \<open>SyncNamespaceLinkUIDRegistry\<close> leaves the rows of every other namespace and
  cluster as they were and makes the namespace's rows name exactly the UIDs its Topology
  resources carry; a failing one, whichever statement fails, changes no row.
\<close>

theorem sync_namespace_exact:
  assumes p: "permutes order" and c: "st_cluster db = Some cid"
  shows "case sync_namespace_link_uid_registry order ns (Some items) db of
      (Inr _, db') \<Rightarrow>
        filter (\<lambda>r. \<not> (u_cluster r = cid \<and> u_ns r = ns)) (st_rows db') =
          filter (\<lambda>r. \<not> (u_cluster r = cid \<and> u_ns r = ns)) (st_rows db) \<and>
        u_uid ` set (filter (\<lambda>r. u_cluster r = cid \<and> u_ns r = ns) (st_rows db')) = crd_uids items
    | (Inl _, db') \<Rightarrow> st_rows db' = st_rows db"
proof (cases "sync_namespace_link_uid_registry order ns (Some items) db")
  case (Pair r db')
  let ?other = "\<lambda>r. \<not> (u_cluster r = cid \<and> u_ns r = ns)"
  obtain ws where ws: "collect_namespace_link_uid_owners order ns (Some items) = Inr ws"
    by (simp add: collect_namespace_link_uid_owners_def)
  let ?tx = "db_tx (op_bind (db_exec ''clear'' (filter ?other)) (\<lambda>_.
        op_bind (db_query ''prepare'' (\<lambda>_. ())) (\<lambda>_. op_bind (insert_link_uid_owners cid ws []) (\<lambda>_. op_ret ()))))"
  show ?thesis
  proof (cases r)
    case (Inl e)
    show ?thesis
    proof (cases "st_open db")
      case True
      then have "op_uid ?tx db = (Inl e, db')"
        using Pair Inl c ws
        by (simp add: sync_namespace_link_uid_registry_def op_bind_def op_uid_def op_map_err_def need_open_def need_cluster_def)
      then obtain e' where "?tx db = (Inl e', db')" by (auto simp: op_uid_def op_map_err_def split: prod.splits sum.splits)
      from db_tx_Inl [OF this] Pair Inl show ?thesis by simp
    next
      case False
      with Pair Inl show ?thesis
        by (auto simp: sync_namespace_link_uid_registry_def op_bind_def op_uid_def op_map_err_def need_open_def)
    qed
  next
    case (Inr u)
    then have "?tx db = (Inr u, db')"
      using Pair c ws by (auto simp: sync_namespace_link_uid_registry_def op_bind_Inr op_uid_Inr)
    from db_tx_Inr [OF this] obtain s' v where
      s': "st_rows s' = st_rows db" "st_rows db' = st_rows v"
      "op_bind (db_exec ''clear'' (filter ?other)) (\<lambda>_.
        op_bind (db_query ''prepare'' (\<lambda>_. ())) (\<lambda>_. op_bind (insert_link_uid_owners cid ws []) (\<lambda>_. op_ret ()))) s' = (Inr u, v)"
      by blast
    then obtain s1 s2 ins where
      s1: "db_exec ''clear'' (filter ?other) s' = (Inr (), s1)" "db_query ''prepare'' (\<lambda>_. ()) s1 = (Inr (), s2)"
      "insert_link_uid_owners cid ws [] s2 = (Inr ins, v)"
      by (auto simp: op_bind_Inr)
    from insert_link_uid_owners_Inr [OF s1(3)] obtain new where
      new: "st_rows v = st_rows s2 @ map (row_of_owner cid) new" "set new \<subseteq> set ws" "owner_key ` set ws \<subseteq> owner_key ` set new"
      by auto
    have rows: "st_rows db' = filter ?other (st_rows db) @ map (row_of_owner cid) new"
      using s' new(1) db_exec_Inr [OF s1(1)] db_query_Inr [OF s1(2)] by simp
    have mine: "\<forall>r \<in> set (map (row_of_owner cid) new). u_cluster r = cid \<and> u_ns r = ns"
      using new(2) sync_owner_uids(2) [OF ws p] by (auto simp: row_of_owner_def)
    then have f: "filter ?other (map (row_of_owner cid) new) = []"
      "filter (\<lambda>r. u_cluster r = cid \<and> u_ns r = ns) (map (row_of_owner cid) new) = map (row_of_owner cid) new"
      by (auto simp: filter_empty_conv filter_id_conv)
    have "u_uid ` set (map (row_of_owner cid) new) = o_uid ` set new" by (simp add: row_of_owner_def image_image)
    also have "\<dots> = o_uid ` set ws"
    proof
      show "o_uid ` set ws \<subseteq> o_uid ` set new"
      proof
        fix x assume "x \<in> o_uid ` set ws"
        then obtain w where w: "w \<in> set ws" "x = o_uid w" by blast
        with new(3) obtain w' where "w' \<in> set new" "owner_key w = owner_key w'" by blast
        from owner_key_uid [OF this(2)] w(2) \<open>w' \<in> set new\<close> show "x \<in> o_uid ` set new" by simp
      qed
    qed (use new(2) in blast)
    finally have "u_uid ` set (map (row_of_owner cid) new) = crd_uids items" using sync_owner_uids(1) [OF ws p] by simp
    moreover have "filter (\<lambda>r. u_cluster r = cid \<and> u_ns r = ns) (filter ?other (st_rows db)) = []"
      by (simp add: filter_empty_conv)
    ultimately have "filter ?other (st_rows db') = filter ?other (st_rows db)"
      "u_uid ` set (filter (\<lambda>r. u_cluster r = cid \<and> u_ns r = ns) (st_rows db')) = crd_uids items"
      unfolding rows filter_append f by simp_all
    then show ?thesis using Pair Inr by simp
  qed
qed

theorem sync_namespace_exact_witness:
  "case sync_namespace_link_uid_registry rev ''lab'' (Some (kb_topos wired_example)) demo_registry of
      (Inr _, db') \<Rightarrow>
        filter (\<lambda>r. \<not> (u_cluster r = ''c1'' \<and> u_ns r = ''lab'')) (st_rows db') =
          filter (\<lambda>r. \<not> (u_cluster r = ''c1'' \<and> u_ns r = ''lab'')) (st_rows demo_registry) \<and>
        u_uid ` set (filter (\<lambda>r. u_cluster r = ''c1'' \<and> u_ns r = ''lab'') (st_rows db')) = crd_uids (kb_topos wired_example)
    | (Inl _, db') \<Rightarrow> st_rows db' = st_rows demo_registry"
  by (rule sync_namespace_exact) (simp_all add: permutes_def demo_registry_def)

end
