(* ===== verification/Namespace_Lock.thy ===== *)
theory Namespace_Lock
  imports Link_UIDs
begin

text \<open>
  The lock that keeps two operations off one namespace, and the flag that says whether a
  namespace has a topology: \<open>helpers/namespace_state.go\<close> over the tables \<open>namespace_operations\<close>
  and \<open>namespace_state\<close> of \<open>database/database.go\<close>, both keyed by cluster and namespace.
  The handlers of \<open>handlers/network.go\<close> take the lock, run and release it on the way out; the
  relation \<open>lock_step\<close> lets any number of them interleave.
\<close>

section \<open>The lock row\<close>

record lock_row =
  p_cluster :: string
  p_ns :: string
  p_type :: string
  p_at :: string

record op_lock =
  k_ns :: string
  k_type :: string
  k_at :: string

type_synonym lock_db = "lock_row store"

datatype lock_error = KDb db_error | KBusyUnread | KBusyGone

definition lock_of_row :: "lock_row \<Rightarrow> op_lock" where
  "lock_of_row r = \<lparr>k_ns = p_ns r, k_type = p_type r, k_at = p_at r\<rparr>"

definition is_lock :: "string \<Rightarrow> string \<Rightarrow> lock_row \<Rightarrow> bool" where
  "is_lock cid ns r \<longleftrightarrow> p_cluster r = cid \<and> p_ns r = ns"

definition get_namespace_operation_lock :: "string \<Rightarrow> (lock_db, db_error, op_lock option) op" where
  "get_namespace_operation_lock ns =
     op_bind need_open (\<lambda>_. op_bind need_cluster (\<lambda>cid.
       db_query ''lock'' (\<lambda>rows. map_option lock_of_row (find (is_lock cid ns) rows))))"

text \<open>The insert of the lock row: the primary key makes it fail when the row is there.\<close>

datatype insert_result = Inserted | NotUnique | InsertFailed

definition insert_lock :: "lock_row \<Rightarrow> lock_db \<Rightarrow> insert_result \<times> lock_db" where
  "insert_lock r s = (let (bad, t) = next_fault s in
     if bad then (InsertFailed, t)
     else if list_ex (is_lock (p_cluster r) (p_ns r)) (st_rows t) then (NotUnique, t)
     else (Inserted, t\<lparr>st_rows := st_rows t @ [r]\<rparr>))"

definition acquire_namespace_operation_lock :: "string \<Rightarrow> string \<Rightarrow> string \<Rightarrow> (lock_db, lock_error, op_lock \<times> bool) op" where
  "acquire_namespace_operation_lock now ns typ =
     op_bind (op_map_err KDb need_open) (\<lambda>_.
     let kind = (if typ = [] then ''unknown'' else typ) in
     op_bind (op_map_err KDb need_cluster) (\<lambda>cid. (\<lambda>s.
       case insert_lock \<lparr>p_cluster = cid, p_ns = ns, p_type = kind, p_at = now\<rparr> s of
         (Inserted, t) \<Rightarrow> (Inr (\<lparr>k_ns = ns, k_type = kind, k_at = now\<rparr>, True), t)
       | (InsertFailed, t) \<Rightarrow> (Inl (KDb (StmtFailed ''lock'')), t)
       | (NotUnique, t) \<Rightarrow>
           (case get_namespace_operation_lock ns t of
              (Inl _, u) \<Rightarrow> (Inl KBusyUnread, u)
            | (Inr None, u) \<Rightarrow> (Inl KBusyGone, u)
            | (Inr (Some k), u) \<Rightarrow> (Inr (k, False), u)))))"

definition release_namespace_operation_lock :: "string \<Rightarrow> (lock_db, db_error, unit) op" where
  "release_namespace_operation_lock ns =
     op_bind need_open (\<lambda>_. op_bind need_cluster (\<lambda>cid.
       db_exec ''release'' (filter (\<lambda>r. \<not> is_lock cid ns r))))"

definition clear_all_namespace_operation_locks :: "(lock_db, db_error, nat) op" where
  "clear_all_namespace_operation_locks =
     op_bind need_open (\<lambda>_. (\<lambda>s. case db_exec ''clear'' (\<lambda>_. []) s of
        (Inl e, t) \<Rightarrow> (Inl e, t) | (Inr _, t) \<Rightarrow> (Inr (length (st_rows s)), t)))"

section \<open>The topology flag\<close>

record ns_row =
  f_cluster :: string
  f_ns :: string
  f_has :: bool

type_synonym flag_db = "ns_row store"

definition is_flag :: "string \<Rightarrow> string \<Rightarrow> ns_row \<Rightarrow> bool" where
  "is_flag cid ns r \<longleftrightarrow> f_cluster r = cid \<and> f_ns r = ns"

definition ensure_namespace_state_row :: "string \<Rightarrow> (flag_db, db_error, unit) op" where
  "ensure_namespace_state_row ns =
     op_bind need_cluster (\<lambda>cid.
       db_exec ''ensure'' (\<lambda>rows. if list_ex (is_flag cid ns) rows then rows
                                else rows @ [\<lparr>f_cluster = cid, f_ns = ns, f_has = False\<rparr>]))"

definition namespace_has_topology :: "string \<Rightarrow> (flag_db, db_error, bool) op" where
  "namespace_has_topology ns =
     op_bind need_open (\<lambda>_. op_bind need_cluster (\<lambda>cid.
     op_bind (ensure_namespace_state_row ns) (\<lambda>_.
     op_bind (db_query ''flag'' (\<lambda>rows. find (is_flag cid ns) rows)) (\<lambda>r.
       case r of None \<Rightarrow> op_fail (StmtFailed ''flag'') | Some x \<Rightarrow> op_ret (f_has x)))))"

definition set_namespace_has_topology :: "string \<Rightarrow> bool \<Rightarrow> (flag_db, db_error, unit) op" where
  "set_namespace_has_topology ns v =
     op_bind need_open (\<lambda>_. op_bind need_cluster (\<lambda>cid.
     op_bind (ensure_namespace_state_row ns) (\<lambda>_.
       db_exec ''set'' (map (\<lambda>r. if is_flag cid ns r then r\<lparr>f_has := v\<rparr> else r)))))"

text \<open>\<open>SyncNamespaceTopologyState\<close>; the two arguments are the node and topology listings.\<close>

definition sync_namespace_topology_state ::
  "node_spec list option \<Rightarrow> (string \<times> topology) list option \<Rightarrow> string \<Rightarrow> (flag_db, db_error, bool) op" where
  "sync_namespace_topology_state nodes topos ns =
     (case nodes of
        None \<Rightarrow> op_fail (StmtFailed ''nodes'')
      | Some xs \<Rightarrow>
          if xs \<noteq> [] then op_bind (set_namespace_has_topology ns True) (\<lambda>_. op_ret True)
          else case topos of
            None \<Rightarrow> op_fail (StmtFailed ''topologies'')
          | Some ts \<Rightarrow> op_bind (set_namespace_has_topology ns (ts \<noteq> [])) (\<lambda>_. op_ret (ts \<noteq> [])))"

lemma ensure_flag_row:
  "ensure_namespace_state_row ns s = (Inr u, t) \<Longrightarrow> st_cluster s = Some cid \<Longrightarrow>
     (\<exists>r \<in> set (st_rows t). is_flag cid ns r) \<and> st_open t = st_open s \<and> st_cluster t = Some cid"
proof -
  assume a: "ensure_namespace_state_row ns s = (Inr u, t)" and c: "st_cluster s = Some cid"
  then have "db_exec ''ensure'' (\<lambda>rows. if list_ex (is_flag cid ns) rows then rows
      else rows @ [\<lparr>f_cluster = cid, f_ns = ns, f_has = False\<rparr>]) s = (Inr u, t)"
    by (auto simp: ensure_namespace_state_row_def op_bind_Inr)
  from db_exec_Inr [OF this] c show ?thesis by (auto simp: list_ex_iff is_flag_def)
qed

text \<open>
  The flag reads back as it was last set: after \<open>SetNamespaceHasTopology\<close> succeeded,
  \<open>NamespaceHasTopology\<close> on the same cluster answers that value or an error, never the other one.
\<close>

theorem topology_flag_reads_back:
  assumes "set_namespace_has_topology ns v s = (Inr u, t)" and "namespace_has_topology ns t = (Inr b, t')"
  shows "b = v"
proof -
  obtain cid s1 where c: "st_cluster s = Some cid" and e: "ensure_namespace_state_row ns s = (Inr (), s1)"
    and x: "db_exec ''set'' (map (\<lambda>r. if is_flag cid ns r then r\<lparr>f_has := v\<rparr> else r)) s1 = (Inr u, t)"
    using assms(1) by (auto simp: set_namespace_has_topology_def op_bind_Inr)
  note ens = ensure_flag_row [OF e c]
  have ct: "st_cluster t = Some cid" using db_exec_Inr [OF x] ens by simp
  have keep: "is_flag cid ns (if is_flag cid ns r then r\<lparr>f_has := v\<rparr> else r) = is_flag cid ns r" for r
    by (simp add: is_flag_def)
  have rows: "st_rows t = map (\<lambda>r. if is_flag cid ns r then r\<lparr>f_has := v\<rparr> else r) (st_rows s1)"
    using db_exec_Inr [OF x] by simp
  have all: "\<forall>r \<in> set (st_rows t). is_flag cid ns r \<longrightarrow> f_has r = v"
    unfolding rows set_map by (intro ballI impI, elim imageE) (simp add: is_flag_def split: if_splits)
  have ex: "list_ex (is_flag cid ns) (st_rows t)"
  proof -
    obtain x where "x \<in> set (st_rows s1)" "is_flag cid ns x" using ens by blast
    then have "(if is_flag cid ns x then x\<lparr>f_has := v\<rparr> else x) \<in> set (st_rows t)"
      unfolding rows set_map by (intro imageI)
    with keep [of x] \<open>is_flag cid ns x\<close> show ?thesis unfolding list_ex_iff by blast
  qed
  obtain t1 where e2: "ensure_namespace_state_row ns t = (Inr (), t1)"
    and q: "op_bind (db_query ''flag'' (\<lambda>rows. find (is_flag cid ns) rows)) (\<lambda>r.
       case r of None \<Rightarrow> op_fail (StmtFailed ''flag'') | Some x \<Rightarrow> op_ret (f_has x)) t1 = (Inr b, t')"
    using assms(2) ct by (auto simp: namespace_has_topology_def op_bind_Inr)
  have "db_exec ''ensure'' (\<lambda>rows. if list_ex (is_flag cid ns) rows then rows
      else rows @ [\<lparr>f_cluster = cid, f_ns = ns, f_has = False\<rparr>]) t = (Inr (), t1)"
    using e2 ct by (auto simp: ensure_namespace_state_row_def op_bind_Inr)
  from db_exec_Inr [OF this] ex have t1: "st_rows t1 = st_rows t" by simp
  from q obtain r t2 where "db_query ''flag'' (\<lambda>rows. find (is_flag cid ns) rows) t1 = (Inr r, t2)"
    and r: "(case r of None \<Rightarrow> op_fail (StmtFailed ''flag'') | Some x \<Rightarrow> op_ret (f_has x)) t2 = (Inr b, t')"
    by (auto simp: op_bind_Inr)
  then have f: "r = find (is_flag cid ns) (st_rows t)" using db_query_Inr t1 by fastforce
  obtain x where "r = Some x" "b = f_has x" using r by (cases r) auto
  with f have "find (is_flag cid ns) (st_rows t) = Some x" "b = f_has x" by auto
  with all show ?thesis by (auto simp: find_Some_iff)
qed

theorem topology_flag_reads_back_witness:
  "fst (namespace_has_topology ''lab'' (snd (set_namespace_has_topology ''lab'' True
     \<lparr>st_open = True, st_cluster = Some ''c1'', st_faults = [], st_rows = []\<rparr>))) = Inr True"
proof -
  let ?s = "\<lparr>st_open = True, st_cluster = Some ''c1'', st_faults = [], st_rows = []\<rparr>"
  let ?t = "snd (set_namespace_has_topology ''lab'' True ?s)"
  have a: "set_namespace_has_topology ''lab'' True ?s = (Inr (), ?t)" by code_simp
  have "isl (fst (namespace_has_topology ''lab'' ?t)) = False" by code_simp
  then obtain b where b: "namespace_has_topology ''lab'' ?t = (Inr b, snd (namespace_has_topology ''lab'' ?t))"
    by (cases "fst (namespace_has_topology ''lab'' ?t)") (auto simp: prod_eq_iff)
  from topology_flag_reads_back [OF a b] show ?thesis using b by (metis fst_conv)
qed

section \<open>Interleaved operations\<close>

text \<open>
  The database and the operations in flight, each the identity of a request and its namespace.
  A release whose statement fails is only logged: the operation ends and its row stays. The
  table is wiped when the process starts, when nothing is in flight.
\<close>

type_synonym lock_state = "lock_db \<times> (nat \<times> string) set"

inductive lock_step :: "lock_state \<Rightarrow> lock_state \<Rightarrow> bool" where
  acquired: "acquire_namespace_operation_lock now ns typ db = (Inr (k, True), db') \<Longrightarrow> (c, ns) \<notin> H \<Longrightarrow>
    lock_step (db, H) (db', insert (c, ns) H)"
| refused: "acquire_namespace_operation_lock now ns typ db = (r, db') \<Longrightarrow> (\<forall>k. r \<noteq> Inr (k, True)) \<Longrightarrow>
    lock_step (db, H) (db', H)"
| released: "(c, ns) \<in> H \<Longrightarrow> release_namespace_operation_lock ns db = (r, db') \<Longrightarrow>
    lock_step (db, H) (db', H - {(c, ns)})"
| restarted: "clear_all_namespace_operation_locks db = (r, db') \<Longrightarrow> lock_step (db, H) (db', {})"

inductive lock_run :: "lock_state \<Rightarrow> lock_state \<Rightarrow> bool" where
  lock_refl: "lock_run s s"
| lock_more: "lock_run s t \<Longrightarrow> lock_step t u \<Longrightarrow> lock_run s u"

definition lock_inv :: "string \<Rightarrow> lock_state \<Rightarrow> bool" where
  "lock_inv cid s \<longleftrightarrow>
     st_cluster (fst s) = Some cid \<and>
     (\<forall>(c, ns) \<in> snd s. \<exists>r \<in> set (st_rows (fst s)). is_lock cid ns r) \<and>
     (\<forall>c d ns. (c, ns) \<in> snd s \<longrightarrow> (d, ns) \<in> snd s \<longrightarrow> c = d)"

lemma insert_lock_rows:
  "insert_lock r s = (x, t) \<Longrightarrow> st_cluster t = st_cluster s \<and> st_open t = st_open s \<and>
     (if x = Inserted then st_rows t = st_rows s @ [r] \<and> \<not> list_ex (is_lock (p_cluster r) (p_ns r)) (st_rows s)
      else st_rows t = st_rows s)"
  by (auto simp: insert_lock_def Let_def split: prod.splits if_splits dest!: next_fault_SomeD)

lemma get_lock_rows: "st_rows (snd (get_namespace_operation_lock ns s)) = st_rows s \<and>
    st_cluster (snd (get_namespace_operation_lock ns s)) = st_cluster s"
  by (auto simp: get_namespace_operation_lock_def op_bind_def need_open_def need_cluster_def db_query_def Let_def
      split: option.splits prod.splits sum.splits if_splits dest!: next_fault_SomeD)

lemma acquire_facts:
  assumes "acquire_namespace_operation_lock now ns typ db = (r, db')" and "st_cluster db = Some cid"
  shows "st_cluster db' = Some cid" and "set (st_rows db) \<subseteq> set (st_rows db')"
    and "r = Inr (k, True) \<Longrightarrow> (\<exists>x \<in> set (st_rows db'). is_lock cid ns x) \<and> \<not> (\<exists>x \<in> set (st_rows db). is_lock cid ns x)"
proof -
  let ?kind = "if typ = [] then ''unknown'' else typ"
  let ?row = "\<lparr>p_cluster = cid, p_ns = ns, p_type = ?kind, p_at = now\<rparr>"
  have "st_cluster db' = Some cid \<and> set (st_rows db) \<subseteq> set (st_rows db') \<and>
    (r = Inr (k, True) \<longrightarrow> (\<exists>x \<in> set (st_rows db'). is_lock cid ns x) \<and> \<not> (\<exists>x \<in> set (st_rows db). is_lock cid ns x))"
  proof (cases "st_open db")
    case False
    with assms show ?thesis
      by (auto simp: acquire_namespace_operation_lock_def op_bind_def op_map_err_def need_open_def)
  next
    case True
    obtain x t where i: "insert_lock ?row db = (x, t)" by (cases "insert_lock ?row db")
    note ir = insert_lock_rows [OF i]
    have e: "(case (x, t) of
         (Inserted, t) \<Rightarrow> (Inr (\<lparr>k_ns = ns, k_type = ?kind, k_at = now\<rparr>, True), t)
       | (InsertFailed, t) \<Rightarrow> (Inl (KDb (StmtFailed ''lock'')), t)
       | (NotUnique, t) \<Rightarrow>
           (case get_namespace_operation_lock ns t of
              (Inl _, u) \<Rightarrow> (Inl KBusyUnread, u)
            | (Inr None, u) \<Rightarrow> (Inl KBusyGone, u)
            | (Inr (Some k), u) \<Rightarrow> (Inr (k, False), u))) = (r, db')"
      using assms True i
      by (simp add: acquire_namespace_operation_lock_def op_bind_def op_map_err_def need_open_def need_cluster_def Let_def)
    show ?thesis
    proof (cases x)
      case Inserted
      with e ir assms(2) show ?thesis by (auto simp: is_lock_def list_ex_iff)
    next
      case NotUnique
      obtain g u where g: "get_namespace_operation_lock ns t = (g, u)" by (cases "get_namespace_operation_lock ns t")
      with get_lock_rows [of ns t] have u: "st_rows u = st_rows t" "st_cluster u = st_cluster t" by auto
      from e NotUnique g have "db' = u" "r \<noteq> Inr (k, True)" by (auto split: sum.splits option.splits)
      with u ir NotUnique assms(2) show ?thesis by simp
    next
      case InsertFailed
      with e ir assms(2) show ?thesis by auto
    qed
  qed
  then show "st_cluster db' = Some cid" "set (st_rows db) \<subseteq> set (st_rows db')"
    "r = Inr (k, True) \<Longrightarrow> (\<exists>x \<in> set (st_rows db'). is_lock cid ns x) \<and> \<not> (\<exists>x \<in> set (st_rows db). is_lock cid ns x)"
    by auto
qed

lemma release_rows:
  assumes "release_namespace_operation_lock ns db = (r, db')" and "st_cluster db = Some cid"
  shows "st_cluster db' = Some cid \<and> (st_rows db' = st_rows db \<or> st_rows db' = filter (\<lambda>r. \<not> is_lock cid ns r) (st_rows db))"
  using assms
  by (auto simp: release_namespace_operation_lock_def op_bind_def need_open_def need_cluster_def db_exec_def Let_def
      split: prod.splits if_splits dest!: next_fault_SomeD)

lemma clear_cluster: "clear_all_namespace_operation_locks db = (r, db') \<Longrightarrow> st_cluster db' = st_cluster db"
proof -
  assume a: "clear_all_namespace_operation_locks db = (r, db')"
  obtain x t where x: "db_exec ''clear'' (\<lambda>_. []) db = (x, t)" by (cases "db_exec ''clear'' (\<lambda>_. []) db")
  show ?thesis
  proof (cases "st_open db")
    case True
    with a x have "db' = t"
      by (cases x) (simp_all add: clear_all_namespace_operation_locks_def op_bind_def need_open_def)
    with db_exec_keeps [OF x] show ?thesis by simp
  next
    case False
    with a show ?thesis by (simp add: clear_all_namespace_operation_locks_def op_bind_def need_open_def)
  qed
qed

lemma lock_step_inv: "lock_step s t \<Longrightarrow> lock_inv cid s \<Longrightarrow> lock_inv cid t"
proof (induction rule: lock_step.induct)
  case (acquired now ns kd db k db' c H)
  have cl: "st_cluster db = Some cid" using acquired by (simp add: lock_inv_def)
  note f = acquire_facts [OF acquired(1) cl]
  from f(3) have new: "\<exists>x \<in> set (st_rows db'). is_lock cid ns x" and free: "\<not> (\<exists>x \<in> set (st_rows db). is_lock cid ns x)" by auto
  with acquired(3) have "(d, ns) \<notin> H" for d by (auto simp: lock_inv_def)
  with acquired(3) f(1,2) new show ?case unfolding lock_inv_def by fastforce
next
  case (refused now ns kd db r db' H)
  have cl: "st_cluster db = Some cid" using refused by (simp add: lock_inv_def)
  from acquire_facts(1,2) [OF refused(1) cl] refused(3) show ?case unfolding lock_inv_def by fastforce
next
  case (released c ns H db r db')
  have cl: "st_cluster db = Some cid" using released by (simp add: lock_inv_def)
  from release_rows [OF released(2) cl] have rr: "st_cluster db' = Some cid"
    "\<forall>x \<in> set (st_rows db). \<not> is_lock cid ns x \<longrightarrow> x \<in> set (st_rows db')" by auto
  have one: "(d, ns) \<in> H \<Longrightarrow> d = c" for d using released(1,3) by (auto simp: lock_inv_def)
  have "\<exists>r \<in> set (st_rows db'). is_lock cid m r" if "(d, m) \<in> H - {(c, ns)}" for d m
  proof -
    from that one have "m \<noteq> ns" by auto
    from that released(3) obtain x where "x \<in> set (st_rows db)" "is_lock cid m x" by (auto simp: lock_inv_def)
    with rr(2) \<open>m \<noteq> ns\<close> show ?thesis by (auto simp: is_lock_def)
  qed
  with rr(1) released(3) show ?case unfolding lock_inv_def by auto
next
  case (restarted db r db' H)
  from clear_cluster [OF restarted(1)] restarted(2) show ?case by (simp add: lock_inv_def)
qed

lemma lock_run_inv: "lock_run s t \<Longrightarrow> lock_inv cid s \<Longrightarrow> lock_inv cid t"
  by (induction rule: lock_run.induct) (auto intro: lock_step_inv)

text \<open>
  C12: mutual exclusion: from a state with nothing in flight, however the requests interleave,
  fail and restart, two operations are never in flight on one namespace.
\<close>

theorem namespace_mutual_exclusion:
  assumes "lock_run (db, {}) (db', H)" and "st_cluster db = Some cid"
    and "(c, ns) \<in> H" and "(d, ns) \<in> H"
  shows "c = d"
proof -
  have "lock_inv cid (db, {})" using assms(2) by (simp add: lock_inv_def)
  from lock_run_inv [OF assms(1) this] assms(3,4) show ?thesis by (auto simp: lock_inv_def)
qed

definition idle_lock_db :: lock_db where
  "idle_lock_db = \<lparr>st_open = True, st_cluster = Some ''c1'', st_faults = [], st_rows = []\<rparr>"

theorem namespace_mutual_exclusion_witness:
  "\<exists>db' H. lock_run (idle_lock_db, {}) (db', H) \<and> (7, ''lab'') \<in> H \<and> (8, ''lab'') \<notin> H"
proof -
  let ?r = "acquire_namespace_operation_lock ''t'' ''lab'' ''deploy-network'' idle_lock_db"
  have a: "?r = (Inr (\<lparr>k_ns = ''lab'', k_type = ''deploy-network'', k_at = ''t''\<rparr>, True), snd ?r)" by code_simp
  have run: "lock_run (idle_lock_db, {}) (snd ?r, {(7, ''lab'')})"
    by (rule lock_more [OF lock_refl]) (rule acquired [OF a, of 7 "{}", simplified])
  have cl: "st_cluster idle_lock_db = Some ''c1''" by (simp add: idle_lock_db_def)
  have "(8, ''lab'') \<notin> {(7 :: nat, ''lab'')}"
    using namespace_mutual_exclusion [OF run cl, of 8 "''lab''" 7] by auto
  with run show ?thesis by blast
qed

end
