(* ===== verification/Actions.thy ===== *)
theory Actions
  imports Drivers
begin

text \<open>
  The declaration of configuration actions: the request \<open>types.ActionEntry\<close>
  (\<open>types/config.go\<close>), the parameters an action reads and their checks
  (\<open>actions/params.go\<close>), the registry that a driver's capabilities select from
  (\<open>actions/registry.go\<close>). A field is read by its JSON name through \<open>fields_of\<close>, as the
  backend does by reflection; a kind that does not fit its field is the error \<open>KPanic\<close>, where
  reflection would panic. A command builder returns the capability method it calls with its
  arguments: the driver that implements the method is not part of this theory.
\<close>

section \<open>The request\<close>

record gemodel_spec =
  gm_p :: string
  gm_r :: string
  gm_h :: string
  gm_k :: string

record tc_match =
  mt_proto :: string
  mt_src :: string
  mt_dst :: string
  mt_src_port :: "int option"
  mt_dst_port :: "int option"
  mt_dscp :: "int option"
  mt_vlan :: "int option"

record tc_fields =
  q_qdisc :: string
  q_delay :: string
  q_jitter :: string
  q_delay_correlation :: string
  q_distribution :: string
  q_loss :: string
  q_loss_correlation :: string
  q_gemodel :: "gemodel_spec option"
  q_duplicate :: string
  q_corrupt :: string
  q_reorder :: string
  q_reorder_correlation :: string
  q_limit :: "int option"
  q_rate :: string
  q_burst :: string
  q_latency :: string

record class_fields =
  cl_name :: string
  cl_rate :: string
  cl_ceil :: string
  cl_prio :: "int option"
  cl_match :: "tc_match list"
  cl_default :: bool
  cl_queue :: string
  cl_limit :: "int option"

datatype tc_param = TCParam tc_fields "tc_class list"
  and tc_class = TCClass class_fields "tc_param option"

record rip_timers =
  rt_update :: int
  rt_timeout :: int
  rt_garbage :: int

record action_options =
  ao_persist :: "bool option"
  ao_capture :: "bool option"

record action_entry =
  e_type :: string
  e_iface :: string
  e_cidr :: string
  e_gateway :: string
  e_dst_cidr :: string
  e_device :: string
  e_family :: string
  e_bridge :: string
  e_ifaces :: "string list"
  e_vlan :: int
  e_vlans :: "int list"
  e_native_vlan :: int
  e_mode :: string
  e_controller :: string
  e_protocols :: string
  e_datapath_id :: string
  e_flow :: string
  e_file :: string
  e_file_content :: string
  e_options :: "action_options option"
  e_external_port :: int
  e_internal_ip :: string
  e_internal_port :: int
  e_protocol :: string
  e_dns_server :: string
  e_dns_domain :: string
  e_dns_servers :: "string list"
  e_dns_search :: "string list"
  e_tcparams :: "tc_param option"
  e_ospf_area :: string
  e_router_id :: string
  e_cost :: int
  e_priority :: "int option"
  e_hello_interval :: int
  e_dead_interval :: int
  e_network_type :: string
  e_area_type :: string
  e_auth_type :: string
  e_auth_key :: string
  e_auth_key_id :: int
  e_redistribute :: string
  e_timers :: "rip_timers option"
  e_as :: int
  e_remote_as :: int
  e_neighbor :: string
  e_update_source :: string
  e_multihop :: int
  e_net :: string
  e_level :: string
  e_prefix :: string
  e_pool :: string
  e_command :: string
  e_executor :: string

text \<open>The request \<open>{"type": t}\<close>, for concrete examples.\<close>

definition entry_of :: "string \<Rightarrow> action_entry" where
  "entry_of t =
     \<lparr>e_type = t, e_iface = [], e_cidr = [], e_gateway = [], e_dst_cidr = [], e_device = [], e_family = [],
      e_bridge = [], e_ifaces = [], e_vlan = 0, e_vlans = [], e_native_vlan = 0, e_mode = [], e_controller = [],
      e_protocols = [], e_datapath_id = [], e_flow = [], e_file = [], e_file_content = [], e_options = None,
      e_external_port = 0, e_internal_ip = [], e_internal_port = 0, e_protocol = [], e_dns_server = [],
      e_dns_domain = [], e_dns_servers = [], e_dns_search = [], e_tcparams = None, e_ospf_area = [],
      e_router_id = [], e_cost = 0, e_priority = None, e_hello_interval = 0, e_dead_interval = 0,
      e_network_type = [], e_area_type = [], e_auth_type = [], e_auth_key = [], e_auth_key_id = 0,
      e_redistribute = [], e_timers = None, e_as = 0, e_remote_as = 0, e_neighbor = [], e_update_source = [],
      e_multihop = 0, e_net = [], e_level = [], e_prefix = [], e_pool = [], e_command = [], e_executor = []\<rparr>"

section \<open>Fields by their JSON name\<close>

datatype field_value =
    VStr string | VInt int | VStrs "string list" | VInts "int list" | VPtr "int option" | VObj bool | VRaw string

definition fields_of :: "action_entry \<Rightarrow> (string \<times> field_value) list" where
  "fields_of a =
     [(''type'', VStr (e_type a)), (''iface'', VStr (e_iface a)), (''cidr'', VStr (e_cidr a)),
      (''gateway'', VStr (e_gateway a)), (''dst_cidr'', VStr (e_dst_cidr a)), (''device'', VStr (e_device a)),
      (''family'', VStr (e_family a)), (''bridge'', VStr (e_bridge a)), (''ifaces'', VStrs (e_ifaces a)),
      (''vlan'', VInt (e_vlan a)), (''vlans'', VInts (e_vlans a)), (''native_vlan'', VInt (e_native_vlan a)),
      (''mode'', VStr (e_mode a)), (''controller'', VStr (e_controller a)),
      (''protocols'', VStr (e_protocols a)), (''datapath_id'', VStr (e_datapath_id a)),
      (''flow'', VStr (e_flow a)), (''file'', VStr (e_file a)),
      (''options'', VObj (e_options a \<noteq> None)), (''externalPort'', VInt (e_external_port a)),
      (''internalIP'', VStr (e_internal_ip a)), (''internalPort'', VInt (e_internal_port a)),
      (''protocol'', VStr (e_protocol a)), (''dns_server'', VStr (e_dns_server a)),
      (''dns_domain'', VStr (e_dns_domain a)), (''dns_servers'', VStrs (e_dns_servers a)),
      (''dns_search'', VStrs (e_dns_search a)), (''tcparams'', VObj (e_tcparams a \<noteq> None)),
      (''ospf_area'', VStr (e_ospf_area a)), (''router_id'', VStr (e_router_id a)),
      (''cost'', VInt (e_cost a)), (''priority'', VPtr (e_priority a)),
      (''hello_interval'', VInt (e_hello_interval a)), (''dead_interval'', VInt (e_dead_interval a)),
      (''network_type'', VStr (e_network_type a)), (''area_type'', VStr (e_area_type a)),
      (''auth_type'', VStr (e_auth_type a)), (''auth_key'', VStr (e_auth_key a)),
      (''auth_key_id'', VInt (e_auth_key_id a)), (''redistribute'', VStr (e_redistribute a)),
      (''timers'', VObj (e_timers a \<noteq> None)), (''as'', VInt (e_as a)),
      (''remote_as'', VInt (e_remote_as a)), (''neighbor'', VStr (e_neighbor a)),
      (''update_source'', VStr (e_update_source a)), (''multihop'', VInt (e_multihop a)),
      (''net'', VStr (e_net a)), (''level'', VStr (e_level a)), (''prefix'', VStr (e_prefix a)),
      (''pool'', VStr (e_pool a)), (''command'', VRaw (e_command a)), (''executor'', VStr (e_executor a))]"

text \<open>\<open>fieldIndex\<close> and \<open>hasField\<close>: the names are those of the struct, whatever the request.\<close>

definition field_names :: "string list" where
  "field_names = map fst (fields_of (entry_of []))"

definition has_field :: "string \<Rightarrow> bool" where
  "has_field name \<longleftrightarrow> name \<in> set field_names"

fun value_present :: "field_value \<Rightarrow> bool" where
  "value_present (VStr s) = (s \<noteq> [])"
| "value_present (VInt n) = (n \<noteq> 0)"
| "value_present (VStrs xs) = (xs \<noteq> [])"
| "value_present (VInts xs) = (xs \<noteq> [])"
| "value_present (VPtr p) = (p \<noteq> None)"
| "value_present (VObj b) = b"
| "value_present (VRaw s) = (s \<noteq> [])"

section \<open>Parameters\<close>

datatype kind =
    KindIface | KindIfaceList | KindCIDR | KindIP | KindPort | KindText | KindObject | KindCommand
  | KindExecutor | KindFamily | KindNumber | KindIPList | KindDomainList | KindNumberList | KindFile

record param =
  pm_name :: string
  pm_kind :: kind
  pm_required :: bool

definition optional :: "param \<Rightarrow> param" where
  "optional p = p\<lparr>pm_required := False\<rparr>"

text \<open>The parameters of \<open>actions/params.go\<close>: required, then optional by declaration.\<close>

abbreviation need :: "string \<Rightarrow> kind \<Rightarrow> param" where
  "need name k \<equiv> \<lparr>pm_name = name, pm_kind = k, pm_required = True\<rparr>"

abbreviation may :: "string \<Rightarrow> kind \<Rightarrow> param" where
  "may name k \<equiv> \<lparr>pm_name = name, pm_kind = k, pm_required = False\<rparr>"

definition P_Iface :: param where "P_Iface = need ''iface'' KindIface"
definition P_Ifaces :: param where "P_Ifaces = need ''ifaces'' KindIfaceList"
definition P_CIDR :: param where "P_CIDR = need ''cidr'' KindCIDR"
definition P_Gateway :: param where "P_Gateway = need ''gateway'' KindIP"
definition P_DstCIDR :: param where "P_DstCIDR = need ''dst_cidr'' KindCIDR"
definition P_Device :: param where "P_Device = need ''device'' KindIface"
definition P_Bridge :: param where "P_Bridge = need ''bridge'' KindText"
definition P_ExternalPort :: param where "P_ExternalPort = need ''externalPort'' KindPort"
definition P_InternalIP :: param where "P_InternalIP = need ''internalIP'' KindIP"
definition P_InternalPort :: param where "P_InternalPort = need ''internalPort'' KindPort"
definition P_Protocol :: param where "P_Protocol = need ''protocol'' KindText"
definition P_DNSServer :: param where "P_DNSServer = need ''dns_server'' KindIP"
definition P_DNSDomain :: param where "P_DNSDomain = need ''dns_domain'' KindText"
definition P_DNSServers :: param where "P_DNSServers = need ''dns_servers'' KindIPList"
definition P_DNSSearch :: param where "P_DNSSearch = may ''dns_search'' KindDomainList"
definition P_TCParams :: param where "P_TCParams = need ''tcparams'' KindObject"
definition P_OSPFArea :: param where "P_OSPFArea = need ''ospf_area'' KindText"
definition P_RouterID :: param where "P_RouterID = need ''router_id'' KindIP"
definition P_Command :: param where "P_Command = need ''command'' KindCommand"
definition P_Executor :: param where "P_Executor = may ''executor'' KindExecutor"
definition P_Family :: param where "P_Family = may ''family'' KindFamily"
definition P_Redistribute :: param where "P_Redistribute = need ''redistribute'' KindText"
definition P_Timers :: param where "P_Timers = need ''timers'' KindObject"
definition P_Cost :: param where "P_Cost = need ''cost'' KindNumber"
definition P_Priority :: param where "P_Priority = need ''priority'' KindNumber"
definition P_HelloInterval :: param where "P_HelloInterval = need ''hello_interval'' KindNumber"
definition P_DeadInterval :: param where "P_DeadInterval = need ''dead_interval'' KindNumber"
definition P_NetworkType :: param where "P_NetworkType = need ''network_type'' KindText"
definition P_AreaType :: param where "P_AreaType = need ''area_type'' KindText"
definition P_AuthType :: param where "P_AuthType = need ''auth_type'' KindText"
definition P_AuthKey :: param where "P_AuthKey = need ''auth_key'' KindText"
definition P_AuthKeyID :: param where "P_AuthKeyID = may ''auth_key_id'' KindNumber"
definition P_AS :: param where "P_AS = need ''as'' KindNumber"
definition P_RemoteAS :: param where "P_RemoteAS = need ''remote_as'' KindNumber"
definition P_Neighbor :: param where "P_Neighbor = need ''neighbor'' KindIP"
definition P_UpdateSource :: param where "P_UpdateSource = may ''update_source'' KindText"
definition P_Multihop :: param where "P_Multihop = may ''multihop'' KindNumber"
definition P_NET :: param where "P_NET = need ''net'' KindText"
definition P_Level :: param where "P_Level = may ''level'' KindText"
definition P_Prefix :: param where "P_Prefix = may ''prefix'' KindCIDR"
definition P_Pool :: param where "P_Pool = need ''pool'' KindCIDR"
definition P_VLAN :: param where "P_VLAN = need ''vlan'' KindNumber"
definition P_VLANs :: param where "P_VLANs = need ''vlans'' KindNumberList"
definition P_NativeVLAN :: param where "P_NativeVLAN = may ''native_vlan'' KindNumber"
definition P_Mode :: param where "P_Mode = may ''mode'' KindText"
definition P_FailMode :: param where "P_FailMode = need ''mode'' KindText"
definition P_Controller :: param where "P_Controller = need ''controller'' KindText"
definition P_Protocols :: param where "P_Protocols = may ''protocols'' KindText"
definition P_Flow :: param where "P_Flow = need ''flow'' KindText"
definition P_ConfigFile :: param where "P_ConfigFile = need ''file'' KindFile"
definition P_DatapathID :: param where "P_DatapathID = need ''datapath_id'' KindText"

lemmas param_defs =
  P_Iface_def P_Ifaces_def P_CIDR_def P_Gateway_def P_DstCIDR_def P_Device_def P_Bridge_def
  P_ExternalPort_def P_InternalIP_def P_InternalPort_def P_Protocol_def P_DNSServer_def
  P_DNSDomain_def P_DNSServers_def P_DNSSearch_def P_TCParams_def P_OSPFArea_def P_RouterID_def
  P_Command_def P_Executor_def P_Family_def P_Redistribute_def P_Timers_def P_Cost_def
  P_Priority_def P_HelloInterval_def P_DeadInterval_def P_NetworkType_def P_AreaType_def
  P_AuthType_def P_AuthKey_def P_AuthKeyID_def P_AS_def P_RemoteAS_def P_Neighbor_def
  P_UpdateSource_def P_Multihop_def P_NET_def P_Level_def P_Prefix_def P_Pool_def P_VLAN_def
  P_VLANs_def P_NativeVLAN_def P_Mode_def P_FailMode_def P_Controller_def P_Protocols_def P_Flow_def
  P_ConfigFile_def P_DatapathID_def

section \<open>Validation\<close>

datatype kind_error = KBad | KPanic

definition protected_interface :: string where "protected_interface = ''eth0''"

definition is_alnum :: "char \<Rightarrow> bool" where
  "is_alnum c \<longleftrightarrow> is_digit c \<or> is_alpha c"

text \<open>\<open>domainRe\<close>: labels of letters, digits and inner hyphens, separated by dots.\<close>

definition domain_label :: "string \<Rightarrow> bool" where
  "domain_label l \<longleftrightarrow>
     l \<noteq> [] \<and> is_alnum (hd l) \<and> is_alnum (last l) \<and> list_all (\<lambda>c. is_alnum c \<or> c = CHR ''-'') l"

definition domain_name :: "string \<Rightarrow> bool" where
  "domain_name s \<longleftrightarrow> list_all domain_label (split_on CHR ''.'' s)"

definition file_param_ok :: "string \<Rightarrow> bool" where
  "file_param_ok s \<longleftrightarrow> \<not> has_prefix s ''/'' \<and> \<not> contains_str s ''..'' \<and>
     \<not> list_ex (\<lambda>c. (of_char c :: nat) \<in> {10, 13, 0}) s"

definition err_unless :: "bool \<Rightarrow> kind_error option" where
  "err_unless ok = (if ok then None else Some KBad)"

lemma err_unless_None [simp]: "err_unless b = None \<longleftrightarrow> b" by (simp add: err_unless_def)

text \<open>\<open>checkKind\<close>; \<open>executors\<close> is what \<open>executor.Get\<close> finds.\<close>

definition on_str :: "(string \<Rightarrow> bool) \<Rightarrow> field_value \<Rightarrow> kind_error option" where
  "on_str ok v = (case v of VStr s \<Rightarrow> err_unless (ok s) | _ \<Rightarrow> Some KPanic)"

definition on_strs :: "(string \<Rightarrow> bool) \<Rightarrow> field_value \<Rightarrow> kind_error option" where
  "on_strs ok v = (case v of VStrs xs \<Rightarrow> err_unless (list_all ok xs) | _ \<Rightarrow> Some KPanic)"

definition on_int :: "(int \<Rightarrow> bool) \<Rightarrow> field_value \<Rightarrow> kind_error option" where
  "on_int ok v = (case v of VInt n \<Rightarrow> err_unless (ok n) | _ \<Rightarrow> Some KPanic)"

definition on_ints :: "(int \<Rightarrow> bool) \<Rightarrow> field_value \<Rightarrow> kind_error option" where
  "on_ints ok v = (case v of VInts xs \<Rightarrow> err_unless (list_all ok xs) | _ \<Rightarrow> Some KPanic)"

definition on_number :: "(int \<Rightarrow> bool) \<Rightarrow> field_value \<Rightarrow> kind_error option" where
  "on_number ok v =
     (case v of VInt n \<Rightarrow> err_unless (ok n) | VPtr (Some n) \<Rightarrow> err_unless (ok n) | _ \<Rightarrow> Some KPanic)"

lemmas on_defs = on_str_def on_strs_def on_int_def on_ints_def on_number_def

definition check_kind :: "string list \<Rightarrow> kind \<Rightarrow> field_value \<Rightarrow> kind_error option" where
  "check_kind executors k v =
     (case k of
        KindIface \<Rightarrow> on_str (\<lambda>s. validate_linux_interface_name s = None) v
      | KindIfaceList \<Rightarrow> on_strs (\<lambda>s. validate_linux_interface_name s = None) v
      | KindCIDR \<Rightarrow> on_str (\<lambda>s. parse_cidr s \<noteq> None \<or> parse_ip s \<noteq> None) v
      | KindIP \<Rightarrow> on_str (\<lambda>s. parse_ip s \<noteq> None) v
      | KindIPList \<Rightarrow> on_strs (\<lambda>s. parse_ip s \<noteq> None) v
      | KindDomainList \<Rightarrow> on_strs domain_name v
      | KindPort \<Rightarrow> on_int (\<lambda>n. 1 \<le> n \<and> n \<le> 65535) v
      | KindExecutor \<Rightarrow> on_str (\<lambda>s. s \<in> set executors) v
      | KindFamily \<Rightarrow> on_str (\<lambda>s. s = ''4'' \<or> s = ''6'') v
      | KindNumber \<Rightarrow> on_number (\<lambda>n. 0 \<le> n) v
      | KindNumberList \<Rightarrow> on_ints (\<lambda>n. 0 \<le> n) v
      | KindFile \<Rightarrow> on_str file_param_ok v
      | KindText \<Rightarrow> None
      | KindObject \<Rightarrow> None
      | KindCommand \<Rightarrow> None)"

definition iface_names :: "kind \<Rightarrow> field_value \<Rightarrow> string list" where
  "iface_names k v =
     (if k = KindIface then (case v of VStr s \<Rightarrow> [s] | _ \<Rightarrow> [])
      else if k = KindIfaceList then (case v of VStrs xs \<Rightarrow> xs | _ \<Rightarrow> [])
      else [])"

datatype validate_error = VMissing string | VBadField string kind_error | VProtected | VNoField string

definition validate_param :: "string list \<Rightarrow> bool \<Rightarrow> action_entry \<Rightarrow> param \<Rightarrow> validate_error option" where
  "validate_param ex allow a p =
     (case map_of (fields_of a) (pm_name p) of
        None \<Rightarrow> Some (VNoField (pm_name p))
      | Some v \<Rightarrow>
          if \<not> value_present v then (if pm_required p then Some (VMissing (pm_name p)) else None)
          else case check_kind ex (pm_kind p) v of
            Some e \<Rightarrow> Some (VBadField (pm_name p) e)
          | None \<Rightarrow> if \<not> allow \<and> protected_interface \<in> set (iface_names (pm_kind p) v) then Some VProtected
                    else None)"

section \<open>Declared actions and the registry\<close>

datatype arg = AStr string | AInt int | ABool bool | AStrs "string list" | AInts "int list"

text \<open>
  What \<open>Run\<close> ends in: one capability method of the driver with its arguments, or the
  commands themselves for an action that needs no driver.
\<close>

datatype cap_call = Call string "arg list" | Commands "string list list"

text \<open>
  What a builder may ask: the interfaces the driver implements, the spanning tree modes it
  lists, whether a YAML document parses (\<open>sigs.k8s.io/yaml\<close>), and the two command texts
  other files build, from the raw \<open>command\<close> and from \<open>tcparams\<close>.
\<close>

record run_env =
  rn_caps :: "string list"
  rn_stp_modes :: "string list"
  rn_yaml :: "string \<Rightarrow> bool"
  rn_command :: "string \<Rightarrow> string + string list"
  rn_shaping :: "string \<Rightarrow> tc_param option \<Rightarrow> string + string list list"

type_synonym builder = "run_env \<Rightarrow> action_entry \<Rightarrow> string + cap_call"

definition call :: "string \<Rightarrow> arg list \<Rightarrow> string + cap_call" where
  "call m args = Inr (Call m args)"

definition check_that :: "bool \<Rightarrow> string \<Rightarrow> string + cap_call \<Rightarrow> string + cap_call" where
  "check_that ok field k = (if ok then k else Inl field)"

lemma check_that_Inr [simp]: "check_that b f k = Inr c \<longleftrightarrow> b \<and> k = Inr c"
  by (simp add: check_that_def)

record action_decl =
  ad_type :: string
  ad_label :: string
  ad_params :: "param list"
  ad_executor :: string
  ad_from_request :: bool
  ad_repeatable :: bool
  ad_allow_protected :: bool
  ad_state :: string
  ad_key :: "(action_entry \<Rightarrow> string) option"
  ad_clears :: bool
  ad_undo_persists :: bool
  ad_clears_also :: "string list"
  ad_run :: builder

definition declare_action :: "string \<Rightarrow> string \<Rightarrow> param list \<Rightarrow> builder \<Rightarrow> action_decl" where
  "declare_action t lbl ps run =
     \<lparr>ad_type = t, ad_label = lbl, ad_params = ps, ad_executor = [], ad_from_request = False,
      ad_repeatable = False, ad_allow_protected = False, ad_state = [], ad_key = None, ad_clears = False,
      ad_undo_persists = False, ad_clears_also = [], ad_run = run\<rparr>"

record capability =
  cp_id :: string
  cp_label :: string

record descriptor = action_decl +
  ds_capability :: string
  ds_universal :: bool

record action_registry =
  rg_types :: "(string \<times> descriptor) list"
  rg_caps :: "(capability \<times> bool \<times> string list) list"

datatype register_panic = DupType string | NoField string string | NamelessState string | UndoOfNothing string

definition describe :: "capability \<Rightarrow> bool \<Rightarrow> action_decl \<Rightarrow> descriptor" where
  "describe cap universal d = action_decl.extend d \<lparr>ds_capability = cp_id cap, ds_universal = universal\<rparr>"

lemma describe_simps [simp]:
  "ad_type (describe c u d) = ad_type d" "ad_params (describe c u d) = ad_params d"
  "ad_executor (describe c u d) = ad_executor d" "ad_from_request (describe c u d) = ad_from_request d"
  "ad_repeatable (describe c u d) = ad_repeatable d" "ad_allow_protected (describe c u d) = ad_allow_protected d"
  "ad_state (describe c u d) = ad_state d" "ad_key (describe c u d) = ad_key d"
  "ad_clears (describe c u d) = ad_clears d" "ad_undo_persists (describe c u d) = ad_undo_persists d"
  "ad_clears_also (describe c u d) = ad_clears_also d" "ad_run (describe c u d) = ad_run d"
  "ds_capability (describe c u d) = cp_id c" "ds_universal (describe c u d) = u"
  by (simp_all add: describe_def action_decl.defs)

definition register_action ::
  "capability \<Rightarrow> bool \<Rightarrow> action_decl \<Rightarrow> (string \<times> descriptor) list \<Rightarrow> register_panic + (string \<times> descriptor) list" where
  "register_action cap universal d m =
     (if map_of m (ad_type d) \<noteq> None then Inl (DupType (ad_type d))
      else case find (\<lambda>p. \<not> has_field (pm_name p)) (ad_params d) of
        Some p \<Rightarrow> Inl (NoField (ad_type d) (pm_name p))
      | None \<Rightarrow>
          if (ad_clears d \<or> ad_undo_persists d) \<and> ad_state d = [] then Inl (NamelessState (ad_type d))
          else if ad_undo_persists d \<and> \<not> ad_clears d then Inl (UndoOfNothing (ad_type d))
          else Inr (m @ [(ad_type d, describe cap universal d)]))"

definition register_capability ::
  "capability \<times> bool \<times> action_decl list \<Rightarrow> action_registry \<Rightarrow> register_panic + action_registry" where
  "register_capability e r =
     (case e of (cap, universal, acts) \<Rightarrow>
        bindR (fold_err (register_action cap universal) acts (rg_types r)) (\<lambda>m.
          Inr \<lparr>rg_types = m, rg_caps = rg_caps r @ [(cap, universal, map ad_type acts)]\<rparr>))"

definition lookup_action :: "action_registry \<Rightarrow> string \<Rightarrow> descriptor option" where
  "lookup_action r t = map_of (rg_types r) t"

definition action_types :: "action_registry \<Rightarrow> string list" where
  "action_types r = sort_strings (map fst (rg_types r))"

text \<open>\<open>Supports\<close>, on the capability interfaces the driver implements.\<close>

definition supports :: "descriptor \<Rightarrow> string list \<Rightarrow> bool" where
  "supports d caps \<longleftrightarrow> ds_universal d \<or> ds_capability d \<in> set caps"

definition for_driver :: "action_registry \<Rightarrow> string list \<Rightarrow> (string \<times> string list) list" where
  "for_driver r caps =
     sort_by (\<lambda>x y. str_le (fst x) (fst y))
       (map (\<lambda>(c, u, ts). (cp_id c, ts)) (filter (\<lambda>(c, u, ts). u \<or> cp_id c \<in> set caps) (rg_caps r)))"

definition state_key :: "'a action_decl_scheme \<Rightarrow> action_entry \<Rightarrow> string" where
  "state_key d a = (case ad_key d of None \<Rightarrow> [] | Some k \<Rightarrow> k a)"

definition validate :: "string list \<Rightarrow> 'a action_decl_scheme \<Rightarrow> action_entry \<Rightarrow> validate_error option" where
  "validate ex d a = first_error (\<lambda>_. validate_param ex (ad_allow_protected d) a) 0 (ad_params d)"

definition file_param :: "'a action_decl_scheme \<Rightarrow> param option" where
  "file_param d = find (\<lambda>p. pm_kind p = KindFile) (ad_params d)"

section \<open>Interface names of the guest\<close>

definition string_fields :: "(string \<times> ((string \<Rightarrow> string) \<Rightarrow> action_entry \<Rightarrow> action_entry)) list" where
  "string_fields =
     [(''type'', e_type_update), (''iface'', e_iface_update), (''cidr'', e_cidr_update),
      (''gateway'', e_gateway_update), (''dst_cidr'', e_dst_cidr_update), (''device'', e_device_update),
      (''family'', e_family_update), (''bridge'', e_bridge_update), (''mode'', e_mode_update),
      (''controller'', e_controller_update), (''protocols'', e_protocols_update),
      (''datapath_id'', e_datapath_id_update), (''flow'', e_flow_update), (''file'', e_file_update),
      (''internalIP'', e_internal_ip_update), (''protocol'', e_protocol_update),
      (''dns_server'', e_dns_server_update), (''dns_domain'', e_dns_domain_update),
      (''ospf_area'', e_ospf_area_update), (''router_id'', e_router_id_update),
      (''network_type'', e_network_type_update), (''area_type'', e_area_type_update),
      (''auth_type'', e_auth_type_update), (''auth_key'', e_auth_key_update),
      (''redistribute'', e_redistribute_update), (''neighbor'', e_neighbor_update),
      (''update_source'', e_update_source_update), (''net'', e_net_update), (''level'', e_level_update),
      (''prefix'', e_prefix_update), (''pool'', e_pool_update), (''executor'', e_executor_update)]"

definition list_fields :: "(string \<times> ((string list \<Rightarrow> string list) \<Rightarrow> action_entry \<Rightarrow> action_entry)) list" where
  "list_fields =
     [(''ifaces'', e_ifaces_update), (''dns_servers'', e_dns_servers_update),
      (''dns_search'', e_dns_search_update)]"

definition set_string_field :: "string \<Rightarrow> string \<Rightarrow> action_entry \<Rightarrow> action_entry" where
  "set_string_field name x a = (case map_of string_fields name of None \<Rightarrow> a | Some u \<Rightarrow> u (\<lambda>_. x) a)"

definition set_list_field :: "string \<Rightarrow> string list \<Rightarrow> action_entry \<Rightarrow> action_entry" where
  "set_list_field name xs a = (case map_of list_fields name of None \<Rightarrow> a | Some u \<Rightarrow> u (\<lambda>_. xs) a)"

primrec map_err :: "('a \<Rightarrow> 'e + 'b) \<Rightarrow> 'a list \<Rightarrow> 'e + 'b list" where
  "map_err f [] = Inr []"
| "map_err f (x # xs) = bindR (f x) (\<lambda>y. bindR (map_err f xs) (\<lambda>ys. Inr (y # ys)))"

definition map_interface_param :: "(string \<Rightarrow> 'e + string) \<Rightarrow> param \<Rightarrow> action_entry \<Rightarrow> 'e + action_entry" where
  "map_interface_param f p a =
     (case map_of (fields_of a) (pm_name p) of
        Some (VStr s) \<Rightarrow>
          (if pm_kind p \<noteq> KindIface \<or> s = [] then Inr a
           else bindR (f s) (\<lambda>m. Inr (set_string_field (pm_name p) m a)))
      | Some (VStrs xs) \<Rightarrow>
          (if pm_kind p \<noteq> KindIfaceList then Inr a
           else bindR (map_err f xs) (\<lambda>ms. Inr (set_list_field (pm_name p) ms a)))
      | _ \<Rightarrow> Inr a)"

definition map_interfaces :: "(string \<Rightarrow> 'e + string) \<Rightarrow> 'a action_decl_scheme \<Rightarrow> action_entry \<Rightarrow> 'e + action_entry" where
  "map_interfaces f d a = fold_err (map_interface_param f) (ad_params d) a"

section \<open>What registration and validation guarantee\<close>

text \<open>The Go type of a field does not depend on the request.\<close>

datatype shape = ShStr | ShInt | ShStrs | ShInts | ShPtr | ShObj | ShRaw

fun shape_of :: "field_value \<Rightarrow> shape" where
  "shape_of (VStr _) = ShStr"
| "shape_of (VInt _) = ShInt"
| "shape_of (VStrs _) = ShStrs"
| "shape_of (VInts _) = ShInts"
| "shape_of (VPtr _) = ShPtr"
| "shape_of (VObj _) = ShObj"
| "shape_of (VRaw _) = ShRaw"

definition field_shapes :: "(string \<times> shape) list" where
  "field_shapes = map (\<lambda>(n, v). (n, shape_of v)) (fields_of (entry_of []))"

lemma fields_shapes: "map (\<lambda>(n, v). (n, shape_of v)) (fields_of a) = field_shapes"
  by (simp add: field_shapes_def fields_of_def)

lemma field_shape: "map_option shape_of (map_of (fields_of a) name) = map_of field_shapes name"
proof -
  have "map_of (map (\<lambda>(n, v). (n, shape_of v)) xs) name = map_option shape_of (map_of xs name)" for xs
    by (induction xs) auto
  then show ?thesis using fields_shapes [of a] by metis
qed

lemma has_field_shape: "has_field name \<longleftrightarrow> map_of field_shapes name \<noteq> None"
proof -
  have "map fst field_shapes = field_names" by (simp add: field_shapes_def field_names_def split_beta comp_def)
  then have "fst ` set field_shapes = set field_names" by (metis list.set_map)
  then show ?thesis by (simp add: has_field_def map_of_eq_None_iff)
qed

definition kind_fits :: "kind \<Rightarrow> shape \<Rightarrow> bool" where
  "kind_fits k s =
     (case k of
        KindIfaceList \<Rightarrow> s = ShStrs | KindIPList \<Rightarrow> s = ShStrs | KindDomainList \<Rightarrow> s = ShStrs
      | KindPort \<Rightarrow> s = ShInt | KindNumber \<Rightarrow> s = ShInt \<or> s = ShPtr | KindNumberList \<Rightarrow> s = ShInts
      | KindObject \<Rightarrow> s = ShObj | KindCommand \<Rightarrow> s = ShRaw | _ \<Rightarrow> s = ShStr)"

lemma check_kind_no_panic:
  "kind_fits k (shape_of v) \<Longrightarrow> value_present v \<Longrightarrow> check_kind ex k v \<noteq> Some KPanic"
  by (cases k; cases v) (auto simp: kind_fits_def check_kind_def on_defs err_unless_def split: if_splits)

definition param_fits :: "param \<Rightarrow> bool" where
  "param_fits p = (case map_of field_shapes (pm_name p) of None \<Rightarrow> False | Some s \<Rightarrow> kind_fits (pm_kind p) s)"

lemma param_fitsD:
  assumes "param_fits p"
  obtains v where "map_of (fields_of a) (pm_name p) = Some v" and "kind_fits (pm_kind p) (shape_of v)"
  using assms field_shape [of a "pm_name p"] by (auto simp: param_fits_def split: option.splits)

lemma validate_param_no_panic:
  assumes "param_fits p"
  shows "validate_param ex allow a p \<noteq> Some (VNoField n) \<and> validate_param ex allow a p \<noteq> Some (VBadField n KPanic)"
proof -
  obtain v where "map_of (fields_of a) (pm_name p) = Some v" "kind_fits (pm_kind p) (shape_of v)"
    using assms by (rule param_fitsD)
  with check_kind_no_panic [of "pm_kind p" v ex] show ?thesis
    by (auto simp: validate_param_def split: option.splits)
qed

lemma validate_None: "validate ex d a = None \<longleftrightarrow> (\<forall>p \<in> set (ad_params d). validate_param ex (ad_allow_protected d) a p = None)"
  by (simp add: validate_def first_error_None_all)

definition decl_ok :: "action_decl \<Rightarrow> bool" where
  "decl_ok d \<longleftrightarrow>
     list_all param_fits (ad_params d) \<and>
     ((ad_clears d \<or> ad_undo_persists d) \<longrightarrow> ad_state d \<noteq> []) \<and> (ad_undo_persists d \<longrightarrow> ad_clears d)"

lemma find_none: "list_all P xs \<Longrightarrow> (\<And>x. P x \<Longrightarrow> \<not> Q x) \<Longrightarrow> find Q xs = None"
  by (auto simp: find_None_iff list_all_iff)

lemma register_action_ok:
  assumes "decl_ok d" and "ad_type d \<notin> fst ` set m"
  shows "register_action cap u d m = Inr (m @ [(ad_type d, describe cap u d)])"
proof -
  have "find (\<lambda>p. \<not> has_field (pm_name p)) (ad_params d) = None"
    by (rule find_none [of param_fits]) (use assms(1) in
      \<open>auto simp: decl_ok_def param_fits_def has_field_shape split: option.splits\<close>)
  moreover have "map_of m (ad_type d) = None" using assms(2) by (simp add: map_of_eq_None_iff)
  ultimately show ?thesis using assms(1) by (auto simp: register_action_def decl_ok_def)
qed

definition described :: "capability \<times> bool \<times> action_decl list \<Rightarrow> (string \<times> descriptor) list" where
  "described e = (case e of (cap, u, acts) \<Rightarrow> map (\<lambda>d. (ad_type d, describe cap u d)) acts)"

definition decls :: "(capability \<times> bool \<times> action_decl list) list \<Rightarrow> action_decl list" where
  "decls es = concat (map (\<lambda>(cap, u, acts). acts) es)"

definition registry_of :: "(capability \<times> bool \<times> action_decl list) list \<Rightarrow> action_registry" where
  "registry_of es =
     \<lparr>rg_types = concat (map described es), rg_caps = map (\<lambda>(c, u, acts). (c, u, map ad_type acts)) es\<rparr>"

lemma register_actions_ok:
  assumes "list_all decl_ok acts" and "distinct (map ad_type acts)" and "fst ` set m \<inter> ad_type ` set acts = {}"
  shows "fold_err (register_action cap u) acts m = Inr (m @ described (cap, u, acts))"
  using assms
proof (induction acts arbitrary: m)
  case (Cons d acts)
  then have "register_action cap u d m = Inr (m @ [(ad_type d, describe cap u d)])"
    by (intro register_action_ok) auto
  with Cons.IH [of "m @ [(ad_type d, describe cap u d)]"] Cons.prems show ?case
    by (auto simp: described_def)
qed (simp add: described_def)

lemma described_types: "map fst (concat (map described es)) = map ad_type (decls es)"
  by (induction es) (simp_all add: decls_def described_def split_beta comp_def)

lemma described_SomeD:
  "(t, d) \<in> set (concat (map described es)) \<Longrightarrow> \<exists>c u. \<exists>e \<in> set (decls es). t = ad_type e \<and> d = describe c u e"
  by (force simp: decls_def described_def)

lemma fst_described: "map fst (described e) = map ad_type (snd (snd e))"
  by (simp add: described_def split_beta comp_def)

lemma register_catalog_ok:
  assumes "list_all decl_ok (decls es)" and "distinct (map ad_type (decls es))"
  shows "fold_err register_capability es \<lparr>rg_types = [], rg_caps = []\<rparr> = Inr (registry_of es)"
proof -
  have "list_all decl_ok (decls es) \<Longrightarrow> distinct (map ad_type (decls es)) \<Longrightarrow>
      fst ` set (rg_types r) \<inter> ad_type ` set (decls es) = {} \<Longrightarrow>
      fold_err register_capability es r =
        Inr \<lparr>rg_types = rg_types r @ rg_types (registry_of es), rg_caps = rg_caps r @ rg_caps (registry_of es)\<rparr>" for r
  proof (induction es arbitrary: r)
    case (Cons e es)
    obtain cap u acts where e: "e = (cap, u, acts)" by (cases e) auto
    have ds: "decls (e # es) = acts @ decls es" by (simp add: e decls_def)
    let ?r = "\<lparr>rg_types = rg_types r @ described e, rg_caps = rg_caps r @ [(cap, u, map ad_type acts)]\<rparr>"
    have "register_capability e r = Inr ?r"
      using Cons.prems ds by (simp add: register_capability_def e register_actions_ok disjoint_iff image_iff)
    moreover have "fst ` set (rg_types ?r) \<inter> ad_type ` set (decls es) = {}"
    proof -
      have "fst ` set (described e) = ad_type ` set acts"
        using fst_described [of e] e by (metis list.set_map snd_conv)
      then have "fst ` set (rg_types ?r) = fst ` set (rg_types r) \<union> ad_type ` set acts" by (simp add: image_Un)
      then show ?thesis using Cons.prems(2,3) ds by (simp only:) (simp add: image_Un Int_Un_distrib Int_Un_distrib2)
    qed
    ultimately show ?case using Cons.IH [of ?r] Cons.prems ds by (simp add: registry_of_def e)
  qed (simp add: registry_of_def)
  from this [of "\<lparr>rg_types = [], rg_caps = []\<rparr>"] assms show ?thesis by (simp add: registry_of_def)
qed

end
