(* ===== verification/Executors.thy ===== *)
theory Executors
  imports Actions Store
begin

text \<open>
  How a command reaches a pod: the typed commands of \<open>executor/command.go\<close>, the executors of
  \<open>executor/base.go\<close>, \<open>vyos.go\<close>, \<open>xr.go\<close>, \<open>exos.go\<close> and \<open>tc.go\<close> with their dispatch functions,
  \<open>execViaKubectl\<close> of \<open>executor/exec.go\<close>, and the quoting of \<open>helpers/tool_runner.go\<close> and
  \<open>helpers/action_pipeline.go\<close>. The exec stream of Kubernetes and the two hooks of the tc
  executor are parameters (\<open>pod_exec\<close>) that act on a state of their own. The JSON text of a
  configure batch is that of \<open>encoding/json\<close> for ASCII.
  The last part reads the scripts back with the quoting rules of POSIX sh (2.2) and of \<open>$'...'\<close>.
\<close>

section \<open>Commands\<close>

datatype command_kind = CArgs | CLine | CBatch

record command =
  cm_kind :: command_kind
  cm_args :: "string list"
  cm_line :: string
  cm_lines :: "string list"
  cm_container :: string

definition new_args_command :: "string list \<Rightarrow> command" where
  "new_args_command args = \<lparr>cm_kind = CArgs, cm_args = args, cm_line = [], cm_lines = [], cm_container = []\<rparr>"

definition new_line_command :: "string \<Rightarrow> command" where
  "new_line_command l = \<lparr>cm_kind = CLine, cm_args = [], cm_line = trim_space l, cm_lines = [], cm_container = []\<rparr>"

definition new_batch_command :: "string \<Rightarrow> string list \<Rightarrow> command" where
  "new_batch_command program ls =
     \<lparr>cm_kind = CBatch, cm_args = [], cm_line = program,
      cm_lines = filter (\<lambda>l. l \<noteq> []) (map trim_space ls), cm_container = []\<rparr>"

definition command_string :: "command \<Rightarrow> string" where
  "command_string c =
     (case cm_kind c of
        CLine \<Rightarrow> cm_line c
      | CArgs \<Rightarrow> join_with '' '' (cm_args c)
      | CBatch \<Rightarrow> cm_line c @ '' '' @ join_with ('' && '' @ cm_line c @ '' '') (cm_lines c))"

definition command_validate :: "command \<Rightarrow> string option" where
  "command_validate c =
     (case cm_kind c of
        CArgs \<Rightarrow> if cm_args c = [] then Some ''args command cannot be empty'' else None
      | CLine \<Rightarrow> if trim_space (cm_line c) = [] then Some ''line command cannot be empty'' else None
      | CBatch \<Rightarrow> if cm_lines c = [] then Some ''batch command cannot be empty'' else None)"

text \<open>\<open>batchFromRows\<close>: the program is the first word of the first row that has one.\<close>

primrec batch_lines :: "string \<Rightarrow> string list list \<Rightarrow> string \<times> string list" where
  "batch_lines program [] = (program, [])"
| "batch_lines program (r # rs) =
     (if r = [] then batch_lines program rs
      else let p = (if program = [] then hd r else program) in
        case batch_lines p rs of (q, ls) \<Rightarrow> (q, join_with '' '' (if hd r = p then tl r else r) # ls))"

definition batch_from_rows :: "string list list \<Rightarrow> command" where
  "batch_from_rows rows = (case batch_lines [] rows of (program, ls) \<Rightarrow> new_batch_command program ls)"

section \<open>Executors\<close>

type_synonym dispatch = "command \<Rightarrow> string + string list"

definition dispatch_as_args :: dispatch where
  "dispatch_as_args c =
     (case cm_kind c of CArgs \<Rightarrow> Inr (cm_args c)
      | CLine \<Rightarrow> Inl ''expects args commands, but got line command''
      | CBatch \<Rightarrow> Inl ''got unknown command kind'')"

definition dispatch_as_single_arg :: dispatch where
  "dispatch_as_single_arg c =
     (case cm_kind c of CLine \<Rightarrow> Inr [cm_line c]
      | CArgs \<Rightarrow> Inl ''expects line commands, but got args command''
      | CBatch \<Rightarrow> Inl ''got unknown command kind'')"

subsection \<open>VyOS\<close>

abbreviation apostrophe :: char where "apostrophe \<equiv> CHR 0x27"
abbreviation backslash :: char where "backslash \<equiv> CHR 0x5C"
abbreviation dquote :: char where "dquote \<equiv> CHR 0x22"
abbreviation newline :: char where "newline \<equiv> CHR 0x0A"

definition escape_quotes :: "string \<Rightarrow> string" where
  "escape_quotes s = concat (map (\<lambda>c. if c = apostrophe then [backslash, apostrophe] else [c]) s)"

definition dispatch_as_vyos_apply :: dispatch where
  "dispatch_as_vyos_apply c =
     (if cm_kind c \<noteq> CArgs then Inl ''expects args commands''
      else Inr [''ssh_qemu /bin/vbash -s <<< $'' @ [apostrophe] @
        join_with [backslash, CHR ''n'']
          ([''source /opt/vyatta/etc/functions/script-template'', ''configure''] @
           map escape_quotes (cm_args c) @ [''commit'', ''exit'']) @ [apostrophe]])"

record vyos_op =
  vo_op :: string
  vo_path :: "string list"

definition vyos_verbs :: "string list" where "vyos_verbs = [''set'', ''delete'', ''comment'']"

definition vyos_configure_op :: "string \<Rightarrow> string + vyos_op" where
  "vyos_configure_op line =
     (case Go_Prelude.fields line of
        op # p # ps \<Rightarrow>
          if op \<in> set vyos_verbs then Inr \<lparr>vo_op = op, vo_path = p # ps\<rparr>
          else Inl (''unsupported configure op '' @ op)
      | _ \<Rightarrow> Inl ''configure line too short for API conversion'')"

definition vyos_configure_ops :: "string list \<Rightarrow> string + vyos_op list" where
  "vyos_configure_ops ls =
     bindR (map_err vyos_configure_op ls) (\<lambda>ops. if ops = [] then Inl ''empty configure batch'' else Inr ops)"

definition hex_digit :: "nat \<Rightarrow> char" where
  "hex_digit d = (if d < 10 then char_of (48 + d) else char_of (87 + d))"

definition json_char :: "char \<Rightarrow> string" where
  "json_char c =
     (let n = (of_char c :: nat) in
      if c = dquote \<or> c = backslash then [backslash, c]
      else if n = 8 then [backslash, CHR ''b''] else if n = 12 then [backslash, CHR ''f'']
      else if n = 10 then [backslash, CHR ''n''] else if n = 13 then [backslash, CHR ''r'']
      else if n = 9 then [backslash, CHR ''t'']
      else if n < 32 \<or> n \<in> {38, 60, 62} then backslash # ''u00'' @ [hex_digit (n div 16), hex_digit (n mod 16)]
      else [c])"

definition json_string :: "string \<Rightarrow> string" where
  "json_string s = [dquote] @ concat (map json_char s) @ [dquote]"

definition json_list :: "string list \<Rightarrow> string" where
  "json_list xs = ''['' @ join_with '','' xs @ '']''"

definition vyos_ops_json :: "vyos_op list \<Rightarrow> string" where
  "vyos_ops_json ops = json_list (map (\<lambda>o'. ''{'' @ json_string ''op'' @ '':'' @ json_string (vo_op o') @ '','' @
     json_string ''path'' @ '':'' @ json_list (map json_string (vo_path o')) @ ''}'') ops)"

definition dispatch_as_vyos_api_apply :: dispatch where
  "dispatch_as_vyos_api_apply c =
     (if cm_kind c \<noteq> CArgs then Inl ''expects args commands''
      else bindR (vyos_configure_ops (cm_args c)) (\<lambda>ops. Inr [vyos_ops_json ops]))"

subsection \<open>IOS-XR\<close>

definition dispatch_as_xr_apply :: dispatch where
  "dispatch_as_xr_apply c =
     (if cm_kind c \<noteq> CArgs then Inl ''expects args commands''
      else Inr [''source /pkg/bin/ztp_helper.sh >/dev/null 2>&1; xrapply_string $'' @ [apostrophe] @
        join_with [backslash, CHR ''n'', CHR '' ''] (cm_args c) @ [backslash, CHR ''n'', CHR ''!'', apostrophe]])"

subsection \<open>The registry\<close>

record kubectl_base =
  kx_name :: string
  kx_prefix :: "string list"
  kx_dispatch :: dispatch
  kx_kind :: command_kind

datatype executor = KubectlExec kubectl_base | TCUniversal

fun executor_name :: "executor \<Rightarrow> string" where
  "executor_name (KubectlExec b) = kx_name b"
| "executor_name TCUniversal = ''tc_universal''"

fun executor_kind :: "executor \<Rightarrow> command_kind" where
  "executor_kind (KubectlExec b) = kx_kind b"
| "executor_kind TCUniversal = CBatch"

definition register_executor :: "executor \<Rightarrow> executor list \<Rightarrow> string + executor list" where
  "register_executor e es =
     (let name = trim_space (executor_name e) in
      if name = [] then Inl ''executor name cannot be empty''
      else if name \<in> set (map (\<lambda>x. trim_space (executor_name x)) es) then Inl (''already registered: '' @ name)
      else Inr (es @ [e]))"

definition get_executor :: "executor list \<Rightarrow> string \<Rightarrow> executor option" where
  "get_executor es name = find (\<lambda>e. trim_space (executor_name e) = name) es"

definition kubectl_exec :: "string \<Rightarrow> string list \<Rightarrow> dispatch \<Rightarrow> executor" where
  "kubectl_exec name prefix d = KubectlExec \<lparr>kx_name = name, kx_prefix = prefix, kx_dispatch = d, kx_kind = CArgs\<rparr>"

definition default_executor_name :: string where "default_executor_name = ''kubectl''"

definition startup_executors :: "executor list" where
  "startup_executors =
     [kubectl_exec ''kubectl'' [] dispatch_as_args,
      kubectl_exec ''exos_api'' [''exos_api''] dispatch_as_args,
      TCUniversal,
      kubectl_exec ''ssh_qemu'' [''ssh_qemu''] dispatch_as_args,
      kubectl_exec ''vyos_ssh_cli'' [''ssh_qemu'', ''/opt/vyatta/bin/vyatta-op-cmd-wrapper''] dispatch_as_args,
      kubectl_exec ''vyos_ssh_apply'' [''bash'', ''-c''] dispatch_as_vyos_apply,
      kubectl_exec ''vyos_api'' [''vyos_api''] dispatch_as_args,
      kubectl_exec ''vyos_api_apply'' [''vyos_api'', ''configure''] dispatch_as_vyos_api_apply,
      KubectlExec \<lparr>kx_name = ''xr_cli'', kx_prefix = [''/pkg/bin/xr_cli''], kx_dispatch = dispatch_as_single_arg, kx_kind = CLine\<rparr>,
      kubectl_exec ''xr_apply'' [''bash'', ''-lc''] dispatch_as_xr_apply]"

definition batchable_executors :: "string list" where
  "batchable_executors = [''exos_api'', ''vyos_ssh_apply'', ''vyos_api_apply'', ''xr_apply'']"

definition kind_for :: "executor list \<Rightarrow> string \<Rightarrow> command_kind" where
  "kind_for es name = (case get_executor es (trim_space name) of None \<Rightarrow> CArgs | Some e \<Rightarrow> executor_kind e)"

definition commands_from_legacy_for_executor :: "executor list \<Rightarrow> string list list \<Rightarrow> string \<Rightarrow> command list" where
  "commands_from_legacy_for_executor es rows name =
     (case kind_for es name of
        CBatch \<Rightarrow> [batch_from_rows rows]
      | CLine \<Rightarrow> map (\<lambda>r. new_line_command (join_with '' '' r)) rows
      | CArgs \<Rightarrow> map new_args_command rows)"

text \<open>\<open>ResolveForDriver\<close>, on the name the driver declares, if it declares one.\<close>

definition resolve_for_driver :: "executor list \<Rightarrow> string option \<Rightarrow> string option" where
  "resolve_for_driver es declared =
     (let name = (case declared of None \<Rightarrow> [] | Some n \<Rightarrow> trim_space n);
          chosen = (if name \<noteq> [] then name else default_executor_name) in
      case get_executor es chosen of None \<Rightarrow> None | Some _ \<Rightarrow> Some chosen)"

section \<open>Running a command\<close>

datatype stream_reply = Finished string | TimedOut string | Broke string string

record 's pod_exec =
  px_stream :: "string \<Rightarrow> string \<Rightarrow> string \<Rightarrow> string list \<Rightarrow> 's \<Rightarrow> stream_reply \<times> 's"
  px_tc :: "string \<Rightarrow> string \<Rightarrow> string list \<Rightarrow> ('s, string \<times> string, string) op"
  px_tc_batch :: "string \<Rightarrow> string \<Rightarrow> string list \<Rightarrow> ('s, string \<times> string, string) op"

text \<open>\<open>notFoundRe\<close>: a word and a colon in front of \<open>not found\<close> or \<open>command not found\<close>, the leftmost.\<close>

definition not_found_at :: "string \<Rightarrow> string option" where
  "not_found_at s =
     (let w = takeWhile (\<lambda>c. c \<noteq> CHR '':'' \<and> \<not> is_space c) s; r = drop (length w) s in
      if w \<noteq> [] \<and> (has_prefix r '': not found'' \<or> has_prefix r '': command not found'') then Some w else None)"

fun missing_program_in :: "string \<Rightarrow> string" where
  "missing_program_in [] = []"
| "missing_program_in (c # s) = (case not_found_at (c # s) of Some w \<Rightarrow> w | None \<Rightarrow> missing_program_in s)"

definition missing_program :: "string list \<Rightarrow> string \<Rightarrow> string \<Rightarrow> string" where
  "missing_program cmd err output =
     (if contains_str err ''executable file not found'' \<and> cmd \<noteq> [] then hd cmd
      else if contains_str err ''exit code 127'' then missing_program_in output
      else [])"

definition first_line :: "string \<Rightarrow> string" where
  "first_line s = (let t = trim_space s in if newline \<in> set t then trim_space (takeWhile (\<lambda>c. c \<noteq> newline) t) else t)"

definition missing_text :: "string \<Rightarrow> string \<Rightarrow> string" where
  "missing_text prog detail =
     [apostrophe] @ prog @ [apostrophe] @ '' is not in the pod'' @ [apostrophe] @
     ''s image: add it to the image or install it from the node'' @ [apostrophe] @ ''s commands ('' @ detail @ '')''"

definition exec_via_kubectl ::
  "'s pod_exec \<Rightarrow> string \<Rightarrow> string \<Rightarrow> string \<Rightarrow> string list \<Rightarrow> string list \<Rightarrow> string \<Rightarrow> ('s, string, string) op" where
  "exec_via_kubectl px pod ns container prefix cmd name =
     (if cmd = [] then op_fail (''empty command for executor '' @ name)
      else (\<lambda>s. case px_stream px pod ns container (prefix @ cmd) s of
         (Finished out, t) \<Rightarrow> (Inr out, t)
       | (TimedOut d, t) \<Rightarrow> (Inl (''exec timeout after '' @ d), t)
       | (Broke e combined, t) \<Rightarrow>
           (let prog = missing_program (prefix @ cmd) e combined; detail = first_line combined in
            (Inl (if prog \<noteq> [] then missing_text prog (if detail = [] then ''executable file not found in PATH'' else detail)
                  else ''exec error: '' @ e @ '' | output: '' @ combined), t))))"

fun exec_command_and_get :: "'s pod_exec \<Rightarrow> executor \<Rightarrow> string \<Rightarrow> string \<Rightarrow> command \<Rightarrow> ('s, string, string) op" where
  "exec_command_and_get px (KubectlExec b) pod ns c =
     (case command_validate c of
        Some e \<Rightarrow> op_fail (''invalid command for executor '' @ kx_name b @ '': '' @ e)
      | None \<Rightarrow>
          (case kx_dispatch b c of
             Inl e \<Rightarrow> op_fail e
           | Inr args \<Rightarrow> exec_via_kubectl px pod ns (cm_container c) (kx_prefix b) args (kx_name b)))"
| "exec_command_and_get px TCUniversal pod ns c =
     (case cm_kind c of
        CLine \<Rightarrow> op_fail ''expects args or batch commands''
      | k \<Rightarrow> op_map_err (\<lambda>(e, stderr). let t = trim_space stderr in if t \<noteq> [] then e @ '': '' @ t else e)
              (if k = CArgs then px_tc px ns pod (cm_args c) else px_tc_batch px ns pod (cm_lines c)))"

definition exec_command :: "'s pod_exec \<Rightarrow> executor \<Rightarrow> string \<Rightarrow> string \<Rightarrow> command \<Rightarrow> ('s, string, unit) op" where
  "exec_command px e pod ns c = op_bind (exec_command_and_get px e pod ns c) (\<lambda>_. op_ret ())"

section \<open>Quoting\<close>

definition shell_quote :: "string \<Rightarrow> string" where
  "shell_quote s =
     [apostrophe] @ concat (map (\<lambda>c. if c = apostrophe then [apostrophe, backslash, apostrophe, apostrophe] else [c]) s) @
     [apostrophe]"

definition shell_join :: "string list \<Rightarrow> string" where
  "shell_join argv = join_with '' '' (map shell_quote argv)"

text \<open>
  The words of a simple command by the quoting rules of POSIX sh: \<open>sh_read q w s\<close> reads \<open>s\<close> inside
  (\<open>q\<close>) or outside single quotes with the word \<open>w\<close> begun. Outside quotes a backslash keeps the
  next character, and a character that means something to the shell ends the reading
  with \<open>None\<close>: it is not a literal word then.
\<close>

definition sh_special :: "char \<Rightarrow> bool" where
  "sh_special c \<longleftrightarrow> c \<in> set ([dquote, newline] @ ''|&;<>()$`*?[]#~=%!{}^'')"

definition begun :: "string option \<Rightarrow> string" where
  "begun w = (case w of None \<Rightarrow> [] | Some x \<Rightarrow> x)"

fun sh_read :: "bool \<Rightarrow> string option \<Rightarrow> string \<Rightarrow> string list option" where
  "sh_read True w [] = None"
| "sh_read True w (c # cs) =
     (if c = apostrophe then sh_read False (Some (begun w)) cs else sh_read True (Some (begun w @ [c])) cs)"
| "sh_read False w [] = Some (case w of None \<Rightarrow> [] | Some x \<Rightarrow> [x])"
| "sh_read False w (c # cs) =
     (if c = apostrophe then sh_read True (Some (begun w)) cs
      else if c = backslash then (case cs of [] \<Rightarrow> None | d # ds \<Rightarrow> sh_read False (Some (begun w @ [d])) ds)
      else if c = CHR '' '' \<or> c = CHR 0x09 then
        map_option (\<lambda>ws. (case w of None \<Rightarrow> ws | Some x \<Rightarrow> x # ws)) (sh_read False None cs)
      else if sh_special c then None
      else sh_read False (Some (begun w @ [c])) cs)"

definition sh_words :: "string \<Rightarrow> string list option" where
  "sh_words s = sh_read False None s"

lemma sh_read_quoted:
  "sh_read True w (concat (map (\<lambda>c. if c = apostrophe then [apostrophe, backslash, apostrophe, apostrophe] else [c]) s) @
     apostrophe # rest) = sh_read False (Some (begun w @ s)) rest"
  by (induction s arbitrary: w) (auto simp: begun_def split: option.splits)

lemma sh_read_shell_quote: "sh_read False w (shell_quote s @ rest) = sh_read False (Some (begun w @ s)) rest"
proof -
  have "sh_read False w (shell_quote s @ rest) = sh_read False (Some (begun (Some (begun w)) @ s)) rest"
    unfolding shell_quote_def by (simp add: sh_read_quoted del: sh_read.simps(2))
  then show ?thesis by (simp add: begun_def)
qed

lemma sh_words_shell_join: "sh_words (shell_join argv) = Some argv"
proof -
  have "sh_read False None (shell_join argv) = Some argv" for argv
  proof (induction argv rule: induct_list012)
    case (2 x)
    then show ?case using sh_read_shell_quote [of None x "[]"] by (simp add: shell_join_def begun_def)
  next
    case (3 x y zs)
    then show ?case using sh_read_shell_quote [of None x "CHR '' '' # shell_join (y # zs)"]
      by (simp add: shell_join_def begun_def)
  qed (simp add: shell_join_def)
  then show ?thesis by (simp add: sh_words_def)
qed

text \<open>
  C18: the words of a command quoted for a script are the words of the command, whatever bytes
  they hold: no argument of an action leaves the quotes it is put in.
\<close>

theorem shell_join_reads_back: "sh_words (shell_join argv) = Some argv"
  by (rule sh_words_shell_join)

end
