(* ===== verification/Action_Catalog.thy ===== *)
theory Action_Catalog
  imports Actions
begin

text \<open>
  The actions the backend registers at start: those of \<open>capabilities/*.go\<close>, one list per
  \<open>actions.Register\<close>, in the order of their source, and the two universal capabilities of
  \<open>helpers/configurator.go\<close> and \<open>helpers/tc.go\<close>. The keys are those of
  \<open>capabilities/state.go\<close>. Labels and parameters are the source's; a builder checks what the
  source checks and names the method it then calls.
\<close>

section \<open>Keys of the state\<close>

definition key_iface :: "action_entry \<Rightarrow> string" where "key_iface a = e_iface a"

definition key_address :: "action_entry \<Rightarrow> string" where "key_address a = e_iface a @ '' '' @ e_cidr a"

definition key_default_route_set :: "action_entry \<Rightarrow> string" where
  "key_default_route_set a = (if is_ipv6 (e_gateway a) then ''6'' else ''4'')"

definition key_default_route_family :: "action_entry \<Rightarrow> string" where
  "key_default_route_family a = (if e_family a = ''6'' then ''6'' else ''4'')"

definition key_static_route :: "action_entry \<Rightarrow> string" where
  "key_static_route a = e_dst_cidr a @ '' '' @ e_gateway a @ '' '' @ e_device a"

definition key_nameserver :: "action_entry \<Rightarrow> string" where "key_nameserver a = e_dns_server a"

definition key_search :: "action_entry \<Rightarrow> string" where "key_search a = e_dns_domain a"

definition key_bridge :: "action_entry \<Rightarrow> string" where "key_bridge a = e_bridge a"

definition key_bridge_member :: "action_entry \<Rightarrow> string" where
  "key_bridge_member a = e_iface a @ '' '' @ e_bridge a"

text \<open>\<open>itoa\<close> of \<open>capabilities/state.go\<close>: empty for a negative number.\<close>

definition state_itoa :: "int \<Rightarrow> string" where
  "state_itoa n = (if n < 0 then [] else nat_str (nat n))"

definition key_port_forward :: "action_entry \<Rightarrow> string" where
  "key_port_forward a =
     e_iface a @ '' '' @ e_protocol a @ '' '' @ state_itoa (e_external_port a) @ '' '' @
     (if is_ipv6 (e_internal_ip a) then ''6'' else ''4'')"

definition key_network_area :: "action_entry \<Rightarrow> string" where
  "key_network_area a = e_cidr a @ '' '' @ e_ospf_area a"

definition key_area :: "action_entry \<Rightarrow> string" where "key_area a = e_ospf_area a"

definition key_cidr :: "action_entry \<Rightarrow> string" where "key_cidr a = e_cidr a"

definition key_family :: "action_entry \<Rightarrow> string" where "key_family a = key_default_route_family a"

definition key_iface_family :: "action_entry \<Rightarrow> string" where
  "key_iface_family a = e_iface a @ '' '' @ key_family a"

definition key_redistribute_family :: "action_entry \<Rightarrow> string" where
  "key_redistribute_family a = e_redistribute a @ '' '' @ key_family a"

definition key_redistribute :: "action_entry \<Rightarrow> string" where "key_redistribute a = e_redistribute a"

definition key_neighbor :: "action_entry \<Rightarrow> string" where "key_neighbor a = e_neighbor a"

definition isis_redistribute_level :: "action_entry \<Rightarrow> string" where
  "isis_redistribute_level a = (if e_level a = ''level-1'' then ''level-1'' else ''level-2'')"

definition key_redistribute_family_level :: "action_entry \<Rightarrow> string" where
  "key_redistribute_family_level a = key_redistribute_family a @ '' '' @ isis_redistribute_level a"

definition subinterface_name :: "string \<Rightarrow> int \<Rightarrow> string" where
  "subinterface_name parent vlan = parent @ ''.'' @ int_str vlan"

definition key_subinterface :: "action_entry \<Rightarrow> string" where
  "key_subinterface a = subinterface_name (e_iface a) (e_vlan a)"

text \<open>\<open>FlowMatch\<close>: what comes before the first \<open>actions=\<close> that runs to the end of the text, without the separators in front of it.\<close>

fun flow_match :: "string \<Rightarrow> string" where
  "flow_match [] = []"
| "flow_match (c # cs) =
     (let r = dropWhile (\<lambda>x. x = CHR '','' \<or> x = CHR '' '') (c # cs) in
      if has_prefix r ''actions='' \<and> CHR 0x0A \<notin> set r then [] else c # flow_match cs)"

definition key_flow :: "action_entry \<Rightarrow> string" where
  "key_flow a = e_bridge a @ '' '' @ flow_match (e_flow a)"

lemmas key_defs =
  key_iface_def key_address_def key_default_route_set_def key_default_route_family_def
  key_static_route_def key_nameserver_def key_search_def key_bridge_def
  key_bridge_member_def key_port_forward_def key_network_area_def key_area_def
  key_cidr_def key_family_def key_iface_family_def key_redistribute_family_def
  key_redistribute_def key_neighbor_def isis_redistribute_level_def key_redistribute_family_level_def
  subinterface_name_def key_subinterface_def key_flow_def

section \<open>Checks of the builders\<close>

definition in_range :: "int \<Rightarrow> int \<Rightarrow> int \<Rightarrow> bool" where
  "in_range n lo hi \<longleftrightarrow> lo \<le> n \<and> n \<le> hi"

definition vlan_id_ok :: "int \<Rightarrow> bool" where "vlan_id_ok n \<longleftrightarrow> 1 \<le> n \<and> n \<le> 4094"

definition ospf_area_types :: "string list" where
  "ospf_area_types = [''stub'', ''totally-stub'', ''nssa'', ''totally-nssa'']"

definition ospf_auth_types :: "string list" where "ospf_auth_types = [''plain'', ''md5'']"

definition ospf_network_types :: "string list" where
  "ospf_network_types = [''broadcast'', ''non-broadcast'', ''point-to-multipoint'', ''point-to-point'']"

definition ospf_sources :: "string list" where
  "ospf_sources = [''connected'', ''static'', ''rip'', ''bgp'', ''kernel'']"

definition ospf6_sources :: "string list" where
  "ospf6_sources = [''connected'', ''static'', ''ripng'', ''bgp'', ''kernel'']"

definition rip_sources :: "string list" where
  "rip_sources = [''connected'', ''static'', ''ospf'', ''bgp'', ''kernel'']"

definition bgp_sources :: "string list" where
  "bgp_sources = [''connected'', ''static'', ''ospf'', ''rip'', ''isis'', ''kernel'']"

definition isis_sources :: "string list" where
  "isis_sources = [''connected'', ''static'', ''ospf'', ''rip'', ''bgp'', ''kernel'']"

definition isis_levels :: "string list" where "isis_levels = [''level-1'', ''level-2'', ''level-1-2'']"

definition isis_network_types :: "string list" where
  "isis_network_types = [''broadcast'', ''point-to-point'']"

definition max_as :: int where "max_as = 2 ^ 32 - 1"

definition auth_key_id :: "action_entry \<Rightarrow> int" where
  "auth_key_id a = (if e_auth_key_id a = 0 then 1 else e_auth_key_id a)"

definition ospf_auth_ok :: "bool \<Rightarrow> action_entry \<Rightarrow> bool" where
  "ospf_auth_ok with_key a \<longleftrightarrow>
     e_auth_type a \<in> set ospf_auth_types \<and> in_range (auth_key_id a) 1 255 \<and>
     (with_key \<longrightarrow> length (e_auth_key a) \<le> (if e_auth_type a = ''md5'' then 16 else 8))"

definition isis_level_ok :: "string list \<Rightarrow> action_entry \<Rightarrow> bool" where
  "isis_level_ok allowed a \<longleftrightarrow> e_level a = [] \<or> e_level a \<in> set allowed"

text \<open>\<open>isisNETRe\<close>: an AFI, three to nine groups of four hexadecimal digits, the selector 00.\<close>

definition isis_net_ok :: "string \<Rightarrow> bool" where
  "isis_net_ok s =
     (let ps = split_on CHR ''.'' s in
      5 \<le> length ps \<and> length ps \<le> 11 \<and> length (hd ps) = 2 \<and> list_all is_hex (hd ps) \<and> last ps = ''00'' \<and>
      list_all (\<lambda>g. length g = 4 \<and> list_all is_hex g) (butlast (tl ps)))"

definition controller_port_ok :: "string \<Rightarrow> bool" where
  "controller_port_ok p =
     (case p of [] \<Rightarrow> True
      | c # ds \<Rightarrow> c = CHR '':'' \<and> 1 \<le> length ds \<and> length ds \<le> 5 \<and> list_all is_digit ds)"

definition controller_target_ok :: "string \<Rightarrow> bool" where
  "controller_target_ok t =
     ((has_prefix t ''tcp:'' \<or> has_prefix t ''ssl:'') \<and>
      (let r = drop 4 t in
       case r of [] \<Rightarrow> False
       | c # cs \<Rightarrow>
           if c = CHR ''['' then
             (let h = takeWhile (\<lambda>x. x \<noteq> CHR '']'') cs in
              h \<noteq> [] \<and> list_all (\<lambda>x. is_hex x \<or> x = CHR '':'' \<or> x = CHR ''.'') h \<and> length h < length cs \<and>
              controller_port_ok (drop (Suc (length h)) cs))
           else
             (let h = takeWhile (\<lambda>x. x \<noteq> CHR '':'') r in
              h \<noteq> [] \<and> list_all (\<lambda>x. x \<noteq> CHR ''['' \<and> x \<noteq> CHR '']'' \<and> (of_char x :: nat) \<notin> {9, 10, 12, 13, 32}) h \<and>
              controller_port_ok (drop (length h) r))))"

definition protocols_ok :: "string \<Rightarrow> bool" where
  "protocols_ok s = list_all (\<lambda>p. p \<in> set [''OpenFlow10'', ''OpenFlow11'', ''OpenFlow12'', ''OpenFlow13'',
     ''OpenFlow14'', ''OpenFlow15'']) (split_on CHR '','' s)"

definition datapath_id_ok :: "string \<Rightarrow> bool" where
  "datapath_id_ok s =
     (let d = trim_prefix s ''0x'' in 1 \<le> length d \<and> length d \<le> 16 \<and> list_all is_hex d)"

definition lower_char :: "char \<Rightarrow> char" where
  "lower_char c = (if (65::nat) \<le> of_char c \<and> of_char c \<le> (90::nat) then char_of (of_char c + 32 :: nat) else c)"

definition datapath_id :: "string \<Rightarrow> string" where
  "datapath_id s =
     (let d = map lower_char (trim_prefix (map lower_char s) ''0x'')
      in replicate (16 - length d) CHR ''0'' @ d)"

definition flow_text_ok :: "string \<Rightarrow> bool" where
  "flow_text_ok s \<longleftrightarrow> \<not> list_ex (\<lambda>c. (of_char c :: nat) \<in> {10, 13, 34, 39, 96}) s"

definition max_controller_config :: nat where "max_controller_config = 262144"

definition controller_config_ok :: "(string \<Rightarrow> bool) \<Rightarrow> string \<Rightarrow> bool" where
  "controller_config_ok yaml c \<longleftrightarrow>
     trim_space c \<noteq> [] \<and> length c \<le> max_controller_config \<and> CHR 0x00 \<notin> set c \<and> yaml c"

subsection \<open>The network of a prefix\<close>

text \<open>\<open>IP.Mask\<close> of \<open>net.ParseCIDR\<close> and \<open>IPNet.String\<close>, with the shortened form of IPv6.\<close>

fun mask_parts :: "nat \<Rightarrow> nat \<Rightarrow> nat list \<Rightarrow> nat list" where
  "mask_parts w n [] = []"
| "mask_parts w n (g # gs) =
     (let k = min w n in g div 2 ^ (w - k) * 2 ^ (w - k) # mask_parts w (n - k) gs)"

fun hex_str :: "nat \<Rightarrow> string" where
  "hex_str n = (let d = n mod 16; c = (if d < 10 then char_of (48 + d) else char_of (87 + d)) in
     if n < 16 then [c] else hex_str (n div 16) @ [c])"

declare hex_str.simps [simp del]

definition zeros_from :: "nat list \<Rightarrow> nat \<Rightarrow> nat" where
  "zeros_from gs i = length (takeWhile (\<lambda>g. g = 0) (drop i gs))"

definition v6_string :: "nat list \<Rightarrow> string" where
  "v6_string gs =
     (let best = fold (\<lambda>i b. if zeros_from gs i > zeros_from gs b then i else b) [0 ..< length gs] 0;
          n = zeros_from gs best; sep = '':'' in
      if n < 2 then join_with sep (map hex_str gs)
      else join_with sep (map hex_str (take best gs)) @ ''::'' @ join_with sep (map hex_str (drop (best + n) gs)))"

fun network_string :: "ip_addr \<times> nat \<Rightarrow> string" where
  "network_string (V4 os, n) = join_with ''.'' (map nat_str (mask_parts 8 n os)) @ ''/'' @ nat_str n"
| "network_string (V6 gs, n) = v6_string (mask_parts 16 n gs) @ ''/'' @ nat_str n"

definition nat64_well_known_prefix :: string where "nat64_well_known_prefix = ''64:ff9b::/96''"

definition nat64_prefix :: "action_entry \<Rightarrow> string + string" where
  "nat64_prefix a =
     (if e_prefix a = [] then Inr nat64_well_known_prefix
      else case parse_cidr (e_prefix a) of
        None \<Rightarrow> Inl ''prefix''
      | Some (ip, n) \<Rightarrow>
          if to4_ok ip then Inl ''prefix''
          else if n \<noteq> 96 then Inl ''prefix length''
          else Inr (network_string (ip, n)))"

definition nat64_pool :: "action_entry \<Rightarrow> string + string" where
  "nat64_pool a =
     (case parse_cidr (e_pool a) of
        None \<Rightarrow> Inl ''pool''
      | Some (ip, n) \<Rightarrow>
          if \<not> to4_ok ip then Inl ''pool''
          else if n > 30 then Inl ''pool length''
          else Inr (network_string (ip, n)))"

section \<open>The actions\<close>

definition l2_actions :: "action_decl list" where
  "l2_actions =
    [(declare_action ''link_up'' ''Bring interface up'' [P_Iface]
       (\<lambda>_ a. call ''LinkUp'' [AStr (e_iface a)]))
       \<lparr>ad_state := ''link'', ad_key := Some key_iface\<rparr>,
     (declare_action ''link_down'' ''Bring interface down'' [P_Iface]
       (\<lambda>_ a. call ''LinkDown'' [AStr (e_iface a)]))
       \<lparr>ad_state := ''link'', ad_key := Some key_iface, ad_clears := True, ad_undo_persists := True\<rparr>]"

definition l3_actions :: "action_decl list" where
  "l3_actions =
    [(declare_action ''set_ip'' ''Add IP address'' [P_Iface, P_CIDR]
       (\<lambda>_ a. call ''SetIP'' [AStr (e_iface a), AStr (e_cidr a)]))
       \<lparr>ad_state := ''address'', ad_key := Some key_address\<rparr>,
     (declare_action ''replace_ip'' ''Replace IP address'' [P_Iface, P_CIDR]
       (\<lambda>_ a. call ''ReplaceIP'' [AStr (e_iface a), AStr (e_cidr a)]))
       \<lparr>ad_state := ''address'', ad_key := Some key_address\<rparr>,
     (declare_action ''remove_ip'' ''Remove IP address'' [P_Iface, P_CIDR]
       (\<lambda>_ a. call ''RemoveIP'' [AStr (e_iface a), AStr (e_cidr a)]))
       \<lparr>ad_state := ''address'', ad_key := Some key_address, ad_clears := True, ad_undo_persists := True\<rparr>,
     (declare_action ''set_default_route'' ''Set default route'' [P_Gateway]
       (\<lambda>_ a. call ''SetDefaultRoute'' [AStr (e_gateway a)]))
       \<lparr>ad_state := ''default_route'', ad_key := Some key_default_route_set\<rparr>,
     (declare_action ''remove_default_route'' ''Remove default route'' [P_Family]
       (\<lambda>v a. if e_family a \<noteq> ''6'' then call ''RemoveDefaultRoute'' [] else
          check_that (''DefaultRoute6Remover'' \<in> set (rn_caps v)) ''driver'' (call ''RemoveDefaultRoute6'' [])))
       \<lparr>ad_state := ''default_route'', ad_key := Some key_default_route_family, ad_clears := True, ad_undo_persists := True\<rparr>,
     (declare_action ''add_static_route'' ''Add static route'' [P_DstCIDR, P_Gateway, optional P_Device]
       (\<lambda>_ a. call ''AddStaticRoute'' [AStr (e_dst_cidr a), AStr (e_gateway a), AStr (e_device a)]))
       \<lparr>ad_state := ''static_route'', ad_key := Some key_static_route\<rparr>,
     (declare_action ''remove_static_route'' ''Remove static route'' [P_DstCIDR, P_Gateway, optional P_Device]
       (\<lambda>_ a. call ''RemoveStaticRoute'' [AStr (e_dst_cidr a), AStr (e_gateway a), AStr (e_device a)]))
       \<lparr>ad_state := ''static_route'', ad_key := Some key_static_route, ad_clears := True\<rparr>,
     (declare_action ''add_dns_nameserver'' ''Add DNS nameserver'' [P_DNSServer]
       (\<lambda>_ a. call ''AddDNSNameserver'' [AStr (e_dns_server a)]))
       \<lparr>ad_state := ''dns_nameserver'', ad_key := Some key_nameserver\<rparr>,
     (declare_action ''remove_dns_nameserver'' ''Remove DNS nameserver'' [P_DNSServer]
       (\<lambda>_ a. call ''RemoveDNSNameserver'' [AStr (e_dns_server a)]))
       \<lparr>ad_state := ''dns_nameserver'', ad_key := Some key_nameserver, ad_clears := True\<rparr>,
     (declare_action ''add_dns_search'' ''Add DNS search domain'' [P_DNSDomain]
       (\<lambda>_ a. call ''AddDNSSearch'' [AStr (e_dns_domain a)]))
       \<lparr>ad_state := ''dns_search'', ad_key := Some key_search\<rparr>,
     (declare_action ''remove_dns_search'' ''Remove DNS search domain'' [P_DNSDomain]
       (\<lambda>_ a. call ''RemoveDNSSearch'' [AStr (e_dns_domain a)]))
       \<lparr>ad_state := ''dns_search'', ad_key := Some key_search, ad_clears := True\<rparr>,
     (declare_action ''set_dns'' ''Set DNS resolver'' [P_DNSServers, P_DNSSearch]
       (\<lambda>_ a. call ''SetDNS'' [AStrs (e_dns_servers a), AStrs (e_dns_search a)]))
       \<lparr>ad_state := ''dns''\<rparr>,
     (declare_action ''clear_dns'' ''Clear DNS resolver'' []
       (\<lambda>_ _. call ''ClearDNS'' []))
       \<lparr>ad_state := ''dns'', ad_clears := True, ad_clears_also := [''dns_nameserver'', ''dns_search'']\<rparr>]"

definition switch_actions :: "action_decl list" where
  "switch_actions =
    [(declare_action ''setup_bridge'' ''Create bridge'' [P_Bridge, optional P_Ifaces]
       (\<lambda>_ a. call ''SetupBridge'' [AStr (e_bridge a), AStrs (e_ifaces a)]))
       \<lparr>ad_state := ''bridge'', ad_key := Some key_bridge\<rparr>,
     (declare_action ''teardown_bridge'' ''Delete bridge'' [P_Bridge]
       (\<lambda>_ a. call ''TeardownBridge'' [AStr (e_bridge a)]))
       \<lparr>ad_state := ''bridge'', ad_key := Some key_bridge, ad_clears := True\<rparr>,
     (declare_action ''add_interface_to_bridge'' ''Add interface to bridge'' [P_Iface, P_Bridge]
       (\<lambda>_ a. call ''AddInterfaceToBridge'' [AStr (e_iface a), AStr (e_bridge a)]))
       \<lparr>ad_state := ''bridge_member'', ad_key := Some key_bridge_member\<rparr>,
     (declare_action ''remove_interface_from_bridge'' ''Remove interface from bridge'' [P_Iface, P_Bridge]
       (\<lambda>_ a. call ''RemoveInterfaceFromBridge'' [AStr (e_iface a), AStr (e_bridge a)]))
       \<lparr>ad_state := ''bridge_member'', ad_key := Some key_bridge_member, ad_clears := True\<rparr>]"

definition vlan_actions :: "action_decl list" where
  "vlan_actions =
    [(declare_action ''vlan_set_access'' ''Set access port'' [P_Iface, P_VLAN]
       (\<lambda>_ a. check_that (vlan_id_ok (e_vlan a)) ''vlan''
          (call ''VLANSetAccess'' [AStr (e_iface a), AInt (e_vlan a)])))
       \<lparr>ad_state := ''vlan_port'', ad_key := Some key_iface\<rparr>,
     (declare_action ''vlan_set_trunk'' ''Set trunk port'' [P_Iface, P_VLANs, P_NativeVLAN]
       (\<lambda>_ a. check_that (list_all vlan_id_ok (e_vlans a)) ''vlans''
          (check_that (e_native_vlan a \<noteq> 0 \<longrightarrow> vlan_id_ok (e_native_vlan a)) ''native_vlan''
          (call ''VLANSetTrunk'' [AStr (e_iface a), AInts (e_vlans a), AInt (e_native_vlan a)]))))
       \<lparr>ad_state := ''vlan_port'', ad_key := Some key_iface\<rparr>,
     (declare_action ''vlan_clear_port'' ''Clear port VLANs'' [P_Iface]
       (\<lambda>_ a. call ''VLANClearPort'' [AStr (e_iface a)]))
       \<lparr>ad_state := ''vlan_port'', ad_key := Some key_iface, ad_clears := True\<rparr>]"

definition nat_actions :: "action_decl list" where
  "nat_actions =
    [(declare_action ''enable_snat'' ''Enable SNAT'' [P_Iface, P_Family]
       (\<lambda>_ a. call ''EnableSNAT'' [AStr (e_iface a), ABool (e_family a = ''6'')]))
       \<lparr>ad_allow_protected := True, ad_state := ''snat'', ad_key := Some key_iface_family\<rparr>,
     (declare_action ''disable_snat'' ''Disable SNAT'' [P_Iface, P_Family]
       (\<lambda>_ a. call ''DisableSNAT'' [AStr (e_iface a), ABool (e_family a = ''6'')]))
       \<lparr>ad_allow_protected := True, ad_state := ''snat'', ad_key := Some key_iface_family, ad_clears := True\<rparr>,
     (declare_action ''enable_dnat'' ''Add port forward'' [P_Iface, P_ExternalPort, P_InternalIP, P_InternalPort, P_Protocol]
       (\<lambda>_ a.
          call ''EnableDNAT'' [AStr (e_iface a), AInt (e_external_port a), AStr (e_internal_ip a), AInt (e_internal_port a), AStr (e_protocol a), ABool (is_ipv6 (e_internal_ip a))]))
       \<lparr>ad_state := ''dnat'', ad_key := Some key_port_forward\<rparr>,
     (declare_action ''disable_dnat'' ''Remove port forward'' [P_Iface, P_ExternalPort, P_InternalIP, P_InternalPort, P_Protocol]
       (\<lambda>_ a.
          call ''DisableDNAT'' [AStr (e_iface a), AInt (e_external_port a), AStr (e_internal_ip a), AInt (e_internal_port a), AStr (e_protocol a), ABool (is_ipv6 (e_internal_ip a))]))
       \<lparr>ad_state := ''dnat'', ad_key := Some key_port_forward, ad_clears := True\<rparr>]"

definition stp_actions :: "action_decl list" where
  "stp_actions =
    [(declare_action ''stp_enable'' ''Enable spanning tree'' [P_Bridge, P_Mode]
       (\<lambda>v a. case rn_stp_modes v of [] \<Rightarrow> Inl ''modes'' | m # ms \<Rightarrow> (let mode =
          (if e_mode a = [] then m else e_mode a) in check_that (mode \<in> set (m # ms)) ''mode''
          (call ''STPEnable'' [AStr (e_bridge a), AStr mode]))))
       \<lparr>ad_state := ''stp'', ad_key := Some key_bridge\<rparr>,
     (declare_action ''stp_disable'' ''Disable spanning tree'' [P_Bridge]
       (\<lambda>_ a. call ''STPDisable'' [AStr (e_bridge a)]))
       \<lparr>ad_state := ''stp'', ad_key := Some key_bridge, ad_clears := True, ad_clears_also := [''stp_priority'']\<rparr>,
     (declare_action ''stp_set_bridge_priority'' ''Set bridge priority'' [P_Bridge, P_Priority]
       (\<lambda>_ a. check_that (the (e_priority a) \<le> 65535) ''priority''
          (call ''STPSetBridgePriority'' [AStr (e_bridge a), AInt (the (e_priority a))])))
       \<lparr>ad_state := ''stp_priority'', ad_key := Some key_bridge\<rparr>,
     (declare_action ''stp_set_port'' ''Set port cost and priority'' [P_Iface, optional P_Cost, optional P_Priority]
       (\<lambda>_ a. let priority = (case e_priority a of None \<Rightarrow> - 1 | Some p \<Rightarrow> p) in
          check_that (\<not> (e_cost a = 0 \<and> priority < 0)) ''cost''
          (check_that (priority \<le> 255) ''priority''
          (call ''STPSetPort'' [AStr (e_iface a), AInt (e_cost a), AInt priority]))))
       \<lparr>ad_state := ''stp_port'', ad_key := Some key_iface\<rparr>]"

definition ospf_actions :: "action_decl list" where
  "ospf_actions =
    [(declare_action ''ospf_add_network'' ''Advertise network'' [P_CIDR, P_OSPFArea]
       (\<lambda>_ a. call ''OSPFAddNetwork'' [AStr (e_cidr a), AStr (e_ospf_area a)]))
       \<lparr>ad_state := ''ospf_network'', ad_key := Some key_network_area\<rparr>,
     (declare_action ''ospf_remove_network'' ''Stop advertising network'' [P_CIDR, P_OSPFArea]
       (\<lambda>_ a. call ''OSPFRemoveNetwork'' [AStr (e_cidr a), AStr (e_ospf_area a)]))
       \<lparr>ad_state := ''ospf_network'', ad_key := Some key_network_area, ad_clears := True\<rparr>,
     (declare_action ''ospf_set_router_id'' ''Set router ID'' [P_RouterID]
       (\<lambda>_ a. call ''OSPFSetRouterID'' [AStr (e_router_id a)]))
       \<lparr>ad_state := ''ospf_router_id''\<rparr>,
     (declare_action ''ospf_remove_router_id'' ''Remove router ID'' []
       (\<lambda>_ _. call ''OSPFRemoveRouterID'' []))
       \<lparr>ad_state := ''ospf_router_id'', ad_clears := True\<rparr>,
     (declare_action ''ospf_passive_default'' ''Passive interfaces by default'' []
       (\<lambda>_ _. call ''OSPFPassiveDefault'' []))
       \<lparr>ad_state := ''ospf_passive_default''\<rparr>,
     (declare_action ''ospf_remove_passive_default'' ''Active interfaces by default'' []
       (\<lambda>_ _. call ''OSPFRemovePassiveDefault'' []))
       \<lparr>ad_state := ''ospf_passive_default'', ad_clears := True\<rparr>,
     (declare_action ''ospf_no_passive'' ''Make interface active'' [P_Iface]
       (\<lambda>_ a. call ''OSPFNoPassive'' [AStr (e_iface a)]))
       \<lparr>ad_state := ''ospf_no_passive'', ad_key := Some key_iface\<rparr>,
     (declare_action ''ospf_remove_no_passive'' ''Make interface passive'' [P_Iface]
       (\<lambda>_ a. call ''OSPFRemoveNoPassive'' [AStr (e_iface a)]))
       \<lparr>ad_state := ''ospf_no_passive'', ad_key := Some key_iface, ad_clears := True\<rparr>,
     (declare_action ''ospf_originate_default'' ''Originate default route'' []
       (\<lambda>_ _. call ''OSPFOriginateDefault'' []))
       \<lparr>ad_state := ''ospf_originate_default''\<rparr>,
     (declare_action ''ospf_remove_originate_default'' ''Stop originating default route'' []
       (\<lambda>_ _. call ''OSPFRemoveOriginateDefault'' []))
       \<lparr>ad_state := ''ospf_originate_default'', ad_clears := True\<rparr>,
     (declare_action ''ospf_mtu_ignore'' ''Ignore MTU mismatch'' [P_Iface]
       (\<lambda>_ a. call ''OSPFMTUIgnore'' [AStr (e_iface a)]))
       \<lparr>ad_state := ''ospf_mtu_ignore'', ad_key := Some key_iface\<rparr>,
     (declare_action ''ospf_remove_mtu_ignore'' ''Check MTU again'' [P_Iface]
       (\<lambda>_ a. call ''OSPFRemoveMTUIgnore'' [AStr (e_iface a)]))
       \<lparr>ad_state := ''ospf_mtu_ignore'', ad_key := Some key_iface, ad_clears := True\<rparr>,
     (declare_action ''ospf_redistribute'' ''Redistribute routes'' [P_Redistribute]
       (\<lambda>_ a. check_that (e_redistribute a \<in> set ospf_sources) ''redistribute''
          (call ''OSPFRedistribute'' [AStr (e_redistribute a)])))
       \<lparr>ad_state := ''ospf_redistribute'', ad_key := Some key_redistribute\<rparr>,
     (declare_action ''ospf_remove_redistribute'' ''Stop redistributing routes'' [P_Redistribute]
       (\<lambda>_ a. check_that (e_redistribute a \<in> set ospf_sources) ''redistribute''
          (call ''OSPFRemoveRedistribute'' [AStr (e_redistribute a)])))
       \<lparr>ad_state := ''ospf_redistribute'', ad_key := Some key_redistribute, ad_clears := True\<rparr>,
     (declare_action ''ospf_set_cost'' ''Set interface cost'' [P_Iface, P_Cost]
       (\<lambda>_ a. check_that (in_range (e_cost a) 1 65535) ''cost''
          (call ''OSPFSetCost'' [AStr (e_iface a), AInt (e_cost a)])))
       \<lparr>ad_state := ''ospf_cost'', ad_key := Some key_iface\<rparr>,
     (declare_action ''ospf_remove_cost'' ''Reset interface cost'' [P_Iface]
       (\<lambda>_ a. call ''OSPFRemoveCost'' [AStr (e_iface a)]))
       \<lparr>ad_state := ''ospf_cost'', ad_key := Some key_iface, ad_clears := True\<rparr>,
     (declare_action ''ospf_set_priority'' ''Set interface priority'' [P_Iface, P_Priority]
       (\<lambda>_ a. check_that (in_range (the (e_priority a)) 0 255) ''priority''
          (call ''OSPFSetPriority'' [AStr (e_iface a), AInt (the (e_priority a))])))
       \<lparr>ad_state := ''ospf_priority'', ad_key := Some key_iface\<rparr>,
     (declare_action ''ospf_remove_priority'' ''Reset interface priority'' [P_Iface]
       (\<lambda>_ a. call ''OSPFRemovePriority'' [AStr (e_iface a)]))
       \<lparr>ad_state := ''ospf_priority'', ad_key := Some key_iface, ad_clears := True\<rparr>,
     (declare_action ''ospf_set_timers'' ''Set hello and dead intervals'' [P_Iface, P_HelloInterval, P_DeadInterval]
       (\<lambda>_ a. check_that (in_range (e_hello_interval a) 1 65535) ''hello_interval''
          (check_that (in_range (e_dead_interval a) 1 65535) ''dead_interval''
          (check_that (e_hello_interval a < e_dead_interval a) ''dead_interval''
          (call ''OSPFSetTimers'' [AStr (e_iface a), AInt (e_hello_interval a), AInt (e_dead_interval a)])))))
       \<lparr>ad_state := ''ospf_timers'', ad_key := Some key_iface\<rparr>,
     (declare_action ''ospf_remove_timers'' ''Reset hello and dead intervals'' [P_Iface]
       (\<lambda>_ a. call ''OSPFRemoveTimers'' [AStr (e_iface a)]))
       \<lparr>ad_state := ''ospf_timers'', ad_key := Some key_iface, ad_clears := True\<rparr>,
     (declare_action ''ospf_set_network_type'' ''Set interface network type'' [P_Iface, P_NetworkType]
       (\<lambda>_ a. check_that (e_network_type a \<in> set ospf_network_types) ''network_type''
          (call ''OSPFSetNetworkType'' [AStr (e_iface a), AStr (e_network_type a)])))
       \<lparr>ad_state := ''ospf_network_type'', ad_key := Some key_iface\<rparr>,
     (declare_action ''ospf_remove_network_type'' ''Reset interface network type'' [P_Iface]
       (\<lambda>_ a. call ''OSPFRemoveNetworkType'' [AStr (e_iface a)]))
       \<lparr>ad_state := ''ospf_network_type'', ad_key := Some key_iface, ad_clears := True\<rparr>,
     (declare_action ''ospf_set_area_type'' ''Set area type'' [P_OSPFArea, P_AreaType]
       (\<lambda>_ a. check_that (e_area_type a \<in> set ospf_area_types) ''area_type''
          (call ''OSPFSetAreaType'' [AStr (e_ospf_area a), AStr (e_area_type a)])))
       \<lparr>ad_state := ''ospf_area_type'', ad_key := Some key_area\<rparr>,
     (declare_action ''ospf_remove_area_type'' ''Make area normal again'' [P_OSPFArea, P_AreaType]
       (\<lambda>_ a. check_that (e_area_type a \<in> set ospf_area_types) ''area_type''
          (call ''OSPFRemoveAreaType'' [AStr (e_ospf_area a), AStr (e_area_type a)])))
       \<lparr>ad_state := ''ospf_area_type'', ad_key := Some key_area, ad_clears := True\<rparr>,
     (declare_action ''ospf_add_area_range'' ''Summarize area'' [P_OSPFArea, P_CIDR]
       (\<lambda>_ a. call ''OSPFAddAreaRange'' [AStr (e_ospf_area a), AStr (e_cidr a)]))
       \<lparr>ad_state := ''ospf_area_range'', ad_key := Some key_network_area\<rparr>,
     (declare_action ''ospf_remove_area_range'' ''Stop summarizing area'' [P_OSPFArea, P_CIDR]
       (\<lambda>_ a. call ''OSPFRemoveAreaRange'' [AStr (e_ospf_area a), AStr (e_cidr a)]))
       \<lparr>ad_state := ''ospf_area_range'', ad_key := Some key_network_area, ad_clears := True\<rparr>,
     (declare_action ''ospf_set_authentication'' ''Authenticate interface'' [P_Iface, P_AuthType, P_AuthKey, P_AuthKeyID]
       (\<lambda>_ a. check_that (ospf_auth_ok True a) ''auth''
          (call ''OSPFSetAuthentication'' [AStr (e_iface a), AStr (e_auth_type a), AStr (e_auth_key a), AInt (auth_key_id a)])))
       \<lparr>ad_state := ''ospf_auth'', ad_key := Some key_iface\<rparr>,
     (declare_action ''ospf_remove_authentication'' ''Stop authenticating interface'' [P_Iface, P_AuthType, P_AuthKeyID]
       (\<lambda>_ a. check_that (ospf_auth_ok False a) ''auth''
          (call ''OSPFRemoveAuthentication'' [AStr (e_iface a), AStr (e_auth_type a), AInt (auth_key_id a)])))
       \<lparr>ad_state := ''ospf_auth'', ad_key := Some key_iface, ad_clears := True\<rparr>]"

definition ospf6_actions :: "action_decl list" where
  "ospf6_actions =
    [(declare_action ''ospf6_set_router_id'' ''Set router ID'' [P_RouterID]
       (\<lambda>_ a. call ''OSPF6SetRouterID'' [AStr (e_router_id a)]))
       \<lparr>ad_state := ''ospf6_router_id''\<rparr>,
     (declare_action ''ospf6_remove_router_id'' ''Remove router ID'' []
       (\<lambda>_ _. call ''OSPF6RemoveRouterID'' []))
       \<lparr>ad_state := ''ospf6_router_id'', ad_clears := True\<rparr>,
     (declare_action ''ospf6_add_interface'' ''Run OSPFv3 on interface'' [P_Iface, P_OSPFArea]
       (\<lambda>_ a. call ''OSPF6AddInterface'' [AStr (e_iface a), AStr (e_ospf_area a)]))
       \<lparr>ad_state := ''ospf6_interface'', ad_key := Some key_iface\<rparr>,
     (declare_action ''ospf6_remove_interface'' ''Stop OSPFv3 on interface'' [P_Iface, P_OSPFArea]
       (\<lambda>_ a. call ''OSPF6RemoveInterface'' [AStr (e_iface a), AStr (e_ospf_area a)]))
       \<lparr>ad_state := ''ospf6_interface'', ad_key := Some key_iface, ad_clears := True\<rparr>,
     (declare_action ''ospf6_passive_interface'' ''Make interface passive'' [P_Iface]
       (\<lambda>_ a. call ''OSPF6PassiveInterface'' [AStr (e_iface a)]))
       \<lparr>ad_state := ''ospf6_passive'', ad_key := Some key_iface\<rparr>,
     (declare_action ''ospf6_remove_passive_interface'' ''Make interface active'' [P_Iface]
       (\<lambda>_ a. call ''OSPF6RemovePassiveInterface'' [AStr (e_iface a)]))
       \<lparr>ad_state := ''ospf6_passive'', ad_key := Some key_iface, ad_clears := True\<rparr>,
     (declare_action ''ospf6_redistribute'' ''Redistribute routes'' [P_Redistribute]
       (\<lambda>_ a. check_that (e_redistribute a \<in> set ospf6_sources) ''redistribute''
          (call ''OSPF6Redistribute'' [AStr (e_redistribute a)])))
       \<lparr>ad_state := ''ospf6_redistribute'', ad_key := Some key_redistribute\<rparr>,
     (declare_action ''ospf6_remove_redistribute'' ''Stop redistributing routes'' [P_Redistribute]
       (\<lambda>_ a. check_that (e_redistribute a \<in> set ospf6_sources) ''redistribute''
          (call ''OSPF6RemoveRedistribute'' [AStr (e_redistribute a)])))
       \<lparr>ad_state := ''ospf6_redistribute'', ad_key := Some key_redistribute, ad_clears := True\<rparr>,
     (declare_action ''ospf6_originate_default'' ''Originate default route'' []
       (\<lambda>_ _. call ''OSPF6OriginateDefault'' []))
       \<lparr>ad_state := ''ospf6_originate_default''\<rparr>,
     (declare_action ''ospf6_remove_originate_default'' ''Stop originating default route'' []
       (\<lambda>_ _. call ''OSPF6RemoveOriginateDefault'' []))
       \<lparr>ad_state := ''ospf6_originate_default'', ad_clears := True\<rparr>]"

definition rip_actions :: "action_decl list" where
  "rip_actions =
    [(declare_action ''rip_add_network'' ''Advertise network'' [P_CIDR]
       (\<lambda>_ a. call ''RIPAddNetwork'' [AStr (e_cidr a), ABool (is_ipv6 (e_cidr a))]))
       \<lparr>ad_state := ''rip_network'', ad_key := Some key_cidr\<rparr>,
     (declare_action ''rip_remove_network'' ''Stop advertising network'' [P_CIDR]
       (\<lambda>_ a. call ''RIPRemoveNetwork'' [AStr (e_cidr a), ABool (is_ipv6 (e_cidr a))]))
       \<lparr>ad_state := ''rip_network'', ad_key := Some key_cidr, ad_clears := True\<rparr>,
     (declare_action ''rip_passive_interface'' ''Make interface passive'' [P_Iface, P_Family]
       (\<lambda>_ a. call ''RIPPassiveInterface'' [AStr (e_iface a), ABool (e_family a = ''6'')]))
       \<lparr>ad_state := ''rip_passive'', ad_key := Some key_iface_family\<rparr>,
     (declare_action ''rip_remove_passive_interface'' ''Make interface active'' [P_Iface, P_Family]
       (\<lambda>_ a. call ''RIPRemovePassiveInterface'' [AStr (e_iface a), ABool (e_family a = ''6'')]))
       \<lparr>ad_state := ''rip_passive'', ad_key := Some key_iface_family, ad_clears := True\<rparr>,
     (declare_action ''rip_redistribute'' ''Redistribute routes'' [P_Redistribute, P_Family]
       (\<lambda>_ a. check_that (e_redistribute a \<in> set rip_sources) ''redistribute''
          (call ''RIPRedistribute'' [AStr (e_redistribute a), ABool (e_family a = ''6'')])))
       \<lparr>ad_state := ''rip_redistribute'', ad_key := Some key_redistribute_family\<rparr>,
     (declare_action ''rip_remove_redistribute'' ''Stop redistributing routes'' [P_Redistribute, P_Family]
       (\<lambda>_ a. check_that (e_redistribute a \<in> set rip_sources) ''redistribute''
          (call ''RIPRemoveRedistribute'' [AStr (e_redistribute a), ABool (e_family a = ''6'')])))
       \<lparr>ad_state := ''rip_redistribute'', ad_key := Some key_redistribute_family, ad_clears := True\<rparr>,
     (declare_action ''rip_set_timers'' ''Set timers'' [P_Timers, P_Family]
       (\<lambda>_ a. case e_timers a of None \<Rightarrow> Inl ''timers'' | Some t \<Rightarrow>
          check_that (\<forall>n \<in> {rt_update t, rt_timeout t, rt_garbage t}. 5 \<le> n \<and> n \<le> 65535) ''timers'' (call ''RIPSetTimers'' [AInt (rt_update t), AInt (rt_timeout t), AInt (rt_garbage t), ABool (e_family a = ''6'')])))
       \<lparr>ad_state := ''rip_timers'', ad_key := Some key_family\<rparr>,
     (declare_action ''rip_remove_timers'' ''Default timers'' [P_Family]
       (\<lambda>_ a. call ''RIPRemoveTimers'' [ABool (e_family a = ''6'')]))
       \<lparr>ad_state := ''rip_timers'', ad_key := Some key_family, ad_clears := True\<rparr>]"

definition bgp_actions :: "action_decl list" where
  "bgp_actions =
    [(declare_action ''bgp_set_router'' ''Run BGP in an AS'' [P_AS, optional P_RouterID]
       (\<lambda>_ a. check_that (in_range (e_as a) 1 max_as) ''as''
          (call ''BGPSetRouter'' [AInt (e_as a), AStr (e_router_id a)])))
       \<lparr>ad_state := ''bgp_router''\<rparr>,
     (declare_action ''bgp_remove_router'' ''Stop BGP'' []
       (\<lambda>_ _. call ''BGPRemoveRouter'' []))
       \<lparr>ad_state := ''bgp_router'', ad_clears := True, ad_clears_also := [''bgp_neighbor'', ''bgp_network'', ''bgp_redistribute'']\<rparr>,
     (declare_action ''bgp_add_neighbor'' ''Add neighbor'' [P_Neighbor, P_RemoteAS, P_UpdateSource, P_Multihop]
       (\<lambda>_ a. check_that (in_range (e_remote_as a) 1 max_as) ''remote_as''
          (check_that (in_range (e_multihop a) 0 255) ''multihop''
          (call ''BGPAddNeighbor'' [AStr (e_neighbor a), AInt (e_remote_as a), AStr (e_update_source a), AInt (e_multihop a), ABool (is_ipv6 (e_neighbor a))]))))
       \<lparr>ad_state := ''bgp_neighbor'', ad_key := Some key_neighbor\<rparr>,
     (declare_action ''bgp_remove_neighbor'' ''Remove neighbor'' [P_Neighbor]
       (\<lambda>_ a. call ''BGPRemoveNeighbor'' [AStr (e_neighbor a)]))
       \<lparr>ad_state := ''bgp_neighbor'', ad_key := Some key_neighbor, ad_clears := True\<rparr>,
     (declare_action ''bgp_add_network'' ''Announce network'' [P_CIDR]
       (\<lambda>_ a. call ''BGPAddNetwork'' [AStr (e_cidr a), ABool (is_ipv6 (e_cidr a))]))
       \<lparr>ad_state := ''bgp_network'', ad_key := Some key_cidr\<rparr>,
     (declare_action ''bgp_remove_network'' ''Stop announcing network'' [P_CIDR]
       (\<lambda>_ a. call ''BGPRemoveNetwork'' [AStr (e_cidr a), ABool (is_ipv6 (e_cidr a))]))
       \<lparr>ad_state := ''bgp_network'', ad_key := Some key_cidr, ad_clears := True\<rparr>,
     (declare_action ''bgp_redistribute'' ''Redistribute routes'' [P_Redistribute, P_Family]
       (\<lambda>_ a. check_that (e_redistribute a \<in> set bgp_sources) ''redistribute''
          (call ''BGPRedistribute'' [AStr (e_redistribute a), ABool (e_family a = ''6'')])))
       \<lparr>ad_state := ''bgp_redistribute'', ad_key := Some key_redistribute_family\<rparr>,
     (declare_action ''bgp_remove_redistribute'' ''Stop redistributing routes'' [P_Redistribute, P_Family]
       (\<lambda>_ a. check_that (e_redistribute a \<in> set bgp_sources) ''redistribute''
          (call ''BGPRemoveRedistribute'' [AStr (e_redistribute a), ABool (e_family a = ''6'')])))
       \<lparr>ad_state := ''bgp_redistribute'', ad_key := Some key_redistribute_family, ad_clears := True\<rparr>]"

definition isis_actions :: "action_decl list" where
  "isis_actions =
    [(declare_action ''isis_set_router'' ''Run IS-IS'' [P_NET, P_Level]
       (\<lambda>_ a. check_that (isis_net_ok (e_net a)) ''net''
          (check_that (isis_level_ok isis_levels a) ''level''
          (call ''ISISSetRouter'' [AStr (e_net a), AStr (e_level a)]))))
       \<lparr>ad_state := ''isis_router''\<rparr>,
     (declare_action ''isis_remove_router'' ''Stop IS-IS'' []
       (\<lambda>_ _. call ''ISISRemoveRouter'' []))
       \<lparr>ad_state := ''isis_router'', ad_clears := True, ad_clears_also := [''isis_interface'', ''isis_passive'', ''isis_metric'', ''isis_network_type'', ''isis_redistribute'']\<rparr>,
     (declare_action ''isis_add_interface'' ''Add interface'' [P_Iface, P_Level, P_Family]
       (\<lambda>_ a. check_that (isis_level_ok isis_levels a) ''level''
          (call ''ISISAddInterface'' [AStr (e_iface a), AStr (e_level a), ABool (e_family a \<noteq> ''6''), ABool (e_family a \<noteq> ''4'')])))
       \<lparr>ad_state := ''isis_interface'', ad_key := Some key_iface\<rparr>,
     (declare_action ''isis_remove_interface'' ''Remove interface'' [P_Iface]
       (\<lambda>_ a. call ''ISISRemoveInterface'' [AStr (e_iface a)]))
       \<lparr>ad_state := ''isis_interface'', ad_key := Some key_iface, ad_clears := True, ad_clears_also := [''isis_passive'', ''isis_metric'', ''isis_network_type'']\<rparr>,
     (declare_action ''isis_passive_interface'' ''Make interface passive'' [P_Iface]
       (\<lambda>_ a. call ''ISISPassiveInterface'' [AStr (e_iface a)]))
       \<lparr>ad_state := ''isis_passive'', ad_key := Some key_iface\<rparr>,
     (declare_action ''isis_remove_passive_interface'' ''Make interface active'' [P_Iface]
       (\<lambda>_ a. call ''ISISRemovePassiveInterface'' [AStr (e_iface a)]))
       \<lparr>ad_state := ''isis_passive'', ad_key := Some key_iface, ad_clears := True\<rparr>,
     (declare_action ''isis_set_metric'' ''Set interface metric'' [P_Iface, P_Cost]
       (\<lambda>_ a. check_that (in_range (e_cost a) 1 16777215) ''cost''
          (call ''ISISSetMetric'' [AStr (e_iface a), AInt (e_cost a)])))
       \<lparr>ad_state := ''isis_metric'', ad_key := Some key_iface\<rparr>,
     (declare_action ''isis_remove_metric'' ''Default interface metric'' [P_Iface]
       (\<lambda>_ a. call ''ISISRemoveMetric'' [AStr (e_iface a)]))
       \<lparr>ad_state := ''isis_metric'', ad_key := Some key_iface, ad_clears := True\<rparr>,
     (declare_action ''isis_set_network_type'' ''Set interface network type'' [P_Iface, P_NetworkType]
       (\<lambda>_ a. check_that (e_network_type a \<in> set isis_network_types) ''network_type''
          (call ''ISISSetNetworkType'' [AStr (e_iface a), AStr (e_network_type a)])))
       \<lparr>ad_state := ''isis_network_type'', ad_key := Some key_iface\<rparr>,
     (declare_action ''isis_remove_network_type'' ''Default interface network type'' [P_Iface]
       (\<lambda>_ a. call ''ISISRemoveNetworkType'' [AStr (e_iface a)]))
       \<lparr>ad_state := ''isis_network_type'', ad_key := Some key_iface, ad_clears := True\<rparr>,
     (declare_action ''isis_redistribute'' ''Redistribute routes'' [P_Redistribute, P_Family, P_Level]
       (\<lambda>_ a. check_that (e_redistribute a \<in> set isis_sources) ''redistribute''
          (check_that (isis_level_ok [''level-1'', ''level-2''] a) ''level''
          (call ''ISISRedistribute'' [AStr (e_redistribute a), AStr (isis_redistribute_level a), ABool (e_family a = ''6'')]))))
       \<lparr>ad_state := ''isis_redistribute'', ad_key := Some key_redistribute_family_level\<rparr>,
     (declare_action ''isis_remove_redistribute'' ''Stop redistributing routes'' [P_Redistribute, P_Family, P_Level]
       (\<lambda>_ a. check_that (e_redistribute a \<in> set isis_sources) ''redistribute''
          (check_that (isis_level_ok [''level-1'', ''level-2''] a) ''level''
          (call ''ISISRemoveRedistribute'' [AStr (e_redistribute a), AStr (isis_redistribute_level a), ABool (e_family a = ''6'')]))))
       \<lparr>ad_state := ''isis_redistribute'', ad_key := Some key_redistribute_family_level, ad_clears := True\<rparr>]"

definition nat64_actions :: "action_decl list" where
  "nat64_actions =
    [(declare_action ''nat64_enable'' ''Enable NAT64'' [P_Pool, P_Prefix]
       (\<lambda>_ a. bindR (nat64_prefix a) (\<lambda>prefix. bindR (nat64_pool a) (\<lambda>pool.
          call ''NAT64Enable'' [AStr prefix, AStr pool]))))
       \<lparr>ad_state := ''nat64''\<rparr>,
     (declare_action ''nat64_disable'' ''Disable NAT64'' []
       (\<lambda>_ _. call ''NAT64Disable'' []))
       \<lparr>ad_state := ''nat64'', ad_clears := True\<rparr>]"

definition openflow_actions :: "action_decl list" where
  "openflow_actions =
    [(declare_action ''set_controller'' ''Set controller'' [P_Bridge, P_Controller, P_Protocols]
       (\<lambda>_ a. check_that (controller_target_ok (e_controller a)) ''controller''
          (check_that (e_protocols a = [] \<or> protocols_ok (e_protocols a)) ''protocols''
          (call ''SetController'' [AStr (e_bridge a), AStr (e_controller a), AStr (e_protocols a)]))))
       \<lparr>ad_state := ''openflow_controller'', ad_key := Some key_bridge\<rparr>,
     (declare_action ''remove_controller'' ''Remove controller'' [P_Bridge]
       (\<lambda>_ a. call ''RemoveController'' [AStr (e_bridge a)]))
       \<lparr>ad_state := ''openflow_controller'', ad_key := Some key_bridge, ad_clears := True\<rparr>,
     (declare_action ''set_fail_mode'' ''Set fail mode'' [P_Bridge, P_FailMode]
       (\<lambda>_ a. check_that (e_mode a = ''secure'' \<or> e_mode a = ''standalone'') ''mode''
          (call ''SetFailMode'' [AStr (e_bridge a), AStr (e_mode a)])))
       \<lparr>ad_state := ''openflow_fail_mode'', ad_key := Some key_bridge\<rparr>,
     (declare_action ''set_datapath_id'' ''Set datapath id'' [P_Bridge, P_DatapathID]
       (\<lambda>_ a. check_that (datapath_id_ok (e_datapath_id a)) ''datapath_id''
          (call ''SetDatapathID'' [AStr (e_bridge a), AStr (datapath_id (e_datapath_id a))])))
       \<lparr>ad_state := ''openflow_datapath_id'', ad_key := Some key_bridge\<rparr>,
     (declare_action ''add_flow'' ''Add flow'' [P_Bridge, P_Flow]
       (\<lambda>_ a. check_that (flow_text_ok (e_flow a)) ''flow''
          (check_that (contains_str (e_flow a) ''actions='') ''flow''
          (call ''AddFlow'' [AStr (e_bridge a), AStr (e_flow a)]))))
       \<lparr>ad_state := ''openflow_flow'', ad_key := Some key_flow\<rparr>,
     (declare_action ''delete_flow'' ''Delete flow'' [P_Bridge, P_Flow]
       (\<lambda>_ a. check_that (flow_text_ok (e_flow a)) ''flow''
          (call ''DeleteFlow'' [AStr (e_bridge a), AStr (flow_match (e_flow a))])))
       \<lparr>ad_state := ''openflow_flow'', ad_key := Some key_flow, ad_clears := True\<rparr>]"

definition sdn_actions :: "action_decl list" where
  "sdn_actions =
    [(declare_action ''controller_apply_config'' ''Apply controller configuration'' [P_ConfigFile]
       (\<lambda>v a. check_that (controller_config_ok (rn_yaml v) (e_file_content a)) ''file''
          (call ''ApplyConfig'' [AStr (e_file_content a)])))
       \<lparr>ad_state := ''controller_config''\<rparr>]"

definition subinterface_actions :: "action_decl list" where
  "subinterface_actions =
    [(declare_action ''add_vlan_subinterface'' ''Add VLAN subinterface'' [P_Iface, P_VLAN, optional P_CIDR]
       (\<lambda>_ a. check_that (vlan_id_ok (e_vlan a)) ''vlan''
          (call ''AddVLANSubinterface'' [AStr (e_iface a), AInt (e_vlan a), AStr (e_cidr a)])))
       \<lparr>ad_state := ''subinterface'', ad_key := Some key_subinterface\<rparr>,
     (declare_action ''remove_vlan_subinterface'' ''Remove VLAN subinterface'' [P_Iface, P_VLAN]
       (\<lambda>_ a. check_that (vlan_id_ok (e_vlan a)) ''vlan''
          (call ''RemoveVLANSubinterface'' [AStr (e_iface a), AInt (e_vlan a)])))
       \<lparr>ad_state := ''subinterface'', ad_key := Some key_subinterface, ad_clears := True\<rparr>]"

text \<open>The universal capabilities, which any pod offers whatever its driver.\<close>

definition tc_reset_command :: "string \<Rightarrow> string list" where
  "tc_reset_command iface = [''tc'', ''qdisc'', ''replace'', ''dev'', iface, ''root'', ''noqueue'']"

definition build_del_qdisc_command :: "string \<Rightarrow> string list list" where
  "build_del_qdisc_command iface =
     [tc_reset_command iface, [''tc'', ''qdisc'', ''del'', ''dev'', iface, ''root'']]"

definition tc_actions :: "action_decl list" where
  "tc_actions =
    [(declare_action ''add_qdisc'' ''Shape interface'' [P_Iface, P_TCParams]
       (\<lambda>v a. bindR (rn_shaping v (e_iface a) (e_tcparams a)) (\<lambda>cs. Inr (Commands cs))))
       \<lparr>ad_executor := ''tc_universal'', ad_state := ''qdisc'', ad_key := Some key_iface\<rparr>,
     (declare_action ''del_qdisc'' ''Clear shaping'' [P_Iface]
       (\<lambda>_ a. Inr (Commands (build_del_qdisc_command (e_iface a)))))
       \<lparr>ad_executor := ''tc_universal'', ad_state := ''qdisc'', ad_key := Some key_iface, ad_clears := True\<rparr>]"

definition custom_actions :: "action_decl list" where
  "custom_actions =
    [(declare_action ''custom'' ''Run a command'' [P_Command, P_Executor]
       (\<lambda>v a. bindR (rn_command v (e_command a)) (\<lambda>c. Inr (Commands [c]))))
       \<lparr>ad_executor := ''kubectl'', ad_from_request := True, ad_repeatable := True\<rparr>]"

text \<open>The registrations in the order Go runs them: packages by dependency, files by name.\<close>

definition registrations :: "(capability \<times> bool \<times> action_decl list) list" where
  "registrations =
    [(\<lparr>cp_id = ''BGPCapable'', cp_label = ''BGP Routing''\<rparr>, False, bgp_actions),
     (\<lparr>cp_id = ''ISISCapable'', cp_label = ''IS-IS Routing''\<rparr>, False, isis_actions),
     (\<lparr>cp_id = ''L2Capable'', cp_label = ''Level 2: links''\<rparr>, False, l2_actions),
     (\<lparr>cp_id = ''L3Capable'', cp_label = ''Level 3: IP addressing''\<rparr>, False, l3_actions),
     (\<lparr>cp_id = ''NATCapable'', cp_label = ''Network Address Translation (NAT)''\<rparr>, False, nat_actions),
     (\<lparr>cp_id = ''NAT64Capable'', cp_label = ''NAT64''\<rparr>, False, nat64_actions),
     (\<lparr>cp_id = ''OpenFlowCapable'', cp_label = ''OpenFlow''\<rparr>, False, openflow_actions),
     (\<lparr>cp_id = ''OSPFCapable'', cp_label = ''OSPF Routing''\<rparr>, False, ospf_actions),
     (\<lparr>cp_id = ''OSPF6Capable'', cp_label = ''OSPFv3 Routing''\<rparr>, False, ospf6_actions),
     (\<lparr>cp_id = ''RIPCapable'', cp_label = ''RIP Routing''\<rparr>, False, rip_actions),
     (\<lparr>cp_id = ''SDNControllerCapable'', cp_label = ''SDN controller''\<rparr>, False, sdn_actions),
     (\<lparr>cp_id = ''STPCapable'', cp_label = ''Spanning tree''\<rparr>, False, stp_actions),
     (\<lparr>cp_id = ''SubinterfaceCapable'', cp_label = ''VLAN subinterfaces''\<rparr>, False, subinterface_actions),
     (\<lparr>cp_id = ''SwitchCapable'', cp_label = ''Switching''\<rparr>, False, switch_actions),
     (\<lparr>cp_id = ''VLANCapable'', cp_label = ''VLANs''\<rparr>, False, vlan_actions),
     (\<lparr>cp_id = ''custom'', cp_label = ''Custom command''\<rparr>, True, custom_actions),
     (\<lparr>cp_id = ''tc'', cp_label = ''Traffic control''\<rparr>, True, tc_actions)]"

lemmas catalog_defs =
  bgp_actions_def isis_actions_def l2_actions_def l3_actions_def nat_actions_def
  nat64_actions_def openflow_actions_def ospf_actions_def ospf6_actions_def rip_actions_def
  sdn_actions_def stp_actions_def subinterface_actions_def switch_actions_def vlan_actions_def
  custom_actions_def tc_actions_def

section \<open>What the start-up registers\<close>

definition startup_actions :: action_registry where
  "startup_actions = registry_of registrations"

end
