(* ===== verification/Action_Registry.thy ===== *)
theory Action_Registry
  imports Action_Catalog
begin

text \<open>
  What holds of the actions registered at start: the registration succeeds, a validated
  request is sound, an undo meets in the history what it undoes. The long lists are the
  projections of the catalog on types, states and keys, computed once so that the facts
  about all 110 actions are facts about short literals.
\<close>

section \<open>Registration and validation\<close>

lemma optional_simps [simp]: "pm_name (optional p) = pm_name p" "pm_kind (optional p) = pm_kind p"
  by (simp_all add: optional_def)

lemma param_fits_optional [simp]: "param_fits (optional p) = param_fits p"
  by (simp add: param_fits_def split: option.splits)

lemma params_fit:
  "list_all param_fits
    [P_Iface, P_Ifaces, P_CIDR, P_Gateway, P_DstCIDR, P_Device, P_Bridge, P_ExternalPort, P_InternalIP,
     P_InternalPort, P_Protocol, P_DNSServer, P_DNSDomain, P_DNSServers, P_DNSSearch, P_TCParams, P_OSPFArea,
     P_RouterID, P_Command, P_Executor, P_Family, P_Redistribute, P_Timers, P_Cost, P_Priority,
     P_HelloInterval, P_DeadInterval, P_NetworkType, P_AreaType, P_AuthType, P_AuthKey, P_AuthKeyID, P_AS,
     P_RemoteAS, P_Neighbor, P_UpdateSource, P_Multihop, P_NET, P_Level, P_Prefix, P_Pool, P_VLAN, P_VLANs,
     P_NativeVLAN, P_Mode, P_FailMode, P_Controller, P_Protocols, P_Flow, P_ConfigFile, P_DatapathID]"
  by code_simp

lemmas param_fits_simps [simp] = params_fit [simplified]

lemma decls_registrations:
  "decls registrations = bgp_actions @ isis_actions @ l2_actions @ l3_actions @ nat_actions @ nat64_actions @
     openflow_actions @ ospf_actions @ ospf6_actions @ rip_actions @ sdn_actions @ stp_actions @
     subinterface_actions @ switch_actions @ vlan_actions @ custom_actions @ tc_actions"
  by (simp add: decls_def registrations_def)

lemma decls_ok: "list_all decl_ok (decls registrations)"
  by (simp add: decls_registrations catalog_defs declare_action_def decl_ok_def)

lemma decl_types:
  "map ad_type (decls registrations) =
    [''bgp_set_router'', ''bgp_remove_router'', ''bgp_add_neighbor'', ''bgp_remove_neighbor'',
     ''bgp_add_network'', ''bgp_remove_network'', ''bgp_redistribute'', ''bgp_remove_redistribute'',
     ''isis_set_router'', ''isis_remove_router'', ''isis_add_interface'', ''isis_remove_interface'',
     ''isis_passive_interface'', ''isis_remove_passive_interface'', ''isis_set_metric'',
     ''isis_remove_metric'', ''isis_set_network_type'', ''isis_remove_network_type'', ''isis_redistribute'',
     ''isis_remove_redistribute'', ''link_up'', ''link_down'', ''set_ip'', ''replace_ip'', ''remove_ip'',
     ''set_default_route'', ''remove_default_route'', ''add_static_route'', ''remove_static_route'',
     ''add_dns_nameserver'', ''remove_dns_nameserver'', ''add_dns_search'', ''remove_dns_search'',
     ''set_dns'', ''clear_dns'', ''enable_snat'', ''disable_snat'', ''enable_dnat'', ''disable_dnat'',
     ''nat64_enable'', ''nat64_disable'', ''set_controller'', ''remove_controller'', ''set_fail_mode'',
     ''set_datapath_id'', ''add_flow'', ''delete_flow'', ''ospf_add_network'', ''ospf_remove_network'',
     ''ospf_set_router_id'', ''ospf_remove_router_id'', ''ospf_passive_default'',
     ''ospf_remove_passive_default'', ''ospf_no_passive'', ''ospf_remove_no_passive'',
     ''ospf_originate_default'', ''ospf_remove_originate_default'', ''ospf_mtu_ignore'',
     ''ospf_remove_mtu_ignore'', ''ospf_redistribute'', ''ospf_remove_redistribute'', ''ospf_set_cost'',
     ''ospf_remove_cost'', ''ospf_set_priority'', ''ospf_remove_priority'', ''ospf_set_timers'',
     ''ospf_remove_timers'', ''ospf_set_network_type'', ''ospf_remove_network_type'', ''ospf_set_area_type'',
     ''ospf_remove_area_type'', ''ospf_add_area_range'', ''ospf_remove_area_range'',
     ''ospf_set_authentication'', ''ospf_remove_authentication'', ''ospf6_set_router_id'',
     ''ospf6_remove_router_id'', ''ospf6_add_interface'', ''ospf6_remove_interface'',
     ''ospf6_passive_interface'', ''ospf6_remove_passive_interface'', ''ospf6_redistribute'',
     ''ospf6_remove_redistribute'', ''ospf6_originate_default'', ''ospf6_remove_originate_default'',
     ''rip_add_network'', ''rip_remove_network'', ''rip_passive_interface'',
     ''rip_remove_passive_interface'', ''rip_redistribute'', ''rip_remove_redistribute'', ''rip_set_timers'',
     ''rip_remove_timers'', ''controller_apply_config'', ''stp_enable'', ''stp_disable'',
     ''stp_set_bridge_priority'', ''stp_set_port'', ''add_vlan_subinterface'', ''remove_vlan_subinterface'',
     ''setup_bridge'', ''teardown_bridge'', ''add_interface_to_bridge'', ''remove_interface_from_bridge'',
     ''vlan_set_access'', ''vlan_set_trunk'', ''vlan_clear_port'', ''custom'', ''add_qdisc'', ''del_qdisc'']"
  by (simp add: decls_registrations catalog_defs declare_action_def)

lemma distinct_types: "distinct (map ad_type (decls registrations))"
  unfolding decl_types by (rule distinct_by_sort [of 7]) code_simp

lemma startup_types: "rg_types startup_actions = concat (map described registrations)"
  by (simp add: startup_actions_def registry_of_def)

lemma startup_decl:
  assumes "lookup_action startup_actions ty = Some d"
  shows "\<exists>e \<in> set (decls registrations). ad_type e = ty \<and> ad_params d = ad_params e \<and> ad_state d = ad_state e \<and>
     ad_key d = ad_key e \<and> ad_clears d = ad_clears e \<and> ad_undo_persists d = ad_undo_persists e \<and>
     ad_clears_also d = ad_clears_also e \<and> ad_allow_protected d = ad_allow_protected e \<and> ad_run d = ad_run e"
proof -
  from assms have "(ty, d) \<in> set (concat (map described registrations))"
    unfolding lookup_action_def startup_types by (rule map_of_SomeD)
  then obtain c u e where "e \<in> set (decls registrations)" "ty = ad_type e" "d = describe c u e"
    by (blast dest: described_SomeD)
  then show ?thesis by (intro bexI [of _ e]) simp_all
qed

lemma startup_param_fits: "lookup_action startup_actions ty = Some d \<Longrightarrow> p \<in> set (ad_params d) \<Longrightarrow> param_fits p"
  using startup_decl [of ty d] decls_ok by (auto simp: list_all_iff decl_ok_def)

text \<open>
  Registering the actions of every capability at start does not panic: no type is declared
  twice, every parameter is a field of the request whose Go type its kind can read, every undo
  names its state, and the lookup finds each of the 110 actions under its type.
\<close>

theorem action_registration_total:
  "fold_err register_capability registrations \<lparr>rg_types = [], rg_caps = []\<rparr> = Inr startup_actions \<and>
   length (rg_types startup_actions) = 110 \<and> distinct (map fst (rg_types startup_actions)) \<and>
   (\<forall>(t, d) \<in> set (rg_types startup_actions). lookup_action startup_actions t = Some d \<and> ad_type d = t)"
proof -
  have f: "map fst (rg_types startup_actions) = map ad_type (decls registrations)"
    unfolding startup_types by (rule described_types)
  have "length (map ad_type (decls registrations)) = 110" unfolding decl_types by simp
  with f have "length (rg_types startup_actions) = 110" by (metis length_map)
  moreover have d: "distinct (map fst (rg_types startup_actions))" unfolding f by (rule distinct_types)
  moreover have "ad_type d = t" if "(t, d) \<in> set (rg_types startup_actions)" for t d
    using described_SomeD [OF that [unfolded startup_types]] by auto
  moreover have "lookup_action startup_actions t = Some d" if "(t, d) \<in> set (rg_types startup_actions)" for t d
    using that d by (simp add: lookup_action_def)
  moreover have "fold_err register_capability registrations \<lparr>rg_types = [], rg_caps = []\<rparr> = Inr startup_actions"
    unfolding startup_actions_def by (rule register_catalog_ok [OF decls_ok distinct_types])
  ultimately show ?thesis by blast
qed

text \<open>
  What a value of each kind is, apart from the validator: an interface name has 1 to 15 bytes, none
  of them a blank, a slash or a colon; a domain name is labels of letters, digits and inner
  hyphens between dots; a file stays under the folder of the namespace. \<open>unset\<close> is a field the
  request leaves out.
\<close>

definition is_iface :: "string \<Rightarrow> bool" where
  "is_iface s \<longleftrightarrow> length s \<in> {1 .. 15} \<and> (\<forall>c \<in> set s. of_char c \<notin> {9, 10, 12, 13, 32, 47, 58 :: nat})"

definition is_domain :: "string \<Rightarrow> bool" where
  "is_domain s \<longleftrightarrow>
     (\<exists>ls. ls \<noteq> [] \<and> s = join_with ''.'' ls \<and>
        (\<forall>l \<in> set ls. l \<noteq> [] \<and> hd l \<noteq> CHR ''-'' \<and> last l \<noteq> CHR ''-'' \<and>
           (\<forall>c \<in> set l. c = CHR ''-'' \<or> of_char c \<in> {48 .. 57} \<union> {65 .. 90} \<union> {97 .. 122 :: nat})))"

definition is_local_file :: "string \<Rightarrow> bool" where
  "is_local_file s \<longleftrightarrow> \<not> (\<exists>r. s = CHR ''/'' # r) \<and> \<not> (\<exists>b r. s = b @ ''..'' @ r) \<and> (\<forall>c \<in> set s. of_char c \<notin> {0, 10, 13 :: nat})"

fun holds :: "string list \<Rightarrow> kind \<Rightarrow> field_value \<Rightarrow> bool" where
  "holds ex KindIface v \<longleftrightarrow> (\<exists>s. v = VStr s \<and> is_iface s)"
| "holds ex KindIfaceList v \<longleftrightarrow> (\<exists>ss. v = VStrs ss \<and> (\<forall>s \<in> set ss. is_iface s))"
| "holds ex KindCIDR v \<longleftrightarrow> (\<exists>s. v = VStr s \<and> ((\<exists>a n. parse_cidr s = Some (a, n)) \<or> (\<exists>a. parse_ip s = Some a)))"
| "holds ex KindIP v \<longleftrightarrow> (\<exists>s. v = VStr s \<and> (\<exists>a. parse_ip s = Some a))"
| "holds ex KindIPList v \<longleftrightarrow> (\<exists>ss. v = VStrs ss \<and> (\<forall>s \<in> set ss. \<exists>a. parse_ip s = Some a))"
| "holds ex KindDomainList v \<longleftrightarrow> (\<exists>ss. v = VStrs ss \<and> (\<forall>s \<in> set ss. is_domain s))"
| "holds ex KindPort v \<longleftrightarrow> (\<exists>n. v = VInt n \<and> n \<in> {1 .. 65535})"
| "holds ex KindExecutor v \<longleftrightarrow> (\<exists>s. v = VStr s \<and> s \<in> set ex)"
| "holds ex KindFamily v \<longleftrightarrow> v \<in> {VStr ''4'', VStr ''6''}"
| "holds ex KindNumber v \<longleftrightarrow> (\<exists>n. v \<in> {VInt n, VPtr (Some n)} \<and> 0 \<le> n)"
| "holds ex KindNumberList v \<longleftrightarrow> (\<exists>ns. v = VInts ns \<and> (\<forall>n \<in> set ns. 0 \<le> n))"
| "holds ex KindFile v \<longleftrightarrow> (\<exists>s. v = VStr s \<and> is_local_file s)"
| "holds ex KindText v \<longleftrightarrow> (\<exists>s. v = VStr s)"
| "holds ex KindObject v \<longleftrightarrow> (\<exists>b. v = VObj b)"
| "holds ex KindCommand v \<longleftrightarrow> (\<exists>s. v = VRaw s)"

definition unset :: "field_value \<Rightarrow> bool" where
  "unset v \<longleftrightarrow> v \<in> {VStr [], VInt 0, VStrs [], VInts [], VPtr None, VObj False, VRaw []}"

definition names_eth0 :: "kind \<Rightarrow> field_value \<Rightarrow> bool" where
  "names_eth0 k v \<longleftrightarrow> k = KindIface \<and> v = VStr ''eth0'' \<or> k = KindIfaceList \<and> (\<exists>ss. v = VStrs ss \<and> ''eth0'' \<in> set ss)"

text \<open>A field of a request as a parameter declares it: left out where it may be, else of its kind.\<close>

definition validated :: "string list \<Rightarrow> bool \<Rightarrow> action_entry \<Rightarrow> param \<Rightarrow> bool" where
  "validated ex snat a p \<longleftrightarrow>
     (\<exists>v. map_of (fields_of a) (pm_name p) = Some v \<and>
        (if unset v then \<not> pm_required p else holds ex (pm_kind p) v \<and> (snat \<or> \<not> names_eth0 (pm_kind p) v)))"

lemma is_iface_ok: "validate_linux_interface_name s = None \<longleftrightarrow> is_iface s"
proof -
  have "iface_char c \<longleftrightarrow> of_char c \<notin> {9, 10, 12, 13, 32, 47, 58 :: nat}" for c
  proof -
    have "c = CHR ''/'' \<longleftrightarrow> of_char c = (47 :: nat)" "c = CHR '':'' \<longleftrightarrow> of_char c = (58 :: nat)"
      using of_char_eq_iff [of c "CHR ''/''", where ?'a = nat] of_char_eq_iff [of c "CHR '':''", where ?'a = nat] by simp_all
    then show ?thesis by (auto simp: iface_char_def)
  qed
  then show ?thesis unfolding validate_linux_interface_name_None is_iface_def by (simp add: list_all_iff)
qed

lemma is_alnum_codes: "is_alnum c \<longleftrightarrow> of_char c \<in> {48 .. 57} \<union> {65 .. 90} \<union> {97 .. 122 :: nat}"
  by (auto simp: is_alnum_def is_digit_def is_alpha_def)

lemma domain_label_codes:
  "domain_label l \<longleftrightarrow> l \<noteq> [] \<and> hd l \<noteq> CHR ''-'' \<and> last l \<noteq> CHR ''-'' \<and>
     (\<forall>c \<in> set l. c = CHR ''-'' \<or> of_char c \<in> {48 .. 57} \<union> {65 .. 90} \<union> {97 .. 122 :: nat})"
proof (cases "l = []")
  case False
  let ?d = "CHR ''-''"
  have d: "\<not> is_alnum ?d" by code_simp
  have e: "hd l \<in> set l" "last l \<in> set l" using False by simp_all
  have "is_alnum c \<longleftrightarrow> c \<noteq> ?d" if "c \<in> set l" "\<forall>c \<in> set l. is_alnum c \<or> c = ?d" for c using that d by blast
  with e show ?thesis unfolding domain_label_def is_alnum_codes [symmetric] list_all_iff using False by blast
qed (simp add: domain_label_def)

lemma split_join_labels:
  "ls \<noteq> [] \<Longrightarrow> \<forall>l \<in> set ls. sep \<notin> set l \<Longrightarrow> split_on sep (join_with [sep] ls) = ls"
  by (induction "[sep]" ls rule: join_with.induct) (simp_all add: split_on_append split_on_no_sep)

lemma is_domain_ok: "domain_name s \<longleftrightarrow> is_domain s"
proof
  assume "domain_name s"
  then have "\<forall>l \<in> set (split_on CHR ''.'' s). domain_label l" by (simp add: domain_name_def list_all_iff)
  then show "is_domain s" unfolding is_domain_def domain_label_codes [symmetric]
    by (intro exI [of _ "split_on CHR ''.'' s"]) (auto simp: join_split_on)
next
  assume "is_domain s"
  then obtain ls where ls: "ls \<noteq> []" "s = join_with ''.'' ls" "\<forall>l \<in> set ls. domain_label l"
    unfolding is_domain_def domain_label_codes [symmetric] by blast
  have "\<not> is_alnum CHR ''.''" by code_simp
  then have "CHR ''.'' \<notin> set l" if "domain_label l" for l using that by (auto simp: domain_label_def list_all_iff)
  with ls have "split_on CHR ''.'' s = ls" using split_join_labels by blast
  with ls(3) show "domain_name s" by (simp add: domain_name_def list_all_iff)
qed

lemma contains_str_iff: "p \<noteq> [] \<Longrightarrow> contains_str s p \<longleftrightarrow> (\<exists>b r. s = b @ p @ r)"
proof (induction s)
  case (Cons c s)
  have "has_prefix (c # s) p \<longleftrightarrow> (\<exists>r. c # s = p @ r)"
    unfolding has_prefix_def by (metis append_eq_conv_conj)
  moreover have "(\<exists>b r. c # s = b @ p @ r) \<longleftrightarrow> (\<exists>r. c # s = p @ r) \<or> (\<exists>b r. s = b @ p @ r)"
    by (auto simp: Cons_eq_append_conv)
  ultimately show ?case using Cons by simp
qed simp

lemma is_local_file_ok: "file_param_ok s \<longleftrightarrow> is_local_file s"
proof -
  have "has_prefix s ''/'' \<longleftrightarrow> (\<exists>r. s = CHR ''/'' # r)" by (cases s) (auto simp: has_prefix_def)
  then show ?thesis unfolding file_param_ok_def is_local_file_def using contains_str_iff [of "''..''" s] by (auto simp: list_ex_iff)
qed

lemma check_kind_holds:
  assumes "kind_fits k (shape_of v)" and "\<not> unset v"
  shows "check_kind ex k v = None \<longleftrightarrow> holds ex k v"
  using assms
  by (cases k; cases v) (auto simp: kind_fits_def check_kind_def on_defs unset_def is_iface_ok is_domain_ok is_local_file_ok
      list_all_iff split: option.splits)

lemma value_present_unset: "value_present v \<longleftrightarrow> \<not> unset v"
  by (cases v) (simp_all add: unset_def)

lemma names_eth0_ok: "protected_interface \<in> set (iface_names k v) \<longleftrightarrow> names_eth0 k v"
  unfolding iface_names_def names_eth0_def protected_interface_def by (cases v; cases k) auto

lemma validate_param_validated:
  assumes "param_fits p"
  shows "validate_param ex al a p = None \<longleftrightarrow> validated ex al a p"
proof -
  obtain v where v: "map_of (fields_of a) (pm_name p) = Some v" "kind_fits (pm_kind p) (shape_of v)"
    using assms by (rule param_fitsD)
  then show ?thesis
    using check_kind_holds [OF v(2), of ex]
    by (auto simp: validate_param_def validated_def value_present_unset names_eth0_ok split: option.splits)
qed

lemma allow_protected_snat: "list_all (\<lambda>d. ad_allow_protected d \<longleftrightarrow> ad_type d \<in> {''enable_snat'', ''disable_snat''}) (decls registrations)"
  by (simp add: decls_registrations catalog_defs declare_action_def)

text \<open>
  C16: \<open>Validate\<close> accepts a request of a registered action exactly when each of its parameters is
  left out where it may be, or else holds a value of its kind, as \<open>holds\<close> describes the kinds, and
  names the cluster interface eth0 in no interface parameter, unless the action is one of the two
  SNAT toggles; and validation never reads a field by a type it does not have, which would panic
  in the backend.
\<close>

theorem validated_request_sound:
  assumes look: "lookup_action startup_actions ty = Some d"
  shows "(validate ex d a = None \<longleftrightarrow>
      (\<forall>p \<in> set (ad_params d). validated ex (ty \<in> {''enable_snat'', ''disable_snat''}) a p)) \<and>
    (\<forall>n. validate ex d a \<noteq> Some (VNoField n) \<and> validate ex d a \<noteq> Some (VBadField n KPanic))"
proof (intro conjI allI)
  have "ad_allow_protected d \<longleftrightarrow> ty \<in> {''enable_snat'', ''disable_snat''}"
    using startup_decl [OF look] allow_protected_snat by (auto simp: list_all_iff)
  then show "validate ex d a = None \<longleftrightarrow>
      (\<forall>p \<in> set (ad_params d). validated ex (ty \<in> {''enable_snat'', ''disable_snat''}) a p)"
    unfolding validate_None using validate_param_validated [OF startup_param_fits [OF look]] by simp
next
  fix n
  have *: "validate ex d a \<noteq> Some e" if e: "\<And>p. p \<in> set (ad_params d) \<Longrightarrow> validate_param ex (ad_allow_protected d) a p \<noteq> Some e" for e
    using e first_error_Some [of "\<lambda>_. validate_param ex (ad_allow_protected d) a" 0 "ad_params d" e]
    by (auto simp: validate_def)
  show "validate ex d a \<noteq> Some (VNoField n)" "validate ex d a \<noteq> Some (VBadField n KPanic)"
    by (auto intro!: * dest: startup_param_fits [OF look] validate_param_no_panic)
qed

lemma lookup_of_registration:
  assumes "(c, u, acts) \<in> set registrations" and "e \<in> set acts"
  shows "lookup_action startup_actions (ad_type e) = Some (describe c u e)"
proof -
  have "(ad_type e, describe c u e) \<in> set (rg_types startup_actions)"
    using assms unfolding startup_types by (force simp: described_def)
  moreover have "distinct (map fst (rg_types startup_actions))"
    unfolding startup_types described_types by (rule distinct_types)
  ultimately show ?thesis by (simp add: lookup_action_def)
qed

lemma lookup_decl: "e \<in> set (decls registrations) \<Longrightarrow> \<exists>c u. lookup_action startup_actions (ad_type e) = Some (describe c u e)"
  unfolding decls_def using lookup_of_registration by fastforce

lemma lookup_iff_decl:
  "(\<exists>d. lookup_action startup_actions ty = Some d) \<longleftrightarrow> (\<exists>e \<in> set (decls registrations). ad_type e = ty)"
  using startup_decl lookup_decl by blast

theorem action_registration_total_witness:
  "\<exists>d. (''set_ip'', d) \<in> set (rg_types startup_actions) \<and>
     lookup_action startup_actions ''set_ip'' = Some d \<and> ad_type d = ''set_ip''"
proof -
  have "hd l3_actions \<in> set (decls registrations)"
    unfolding decls_registrations l3_actions_def by simp
  moreover have "ad_type (hd l3_actions) = ''set_ip''" by (simp add: l3_actions_def declare_action_def)
  ultimately obtain d where "lookup_action startup_actions ''set_ip'' = Some d" using lookup_decl by fastforce
  then have "(''set_ip'', d) \<in> set (rg_types startup_actions)" by (simp add: lookup_action_def map_of_SomeD)
  with action_registration_total show ?thesis by blast
qed

theorem validated_request_sound_witness:
  "\<exists>d. lookup_action startup_actions ''set_ip'' = Some d \<and>
     validated [] False ((entry_of ''set_ip'')\<lparr>e_iface := ''eth1'', e_cidr := ''10.0.0.1/24''\<rparr>) P_CIDR"
proof -
  let ?a = "(entry_of ''set_ip'')\<lparr>e_iface := ''eth1'', e_cidr := ''10.0.0.1/24''\<rparr>"
  have "hd l3_actions \<in> set (decls registrations)"
    unfolding decls_registrations l3_actions_def by simp
  moreover have t: "ad_type (hd l3_actions) = ''set_ip''" and ps: "ad_params (hd l3_actions) = [P_Iface, P_CIDR]"
    and al: "ad_allow_protected (hd l3_actions) = False"
    by (simp_all add: l3_actions_def declare_action_def)
  ultimately obtain c u where l: "lookup_action startup_actions ''set_ip'' = Some (describe c u (hd l3_actions))"
    using lookup_decl by fastforce
  have "validate_param [] False ?a P_Iface = None" "validate_param [] False ?a P_CIDR = None" by code_simp+
  then have "validate [] (describe c u (hd l3_actions)) ?a = None" by (simp add: validate_None ps al)
  with validated_request_sound [OF l, of "[]" ?a] have "validated [] False ?a P_CIDR" by (simp add: ps)
  with l show ?thesis by blast
qed

section \<open>An undo meets what it undoes\<close>

text \<open>The key every action on a state uses; the two sides of a default route read it from different fields.\<close>

definition key_of_state :: "(string \<times> (action_entry \<Rightarrow> string) option) list" where
  "key_of_state =
    [(''bgp_router'', None), (''bgp_neighbor'', Some key_neighbor), (''bgp_network'', Some key_cidr),
     (''bgp_redistribute'', Some key_redistribute_family), (''isis_router'', None),
     (''isis_interface'', Some key_iface), (''isis_passive'', Some key_iface),
     (''isis_metric'', Some key_iface), (''isis_network_type'', Some key_iface),
     (''isis_redistribute'', Some key_redistribute_family_level), (''link'', Some key_iface),
     (''address'', Some key_address), (''static_route'', Some key_static_route),
     (''dns_nameserver'', Some key_nameserver), (''dns_search'', Some key_search), (''dns'', None),
     (''snat'', Some key_iface_family), (''dnat'', Some key_port_forward), (''nat64'', None),
     (''openflow_controller'', Some key_bridge), (''openflow_fail_mode'', Some key_bridge),
     (''openflow_datapath_id'', Some key_bridge), (''openflow_flow'', Some key_flow),
     (''ospf_network'', Some key_network_area), (''ospf_router_id'', None), (''ospf_passive_default'', None),
     (''ospf_no_passive'', Some key_iface), (''ospf_originate_default'', None),
     (''ospf_mtu_ignore'', Some key_iface), (''ospf_redistribute'', Some key_redistribute),
     (''ospf_cost'', Some key_iface), (''ospf_priority'', Some key_iface), (''ospf_timers'', Some key_iface),
     (''ospf_network_type'', Some key_iface), (''ospf_area_type'', Some key_area),
     (''ospf_area_range'', Some key_network_area), (''ospf_auth'', Some key_iface),
     (''ospf6_router_id'', None), (''ospf6_interface'', Some key_iface), (''ospf6_passive'', Some key_iface),
     (''ospf6_redistribute'', Some key_redistribute), (''ospf6_originate_default'', None),
     (''rip_network'', Some key_cidr), (''rip_passive'', Some key_iface_family),
     (''rip_redistribute'', Some key_redistribute_family), (''rip_timers'', Some key_family),
     (''controller_config'', None), (''stp'', Some key_bridge), (''stp_priority'', Some key_bridge),
     (''stp_port'', Some key_iface), (''subinterface'', Some key_subinterface), (''bridge'', Some key_bridge),
     (''bridge_member'', Some key_bridge_member), (''vlan_port'', Some key_iface), (''qdisc'', Some key_iface)]"

lemma decl_state_names:
  "map ad_state (decls registrations) =
    [''bgp_router'', ''bgp_router'', ''bgp_neighbor'', ''bgp_neighbor'', ''bgp_network'', ''bgp_network'',
     ''bgp_redistribute'', ''bgp_redistribute'', ''isis_router'', ''isis_router'', ''isis_interface'',
     ''isis_interface'', ''isis_passive'', ''isis_passive'', ''isis_metric'', ''isis_metric'',
     ''isis_network_type'', ''isis_network_type'', ''isis_redistribute'', ''isis_redistribute'', ''link'',
     ''link'', ''address'', ''address'', ''address'', ''default_route'', ''default_route'', ''static_route'',
     ''static_route'', ''dns_nameserver'', ''dns_nameserver'', ''dns_search'', ''dns_search'', ''dns'',
     ''dns'', ''snat'', ''snat'', ''dnat'', ''dnat'', ''nat64'', ''nat64'', ''openflow_controller'',
     ''openflow_controller'', ''openflow_fail_mode'', ''openflow_datapath_id'', ''openflow_flow'',
     ''openflow_flow'', ''ospf_network'', ''ospf_network'', ''ospf_router_id'', ''ospf_router_id'',
     ''ospf_passive_default'', ''ospf_passive_default'', ''ospf_no_passive'', ''ospf_no_passive'',
     ''ospf_originate_default'', ''ospf_originate_default'', ''ospf_mtu_ignore'', ''ospf_mtu_ignore'',
     ''ospf_redistribute'', ''ospf_redistribute'', ''ospf_cost'', ''ospf_cost'', ''ospf_priority'',
     ''ospf_priority'', ''ospf_timers'', ''ospf_timers'', ''ospf_network_type'', ''ospf_network_type'',
     ''ospf_area_type'', ''ospf_area_type'', ''ospf_area_range'', ''ospf_area_range'', ''ospf_auth'',
     ''ospf_auth'', ''ospf6_router_id'', ''ospf6_router_id'', ''ospf6_interface'', ''ospf6_interface'',
     ''ospf6_passive'', ''ospf6_passive'', ''ospf6_redistribute'', ''ospf6_redistribute'',
     ''ospf6_originate_default'', ''ospf6_originate_default'', ''rip_network'', ''rip_network'',
     ''rip_passive'', ''rip_passive'', ''rip_redistribute'', ''rip_redistribute'', ''rip_timers'',
     ''rip_timers'', ''controller_config'', ''stp'', ''stp'', ''stp_priority'', ''stp_port'', ''subinterface'',
     ''subinterface'', ''bridge'', ''bridge'', ''bridge_member'', ''bridge_member'', ''vlan_port'',
     ''vlan_port'', ''vlan_port'', '''', ''qdisc'', ''qdisc'']"
  by (simp add: decls_registrations catalog_defs declare_action_def)

lemma decl_clears:
  "map ad_clears (decls registrations) =
    [False, True, False, True, False, True, False, True, False, True, False, True, False, True, False, True,
     False, True, False, True, False, True, False, False, True, False, True, False, True, False, True, False,
     True, False, True, False, True, False, True, False, True, False, True, False, False, False, True, False,
     True, False, True, False, True, False, True, False, True, False, True, False, True, False, True, False,
     True, False, True, False, True, False, True, False, True, False, True, False, True, False, True, False,
     True, False, True, False, True, False, True, False, True, False, True, False, True, False, False, True,
     False, False, False, True, False, True, False, True, False, False, True, False, False, True]"
  by (simp add: decls_registrations catalog_defs declare_action_def)

lemma decl_keys:
  "map ad_key (decls registrations) =
    [None, None, Some key_neighbor, Some key_neighbor, Some key_cidr, Some key_cidr,
     Some key_redistribute_family, Some key_redistribute_family, None, None, Some key_iface, Some key_iface,
     Some key_iface, Some key_iface, Some key_iface, Some key_iface, Some key_iface, Some key_iface,
     Some key_redistribute_family_level, Some key_redistribute_family_level, Some key_iface, Some key_iface,
     Some key_address, Some key_address, Some key_address, Some key_default_route_set,
     Some key_default_route_family, Some key_static_route, Some key_static_route, Some key_nameserver,
     Some key_nameserver, Some key_search, Some key_search, None, None, Some key_iface_family,
     Some key_iface_family, Some key_port_forward, Some key_port_forward, None, None, Some key_bridge,
     Some key_bridge, Some key_bridge, Some key_bridge, Some key_flow, Some key_flow, Some key_network_area,
     Some key_network_area, None, None, None, None, Some key_iface, Some key_iface, None, None, Some key_iface,
     Some key_iface, Some key_redistribute, Some key_redistribute, Some key_iface, Some key_iface,
     Some key_iface, Some key_iface, Some key_iface, Some key_iface, Some key_iface, Some key_iface,
     Some key_area, Some key_area, Some key_network_area, Some key_network_area, Some key_iface,
     Some key_iface, None, None, Some key_iface, Some key_iface, Some key_iface, Some key_iface,
     Some key_redistribute, Some key_redistribute, None, None, Some key_cidr, Some key_cidr,
     Some key_iface_family, Some key_iface_family, Some key_redistribute_family, Some key_redistribute_family,
     Some key_family, Some key_family, None, Some key_bridge, Some key_bridge, Some key_bridge, Some key_iface,
     Some key_subinterface, Some key_subinterface, Some key_bridge, Some key_bridge, Some key_bridge_member,
     Some key_bridge_member, Some key_iface, Some key_iface, Some key_iface, None, Some key_iface,
     Some key_iface]"
  by (simp add: decls_registrations catalog_defs declare_action_def)

definition undo_paired :: "(string \<times> bool) list \<Rightarrow> bool" where
  "undo_paired xs = list_all (\<lambda>(s, c). \<not> c \<or> list_ex (\<lambda>(s', c'). \<not> c' \<and> s' = s) xs) xs"

lemma undo_has_set: "undo_paired (zip (map ad_state (decls registrations)) (map ad_clears (decls registrations)))"
  unfolding decl_state_names decl_clears by code_simp

lemma keys_by_state:
  "remdups_adj (filter (\<lambda>(s, k). s \<noteq> [] \<and> s \<noteq> ''default_route'')
     (zip (map ad_state (decls registrations)) (map ad_key (decls registrations)))) = key_of_state"
  unfolding decl_state_names decl_keys key_of_state_def by simp

lemma distinct_states: "distinct (map fst key_of_state)"
proof (rule distinct_by_sort [of 6])
  have "map fst key_of_state =
    [''bgp_router'', ''bgp_neighbor'', ''bgp_network'', ''bgp_redistribute'', ''isis_router'',
     ''isis_interface'', ''isis_passive'', ''isis_metric'', ''isis_network_type'', ''isis_redistribute'',
     ''link'', ''address'', ''static_route'', ''dns_nameserver'', ''dns_search'', ''dns'', ''snat'', ''dnat'',
     ''nat64'', ''openflow_controller'', ''openflow_fail_mode'', ''openflow_datapath_id'', ''openflow_flow'',
     ''ospf_network'', ''ospf_router_id'', ''ospf_passive_default'', ''ospf_no_passive'',
     ''ospf_originate_default'', ''ospf_mtu_ignore'', ''ospf_redistribute'', ''ospf_cost'', ''ospf_priority'',
     ''ospf_timers'', ''ospf_network_type'', ''ospf_area_type'', ''ospf_area_range'', ''ospf_auth'',
     ''ospf6_router_id'', ''ospf6_interface'', ''ospf6_passive'', ''ospf6_redistribute'',
     ''ospf6_originate_default'', ''rip_network'', ''rip_passive'', ''rip_redistribute'', ''rip_timers'',
     ''controller_config'', ''stp'', ''stp_priority'', ''stp_port'', ''subinterface'', ''bridge'',
     ''bridge_member'', ''vlan_port'', ''qdisc'']"
    by (simp add: key_of_state_def)
  then show "increasing_str (msort_str 6 (map fst key_of_state))" by (simp only:) code_simp
qed

lemma default_route_keys:
  "filter (\<lambda>(s, x). s = ''default_route'')
     (zip (map ad_state (decls registrations))
        (zip (map ad_clears (decls registrations)) (map ad_key (decls registrations)))) =
   [(''default_route'', False, Some key_default_route_set), (''default_route'', True, Some key_default_route_family)]"
  unfolding decl_state_names decl_keys decl_clears by simp

lemma in_zip_map: "e \<in> set xs \<Longrightarrow> (f e, g e) \<in> set (zip (map f xs) (map g xs))"
  by (induction xs) auto

lemma startup_key:
  assumes "lookup_action startup_actions ty = Some d" and "ad_state d \<noteq> []" and "ad_state d \<noteq> ''default_route''"
  shows "map_of key_of_state (ad_state d) = Some (ad_key d)"
proof -
  obtain e where e: "e \<in> set (decls registrations)" "ad_state d = ad_state e" "ad_key d = ad_key e"
    using startup_decl [OF assms(1)] by blast
  let ?z = "zip (map ad_state (decls registrations)) (map ad_key (decls registrations))"
  have "(ad_state d, ad_key d) \<in> set (filter (\<lambda>(s, k). s \<noteq> [] \<and> s \<noteq> ''default_route'') ?z)"
    using in_zip_map [OF e(1), of ad_state ad_key] e assms(2,3) by simp
  then have "(ad_state d, ad_key d) \<in> set key_of_state"
    unfolding keys_by_state [symmetric] by (simp only: remdups_adj_set)
  then show ?thesis using distinct_states by simp
qed

lemma startup_default_route_key:
  assumes "lookup_action startup_actions ty = Some d" and "ad_state d = ''default_route''"
  shows "ad_key d = Some (if ad_clears d then key_default_route_family else key_default_route_set)"
proof -
  obtain e where e: "e \<in> set (decls registrations)" "ad_state d = ad_state e" "ad_key d = ad_key e" "ad_clears d = ad_clears e"
    using startup_decl [OF assms(1)] by blast
  let ?f = "\<lambda>e. (ad_clears e, ad_key e)"
  have z: "zip (map ad_state ds) (zip (map ad_clears ds) (map ad_key ds)) = zip (map ad_state ds) (map ?f ds)" for ds
    by (induction ds) auto
  have "(''default_route'', ad_clears d, ad_key d) \<in> set (filter (\<lambda>(s, x). s = ''default_route'')
     (zip (map ad_state (decls registrations))
        (zip (map ad_clears (decls registrations)) (map ad_key (decls registrations)))))"
    unfolding z using in_zip_map [OF e(1), of ad_state ?f] e assms(2) by simp
  then show ?thesis unfolding default_route_keys by auto
qed

lemma keys_ignore_type: "map_of key_of_state s = Some (Some k) \<Longrightarrow> k (a\<lparr>e_type := x\<rparr>) = k a"
proof -
  have "list_all (\<lambda>(s, k). case k of None \<Rightarrow> True | Some k \<Rightarrow> \<forall>a x. k (a\<lparr>e_type := x\<rparr>) = k a) key_of_state"
    by (simp add: key_of_state_def key_defs)
  then show "map_of key_of_state s = Some (Some k) \<Longrightarrow> k (a\<lparr>e_type := x\<rparr>) = k a"
    by (fastforce simp: list_all_iff dest: map_of_SomeD)
qed

text \<open>
  The set and the undo of a registered action meet in the history: any two actions on the
  same state read the same key from the same fields, so an undo finds the row of the set it
  reverses. The one exception is the default route, set by a gateway and removed by a family:
  those two meet exactly when the gateway is of the family named.
\<close>

theorem undo_meets_its_set:
  assumes "lookup_action startup_actions ty = Some d" and "lookup_action startup_actions ty' = Some d'"
    and "ad_state d = ad_state d'" and "ad_state d \<noteq> []"
  shows "(ad_state d \<noteq> ''default_route'' \<longrightarrow> state_key d a = state_key d' (a\<lparr>e_type := ty'\<rparr>)) \<and>
    (ad_state d = ''default_route'' \<and> \<not> ad_clears d \<and> ad_clears d' \<longrightarrow>
       (state_key d a = state_key d' b \<longleftrightarrow> (is_ipv6 (e_gateway a) \<longleftrightarrow> e_family b = ''6'')))"
proof (intro conjI impI)
  assume n: "ad_state d \<noteq> ''default_route''"
  then have k: "map_of key_of_state (ad_state d') = Some (ad_key d)" "map_of key_of_state (ad_state d') = Some (ad_key d')"
    using startup_key [OF assms(1,4) n] startup_key [OF assms(2)] assms(3,4) by auto
  then have "state_key d a = state_key d' a" by (simp add: state_key_def)
  also have "\<dots> = state_key d' (a\<lparr>e_type := ty'\<rparr>)"
  proof (cases "ad_key d'")
    case (Some f)
    then have "f (a\<lparr>e_type := ty'\<rparr>) = f a" using keys_ignore_type k(2) by metis
    with Some show ?thesis by (simp add: state_key_def)
  qed (simp add: state_key_def)
  finally show "state_key d a = state_key d' (a\<lparr>e_type := ty'\<rparr>)" .
next
  assume a: "ad_state d = ''default_route'' \<and> \<not> ad_clears d \<and> ad_clears d'"
  then show "state_key d a = state_key d' b \<longleftrightarrow> (is_ipv6 (e_gateway a) \<longleftrightarrow> e_family b = ''6'')"
    using startup_default_route_key [OF assms(1)] startup_default_route_key [OF assms(2)] assms(3)
    by (simp add: state_key_def key_default_route_set_def key_default_route_family_def)
qed

lemma l3_decl: "e \<in> set l3_actions \<Longrightarrow> \<exists>c u. lookup_action startup_actions (ad_type e) = Some (describe c u e)"
  by (rule lookup_decl) (simp add: decls_registrations)

theorem undo_meets_its_set_witness:
  "\<exists>d d'. lookup_action startup_actions ''set_ip'' = Some d \<and> lookup_action startup_actions ''remove_ip'' = Some d' \<and>
     state_key d ((entry_of ''set_ip'')\<lparr>e_iface := ''eth1'', e_cidr := ''10.0.0.1/24''\<rparr>) =
     state_key d' ((entry_of ''set_ip'')\<lparr>e_iface := ''eth1'', e_cidr := ''10.0.0.1/24'', e_type := ''remove_ip''\<rparr>)"
proof -
  have m: "l3_actions ! 0 \<in> set l3_actions" "l3_actions ! 2 \<in> set l3_actions"
    by (simp_all add: l3_actions_def)
  have t: "ad_type (l3_actions ! 0) = ''set_ip''" "ad_type (l3_actions ! 2) = ''remove_ip''"
    and s: "ad_state (l3_actions ! 0) = ''address''" "ad_state (l3_actions ! 2) = ''address''"
    by (simp_all add: l3_actions_def declare_action_def)
  obtain c u c' u' where l: "lookup_action startup_actions ''set_ip'' = Some (describe c u (l3_actions ! 0))"
    "lookup_action startup_actions ''remove_ip'' = Some (describe c' u' (l3_actions ! 2))"
    using l3_decl [OF m(1)] l3_decl [OF m(2)] unfolding t by blast
  have "ad_state (describe c u (l3_actions ! 0)) = ad_state (describe c' u' (l3_actions ! 2))"
    "ad_state (describe c u (l3_actions ! 0)) \<noteq> []" "ad_state (describe c u (l3_actions ! 0)) \<noteq> ''default_route''"
    using s by simp_all
  with undo_meets_its_set [OF l this(1,2)] l show ?thesis by fastforce
qed

section \<open>Values in the form the switch and the router take\<close>

definition flow_sep :: "char \<Rightarrow> bool" where
  "flow_sep = (\<lambda>x. x = CHR '','' \<or> x = CHR '' '')"

definition flow_cut :: "string \<Rightarrow> bool" where
  "flow_cut s \<longleftrightarrow> has_prefix (dropWhile flow_sep s) ''actions='' \<and> CHR 0x0A \<notin> set (dropWhile flow_sep s)"

lemma flow_match_Cons: "flow_match (c # cs) = (if flow_cut (c # cs) then [] else c # flow_match cs)"
  by (simp only: flow_match.simps Let_def flow_cut_def flow_sep_def)

lemma flow_cut_no_newline: "flow_cut s \<Longrightarrow> CHR 0x0A \<notin> set s"
proof -
  assume c: "flow_cut s"
  have "CHR 0x0A \<notin> set (takeWhile flow_sep s)" by (auto dest: set_takeWhileD simp: flow_sep_def)
  moreover have "set s = set (takeWhile flow_sep s) \<union> set (dropWhile flow_sep s)"
    by (metis set_append takeWhile_dropWhile_id)
  ultimately show ?thesis using c by (simp add: flow_cut_def)
qed

lemma flow_match_prefix: "\<exists>ws. cs = flow_match cs @ ws \<and> CHR 0x0A \<notin> set ws"
proof (induction cs)
  case (Cons c cs)
  show ?case
  proof (cases "flow_cut (c # cs)")
    case True
    with flow_cut_no_newline [OF True] show ?thesis
      by (intro exI [of _ "c # cs"]) (simp only: flow_match_Cons if_True append_Nil not_False_eq_True simp_thms)
  next
    case False
    with Cons show ?thesis by (simp only: flow_match_Cons if_False) auto
  qed
qed simp

lemma has_prefix_more: "has_prefix s p \<Longrightarrow> has_prefix (s @ ws) p"
proof -
  assume "has_prefix s p"
  then have "s = p @ drop (length p) s" by (metis append_take_drop_id has_prefix_def)
  then have "s @ ws = p @ (drop (length p) s @ ws)" by (metis append_assoc)
  then show ?thesis by (metis has_prefix_append)
qed

lemma flow_cut_append: "flow_cut s \<Longrightarrow> CHR 0x0A \<notin> set ws \<Longrightarrow> flow_cut (s @ ws)"
proof -
  assume c: "flow_cut s" and ws: "CHR 0x0A \<notin> set ws"
  have "dropWhile flow_sep s \<noteq> []"
    using c by (cases "dropWhile flow_sep s") (simp_all add: flow_cut_def has_prefix_def)
  then obtain x where "x \<in> set s" "\<not> flow_sep x" unfolding dropWhile_eq_Nil_conv by blast
  then have "dropWhile flow_sep (s @ ws) = dropWhile flow_sep s @ ws" by (rule dropWhile_append1)
  with c ws show "flow_cut (s @ ws)" by (auto simp: flow_cut_def has_prefix_more)
qed

lemma flow_match_idem: "flow_match (flow_match cs) = flow_match cs"
proof (induction cs)
  case (Cons c cs)
  show ?case
  proof (cases "flow_cut (c # cs)")
    case False
    obtain ws where "cs = flow_match cs @ ws" "CHR 0x0A \<notin> set ws" using flow_match_prefix by blast
    with False have "\<not> flow_cut (c # flow_match cs)" using flow_cut_append [of "c # flow_match cs" ws] by auto
    with False Cons show ?thesis by (simp only: flow_match_Cons if_False)
  qed (simp only: flow_match_Cons if_True flow_match.simps(1))
qed simp

lemma registered_run:
  assumes "e \<in> set (decls registrations)"
  obtains d where "lookup_action startup_actions (ad_type e) = Some d" and "ad_run d = ad_run e"
    and "ad_params d = ad_params e" and "ad_allow_protected d = ad_allow_protected e"
  using lookup_decl [OF assms] by auto

lemma flow_decls: "openflow_actions ! 5 \<in> set (decls registrations)"
  by (simp add: decls_registrations openflow_actions_def)

text \<open>
  A flow added by hand and its removal by match meet: the key of \<open>add_flow\<close> is the key of a
  \<open>delete_flow\<close> on the same bridge that gives the match of the flow, the builder accepts that
  match whenever it accepts the flow, and it deletes exactly that match.
\<close>

theorem flow_removal_meets_flow:
  assumes "e_bridge b = e_bridge a" and "e_flow b = flow_match (e_flow a)" and "flow_text_ok (e_flow a)"
  shows "key_flow b = key_flow a \<and>
    (\<exists>d. lookup_action startup_actions ''delete_flow'' = Some d \<and>
         ad_run d v b = Inr (Call ''DeleteFlow'' [AStr (e_bridge a), AStr (flow_match (e_flow a))]))"
proof -
  obtain ws where "e_flow a = flow_match (e_flow a) @ ws" using flow_match_prefix by blast
  then have "set (flow_match (e_flow a)) \<subseteq> set (e_flow a)" by (metis set_append Un_upper1)
  with assms(2,3) have "flow_text_ok (e_flow b)" by (auto simp: flow_text_ok_def list_ex_iff)
  then have run: "ad_run (openflow_actions ! 5) v b = Inr (Call ''DeleteFlow'' [AStr (e_bridge a), AStr (flow_match (e_flow a))])"
    using assms(1,2) by (simp add: openflow_actions_def declare_action_def check_that_def call_def flow_match_idem)
  have "ad_type (openflow_actions ! 5) = ''delete_flow''" by (simp add: openflow_actions_def declare_action_def)
  with registered_run [OF flow_decls] run obtain d where
    "lookup_action startup_actions ''delete_flow'' = Some d" "ad_run d v b = Inr (Call ''DeleteFlow'' [AStr (e_bridge a), AStr (flow_match (e_flow a))])"
    by metis
  then show ?thesis using assms(1,2) by (auto simp: key_flow_def flow_match_idem)
qed

theorem flow_removal_meets_flow_witness:
  "key_flow ((entry_of ''delete_flow'')\<lparr>e_bridge := ''br0'', e_flow := ''priority=5,in_port=1''\<rparr>) =
   key_flow ((entry_of ''add_flow'')\<lparr>e_bridge := ''br0'', e_flow := ''priority=5,in_port=1, actions=drop''\<rparr>)"
proof -
  have m: "flow_match ''priority=5,in_port=1, actions=drop'' = ''priority=5,in_port=1''" by code_simp
  have "flow_text_ok ''priority=5,in_port=1, actions=drop''" by code_simp
  with m show ?thesis
    by (intro flow_removal_meets_flow [THEN conjunct1]) simp_all
qed

subsection \<open>Datapath identifiers\<close>

lemma hex_lower: "is_hex c \<Longrightarrow> hex_val (lower_char c) = hex_val c \<and> is_hex (lower_char c)"
  by (cases "(65::nat) \<le> of_char c \<and> of_char c \<le> (90::nat)")
    (auto simp: lower_char_def is_hex_def hex_val_def is_digit_def)

lemma not_hex_x: "\<not> is_hex CHR ''x''"
  by code_simp

lemma lower_x: "lower_char c = CHR ''x'' \<Longrightarrow> \<not> is_hex c"
  using hex_lower not_hex_x by metis

lemma hex_group_map: "list_all is_hex s \<Longrightarrow> foldl (\<lambda>acc c. 16 * acc + hex_val c) n (map lower_char s) = foldl (\<lambda>acc c. 16 * acc + hex_val c) n s"
  by (induction s arbitrary: n) (simp_all add: hex_lower)

lemma hex_group_zeros: "hex_group (replicate k CHR ''0'' @ s) = hex_group s"
proof -
  have "hex_val CHR ''0'' = 0" by code_simp
  then show ?thesis by (induction k) (simp_all add: hex_group_def)
qed

lemma trim_lower:
  assumes "datapath_id_ok s"
  shows "trim_prefix (map lower_char s) ''0x'' = map lower_char (trim_prefix s ''0x'')"
proof (cases "has_prefix s ''0x''")
  case True
  moreover have "lower_char CHR ''0'' = CHR ''0''" "lower_char CHR ''x'' = CHR ''x''" by code_simp+
  ultimately show ?thesis by (auto simp: trim_prefix_def has_prefix_def drop_map take_map)
next
  case False
  with assms have h: "list_all is_hex s" by (simp add: datapath_id_ok_def trim_prefix_def)
  have "\<not> has_prefix (map lower_char s) ''0x''"
  proof
    assume "has_prefix (map lower_char s) ''0x''"
    then have "take 2 (map lower_char s) = ''0x''" by (simp add: has_prefix_def numeral_2_eq_2)
    then have "CHR ''x'' \<in> set (map lower_char s)" by (metis in_set_takeD list.set_intros(1,2))
    with h lower_x show False by (auto simp: list_all_iff)
  qed
  with False show ?thesis by (simp add: trim_prefix_def)
qed

text \<open>
  The datapath id a switch is given is the number the request wrote, in the one form a
  controller sees it: sixteen hexadecimal digits, in lower case, without prefix; giving the
  form itself back, with or without the prefix, changes nothing.
\<close>

theorem datapath_id_normal_form:
  assumes ok: "datapath_id_ok s"
  shows "length (datapath_id s) = 16 \<and> list_all is_hex (datapath_id s) \<and>
    hex_group (datapath_id s) = hex_group (trim_prefix s ''0x'') \<and>
    datapath_id_ok (datapath_id s) \<and> datapath_id (datapath_id s) = datapath_id s"
proof -
  let ?d = "trim_prefix s ''0x''"
  have d: "list_all is_hex ?d" "length ?d \<le> 16" using ok by (auto simp: datapath_id_ok_def Let_def)
  have ll: "lower_char (lower_char c) = lower_char c" if "is_hex c" for c
    using that by (cases "(65::nat) \<le> of_char c \<and> of_char c \<le> (90::nat)") (auto simp: lower_char_def is_hex_def is_digit_def)
  have id: "datapath_id s = replicate (16 - length ?d) CHR ''0'' @ map lower_char ?d"
    using ll d(1) unfolding datapath_id_def trim_lower [OF ok] by (auto simp: Let_def list_all_iff)
  have z: "is_hex CHR ''0''" "lower_char CHR ''0'' = CHR ''0''" by code_simp+
  have len: "length (datapath_id s) = 16" using d(2) id by simp
  have hex: "list_all is_hex (datapath_id s)" using d(1) hex_lower z id by (auto simp: list_all_iff)
  have np: "\<not> has_prefix (datapath_id s) ''0x''"
  proof
    assume "has_prefix (datapath_id s) ''0x''"
    then have "take 2 (datapath_id s) = ''0x''" by (simp add: has_prefix_def numeral_2_eq_2)
    then have "CHR ''x'' \<in> set (datapath_id s)" by (metis in_set_takeD list.set_intros(1,2))
    with hex not_hex_x show False by (auto simp: list_all_iff)
  qed
  have low: "map lower_char (datapath_id s) = datapath_id s" using ll d(1) z id by (auto simp: list_all_iff)
  have "hex_group (datapath_id s) = hex_group ?d"
    using hex_group_map [OF d(1), of 0] unfolding id hex_group_zeros by (simp add: hex_group_def)
  moreover have "datapath_id_ok (datapath_id s)" using len hex np by (simp add: datapath_id_ok_def trim_prefix_def)
  moreover have "datapath_id (datapath_id s) = datapath_id s"
    unfolding datapath_id_def [of "datapath_id s"] low using np len low by (simp add: trim_prefix_def)
  ultimately show ?thesis using len hex by blast
qed

theorem datapath_id_normal_form_witness:
  "length (datapath_id ''0xAb'') = 16 \<and> datapath_id ''0xAb'' = ''00000000000000ab''"
proof -
  have "datapath_id_ok ''0xAb''" by code_simp
  moreover have "datapath_id ''0xAb'' = ''00000000000000ab''" by code_simp
  ultimately show ?thesis using datapath_id_normal_form by metis
qed

subsection \<open>The NAT64 pool\<close>

text \<open>
  The check on the NAT64 pool lets an IPv6 prefix through: \<open>::ffff:10.0.0.0/20\<close> validates and
  passes as an IPv4 pool of a /20, and the translator is given \<open>::/20\<close>.
\<close>

theorem nat64_pool_mapped_address:
  "\<exists>d. lookup_action startup_actions ''nat64_enable'' = Some d \<and>
     (let a = (entry_of ''nat64_enable'')\<lparr>e_pool := ''::ffff:10.0.0.0/20''\<rparr> in
      validate [] d a = None \<and>
      ad_run d v a = Inr (Call ''NAT64Enable'' [AStr ''64:ff9b::/96'', AStr ''::/20'']))"
proof -
  let ?a = "(entry_of ''nat64_enable'')\<lparr>e_pool := ''::ffff:10.0.0.0/20''\<rparr>"
  have m: "nat64_actions ! 0 \<in> set (decls registrations)"
    by (simp add: decls_registrations nat64_actions_def)
  have t: "ad_type (nat64_actions ! 0) = ''nat64_enable''" "ad_params (nat64_actions ! 0) = [P_Pool, P_Prefix]"
    "ad_allow_protected (nat64_actions ! 0) = False"
    by (simp_all add: nat64_actions_def declare_action_def)
  have p: "nat64_prefix ?a = Inr ''64:ff9b::/96''" "nat64_pool ?a = Inr ''::/20''" by code_simp+
  have "ad_run (nat64_actions ! 0) v ?a = Inr (Call ''NAT64Enable'' [AStr ''64:ff9b::/96'', AStr ''::/20''])"
    unfolding nat64_actions_def declare_action_def by (simp add: p call_def del: entry_of_def)
  moreover have "validate_param [] False ?a P_Pool = None" "validate_param [] False ?a P_Prefix = None" by code_simp+
  moreover obtain d where "lookup_action startup_actions ''nat64_enable'' = Some d" "ad_run d = ad_run (nat64_actions ! 0)"
    "ad_params d = [P_Pool, P_Prefix]" "\<not> ad_allow_protected d"
    using registered_run [OF m] t by metis
  ultimately show ?thesis by (intro exI [of _ d]) (simp add: validate_None)
qed

end
