(* ===== verification/Base_Commands.thy ===== *)
theory Base_Commands
  imports Executors Action_Registry
begin

text \<open>
  The commands a Linux node runs for an action: the base structs of \<open>capabilities/*_base.go\<close> that
  the Linux drivers embed, one definition per method, and the IOS-XR blocks of
  \<open>drivers/drivers/router_xrd.go\<close>. \<open>linux_rows\<close> joins them to the calls of \<open>Action_Catalog\<close>: a call
  the driver does not have is \<open>NoMethod\<close>, an index out of range in Go is \<open>Panics\<close>.
  The lemmas say that the actions of these capabilities always have commands, and which of
  their arguments can mean something to the shell that gets them.
\<close>

section \<open>Commands of the base structs\<close>

definition link_set :: "string \<Rightarrow> string \<Rightarrow> string list list" where
  "link_set iface state =
     [[''ip'', ''link'', ''set'', iface, state]]"

definition set_ip :: "string \<Rightarrow> string \<Rightarrow> string list list" where
  "set_ip iface cidr =
     [[''ip'', ''addr'', ''replace'', cidr, ''dev'', iface]]"

definition replace_ip :: "string \<Rightarrow> string \<Rightarrow> string list list" where
  "replace_ip iface cidr =
     [[''sh'', ''-c'', ''ip -o addr show dev '' @ iface @ '' | grep -q '' @ [apostrophe] @ '' '' @ cidr @
        '' '' @ [apostrophe] @ '' || { ip addr flush dev '' @ iface @ ''; ip addr add '' @ cidr @
        '' dev '' @ iface @ ''; }'']]"

definition remove_ip :: "string \<Rightarrow> string \<Rightarrow> string list list" where
  "remove_ip iface cidr =
     [[''sh'', ''-c'', ''! ip -o addr show dev '' @ iface @ '' | grep -qF '' @ [apostrophe] @ '' '' @
        cidr @ '' '' @ [apostrophe] @ '' || ip addr del '' @ cidr @ '' dev '' @ iface]]"

definition set_default_route :: "string \<Rightarrow> string list list" where
  "set_default_route gateway =
     (if is_ipv6 gateway then [[''ip'', ''-6'', ''route'', ''replace'', ''default'', ''via'', gateway]]
      else [[''ip'', ''route'', ''replace'', ''default'', ''via'', gateway]])"

definition remove_default_route :: "string list list" where
  "remove_default_route =
     [[''ip'', ''route'', ''del'', ''default'']]"

definition remove_default_route6 :: "string list list" where
  "remove_default_route6 =
     [[''ip'', ''-6'', ''route'', ''del'', ''default'']]"

definition add_static_route :: "string \<Rightarrow> string \<Rightarrow> string \<Rightarrow> string list list" where
  "add_static_route dst via dev =
     [[''ip'', ''route'', ''replace'', dst, ''via'', via] @ (if dev = [] then [] else [''dev'', dev])]"

definition remove_static_route :: "string \<Rightarrow> string \<Rightarrow> string \<Rightarrow> string list list" where
  "remove_static_route dst via dev =
     [[''ip'', ''route'', ''del'', dst, ''via'', via] @ (if dev = [] then [] else [''dev'', dev])]"

definition add_dns_nameserver :: "string \<Rightarrow> string list list" where
  "add_dns_nameserver server =
     [[''sh'', ''-c'', ''grep -q '' @ [apostrophe] @ ''^nameserver '' @ server @ ''$'' @ [apostrophe] @
        '' /etc/resolv.conf || echo '' @ [apostrophe] @ ''nameserver '' @ server @ [apostrophe] @
        '' | tee -a /etc/resolv.conf > /dev/null'']]"

definition remove_dns_nameserver :: "string \<Rightarrow> string list list" where
  "remove_dns_nameserver server =
     [[''sh'', ''-c'', ''c=$(grep -v '' @ [apostrophe] @ ''^nameserver '' @ server @ ''$'' @
        [apostrophe] @ '' /etc/resolv.conf); printf '' @ [apostrophe] @ ''%s'' @ [backslash] @ ''n'' @
        [apostrophe] @ '' '' @ [dquote] @ ''$c'' @ [dquote] @ '' > /etc/resolv.conf'']]"

definition add_dns_search :: "string \<Rightarrow> string list list" where
  "add_dns_search domain =
     [[''sh'', ''-c'', ''if grep -q '' @ [apostrophe] @ ''^search '' @ [apostrophe] @
        '' /etc/resolv.conf; then grep -q '' @ [apostrophe] @ ''^search .* '' @ domain @ [apostrophe] @
        '' /etc/resolv.conf || { c=$(sed '' @ [apostrophe] @ ''s/^search .*/& '' @ domain @ ''/'' @
        [apostrophe] @ '' /etc/resolv.conf); printf '' @ [apostrophe] @ ''%s'' @ [backslash] @ ''n'' @
        [apostrophe] @ '' '' @ [dquote] @ ''$c'' @ [dquote] @ '' > /etc/resolv.conf; }; else echo '' @
        [apostrophe] @ ''search '' @ domain @ [apostrophe] @
        '' | tee -a /etc/resolv.conf > /dev/null; fi'']]"

definition remove_dns_search :: "string \<Rightarrow> string list list" where
  "remove_dns_search domain =
     [[''sh'', ''-c'', ''c=$(sed '' @ [apostrophe] @ ''s/^search '' @ [backslash] @ ''(.*'' @
        [backslash] @ '') '' @ domain @ '' /search '' @ [backslash] @ ''1 /'' @ [apostrophe] @
        '' /etc/resolv.conf | sed '' @ [apostrophe] @ ''s/^search '' @ [backslash] @ ''(.*'' @
        [backslash] @ '') '' @ domain @ ''$/search '' @ [backslash] @ ''1/'' @ [apostrophe] @
        '' | sed '' @ [apostrophe] @ ''s/ *$//'' @ [apostrophe] @ ''); printf '' @ [apostrophe] @
        ''%s'' @ [backslash] @ ''n'' @ [apostrophe] @ '' '' @ [dquote] @ ''$c'' @ [dquote] @
        '' > /etc/resolv.conf'']]"

definition resolv_backup :: "string" where
  "resolv_backup =
     ''/etc/resolv.conf.kubendt''"

definition set_dns :: "string list \<Rightarrow> string list \<Rightarrow> string list list" where
  "set_dns servers search =
     (let content = concat (map (\<lambda>s. ''nameserver '' @ s @ [backslash, CHR ''n'']) servers) @
          (if search = [] then [] else ''search '' @ join_with '' '' search @ [backslash, CHR ''n'']) in
      [[''sh'', ''-c'', ''[ -f '' @ resolv_backup @ '' ] || cp /etc/resolv.conf '' @ resolv_backup @
        ''; printf '' @ [apostrophe] @ content @ [apostrophe] @ '' > /etc/resolv.conf'']])"

definition clear_dns :: "string list list" where
  "clear_dns =
     [[''sh'', ''-c'', ''if [ -f '' @ resolv_backup @ '' ]; then cat '' @ resolv_backup @
        '' > /etc/resolv.conf; fi'']]"

definition nat_tool :: "bool \<Rightarrow> string" where
  "nat_tool v6 =
     (if v6 then ''ip6tables'' else ''iptables'')"

definition nat_destination :: "string \<Rightarrow> int \<Rightarrow> bool \<Rightarrow> string" where
  "nat_destination ip port v6 =
     (if v6 then ''['' @ ip @ '']:'' @ int_str port else ip @ '':'' @ int_str port)"

definition enable_snat :: "string \<Rightarrow> bool \<Rightarrow> string list list" where
  "enable_snat iface v6 =
     [[''sh'', ''-c'', nat_tool v6 @ '' -t nat -C POSTROUTING -o '' @ iface @ '' -j MASQUERADE || '' @
        nat_tool v6 @ '' -t nat -A POSTROUTING -o '' @ iface @ '' -j MASQUERADE'']]"

definition disable_snat :: "string \<Rightarrow> bool \<Rightarrow> string list list" where
  "disable_snat iface v6 =
     [[nat_tool v6, ''-t'', ''nat'', ''-D'', ''POSTROUTING'', ''-o'', iface, ''-j'', ''MASQUERADE'']]"

definition enable_dnat :: "string \<Rightarrow> int \<Rightarrow> string \<Rightarrow> int \<Rightarrow> string \<Rightarrow> bool \<Rightarrow> string list list" where
  "enable_dnat iface ext_port ip port proto v6 =
     [[''sh'', ''-c'', nat_tool v6 @ '' -t nat -C PREROUTING -i '' @ iface @ '' -p '' @ proto @
        '' --dport '' @ int_str ext_port @ '' -j DNAT --to-destination '' @ nat_destination ip port v6 @
        '' || '' @ nat_tool v6 @ '' -t nat -A PREROUTING -i '' @ iface @ '' -p '' @ proto @
        '' --dport '' @ int_str ext_port @ '' -j DNAT --to-destination '' @ nat_destination ip port v6]]"

definition disable_dnat :: "string \<Rightarrow> int \<Rightarrow> string \<Rightarrow> int \<Rightarrow> string \<Rightarrow> bool \<Rightarrow> string list list" where
  "disable_dnat iface ext_port ip port proto v6 =
     [[nat_tool v6, ''-t'', ''nat'', ''-D'', ''PREROUTING'', ''-i'', iface, ''-p'', proto, ''--dport'', int_str ext_port,
       ''-j'', ''DNAT'', ''--to-destination'', nat_destination ip port v6]]"

definition setup_bridge :: "string \<Rightarrow> string list \<Rightarrow> string list list" where
  "setup_bridge bridge ifaces =
     [[''sh'', ''-c'', ''ip link show '' @ bridge @ '' || ip link add '' @ bridge @
        '' type bridge''], [''ip'', ''link'', ''set'', bridge, ''up'']] @
     map (\<lambda>i. [''ip'', ''link'', ''set'', i, ''master'', bridge]) ifaces"

definition teardown_bridge :: "string \<Rightarrow> string list list" where
  "teardown_bridge bridge =
     [[''ip'', ''link'', ''set'', bridge, ''down''], [''ip'', ''link'', ''del'', bridge, ''type'', ''bridge'']]"

definition add_interface_to_bridge :: "string \<Rightarrow> string \<Rightarrow> string list list" where
  "add_interface_to_bridge iface bridge =
     [[''ip'', ''link'', ''set'', iface, ''master'', bridge]]"

definition remove_interface_from_bridge :: "string \<Rightarrow> string \<Rightarrow> string list list" where
  "remove_interface_from_bridge iface bridge =
     [[''ip'', ''link'', ''set'', iface, ''nomaster'']]"

definition vlan_prelude :: "string \<Rightarrow> string" where
  "vlan_prelude dev =
     ''if [ -d /sys/class/net/'' @ dev @ ''/bridge ]; then b='' @ dev @
        ''; s=self; else b=$(ip link show '' @ dev @ '' | sed -n '' @ [apostrophe] @ ''s/.* master '' @
        [backslash] @ ''([^ ]*'' @ [backslash] @ '').*/'' @ [backslash] @ ''1/p'' @ [apostrophe] @
        '' | head -1); s=; fi; [ -n '' @ [dquote] @ ''$b'' @ [dquote] @ '' ] && ip link set '' @
        [dquote] @ ''$b'' @ [dquote] @ '' type bridge vlan_filtering 1''"

definition vlan_flush :: "string \<Rightarrow> string" where
  "vlan_flush dev =
     ''bridge vlan del dev '' @ dev @ '' vid 1-4094 $s''"

definition vlan_add :: "string \<Rightarrow> int \<Rightarrow> string \<Rightarrow> string" where
  "vlan_add dev vlan flags =
     ''bridge vlan add dev '' @ dev @ '' vid '' @ int_str vlan @ flags @ '' $s''"

definition vlan_set_access :: "string \<Rightarrow> int \<Rightarrow> string list list" where
  "vlan_set_access port vlan =
     [[''sh'', ''-c'', vlan_prelude port @ ''; '' @ vlan_flush port @ ''; '' @
        vlan_add port vlan '' pvid untagged'']]"

definition vlan_set_trunk :: "string \<Rightarrow> int list \<Rightarrow> int \<Rightarrow> string list list" where
  "vlan_set_trunk port vlans native =
     [[''sh'', ''-c'', join_with ''; ''
       ([vlan_prelude port, vlan_flush port] @
        map (\<lambda>v. vlan_add port v []) (filter (\<lambda>v. v \<noteq> native) vlans) @
        (if native \<noteq> 0 then [vlan_add port native '' pvid untagged''] else []))]]"

definition vlan_clear_port :: "string \<Rightarrow> string list list" where
  "vlan_clear_port port =
     [[''sh'', ''-c'', vlan_prelude port @ ''; '' @ vlan_flush port @ ''; '' @
        vlan_add port 1 '' pvid untagged'']]"

definition stp_state :: "string \<Rightarrow> string \<Rightarrow> string list list" where
  "stp_state bridge on =
     [[''ip'', ''link'', ''set'', bridge, ''type'', ''bridge'', ''stp_state'', on]]"

definition stp_set_bridge_priority :: "string \<Rightarrow> int \<Rightarrow> string list list" where
  "stp_set_bridge_priority bridge prio =
     [[''ip'', ''link'', ''set'', bridge, ''type'', ''bridge'', ''priority'', int_str prio]]"

definition stp_set_port :: "string \<Rightarrow> int \<Rightarrow> int \<Rightarrow> string list list" where
  "stp_set_port port cost prio =
     [[''bridge'', ''link'', ''set'', ''dev'', port] @ (if cost > 0 then [''cost'', int_str cost] else []) @
      (if prio \<ge> 0 then [''priority'', int_str prio] else [])]"

definition add_vlan_subinterface :: "string \<Rightarrow> int \<Rightarrow> string \<Rightarrow> string list list" where
  "add_vlan_subinterface parent vlan cidr =
     (let name = subinterface_name parent vlan in
      [[''sh'', ''-c'', ''ip link show '' @ name @ '' >/dev/null 2>&1 || ip link add link '' @ parent @
        '' name '' @ name @ '' type vlan id '' @ int_str vlan],
       [''ip'', ''link'', ''set'', name, ''up'']] @
      (if cidr = [] then [] else [[''ip'', ''addr'', ''replace'', cidr, ''dev'', name]]))"

definition remove_vlan_subinterface :: "string \<Rightarrow> int \<Rightarrow> string list list" where
  "remove_vlan_subinterface parent vlan =
     [[''ip'', ''link'', ''del'', subinterface_name parent vlan]]"

subsection \<open>The NAT64 translator\<close>

text \<open>\<open>IP.To4\<close>, \<open>None\<close> where Go returns nil; \<open>n.IP\<close> is the address under the mask.\<close>

definition to4_bytes :: "ip_addr \<Rightarrow> nat list option" where
  "to4_bytes a =
     (case a of V4 os \<Rightarrow> Some os
      | V6 gs \<Rightarrow> if to4_ok (V6 gs) then Some [gs ! 6 div 256, gs ! 6 mod 256, gs ! 7 div 256, gs ! 7 mod 256] else None)"

definition network_ip :: "ip_addr \<times> nat \<Rightarrow> ip_addr" where
  "network_ip an =
     (case an of (V4 os, n) \<Rightarrow> V4 (mask_parts 8 n os) | (V6 gs, n) \<Rightarrow> V6 (mask_parts 16 n gs))"

definition hex2 :: "nat \<Rightarrow> string" where "hex2 n = [hex_digit (n div 16), hex_digit (n mod 16)]"

text \<open>\<open>taygaAddresses\<close>: \<open>None\<close> is the panic of \<open>first[3]++\<close> on an empty slice.\<close>

definition tayga_addresses :: "string \<Rightarrow> (string \<times> string) option" where
  "tayga_addresses pool =
     (case parse_cidr pool of
        None \<Rightarrow> Some ([], [])
      | Some an \<Rightarrow>
          (case to4_bytes (network_ip an) of
             None \<Rightarrow> None
           | Some b \<Rightarrow> Some (join_with ''.'' (map nat_str (b[3 := (b ! 3 + 1) mod 256])),
               ''fd64:'' @ hex2 (b ! 0) @ hex2 (b ! 1) @ '':'' @ hex2 (b ! 2) @ hex2 (b ! 3) @ ''::1'')))"

definition tayga_alive :: string where
  "tayga_alive =
     ''for p in $(pgrep -x tayga); do grep -q '' @ [apostrophe] @ ''^State:.Z'' @ [apostrophe] @ '' /proc/$p/status || exit 0; done; exit 1''"

definition nat64_enable :: "string \<Rightarrow> string \<Rightarrow> string list list option" where
  "nat64_enable prefix pool =
     (case tayga_addresses pool of
        None \<Rightarrow> None
      | Some (v4, v6) \<Rightarrow>
          let conf = join_with [backslash, CHR ''n''] [''tun-device nat64'', ''ipv4-addr '' @ v4, ''ipv6-addr '' @ v6,
                ''prefix '' @ prefix, ''dynamic-pool '' @ pool, ''wkpf-strict no''] in
          Some [[''sh'', ''-c'', join_with ''; ''
            [''pkill -9 -x tayga 2>/dev/null'', ''ip link del nat64 2>/dev/null'',
             ''printf '' @ [apostrophe] @ conf @ [backslash, CHR ''n'', apostrophe] @ '' > /etc/tayga.conf'',
             ''tayga --mktun -c /etc/tayga.conf'', ''ip link set nat64 up'',
             ''ip route replace '' @ pool @ '' dev nat64'', ''ip -6 route replace '' @ prefix @ '' dev nat64'',
             ''nohup tayga --nodetach --stdout -c /etc/tayga.conf >/var/log/tayga.log 2>&1 & sleep 1'',
             tayga_alive]]])"

definition nat64_disable :: "string list list" where
  "nat64_disable =
     [[''sh'', ''-c'', ''pkill -9 -x tayga 2>/dev/null; tayga --rmtun -c /etc/tayga.conf 2>/dev/null; '' @
       ''ip link del nat64 2>/dev/null; rm -f /etc/tayga.conf; true'']]"

text \<open>\<open>ISISLSPMTU\<close> of \<open>capabilities/isis.go\<close>, the LSP MTU every driver sets.\<close>

definition isis_lsp_mtu :: int where "isis_lsp_mtu = 1277"

section \<open>Methods by name\<close>

datatype build = Rows "string list list" | Panics | NoMethod

definition on_args0 :: "string list list \<Rightarrow> arg list \<Rightarrow> build" where
  "on_args0 r as = (case as of [] \<Rightarrow> Rows r | _ \<Rightarrow> NoMethod)"

definition on_s :: "(string \<Rightarrow> string list list) \<Rightarrow> arg list \<Rightarrow> build" where
  "on_s f as = (case as of [AStr x] \<Rightarrow> Rows (f x) | _ \<Rightarrow> NoMethod)"

definition on_ss :: "(string \<Rightarrow> string \<Rightarrow> string list list) \<Rightarrow> arg list \<Rightarrow> build" where
  "on_ss f as = (case as of [AStr x, AStr y] \<Rightarrow> Rows (f x y) | _ \<Rightarrow> NoMethod)"

definition on_sss :: "(string \<Rightarrow> string \<Rightarrow> string \<Rightarrow> string list list) \<Rightarrow> arg list \<Rightarrow> build" where
  "on_sss f as = (case as of [AStr x, AStr y, AStr z] \<Rightarrow> Rows (f x y z) | _ \<Rightarrow> NoMethod)"

definition on_si :: "(string \<Rightarrow> int \<Rightarrow> string list list) \<Rightarrow> arg list \<Rightarrow> build" where
  "on_si f as = (case as of [AStr x, AInt n] \<Rightarrow> Rows (f x n) | _ \<Rightarrow> NoMethod)"

definition on_sb :: "(string \<Rightarrow> bool \<Rightarrow> string list list) \<Rightarrow> arg list \<Rightarrow> build" where
  "on_sb f as = (case as of [AStr x, ABool b] \<Rightarrow> Rows (f x b) | _ \<Rightarrow> NoMethod)"

definition on_dnat :: "(string \<Rightarrow> int \<Rightarrow> string \<Rightarrow> int \<Rightarrow> string \<Rightarrow> bool \<Rightarrow> string list list) \<Rightarrow> arg list \<Rightarrow> build" where
  "on_dnat f as = (case as of [AStr i, AInt e, AStr ip, AInt p, AStr pr, ABool b] \<Rightarrow> Rows (f i e ip p pr b) | _ \<Rightarrow> NoMethod)"

lemmas on_args_defs = on_args0_def on_s_def on_ss_def on_sss_def on_si_def on_sb_def on_dnat_def

text \<open>The methods a driver takes from each base struct it embeds, and the Linux router, which embeds all.\<close>

definition l2_base_methods :: "(string \<times> (arg list \<Rightarrow> build)) list" where
  "l2_base_methods =
     [(''LinkUp'', on_s (\<lambda>i. link_set i ''up'')),
      (''LinkDown'', on_s (\<lambda>i. link_set i ''down''))]"

definition l3_base_methods :: "(string \<times> (arg list \<Rightarrow> build)) list" where
  "l3_base_methods =
     [(''SetIP'', on_ss set_ip),
      (''ReplaceIP'', on_ss replace_ip),
      (''RemoveIP'', on_ss remove_ip),
      (''SetDefaultRoute'', on_s set_default_route),
      (''RemoveDefaultRoute'', on_args0 remove_default_route),
      (''RemoveDefaultRoute6'', on_args0 remove_default_route6),
      (''AddStaticRoute'', on_sss add_static_route),
      (''RemoveStaticRoute'', on_sss remove_static_route),
      (''AddDNSNameserver'', on_s add_dns_nameserver),
      (''RemoveDNSNameserver'', on_s remove_dns_nameserver),
      (''AddDNSSearch'', on_s add_dns_search),
      (''RemoveDNSSearch'', on_s remove_dns_search),
      (''SetDNS'', \<lambda>as. case as of [AStrs xs, AStrs ys] \<Rightarrow> Rows (set_dns xs ys) | _ \<Rightarrow> NoMethod),
      (''ClearDNS'', on_args0 clear_dns)]"

definition subinterface_base_methods :: "(string \<times> (arg list \<Rightarrow> build)) list" where
  "subinterface_base_methods =
     [(''AddVLANSubinterface'', \<lambda>as. case as of [AStr p, AInt v, AStr c] \<Rightarrow> Rows (add_vlan_subinterface p v c) | _ \<Rightarrow> NoMethod),
      (''RemoveVLANSubinterface'', on_si remove_vlan_subinterface)]"

definition switch_base_methods :: "(string \<times> (arg list \<Rightarrow> build)) list" where
  "switch_base_methods =
     [(''SetupBridge'', \<lambda>as. case as of [AStr b, AStrs is] \<Rightarrow> Rows (setup_bridge b is) | _ \<Rightarrow> NoMethod),
      (''TeardownBridge'', on_s teardown_bridge),
      (''AddInterfaceToBridge'', on_ss add_interface_to_bridge),
      (''RemoveInterfaceFromBridge'', on_ss remove_interface_from_bridge)]"

definition vlan_base_methods :: "(string \<times> (arg list \<Rightarrow> build)) list" where
  "vlan_base_methods =
     [(''VLANSetAccess'', on_si vlan_set_access),
      (''VLANSetTrunk'', \<lambda>as. case as of [AStr p, AInts vs, AInt n] \<Rightarrow> Rows (vlan_set_trunk p vs n) | _ \<Rightarrow> NoMethod),
      (''VLANClearPort'', on_s vlan_clear_port)]"

definition stp_base_methods :: "(string \<times> (arg list \<Rightarrow> build)) list" where
  "stp_base_methods =
     [(''STPEnable'', on_ss (\<lambda>b _. stp_state b ''1'')),
      (''STPDisable'', on_s (\<lambda>b. stp_state b ''0'')),
      (''STPSetBridgePriority'', on_si stp_set_bridge_priority),
      (''STPSetPort'', \<lambda>as. case as of [AStr p, AInt c, AInt n] \<Rightarrow> Rows (stp_set_port p c n) | _ \<Rightarrow> NoMethod)]"

definition nat_base_methods :: "(string \<times> (arg list \<Rightarrow> build)) list" where
  "nat_base_methods =
     [(''EnableSNAT'', on_sb enable_snat),
      (''DisableSNAT'', on_sb disable_snat),
      (''EnableDNAT'', on_dnat enable_dnat),
      (''DisableDNAT'', on_dnat disable_dnat)]"

definition nat64_base_methods :: "(string \<times> (arg list \<Rightarrow> build)) list" where
  "nat64_base_methods =
     [(''NAT64Enable'', \<lambda>as. case as of [AStr p, AStr q] \<Rightarrow>
          (case nat64_enable p q of None \<Rightarrow> Panics | Some r \<Rightarrow> Rows r) | _ \<Rightarrow> NoMethod),
      (''NAT64Disable'', on_args0 nat64_disable)]"

lemmas base_methods_defs =
  l2_base_methods_def l3_base_methods_def subinterface_base_methods_def switch_base_methods_def
  vlan_base_methods_def stp_base_methods_def nat_base_methods_def nat64_base_methods_def

definition linux_methods :: "(string \<times> (arg list \<Rightarrow> build)) list" where
  "linux_methods =
     l2_base_methods @ l3_base_methods @ subinterface_base_methods @ switch_base_methods @
     vlan_base_methods @ stp_base_methods @ nat_base_methods @ nat64_base_methods"

definition rows_with :: "(string \<times> (arg list \<Rightarrow> build)) list \<Rightarrow> cap_call \<Rightarrow> build" where
  "rows_with methods c =
     (case c of Commands cs \<Rightarrow> Rows cs
      | Call m as \<Rightarrow> (case map_of methods m of None \<Rightarrow> NoMethod | Some f \<Rightarrow> f as))"

text \<open>A call is found in the part of the table that declares it.\<close>

lemma rows_with_part:
  assumes "distinct (map fst ms)" and "set ys \<subseteq> set ms" and "map_of ys m = Some f"
  shows "rows_with ms (Call m as) = f as"
proof -
  have "map_of ms m = Some f" using assms map_of_SomeD by (fastforce intro: map_of_is_SomeI)
  then show ?thesis by (simp add: rows_with_def)
qed

definition linux_rows :: "cap_call \<Rightarrow> build" where
  "linux_rows = rows_with linux_methods"

section \<open>IOS-XR\<close>

text \<open>\<open>xrCIDRToIPMask\<close>: the first four bytes of the mask, whatever the family of the prefix.\<close>

definition xr_cidr_to_ip_mask :: "string \<Rightarrow> (string \<times> string) option" where
  "xr_cidr_to_ip_mask cidr =
     (case parse_cidr cidr of
        None \<Rightarrow> None
      | Some (_, n) \<Rightarrow> Some (fst (cut_at CHR ''/'' cidr), join_with ''.'' (map nat_str (mask_parts 8 n [255, 255, 255, 255]))))"

definition xr_set_ip :: "string \<Rightarrow> string \<Rightarrow> string list list" where
  "xr_set_ip iface cidr =
     (case xr_cidr_to_ip_mask cidr of None \<Rightarrow> []
      | Some (ip, bits) \<Rightarrow> [[''interface '' @ iface, '' ipv4 address '' @ ip @ '' '' @ bits]])"

definition xr_static :: "string \<Rightarrow> string list list" where
  "xr_static line = [[''router static'', ''address-family ipv4 unicast'', line, ''!'']]"

definition xr_methods :: "(string \<times> (arg list \<Rightarrow> build)) list" where
  "xr_methods =
     [(''LinkUp'', on_s (\<lambda>i. [[''interface '' @ i, ''no shutdown'']])), (''LinkDown'', on_s (\<lambda>i. [[''interface '' @ i, ''shutdown'']])),
      (''SetIP'', on_ss xr_set_ip), (''ReplaceIP'', on_ss xr_set_ip),
      (''RemoveIP'', on_ss (\<lambda>i _. [[''interface '' @ i, '' no ipv4 address'']])),
      (''SetDefaultRoute'', on_s (\<lambda>g. xr_static ('' 0.0.0.0/0 '' @ g))),
      (''RemoveDefaultRoute'', on_args0 (xr_static '' no 0.0.0.0/0'')),
      (''AddStaticRoute'', on_sss (\<lambda>d v _. xr_static ('' '' @ d @ '' '' @ v))),
      (''RemoveStaticRoute'', on_sss (\<lambda>d _ _. xr_static ('' no '' @ d))),
      (''AddDNSNameserver'', on_s (\<lambda>s. [[''domain name-server '' @ s]])),
      (''RemoveDNSNameserver'', on_s (\<lambda>s. [[''no domain name-server '' @ s]])),
      (''AddDNSSearch'', on_s (\<lambda>d. [[''domain list '' @ d]])), (''RemoveDNSSearch'', on_s (\<lambda>d. [[''no domain list '' @ d]])),
      (''SetDNS'', \<lambda>as. case as of [AStrs xs, AStrs ys] \<Rightarrow>
          Rows (map (\<lambda>s. [''domain name-server '' @ s]) xs @ map (\<lambda>d. [''domain list '' @ d]) ys) | _ \<Rightarrow> NoMethod),
      (''ClearDNS'', on_args0 [[''no domain name-server''], [''no domain list'']])]"

definition xr_rows :: "cap_call \<Rightarrow> build" where
  "xr_rows = rows_with xr_methods"

section \<open>Every action has commands\<close>

lemma linux_rows_simps [simp]:
  "linux_rows (Commands cs) = Rows cs"
  "linux_rows (Call ''LinkUp'' [AStr i]) = Rows (link_set i ''up'')"
  "linux_rows (Call ''LinkDown'' [AStr i]) = Rows (link_set i ''down'')"
  "linux_rows (Call ''SetIP'' [AStr i, AStr c]) = Rows (set_ip i c)"
  "linux_rows (Call ''ReplaceIP'' [AStr i, AStr c]) = Rows (replace_ip i c)"
  "linux_rows (Call ''RemoveIP'' [AStr i, AStr c]) = Rows (remove_ip i c)"
  "linux_rows (Call ''SetDefaultRoute'' [AStr i]) = Rows (set_default_route i)"
  "linux_rows (Call ''RemoveDefaultRoute'' []) = Rows remove_default_route"
  "linux_rows (Call ''RemoveDefaultRoute6'' []) = Rows remove_default_route6"
  "linux_rows (Call ''AddStaticRoute'' [AStr i, AStr c, AStr e]) = Rows (add_static_route i c e)"
  "linux_rows (Call ''RemoveStaticRoute'' [AStr i, AStr c, AStr e]) = Rows (remove_static_route i c e)"
  "linux_rows (Call ''AddDNSNameserver'' [AStr i]) = Rows (add_dns_nameserver i)"
  "linux_rows (Call ''RemoveDNSNameserver'' [AStr i]) = Rows (remove_dns_nameserver i)"
  "linux_rows (Call ''AddDNSSearch'' [AStr i]) = Rows (add_dns_search i)"
  "linux_rows (Call ''RemoveDNSSearch'' [AStr i]) = Rows (remove_dns_search i)"
  "linux_rows (Call ''SetDNS'' [AStrs xs, AStrs ys]) = Rows (set_dns xs ys)"
  "linux_rows (Call ''ClearDNS'' []) = Rows clear_dns"
  by (simp_all add: linux_rows_def rows_with_def linux_methods_def base_methods_defs on_args_defs)

lemma linux_rows_simps2 [simp]:
  "linux_rows (Call ''EnableSNAT'' [AStr i, ABool b]) = Rows (enable_snat i b)"
  "linux_rows (Call ''DisableSNAT'' [AStr i, ABool b]) = Rows (disable_snat i b)"
  "linux_rows (Call ''EnableDNAT'' [AStr i, AInt e, AStr ip, AInt p, AStr pr, ABool b]) = Rows (enable_dnat i e ip p pr b)"
  "linux_rows (Call ''DisableDNAT'' [AStr i, AInt e, AStr ip, AInt p, AStr pr, ABool b]) = Rows (disable_dnat i e ip p pr b)"
  "linux_rows (Call ''SetupBridge'' [AStr i, AStrs is]) = Rows (setup_bridge i is)"
  "linux_rows (Call ''TeardownBridge'' [AStr i]) = Rows (teardown_bridge i)"
  "linux_rows (Call ''AddInterfaceToBridge'' [AStr i, AStr c]) = Rows (add_interface_to_bridge i c)"
  "linux_rows (Call ''RemoveInterfaceFromBridge'' [AStr i, AStr c]) = Rows (remove_interface_from_bridge i c)"
  "linux_rows (Call ''VLANSetAccess'' [AStr i, AInt n]) = Rows (vlan_set_access i n)"
  "linux_rows (Call ''VLANSetTrunk'' [AStr i, AInts vs, AInt n]) = Rows (vlan_set_trunk i vs n)"
  "linux_rows (Call ''VLANClearPort'' [AStr i]) = Rows (vlan_clear_port i)"
  "linux_rows (Call ''STPEnable'' [AStr i, AStr c]) = Rows (stp_state i ''1'')"
  "linux_rows (Call ''STPDisable'' [AStr i]) = Rows (stp_state i ''0'')"
  "linux_rows (Call ''STPSetBridgePriority'' [AStr i, AInt n]) = Rows (stp_set_bridge_priority i n)"
  "linux_rows (Call ''STPSetPort'' [AStr i, AInt n, AInt k]) = Rows (stp_set_port i n k)"
  "linux_rows (Call ''AddVLANSubinterface'' [AStr i, AInt n, AStr c]) = Rows (add_vlan_subinterface i n c)"
  "linux_rows (Call ''RemoveVLANSubinterface'' [AStr i, AInt n]) = Rows (remove_vlan_subinterface i n)"
  "linux_rows (Call ''NAT64Disable'' []) = Rows nat64_disable"
  by (simp_all add: linux_rows_def rows_with_def linux_methods_def base_methods_defs on_args_defs)

text \<open>Rows a batch can run: at least one, none empty.\<close>

definition runnable :: "build \<Rightarrow> bool" where
  "runnable b \<longleftrightarrow> (\<exists>rows. b = Rows rows \<and> rows \<noteq> [] \<and> [] \<notin> set rows)"

lemma runnable_Rows [simp]: "runnable (Rows rows) \<longleftrightarrow> rows \<noteq> [] \<and> [] \<notin> set rows"
  by (simp add: runnable_def)

lemmas base_command_defs =
  link_set_def set_ip_def replace_ip_def remove_ip_def set_default_route_def remove_default_route_def
  remove_default_route6_def add_static_route_def remove_static_route_def add_dns_nameserver_def
  remove_dns_nameserver_def add_dns_search_def remove_dns_search_def set_dns_def clear_dns_def
  enable_snat_def disable_snat_def enable_dnat_def disable_dnat_def setup_bridge_def
  teardown_bridge_def add_interface_to_bridge_def remove_interface_from_bridge_def
  vlan_set_access_def vlan_set_trunk_def vlan_clear_port_def stp_state_def
  stp_set_bridge_priority_def stp_set_port_def add_vlan_subinterface_def remove_vlan_subinterface_def

lemma runnable_l2: "e \<in> set l2_actions \<Longrightarrow> ad_run e v a = Inr c \<Longrightarrow> runnable (linux_rows c)"
  by (auto simp: l2_actions_def declare_action_def call_def base_command_defs)

lemma runnable_l3: "e \<in> set l3_actions \<Longrightarrow> ad_run e v a = Inr c \<Longrightarrow> runnable (linux_rows c)"
  by (auto simp: l3_actions_def declare_action_def call_def base_command_defs Let_def split: if_splits)

lemma runnable_subinterface: "e \<in> set subinterface_actions \<Longrightarrow> ad_run e v a = Inr c \<Longrightarrow> runnable (linux_rows c)"
  by (auto simp: subinterface_actions_def declare_action_def call_def base_command_defs Let_def split: if_splits)

lemma runnable_switch: "e \<in> set switch_actions \<Longrightarrow> ad_run e v a = Inr c \<Longrightarrow> runnable (linux_rows c)"
  by (auto simp: switch_actions_def declare_action_def call_def base_command_defs)

lemma runnable_vlan: "e \<in> set vlan_actions \<Longrightarrow> ad_run e v a = Inr c \<Longrightarrow> runnable (linux_rows c)"
  by (auto simp: vlan_actions_def declare_action_def call_def base_command_defs)

lemma runnable_stp: "e \<in> set stp_actions \<Longrightarrow> ad_run e v a = Inr c \<Longrightarrow> runnable (linux_rows c)"
  by (auto simp: stp_actions_def declare_action_def call_def base_command_defs Let_def split: list.splits option.splits)

lemma runnable_nat: "e \<in> set nat_actions \<Longrightarrow> ad_run e v a = Inr c \<Longrightarrow> runnable (linux_rows c)"
  by (auto simp: nat_actions_def declare_action_def call_def base_command_defs)

section \<open>What the shell makes of the arguments\<close>

text \<open>Characters that mean nothing to sh, and the texts made of them.\<close>

definition inert_char :: "char \<Rightarrow> bool" where
  "inert_char c \<longleftrightarrow> \<not> sh_special c \<and> \<not> is_space c \<and> c \<noteq> apostrophe \<and> c \<noteq> backslash"
lemma char_in_all: "c \<in> set (map char_of [0 ..< 256 :: nat])"
proof -
  have "c = char_of (of_char c :: nat)" by simp
  moreover have "(of_char c :: nat) \<in> set [0 ..< 256]" by simp
  ultimately show ?thesis by (metis image_eqI set_map)
qed
lemma addr_inert: "is_alnum c \<or> c \<in> set ''.:/-'' \<Longrightarrow> inert_char c"
proof -
  have "list_all (\<lambda>c. is_alnum c \<or> c \<in> set ''.:/-'' \<longrightarrow> inert_char c) (map char_of [0 ..< 256 :: nat])"
    by code_simp
  then show "is_alnum c \<or> c \<in> set ''.:/-'' \<Longrightarrow> inert_char c" using char_in_all unfolding list_all_iff by blast
qed
definition addr_char :: "char \<Rightarrow> bool" where
  "addr_char c \<longleftrightarrow> is_hex c \<or> c = CHR ''.'' \<or> c = CHR '':''"

lemma split_on_chars: "list_all (list_all P) (split_on sep s) \<Longrightarrow> P sep \<Longrightarrow> list_all P s"
  by (induction sep s rule: split_on.induct) (auto split: if_splits list.splits)

lemma addr_char_colon [simp]: "addr_char CHR '':''" by (simp add: addr_char_def)

lemma digit_addr: "is_digit c \<Longrightarrow> addr_char c" by (simp add: addr_char_def is_hex_def)

lemma parse_v4_chars: "parse_v4 s = Some os \<Longrightarrow> list_all addr_char s"
proof -
  assume "parse_v4 s = Some os"
  then have "list_all (list_all is_digit) (split_on CHR ''.'' s)"
    by (auto simp: parse_v4_def Let_def list_all_iff image_iff parse_octet_def split: if_splits)
  then show ?thesis by (intro split_on_chars [of _ "CHR ''.''"]) (auto simp: list_all_iff digit_addr addr_char_def is_hex_def)
qed

lemma v6_loop_chars: "v6_loop room gs el s = Some (gs', el', rest) \<Longrightarrow> \<exists>p. s = p @ rest \<and> list_all addr_char p"
proof (induction room gs el s arbitrary: gs' el' rest rule: v6_loop.induct)
  case (1 gs el s)
  then show ?case by simp
next
  case (2 room gs el s)
  define h r where "h = takeWhile is_hex s" and "r = dropWhile is_hex s"
  have s: "s = h @ r" by (simp add: h_def r_def)
  have h: "list_all addr_char h" using set_takeWhileD by (fastforce simp: h_def list_all_iff addr_char_def)
  have ne: "\<not> (h = [] \<or> length h > 4)" using "2.prems" by (auto simp: h_def Let_def)
  show ?case
  proof (cases r)
    case Nil
    with "2.prems" ne have "rest = []" by (simp add: h_def [symmetric] r_def [symmetric])
    with s h Nil show ?thesis by auto
  next
    case (Cons c cs)
    consider (dot) "c = CHR ''.''" | (two) "c = CHR '':''" "cs \<noteq> []" "hd cs = CHR '':''" | (one) "c = CHR '':''" "cs \<noteq> []" "hd cs \<noteq> CHR '':''"
      using "2.prems" ne Cons by (auto simp: h_def [symmetric] r_def [symmetric] split: if_splits)
    then show ?thesis
    proof cases
      case dot
      with "2.prems" ne Cons obtain os where "parse_v4 s = Some os" "rest = []"
        by (auto simp: h_def [symmetric] r_def [symmetric] split: if_splits option.splits)
      with parse_v4_chars show ?thesis by auto
    next
      case two
      then obtain ds where ds: "cs = CHR '':'' # ds" by (cases cs) auto
      show ?thesis
      proof (cases "ds = []")
        case True
        with "2.prems" ne Cons two ds have "rest = []"
          by (auto simp: h_def [symmetric] r_def [symmetric] split: if_splits)
        moreover have "addr_char CHR '':''" by (simp add: addr_char_def)
        ultimately show ?thesis using s h Cons ds two True by (intro exI [of _ s]) simp
      next
        case False
        with "2.prems" ne Cons two ds have "el = None"
          "v6_loop room (gs @ [hex_group h]) (Some (Suc (length gs))) ds = Some (gs', el', rest)"
          by (auto simp: h_def [symmetric] r_def [symmetric] split: if_splits)
        with "2.IH"(1) [OF h_def r_def ne Cons] two ds False obtain p where "ds = p @ rest" "list_all addr_char p"
          by (auto split: if_splits)
        with s h Cons ds two show ?thesis by (intro exI [of _ "h @ ''::'' @ p"]) simp
      qed
    next
      case one
      with "2.prems" ne Cons have "v6_loop room (gs @ [hex_group h]) el cs = Some (gs', el', rest)"
        by (auto simp: h_def [symmetric] r_def [symmetric] split: if_splits)
      with "2.IH"(2) [OF h_def r_def ne Cons] one obtain p where "cs = p @ rest" "list_all addr_char p" by auto
      with s h Cons one show ?thesis by (intro exI [of _ "h @ '':'' @ p"]) simp
    qed
  qed
qed

lemma parse_v6_chars: "parse_v6 s = Some gs \<Longrightarrow> list_all addr_char s"
proof -
  assume p: "parse_v6 s = Some gs"
  have fin: "v6_loop n gs0 el t = Some q \<Longrightarrow> v6_finish q = Some gs \<Longrightarrow> list_all addr_char t" for n gs0 el t q
    using v6_loop_chars [of n gs0 el t] by (cases q) (fastforce simp: v6_finish_def split: if_splits)
  show ?thesis
  proof (cases "has_prefix s ''::''")
    case True
    then have s: "s = ''::'' @ drop 2 s" by (metis append_take_drop_id has_prefix_def length_Cons list.size(3) numeral_2_eq_2)
    have "list_all addr_char (drop 2 s)"
    proof (cases "length s = 2")
      case False
      with p True fin show ?thesis by (auto simp: parse_v6_def bind_eq_Some_conv)
    qed simp
    moreover have "list_all addr_char ''::''" by (simp add: addr_char_def)
    ultimately show ?thesis using s by (metis list_all_append)
  next
    case False
    with p fin show ?thesis by (auto simp: parse_v6_def bind_eq_Some_conv)
  qed
qed

lemma parse_ip_chars: "parse_ip s \<noteq> None \<Longrightarrow> list_all addr_char s"
  by (auto simp: parse_ip_def parse_v4_chars parse_v6_chars split: list.splits if_splits)

lemma parse_cidr_chars: "parse_cidr s \<noteq> None \<Longrightarrow> list_all (\<lambda>c. addr_char c \<or> c = CHR ''/'') s"
proof -
  assume p: "parse_cidr s \<noteq> None"
  define a m where "a = takeWhile (\<lambda>c. c \<noteq> CHR ''/'') s" and "m = drop 1 (dropWhile (\<lambda>c. c \<noteq> CHR ''/'') s)"
  from p have in_s: "CHR ''/'' \<in> set s" and ip: "parse_ip a \<noteq> None" and d: "list_all is_digit m"
    by (auto simp: parse_cidr_def cut_at_def a_def m_def split: if_splits option.splits)
  obtain x xs where dw: "dropWhile (\<lambda>c. c \<noteq> CHR ''/'') s = x # xs"
    using in_s by (cases "dropWhile (\<lambda>c. c \<noteq> CHR ''/'') s") (auto simp: dropWhile_eq_Nil_conv)
  then have "x = CHR ''/''" using dropWhile_eq_Cons_conv [of "\<lambda>c. c \<noteq> CHR ''/''"] by metis
  moreover have "m = xs" by (simp add: m_def dw)
  ultimately have "dropWhile (\<lambda>c. c \<noteq> CHR ''/'') s = CHR ''/'' # m" using dw by simp
  then have "s = a @ CHR ''/'' # m" by (metis a_def takeWhile_dropWhile_id)
  with parse_ip_chars [OF ip] d show ?thesis by (auto simp: list_all_iff digit_addr)
qed

definition shell_inert :: "string \<Rightarrow> bool" where
  "shell_inert s \<longleftrightarrow> list_all inert_char s"

lemma shell_inert_Nil [simp]: "shell_inert []" by (simp add: shell_inert_def)

lemma hex_alnum: "is_hex c \<Longrightarrow> is_alnum c"
  by (auto simp: is_hex_def is_alnum_def is_alpha_def)

lemma addr_char_inert: "addr_char c \<Longrightarrow> inert_char c"
  by (rule addr_inert) (auto simp: addr_char_def dest: hex_alnum)

lemma ip_inert: "parse_ip s \<noteq> None \<Longrightarrow> shell_inert s"
  using parse_ip_chars [of s] addr_char_inert unfolding shell_inert_def list_all_iff by blast

lemma slash_inert: "inert_char CHR ''/''" by (rule addr_inert) simp

lemma cidr_inert: "parse_cidr s \<noteq> None \<Longrightarrow> shell_inert s"
  using parse_cidr_chars [of s] addr_char_inert slash_inert unfolding shell_inert_def list_all_iff by blast

lemma domain_inert: "domain_name s \<Longrightarrow> shell_inert s"
proof -
  assume "domain_name s"
  then have "list_all (list_all (\<lambda>c. is_alnum c \<or> c \<in> set ''.:/-'')) (split_on CHR ''.'' s)"
    by (auto simp: domain_name_def domain_label_def list_all_iff)
  then have "list_all (\<lambda>c. is_alnum c \<or> c \<in> set ''.:/-'') s" by (rule split_on_chars) simp
  then show ?thesis using addr_inert unfolding shell_inert_def list_all_iff by blast
qed

lemma inert_by_kind:
  assumes "validate_param ex al a p = None" and "map_of (fields_of a) (pm_name p) = Some (VStr s)"
    and "pm_kind p \<in> {KindIP, KindCIDR}"
  shows "shell_inert s"
  using assms by (cases "s = []") (auto simp: validate_param_def check_kind_def on_str_def ip_inert cidr_inert split: if_splits option.splits)

lemma inert_by_list_kind:
  assumes "validate_param ex al a p = None" and "map_of (fields_of a) (pm_name p) = Some (VStrs xs)"
    and "pm_kind p \<in> {KindIPList, KindDomainList}" and "x \<in> set xs"
  shows "shell_inert x"
  using assms
  by (cases "xs = []") (auto simp: validate_param_def check_kind_def on_strs_def list_all_iff ip_inert domain_inert split: if_splits option.splits)

lemma inert_fields:
  "validate_param ex al a P_CIDR = None \<Longrightarrow> shell_inert (e_cidr a)"
  "validate_param ex al a (optional P_CIDR) = None \<Longrightarrow> shell_inert (e_cidr a)"
  "validate_param ex al a P_DstCIDR = None \<Longrightarrow> shell_inert (e_dst_cidr a)"
  "validate_param ex al a P_Gateway = None \<Longrightarrow> shell_inert (e_gateway a)"
  "validate_param ex al a P_DNSServer = None \<Longrightarrow> shell_inert (e_dns_server a)"
  "validate_param ex al a P_InternalIP = None \<Longrightarrow> shell_inert (e_internal_ip a)"
  by (erule inert_by_kind; simp add: fields_of_def param_defs optional_def)+

lemma inert_list_fields:
  "validate_param ex al a P_DNSServers = None \<Longrightarrow> x \<in> set (e_dns_servers a) \<Longrightarrow> shell_inert x"
  "validate_param ex al a P_DNSSearch = None \<Longrightarrow> x \<in> set (e_dns_search a) \<Longrightarrow> shell_inert x"
  by (erule inert_by_list_kind; simp add: fields_of_def param_defs)+

definition texts :: "arg list \<Rightarrow> string list" where
  "texts as = concat (map (\<lambda>a. case a of AStr s \<Rightarrow> [s] | AStrs xs \<Rightarrow> xs | _ \<Rightarrow> []) as)"

definition free_text :: "action_entry \<Rightarrow> string list" where
  "free_text a = [e_iface a, e_device a, e_dns_domain a, e_protocol a]"

lemma inert_l3:
  assumes "e \<in> set l3_actions" and "validate ex e a = None" and "ad_run e v a = Inr (Call m as)" and "x \<in> set (texts as)"
  shows "shell_inert x \<or> x \<in> set (free_text a)"
  using assms
  by (auto simp: l3_actions_def declare_action_def call_def validate_None texts_def free_text_def split: if_splits)
    (blast dest: inert_fields inert_list_fields)+

lemma inert_l4:
  assumes "e \<in> set (subinterface_actions @ vlan_actions @ nat_actions)" and "validate ex e a = None"
    and "ad_run e v a = Inr (Call m as)" and "x \<in> set (texts as)"
  shows "shell_inert x \<or> x \<in> set (free_text a)"
  using assms
  by (auto simp: subinterface_actions_def vlan_actions_def nat_actions_def declare_action_def call_def validate_None texts_def
      free_text_def split: if_splits)
    (blast dest: inert_fields)+
text \<open>
  C19: what a validated addressing, subinterface, VLAN or NAT action hands to a command holds no
  character that means anything to the shell, except through the four fields that are not
  checked for it: interface names, the search domain and the protocol.
\<close>

theorem validated_arguments_inert:
  assumes "e \<in> set (l3_actions @ subinterface_actions @ vlan_actions @ nat_actions)"
    and "validate ex e a = None" and "ad_run e v a = Inr (Call m as)" and "x \<in> set (texts as)"
  shows "shell_inert x \<or> x \<in> {e_iface a, e_device a, e_dns_domain a, e_protocol a}"
proof -
  from assms(1) consider "e \<in> set l3_actions" | "e \<in> set (subinterface_actions @ vlan_actions @ nat_actions)" by auto
  then have "shell_inert x \<or> x \<in> set (free_text a)"
    using inert_l3 inert_l4 assms(2-4) by cases metis+
  then show ?thesis by (simp add: free_text_def)
qed

theorem validated_arguments_inert_witness:
  "shell_inert ''10.0.0.1/24''"
proof -
  let ?a = "(entry_of ''set_ip'')\<lparr>e_iface := ''eth1'', e_cidr := ''10.0.0.1/24''\<rparr>"
  have m: "hd l3_actions \<in> set (l3_actions @ subinterface_actions @ vlan_actions @ nat_actions)"
    by (simp add: l3_actions_def)
  have ps: "ad_params (hd l3_actions) = [P_Iface, P_CIDR]" "\<not> ad_allow_protected (hd l3_actions)"
    by (simp_all add: l3_actions_def declare_action_def)
  have "validate_param [] False ?a P_Iface = None" "validate_param [] False ?a P_CIDR = None" by code_simp+
  with ps have v: "validate [] (hd l3_actions) ?a = None" by (simp add: validate_None)
  have r: "ad_run (hd l3_actions) u ?a = Inr (Call ''SetIP'' [AStr ''eth1'', AStr ''10.0.0.1/24''])" for u
    by (simp add: l3_actions_def declare_action_def call_def)
  from validated_arguments_inert [OF m v r, of "''10.0.0.1/24''"] show ?thesis
    by (simp add: texts_def) (simp add: entry_of_def)
qed

text \<open>What follows the closing apostrophe of a \<open>$'...'\<close> text, where a backslash keeps the next character.\<close>

fun ansi_rest :: "string \<Rightarrow> string option" where
  "ansi_rest [] = None"
| "ansi_rest (c # cs) =
     (if c = backslash then (case cs of [] \<Rightarrow> None | d # ds \<Rightarrow> ansi_rest ds)
      else if c = apostrophe then Some cs else ansi_rest cs)"

lemma ansi_rest_escaped:
  "list_all (\<lambda>c. c \<noteq> backslash) s \<Longrightarrow> ansi_rest (escape_quotes s @ t) = ansi_rest t"
  by (induction s) (auto simp: escape_quotes_def)

lemma ansi_rest_joined:
  "list_all (list_all (\<lambda>c. c \<noteq> backslash)) ls \<Longrightarrow>
     ansi_rest (join_with [backslash, CHR ''n''] (map escape_quotes ls) @ t) = ansi_rest t"
  by (induction ls rule: induct_list012) (simp_all add: ansi_rest_escaped)

text \<open>The VyOS block keeps its lines inside the quotes, as long as no line has a backslash.\<close>

lemma vyos_apply_quotes_closed:
  assumes "list_all (list_all (\<lambda>c. c \<noteq> backslash)) (cm_args c)" and "dispatch_as_vyos_apply c = Inr [script]"
  shows "\<exists>body. script = ''ssh_qemu /bin/vbash -s <<< $'' @ [apostrophe] @ body \<and> ansi_rest body = Some []"
proof -
  let ?ls = "[''source /opt/vyatta/etc/functions/script-template'', ''configure''] @ cm_args c @ [''commit'', ''exit'']"
  let ?body = "join_with [backslash, CHR ''n''] (map escape_quotes ?ls) @ [apostrophe]"
  have plain: "escape_quotes s = s" if "apostrophe \<notin> set s" for s
    using that by (induction s) (auto simp: escape_quotes_def)
  have "script = ''ssh_qemu /bin/vbash -s <<< $'' @ [apostrophe] @ ?body"
    using assms(2) by (simp add: dispatch_as_vyos_apply_def plain split: if_splits)
  moreover have "ansi_rest ?body = Some []" using assms(1) by (subst ansi_rest_joined) simp_all
  ultimately show ?thesis by blast
qed

section \<open>Text that reaches the shell unchecked\<close>

definition snat_entry :: "string \<Rightarrow> action_entry" where
  "snat_entry i = (entry_of ''enable_snat'')\<lparr>e_iface := i\<rparr>"

definition search_entry :: "string \<Rightarrow> action_entry" where
  "search_entry d = (entry_of ''add_dns_search'')\<lparr>e_dns_domain := d\<rparr>"

lemma snat_run: "ad_run (nat_actions ! 0) v (snat_entry i) = Inr (Call ''EnableSNAT'' [AStr i, ABool False])"
  by (simp add: nat_actions_def declare_action_def call_def snat_entry_def) (simp add: entry_of_def)

lemma search_run: "ad_run (l3_actions ! 9) v (search_entry d) = Inr (Call ''AddDNSSearch'' [AStr d])"
  by (simp add: l3_actions_def declare_action_def call_def search_entry_def)

text \<open>An unquoted text of harmless characters is part of the word it stands in.\<close>

lemma sh_read_inert: "s \<noteq> [] \<Longrightarrow> shell_inert s \<Longrightarrow> sh_read False w (s @ rest) = sh_read False (Some (begun w @ s)) rest"
proof (induction s arbitrary: w)
  case (Cons c s)
  have c: "c \<noteq> apostrophe" "c \<noteq> backslash" "\<not> sh_special c" "\<not> is_space c"
    using Cons.prems(2) by (simp_all add: shell_inert_def inert_char_def)
  moreover have "c \<noteq> CHR '' ''" "c \<noteq> CHR 0x09" using c(4) by (auto simp: is_space_def)
  ultimately have "sh_read False w ((c # s) @ rest) = sh_read False (Some (begun w @ [c])) (s @ rest)" by simp
  also have "\<dots> = sh_read False (Some (begun w @ c # s)) rest"
  proof (cases "s = []")
    case False
    then have "sh_read False (Some (begun w @ [c])) (s @ rest) = sh_read False (Some (begun (Some (begun w @ [c])) @ s)) rest"
      using Cons.prems(2) by (intro Cons.IH) (simp_all add: shell_inert_def)
    then show ?thesis by (simp add: begun_def)
  qed simp
  finally show ?case .
qed simp

lemma snat_words:
  assumes "w \<noteq> []" and "shell_inert w"
  shows "sh_words (''iptables -t nat -C POSTROUTING -o '' @ w) = Some [''iptables'', ''-t'', ''nat'', ''-C'', ''POSTROUTING'', ''-o'', w]"
    and "sh_words (w @ '' -j MASQUERADE'') = Some [w, ''-j'', ''MASQUERADE'']"
proof -
  have "sh_read False None w = Some [w]" using sh_read_inert [OF assms, of None "[]"] by (simp add: begun_def)
  moreover have "\<not> sh_special c \<and> c \<noteq> apostrophe \<and> c \<noteq> backslash"
    if "c \<in> set ''iptables -t nat -C POSTROUTING -o -j MASQUERADE''" for c
  proof -
    have "list_all (\<lambda>c. \<not> sh_special c \<and> c \<noteq> apostrophe \<and> c \<noteq> backslash) ''iptables -t nat -C POSTROUTING -o -j MASQUERADE''"
      by code_simp
    with that show ?thesis unfolding list_all_iff by blast
  qed
  ultimately show "sh_words (''iptables -t nat -C POSTROUTING -o '' @ w) = Some [''iptables'', ''-t'', ''nat'', ''-C'', ''POSTROUTING'', ''-o'', w]"
    by (simp add: sh_words_def begun_def)
  have "sh_read False (Some w) '' -j MASQUERADE'' = Some [w, ''-j'', ''MASQUERADE'']"
    by (simp add: begun_def sh_special_def)
  then show "sh_words (w @ '' -j MASQUERADE'') = Some [w, ''-j'', ''MASQUERADE'']"
    unfolding sh_words_def sh_read_inert [OF assms, of None] by (simp add: begun_def)
qed

lemma ansi_rest_plain: "set u \<inter> {apostrophe, dquote, backslash} = {} \<Longrightarrow> ansi_rest (u @ t) = ansi_rest t"
  by (induction u) auto

lemma snat_accepted:
  assumes "is_iface i"
  obtains d where "lookup_action startup_actions ''enable_snat'' = Some d" and "validate ex d (snat_entry i) = None"
    and "ad_run d v (snat_entry i) = Inr (Call ''EnableSNAT'' [AStr i, ABool False])"
proof -
  let ?e = "nat_actions ! 0"
  have "?e \<in> set (decls registrations)" by (simp add: decls_registrations nat_actions_def)
  moreover have "ad_type ?e = ''enable_snat''" "ad_params ?e = [P_Iface, P_Family]" "ad_allow_protected ?e"
    by (simp_all add: nat_actions_def declare_action_def)
  ultimately obtain d where d: "lookup_action startup_actions ''enable_snat'' = Some d" "ad_run d = ad_run ?e"
    "ad_params d = [P_Iface, P_Family]" "ad_allow_protected d" by (metis registered_run)
  have "validate_param ex True (snat_entry i) P_Iface = None" "validate_param ex True (snat_entry i) P_Family = None"
    using assms
    by (auto simp: validate_param_def snat_entry_def entry_of_def fields_of_def param_defs check_kind_def on_defs is_iface_ok
        is_iface_def err_unless_def optional_def)
  with d have "validate ex d (snat_entry i) = None" by (simp add: validate_None)
  then show thesis by (rule that [OF d(1)]) (simp only: d(2) snat_run)
qed

lemma search_accepted:
  assumes "t \<noteq> []"
  obtains d where "lookup_action startup_actions ''add_dns_search'' = Some d" and "validate ex d (search_entry t) = None"
    and "ad_run d v (search_entry t) = Inr (Call ''AddDNSSearch'' [AStr t])"
proof -
  let ?e = "l3_actions ! 9"
  have "?e \<in> set (decls registrations)" by (simp add: decls_registrations l3_actions_def)
  moreover have "ad_type ?e = ''add_dns_search''" "ad_params ?e = [P_DNSDomain]" "\<not> ad_allow_protected ?e"
    by (simp_all add: l3_actions_def declare_action_def)
  ultimately obtain d where d: "lookup_action startup_actions ''add_dns_search'' = Some d" "ad_run d = ad_run ?e"
    "ad_params d = [P_DNSDomain]" "\<not> ad_allow_protected d" by (metis registered_run)
  have "validate_param ex False (search_entry t) P_DNSDomain = None"
    using assms by (auto simp: validate_param_def search_entry_def entry_of_def fields_of_def param_defs check_kind_def iface_names_def)
  with d have "validate ex d (search_entry t) = None" by (simp add: validate_None)
  then show thesis by (rule that [OF d(1)]) (simp only: d(2) search_run)
qed


definition no_env :: run_env where
  "no_env = \<lparr>rn_caps = [], rn_stp_modes = [], rn_yaml = (\<lambda>_. False), rn_command = (\<lambda>_. Inl []), rn_shaping = (\<lambda>_ _. Inl [])\<rparr>"


text \<open>
  A pool written as an IPv4-mapped IPv6 prefix is validated and reaches the translator as an
  IPv6 network, whose four bytes \<open>taygaAddresses\<close> then indexes in an empty slice: the request
  panics where its commands are built.
\<close>

theorem nat64_mapped_pool_panics:
  "\<exists>d call. lookup_action startup_actions ''nat64_enable'' = Some d \<and>
      validate [] d ((entry_of ''nat64_enable'')\<lparr>e_pool := ''::ffff:10.0.0.0/20''\<rparr>) = None \<and>
      ad_run d v ((entry_of ''nat64_enable'')\<lparr>e_pool := ''::ffff:10.0.0.0/20''\<rparr>) = Inr call \<and>
      linux_rows call = Panics"
proof -
  let ?a = "(entry_of ''nat64_enable'')\<lparr>e_pool := ''::ffff:10.0.0.0/20''\<rparr>"
  let ?e = "nat64_actions ! 0" and ?c = "Call ''NAT64Enable'' [AStr ''64:ff9b::/96'', AStr ''::/20'']"
  have "?e \<in> set (decls registrations)" by (simp add: decls_registrations nat64_actions_def)
  moreover have "ad_type ?e = ''nat64_enable''" "ad_params ?e = [P_Pool, P_Prefix]" "\<not> ad_allow_protected ?e"
    by (simp_all add: nat64_actions_def declare_action_def)
  ultimately obtain d where d: "lookup_action startup_actions ''nat64_enable'' = Some d" "ad_run d = ad_run ?e"
    "ad_params d = [P_Pool, P_Prefix]" "\<not> ad_allow_protected d" by (metis registered_run)
  have "validate_param [] False ?a P_Pool = None" "validate_param [] False ?a P_Prefix = None" by code_simp+
  with d have v: "validate [] d ?a = None" by (simp add: validate_None)
  have p: "nat64_prefix ?a = Inr ''64:ff9b::/96''" "nat64_pool ?a = Inr ''::/20''" by code_simp+
  have r: "ad_run ?e v ?a = Inr ?c"
    unfolding nat64_actions_def declare_action_def by (simp add: p call_def del: entry_of_def)
  have net: "parse_cidr ''::/20'' = Some (V6 [0, 0, 0, 0, 0, 0, 0, 0], 20)" by code_simp
  have "to4_bytes (network_ip (V6 [0, 0, 0, 0, 0, 0, 0, 0], 20)) = None"
    by (simp add: network_ip_def to4_bytes_def)
  with net have "tayga_addresses ''::/20'' = None" by (simp add: tayga_addresses_def)
  then have "linux_rows ?c = Panics"
    by (simp add: linux_rows_def rows_with_def linux_methods_def base_methods_defs nat64_enable_def)
  with d v r show ?thesis by metis
qed

text \<open>On IOS-XR an IPv6 address gets the first four bytes of its mask, in an IPv4 command.\<close>

lemma xr_set_ip_of_ipv6:
  "xr_rows (Call ''SetIP'' [AStr ''GigabitEthernet0/0/0/0'', AStr ''2001:db8::1/64'']) =
     Rows [[''interface GigabitEthernet0/0/0/0'', '' ipv4 address 2001:db8::1 255.255.255.255'']]"
  by code_simp

end
