(* ===== verification/Operation_History.thy ===== *)
theory Operation_History
  imports Action_Registry Topology_Wiring
begin

text \<open>
  The history of applied actions, \<open>helpers/driver_operation_history.go\<close> over the table
  \<open>driver_operation_history\<close>: what a save keeps and drops, what counts as applied to the pod
  that exists now, what is purged, and how often a replay tries a command. A row holds the
  action its JSON decodes to, \<open>None\<close> for text that does not decode. Two texts are equal when
  the actions are equal up to \<open>FileContent\<close>, which is not serialised. Times are the text of
  the column; \<open>time.Parse\<close> is the parameter \<open>tp\<close>, a layout and a text to an instant.
\<close>

section \<open>Rows and what an action does to a state\<close>

record operation =
  o_id :: nat
  o_cluster :: string
  o_ns :: string
  o_pod :: string
  o_driver :: string
  o_type :: string
  o_action :: "action_entry option"
  o_at :: string

record history =
  hs_store :: "operation store"
  hs_next :: nat

datatype history_error = HDb db_error | HNoRows | HBadJson nat

text \<open>An operation read back: its JSON decoded.\<close>

definition entry :: "operation \<Rightarrow> action_entry" where
  "entry op = (case o_action op of None \<Rightarrow> entry_of [] | Some a \<Rightarrow> a)"

definition op_action :: "operation \<Rightarrow> action_entry" where
  "op_action op = (let a = entry op in if e_type a = [] then a\<lparr>e_type := o_type op\<rparr> else a)"

definition persisted :: "action_entry \<Rightarrow> action_entry" where
  "persisted a = a\<lparr>e_file_content := []\<rparr>"

definition state_of :: "action_registry \<Rightarrow> action_entry \<Rightarrow> string \<times> string \<times> bool \<times> bool" where
  "state_of reg a =
     (case lookup_action reg (e_type a) of
        None \<Rightarrow> ([], [], False, False)
      | Some d \<Rightarrow> if ad_state d = [] then ([], [], False, False)
                  else (ad_state d, state_key d a, ad_clears d, ad_undo_persists d))"

definition on_state :: "action_registry \<Rightarrow> string \<Rightarrow> string \<Rightarrow> operation \<Rightarrow> bool" where
  "on_state reg s k op = (case state_of reg (op_action op) of (s', k', _) \<Rightarrow> s' = s \<and> k' = k)"

definition rows_on_state :: "action_registry \<Rightarrow> operation list \<Rightarrow> string \<Rightarrow> string \<Rightarrow> operation list" where
  "rows_on_state reg ops s k = filter (on_state reg s k) ops"

definition cleared_with :: "action_registry \<Rightarrow> action_entry \<Rightarrow> string list \<times> bool" where
  "cleared_with reg a =
     (case lookup_action reg (e_type a) of Some d \<Rightarrow> (ad_clears_also d, ad_key d \<noteq> None) | None \<Rightarrow> ([], False))"

definition on_states :: "action_registry \<Rightarrow> string list \<Rightarrow> string \<Rightarrow> bool \<Rightarrow> operation \<Rightarrow> bool" where
  "on_states reg states key keyed op =
     (case state_of reg (op_action op) of (s, k, _) \<Rightarrow> \<not> (keyed \<and> k \<noteq> key) \<and> s \<in> set states)"

definition rows_on_states :: "action_registry \<Rightarrow> operation list \<Rightarrow> string list \<Rightarrow> string \<Rightarrow> bool \<Rightarrow> operation list" where
  "rows_on_states reg ops states key keyed = filter (on_states reg states key keyed) ops"

section \<open>Reading and deleting rows\<close>

definition on_table :: "(operation store, db_error, 'a) op \<Rightarrow> (history, history_error, 'a) op" where
  "on_table m = (\<lambda>h. case m (hs_store h) of
      (Inl e, s) \<Rightarrow> (Inl (HDb e), h\<lparr>hs_store := s\<rparr>) | (Inr a, s) \<Rightarrow> (Inr a, h\<lparr>hs_store := s\<rparr>))"

definition of_pod :: "string \<Rightarrow> string \<Rightarrow> string \<Rightarrow> operation \<Rightarrow> bool" where
  "of_pod cid ns pod r \<longleftrightarrow> o_cluster r = cid \<and> o_ns r = ns \<and> o_pod r = pod"

definition of_namespace :: "string \<Rightarrow> string \<Rightarrow> operation \<Rightarrow> bool" where
  "of_namespace cid ns r \<longleftrightarrow> o_cluster r = cid \<and> o_ns r = ns"

text \<open>The rows in the order of their ids; the first that does not decode is an error.\<close>

definition scan_rows :: "operation list \<Rightarrow> history_error + operation list" where
  "scan_rows rows =
     (let xs = sort_key o_id rows in
      case find (\<lambda>r. o_action r = None) xs of Some r \<Rightarrow> Inl (HBadJson (o_id r)) | None \<Rightarrow> Inr xs)"

definition list_rows :: "(string \<Rightarrow> operation \<Rightarrow> bool) \<Rightarrow> (history, history_error, operation list) op" where
  "list_rows p =
     op_bind (on_table need_open) (\<lambda>_. op_bind (on_table need_cluster) (\<lambda>cid.
     op_bind (on_table (db_query ''list'' (filter (p cid)))) (\<lambda>rows. op_lift (scan_rows rows))))"

definition list_driver_operations_for_pod :: "string \<Rightarrow> string \<Rightarrow> (history, history_error, operation list) op" where
  "list_driver_operations_for_pod ns pod = list_rows (\<lambda>cid. of_pod cid ns pod)"

definition list_driver_operations_for_namespace :: "string \<Rightarrow> (history, history_error, operation list) op" where
  "list_driver_operations_for_namespace ns = list_rows (\<lambda>cid. of_namespace cid ns)"

definition delete_by_id :: "nat \<Rightarrow> (history, history_error, unit) op" where
  "delete_by_id i =
     op_bind (on_table need_open) (\<lambda>_. (\<lambda>h.
       op_bind (on_table (db_exec ''delete'' (filter (\<lambda>r. o_id r \<noteq> i)))) (\<lambda>_.
       op_bind (on_table (db_query ''affected'' (\<lambda>_. ()))) (\<lambda>_.
         if list_ex (\<lambda>r. o_id r = i) (st_rows (hs_store h)) then op_ret () else op_fail HNoRows)) h))"

text \<open>\<open>err != nil && err != sql.ErrNoRows\<close>\<close>

definition ignore_no_rows :: "(history, history_error, unit) op \<Rightarrow> (history, history_error, unit) op" where
  "ignore_no_rows m = (\<lambda>h. case m h of (Inl HNoRows, t) \<Rightarrow> (Inr (), t) | r \<Rightarrow> r)"

definition delete_where :: "(string \<Rightarrow> operation \<Rightarrow> bool) \<Rightarrow> (history, history_error, unit) op" where
  "delete_where p =
     op_bind (on_table need_open) (\<lambda>_. op_bind (on_table need_cluster) (\<lambda>cid.
       on_table (db_exec ''delete'' (filter (\<lambda>r. \<not> p cid r)))))"

definition delete_namespace_driver_operation_history :: "string \<Rightarrow> (history, history_error, unit) op" where
  "delete_namespace_driver_operation_history ns = delete_where (\<lambda>cid. of_namespace cid ns)"

definition delete_driver_operation_history_for_pod :: "string \<Rightarrow> string \<Rightarrow> (history, history_error, unit) op" where
  "delete_driver_operation_history_for_pod ns pod = delete_where (\<lambda>cid. of_pod cid ns pod)"

section \<open>Saving\<close>

definition same_payload :: "string \<Rightarrow> string \<Rightarrow> string \<Rightarrow> string \<Rightarrow> action_entry \<Rightarrow> operation \<Rightarrow> bool" where
  "same_payload cid ns pod drv a r \<longleftrightarrow>
     of_pod cid ns pod r \<and> o_driver r = drv \<and> o_type r = e_type a \<and> o_action r = Some (persisted a)"

definition insert_row :: "operation \<Rightarrow> (history, history_error, unit) op" where
  "insert_row r = (\<lambda>h. op_bind (on_table (db_exec ''insert'' (\<lambda>rows. rows @ [r\<lparr>o_id := hs_next h\<rparr>])))
     (\<lambda>_ t. (Inr (), t\<lparr>hs_next := Suc (hs_next t)\<rparr>)) h)"

text \<open>The rows an action takes out of the history of its pod; true when nothing is to be kept of the action itself.\<close>

definition reconcile_history ::
  "action_registry \<Rightarrow> string \<Rightarrow> string \<Rightarrow> action_entry \<Rightarrow> (history, history_error, bool) op" where
  "reconcile_history reg ns pod a =
     (case state_of reg a of (state, key, clears, persists) \<Rightarrow>
        if state = [] then op_ret False
        else op_bind (list_driver_operations_for_pod ns pod) (\<lambda>ops.
          case cleared_with reg a of (states, keyed) \<Rightarrow>
          op_bind (op_each (\<lambda>op. ignore_no_rows (delete_by_id (o_id op)))
            (rows_on_state reg ops state key @ rows_on_states reg ops states key keyed)) (\<lambda>_.
          op_ret (clears \<and> \<not> persists))))"

definition save_driver_operation ::
  "action_registry \<Rightarrow> string \<Rightarrow> string \<Rightarrow> string \<Rightarrow> string \<Rightarrow> action_entry \<Rightarrow> (history, history_error, unit) op" where
  "save_driver_operation reg now ns pod drv a =
     op_bind (on_table need_open) (\<lambda>_.
     op_bind (reconcile_history reg ns pod a) (\<lambda>fin.
       if fin then op_ret ()
       else op_bind (on_table need_cluster) (\<lambda>cid.
         op_bind (on_table (db_exec ''replace'' (filter (\<lambda>r. \<not> same_payload cid ns pod drv a r)))) (\<lambda>_.
         insert_row \<lparr>o_id = 0, o_cluster = cid, o_ns = ns, o_pod = pod, o_driver = drv, o_type = e_type a,
                     o_action = Some (persisted a), o_at = now\<rparr>))))"

section \<open>Times\<close>

definition parse_executed_at :: "(string \<Rightarrow> string \<Rightarrow> int option) \<Rightarrow> string \<Rightarrow> int option" where
  "parse_executed_at tp s =
     (case tp ''2006-01-02T15:04:05.999999999Z07:00'' s of
        Some t \<Rightarrow> Some t
      | None \<Rightarrow> (case tp ''2006-01-02T15:04:05Z07:00'' s of
          Some t \<Rightarrow> Some t
        | None \<Rightarrow> tp ''2006-01-02 15:04:05'' s))"

definition superseded_after ::
  "(string \<Rightarrow> string \<Rightarrow> int option) \<Rightarrow> action_registry \<Rightarrow> operation list \<Rightarrow> string \<Rightarrow> string \<Rightarrow> action_entry \<Rightarrow> int option \<Rightarrow> bool" where
  "superseded_after tp reg ops s k payload applied =
     list_ex (\<lambda>op. persisted (op_action op) \<noteq> payload \<and>
        (case parse_executed_at tp (o_at op) of
           None \<Rightarrow> False
         | Some t \<Rightarrow> (case applied of None \<Rightarrow> True | Some u \<Rightarrow> u < t)))
       (rows_on_state reg ops s k)"

text \<open>
  \<open>DriverOperationAppliedSince\<close>. A time that does not parse counts as applied with Go's zero
  time, here \<open>None\<close>, which every time that parses comes after.
\<close>

definition driver_operation_applied_since ::
  "(string \<Rightarrow> string \<Rightarrow> int option) \<Rightarrow> action_registry \<Rightarrow> string \<Rightarrow> string \<Rightarrow> string \<Rightarrow> action_entry \<Rightarrow> int \<Rightarrow>
   (history, history_error, bool) op" where
  "driver_operation_applied_since tp reg ns pod drv a since =
     op_bind (on_table need_open) (\<lambda>_. op_bind (on_table need_cluster) (\<lambda>cid.
     op_bind (on_table (db_query ''applied'' (\<lambda>rows. map o_at (filter (same_payload cid ns pod drv a) rows)))) (\<lambda>ats.
       let applied = filter (\<lambda>t. case t of None \<Rightarrow> True | Some u \<Rightarrow> since \<le> u) (map (parse_executed_at tp) ats) in
       if applied = [] then op_ret False
       else case state_of reg a of (state, key, _) \<Rightarrow>
         if state = [] then op_ret True
         else op_bind (list_driver_operations_for_pod ns pod) (\<lambda>ops.
           op_ret (list_ex (\<lambda>t. \<not> superseded_after tp reg ops state key (persisted a) t) applied)))))"

definition purge_driver_operations_before ::
  "(string \<Rightarrow> string \<Rightarrow> int option) \<Rightarrow> string \<Rightarrow> int \<Rightarrow> (history, history_error, nat) op" where
  "purge_driver_operations_before tp ns t =
     op_bind (on_table need_open) (\<lambda>_. op_bind (on_table need_cluster) (\<lambda>cid.
     op_bind (on_table (db_query ''times'' (filter (of_namespace cid ns)))) (\<lambda>rows.
       let stale = map o_id (filter (\<lambda>r. case parse_executed_at tp (o_at r) of None \<Rightarrow> False | Some u \<Rightarrow> u < t) rows) in
       op_bind (op_each delete_by_id stale) (\<lambda>_. op_ret (length stale)))))"

definition touch_driver_operation :: "string \<Rightarrow> nat \<Rightarrow> (history, history_error, unit) op" where
  "touch_driver_operation now i =
     op_bind (on_table need_open) (\<lambda>_.
       on_table (db_exec ''touch'' (map (\<lambda>r. if o_id r = i then r\<lparr>o_at := now\<rparr> else r))))"

section \<open>Retries of a replay\<close>

definition is_transient_exec_error :: "string option \<Rightarrow> bool" where
  "is_transient_exec_error e =
     (case e of None \<Rightarrow> False
      | Some s \<Rightarrow> contains_str s ''exit status 255'' \<or> contains_str s ''Connection timed out'' \<or>
                 contains_str s ''banner exchange'' \<or> contains_str s ''Connection refused'')"

definition replay_exec_attempts :: nat where "replay_exec_attempts = 4"

text \<open>
  The loop over the attempts: the calls of \<open>fn\<close> it makes, in order, are the results of
  \<open>fn\<close>; the pauses between them, in seconds, are the second component.
\<close>

fun retry_from :: "nat \<Rightarrow> nat \<Rightarrow> ('s \<Rightarrow> string option \<times> 's) \<Rightarrow> 's \<Rightarrow> (string option \<times> nat list \<times> nat) \<times> 's" where
  "retry_from 0 attempt fn s = ((None, [], 0), s)"
| "retry_from (Suc left) attempt fn s =
     (case fn s of (e, t) \<Rightarrow>
        if e = None \<or> is_transient_exec_error e \<or> left = 0 then ((e, [], 1), t)
        else case retry_from left (Suc attempt) fn t of
          ((e', pauses, calls), u) \<Rightarrow> ((e', 2 * attempt # pauses, Suc calls), u))"

definition exec_with_replay_retry :: "('s \<Rightarrow> string option \<times> 's) \<Rightarrow> 's \<Rightarrow> (string option \<times> nat list \<times> nat) \<times> 's" where
  "exec_with_replay_retry fn s = retry_from replay_exec_attempts 1 fn s"

section \<open>What the operations leave in the table\<close>

abbreviation rows_of :: "history \<Rightarrow> operation list" where
  "rows_of h \<equiv> st_rows (hs_store h)"

text \<open>The part of the state that no operation on the rows touches.\<close>

definition same_env :: "history \<Rightarrow> history \<Rightarrow> bool" where
  "same_env h h' \<longleftrightarrow> hs_next h' = hs_next h \<and> st_cluster (hs_store h') = st_cluster (hs_store h) \<and>
     st_open (hs_store h') = st_open (hs_store h)"

lemma same_env_refl [simp]: "same_env h h" by (simp add: same_env_def)

lemma same_env_trans: "same_env h h' \<Longrightarrow> same_env h' h'' \<Longrightarrow> same_env h h''"
  by (simp add: same_env_def)

lemma on_table_Inr: "on_table m h = (Inr a, h') \<longleftrightarrow> (\<exists>s. m (hs_store h) = (Inr a, s) \<and> h' = h\<lparr>hs_store := s\<rparr>)"
  by (auto simp: on_table_def split: prod.splits sum.splits)

lemma on_table_Inl: "on_table m h = (Inl e, h') \<longleftrightarrow> (\<exists>d s. m (hs_store h) = (Inl d, s) \<and> e = HDb d \<and> h' = h\<lparr>hs_store := s\<rparr>)"
  by (auto simp: on_table_def split: prod.splits sum.splits)

lemma table_need_open [simp]: "on_table need_open h = (Inr u, h') \<longleftrightarrow> st_open (hs_store h) \<and> h' = h"
  by (auto simp: on_table_Inr)

lemma table_need_cluster [simp]: "on_table need_cluster h = (Inr c, h') \<longleftrightarrow> st_cluster (hs_store h) = Some c \<and> h' = h"
  by (auto simp: on_table_Inr)

lemma table_query_Inr:
  "on_table (db_query w f) h = (Inr a, h') \<Longrightarrow> a = f (rows_of h) \<and> rows_of h' = rows_of h \<and> same_env h h'"
  by (auto simp: on_table_Inr same_env_def dest!: db_query_Inr)

lemma table_exec_Inr: "on_table (db_exec w f) h = (Inr u, h') \<Longrightarrow> rows_of h' = f (rows_of h) \<and> same_env h h'"
  by (auto simp: on_table_Inr same_env_def dest!: db_exec_Inr)

lemma table_keeps:
  assumes "on_table m h = (r, h')" and "\<And>s r t. m s = (r, t) \<Longrightarrow> st_rows t = st_rows s \<and> st_cluster t = st_cluster s \<and> st_open t = st_open s"
  shows "rows_of h' = rows_of h \<and> same_env h h'"
  using assms(1) assms(2) [of "hs_store h"]
  by (auto simp: on_table_def same_env_def split: prod.splits sum.splits)

lemma db_query_keeps: "db_query w f s = (r, t) \<Longrightarrow> st_rows t = st_rows s \<and> st_cluster t = st_cluster s \<and> st_open t = st_open s"
  by (auto simp: db_query_def Let_def split: prod.splits if_splits dest!: next_fault_SomeD)

lemma need_open_keeps: "need_open s = (r, t) \<Longrightarrow> st_rows t = st_rows s \<and> st_cluster t = st_cluster s \<and> st_open t = st_open s"
  by (auto simp: need_open_def split: if_splits)

lemma need_cluster_keeps: "need_cluster s = (r, t) \<Longrightarrow> st_rows t = st_rows s \<and> st_cluster t = st_cluster s \<and> st_open t = st_open s"
  by (auto simp: need_cluster_def split: option.splits)

lemma table_exec_any:
  "on_table (db_exec w f) h = (r, h') \<Longrightarrow> rows_of h' \<in> {rows_of h, f (rows_of h)} \<and> same_env h h'"
  using db_exec_cases [of w f "hs_store h"] db_exec_keeps [of w f "hs_store h"]
  by (auto simp: on_table_def same_env_def split: prod.splits sum.splits)

text \<open>An operation that only takes rows away, whatever its result.\<close>

definition only_removes :: "(history, history_error, 'a) op \<Rightarrow> bool" where
  "only_removes m \<longleftrightarrow> (\<forall>h r h'. m h = (r, h') \<longrightarrow> same_env h h' \<and> (\<exists>P. rows_of h' = filter P (rows_of h)))"

lemma only_removesD: "only_removes m \<Longrightarrow> m h = (r, h') \<Longrightarrow> same_env h h' \<and> (\<exists>P. rows_of h' = filter P (rows_of h))"
  by (auto simp: only_removes_def)

lemma only_removesI_keeps: "(\<And>h r h'. m h = (r, h') \<Longrightarrow> rows_of h' = rows_of h \<and> same_env h h') \<Longrightarrow> only_removes m"
  unfolding only_removes_def by (auto intro!: exI [of _ "\<lambda>_. True"])

lemma only_removes_ret [intro]: "only_removes (op_ret a)" by (rule only_removesI_keeps) auto

lemma only_removes_fail [intro]: "only_removes (op_fail e)" by (rule only_removesI_keeps) auto

lemma only_removes_lift [intro]: "only_removes (op_lift r)" by (rule only_removesI_keeps) auto

lemma only_removes_open [intro]: "only_removes (on_table need_open)"
  by (rule only_removesI_keeps) (auto dest: table_keeps need_open_keeps)

lemma only_removes_cluster [intro]: "only_removes (on_table need_cluster)"
  by (rule only_removesI_keeps) (auto dest: table_keeps need_cluster_keeps)

lemma only_removes_query [intro]: "only_removes (on_table (db_query w f))"
  by (rule only_removesI_keeps) (auto dest: table_keeps db_query_keeps)

lemma only_removes_filter [intro]: "only_removes (on_table (db_exec w (filter P)))"
  unfolding only_removes_def
proof (intro allI impI)
  fix h r h' assume "on_table (db_exec w (filter P)) h = (r, h')"
  then have "rows_of h' \<in> {rows_of h, filter P (rows_of h)}" "same_env h h'" using table_exec_any by auto
  then show "same_env h h' \<and> (\<exists>P. rows_of h' = filter P (rows_of h))"
    by (auto intro: exI [of _ P] exI [of _ "\<lambda>_. True"])
qed

lemma only_removes_bind [intro]:
  assumes "only_removes m" and "\<And>a. only_removes (f a)"
  shows "only_removes (op_bind m f)"
  unfolding only_removes_def
proof (intro allI impI)
  fix h r h' assume b: "op_bind m f h = (r, h')"
  obtain x h1 where m: "m h = (x, h1)" by (cases "m h")
  note one = only_removesD [OF assms(1) m]
  show "same_env h h' \<and> (\<exists>P. rows_of h' = filter P (rows_of h))"
  proof (cases x)
    case (Inl e)
    with b m one show ?thesis by (simp add: op_bind_def)
  next
    case (Inr a)
    with b m have "f a h1 = (r, h')" by (simp add: op_bind_def)
    from only_removesD [OF assms(2) this] one obtain P Q where
      "rows_of h1 = filter P (rows_of h)" "rows_of h' = filter Q (rows_of h1)" "same_env h h1" "same_env h1 h'" by blast
    then have "rows_of h' = filter (\<lambda>x. P x \<and> Q x) (rows_of h)" "same_env h h'"
      by (auto intro: same_env_trans)
    then show ?thesis by blast
  qed
qed

lemma only_removes_each [intro]: "(\<And>x. only_removes (f x)) \<Longrightarrow> only_removes (op_each f xs)"
  by (induction xs) auto

lemma only_removes_ignore [intro]: "only_removes m \<Longrightarrow> only_removes (ignore_no_rows m)"
  unfolding only_removes_def ignore_no_rows_def by (auto split: prod.splits sum.splits history_error.splits)

lemma only_removes_delete [intro]: "only_removes (delete_by_id i)"
  unfolding only_removes_def
proof (intro allI impI)
  fix h r h' assume d: "delete_by_id i h = (r, h')"
  let ?m = "op_bind (on_table need_open) (\<lambda>_. op_bind (on_table (db_exec ''delete'' (filter (\<lambda>r. o_id r \<noteq> i)))) (\<lambda>_.
       op_bind (on_table (db_query ''affected'' (\<lambda>_. ()))) (\<lambda>_.
         if list_ex (\<lambda>r. o_id r = i) (rows_of h) then op_ret () else op_fail HNoRows)))"
  have "?m h = (r, h')" using d by (auto simp: delete_by_id_def op_bind_def split: prod.splits sum.splits)
  moreover have "only_removes ?m" by (intro only_removes_bind) auto
  ultimately show "same_env h h' \<and> (\<exists>P. rows_of h' = filter P (rows_of h))" by (blast dest: only_removesD)
qed

lemma only_removes_list [intro]: "only_removes (list_rows p)"
  unfolding list_rows_def by (intro only_removes_bind) auto

lemma only_removes_delete_where [intro]: "only_removes (delete_where p)"
  unfolding delete_where_def by (intro only_removes_bind) auto

lemma only_removes_reconcile [intro]: "only_removes (reconcile_history reg ns pod a)"
  unfolding reconcile_history_def list_driver_operations_for_pod_def
  by (auto split: prod.splits intro!: only_removes_bind only_removes_each only_removes_ignore)

lemma only_removes_purge [intro]: "only_removes (purge_driver_operations_before tp ns t)"
  unfolding purge_driver_operations_before_def Let_def by (intro only_removes_bind) auto

subsection \<open>A save that succeeds\<close>

lemma delete_ignored_Inr:
  assumes "ignore_no_rows (delete_by_id i) h = (Inr u, h')"
  shows "rows_of h' = filter (\<lambda>r. o_id r \<noteq> i) (rows_of h) \<and> same_env h h'"
proof -
  obtain x h1 where d: "delete_by_id i h = (x, h1)" by (cases "delete_by_id i h")
  have h1: "h1 = h'" "x = Inr () \<or> x = Inl HNoRows"
    using assms d by (auto simp: ignore_no_rows_def split: sum.splits history_error.splits)
  from d h1(2) obtain h2 h3 where "on_table (db_exec ''delete'' (filter (\<lambda>r. o_id r \<noteq> i))) h = (Inr (), h2)"
    "on_table (db_query ''affected'' (\<lambda>_. ())) h2 = (Inr (), h3)" "h1 = h3"
    by (auto simp: delete_by_id_def op_bind_def on_table_Inl split: prod.splits sum.splits if_splits dest!: on_table_Inl [THEN iffD1])
  with h1(1) show ?thesis using same_env_trans by (auto dest!: table_exec_Inr table_query_Inr)
qed

lemma deletes_Inr:
  "op_each (\<lambda>op. ignore_no_rows (delete_by_id (o_id op))) ops h = (Inr u, h') \<Longrightarrow>
     rows_of h' = filter (\<lambda>r. o_id r \<notin> o_id ` set ops) (rows_of h) \<and> same_env h h'"
proof (induction ops arbitrary: h)
  case (Cons op ops)
  from Cons.prems obtain h1 where
    h1: "ignore_no_rows (delete_by_id (o_id op)) h = (Inr (), h1)"
        "op_each (\<lambda>op. ignore_no_rows (delete_by_id (o_id op))) ops h1 = (Inr u, h')"
    by (auto simp: op_bind_Inr)
  from Cons.IH [OF h1(2)] delete_ignored_Inr [OF h1(1)] show ?case
    using same_env_trans by (auto intro: filter_cong)
qed simp

lemma scan_rows_Inr: "scan_rows rows = Inr ops \<Longrightarrow> set ops = set rows \<and> (\<forall>r \<in> set rows. o_action r \<noteq> None)"
  by (auto simp: scan_rows_def Let_def find_None_iff split: option.splits)

lemma list_rows_Inr:
  assumes "list_rows p h = (Inr ops, h')"
  obtains cid where "st_cluster (hs_store h) = Some cid" and "set ops = set (filter (p cid) (rows_of h))"
    and "\<forall>r \<in> set ops. o_action r \<noteq> None" and "rows_of h' = rows_of h" and "same_env h h'"
proof -
  from assms obtain cid xs where c: "st_cluster (hs_store h) = Some cid"
    and q: "on_table (db_query ''list'' (filter (p cid))) h = (Inr xs, h')" and s: "scan_rows xs = Inr ops"
    by (auto simp: list_rows_def op_bind_Inr)
  from table_query_Inr [OF q] scan_rows_Inr [OF s] c that show thesis by auto
qed

text \<open>The rows of a pod that an action takes out of the history, besides its own earlier row.\<close>

definition displaced :: "action_registry \<Rightarrow> action_entry \<Rightarrow> operation \<Rightarrow> bool" where
  "displaced reg a r =
     (case state_of reg a of (state, key, _) \<Rightarrow>
        state \<noteq> [] \<and> (on_state reg state key r \<or>
          (case cleared_with reg a of (states, keyed) \<Rightarrow> on_states reg states key keyed r)))"

definition cancels :: "action_registry \<Rightarrow> action_entry \<Rightarrow> bool" where
  "cancels reg a = (case state_of reg a of (state, _, clears, persists) \<Rightarrow> state \<noteq> [] \<and> clears \<and> \<not> persists)"

definition ids_ok :: "history \<Rightarrow> bool" where
  "ids_ok h \<longleftrightarrow> distinct (map o_id (rows_of h)) \<and> (\<forall>r \<in> set (rows_of h). o_id r < hs_next h)"

lemma ids_inj: "ids_ok h \<Longrightarrow> r \<in> set (rows_of h) \<Longrightarrow> q \<in> set (rows_of h) \<Longrightarrow> o_id r = o_id q \<Longrightarrow> r = q"
  by (auto simp: ids_ok_def distinct_map inj_on_def)

lemma reconcile_Inr:
  assumes ok: "reconcile_history reg ns pod a h = (Inr fin, h')" and ids: "ids_ok h"
    and cid: "st_cluster (hs_store h) = Some cid"
  shows "fin = cancels reg a \<and> same_env h h' \<and>
    rows_of h' = filter (\<lambda>r. \<not> (of_pod cid ns pod r \<and> displaced reg a r)) (rows_of h)"
proof -
  obtain state key clears persists where st: "state_of reg a = (state, key, clears, persists)"
    by (cases "state_of reg a") auto
  obtain states keyed where cw: "cleared_with reg a = (states, keyed)" by (cases "cleared_with reg a")
  show ?thesis
  proof (cases "state = []")
    case True
    with ok st show ?thesis by (simp add: reconcile_history_def cancels_def displaced_def)
  next
    case False
    with ok st cw obtain ops h1 where
      l: "list_rows (\<lambda>cid. of_pod cid ns pod) h = (Inr ops, h1)" and
      e: "op_each (\<lambda>op. ignore_no_rows (delete_by_id (o_id op)))
            (rows_on_state reg ops state key @ rows_on_states reg ops states key keyed) h1 = (Inr (), h')" and
      d: "fin = (clears \<and> \<not> persists)"
      by (auto simp: reconcile_history_def list_driver_operations_for_pod_def op_bind_Inr)
    from l obtain c where "st_cluster (hs_store h) = Some c" and o: "set ops = set (filter (of_pod c ns pod) (rows_of h))"
      and h1: "rows_of h1 = rows_of h" "same_env h h1" by (rule list_rows_Inr)
    with cid have c: "c = cid" by simp
    let ?del = "rows_on_state reg ops state key @ rows_on_states reg ops states key keyed"
    have "o_id r \<in> o_id ` set ?del \<longleftrightarrow> of_pod cid ns pod r \<and> displaced reg a r" if r: "r \<in> set (rows_of h)" for r
    proof -
      have "o_id r \<in> o_id ` set ?del \<longleftrightarrow> r \<in> set ?del"
        using ids_inj [OF ids r] o by (auto simp: rows_on_state_def rows_on_states_def)
      then show ?thesis using r o c st cw False
        by (auto simp: rows_on_state_def rows_on_states_def displaced_def)
    qed
    then have "filter (\<lambda>r. o_id r \<notin> o_id ` set ?del) (rows_of h) =
        filter (\<lambda>r. \<not> (of_pod cid ns pod r \<and> displaced reg a r)) (rows_of h)" by (intro filter_cong) auto
    with deletes_Inr [OF e] h1 d st False show ?thesis
      using same_env_trans by (auto simp: cancels_def)
  qed
qed

lemma reconcile_cluster:
  assumes "reconcile_history reg ns pod a h = (Inr True, h1)"
  shows "\<exists>cid. st_cluster (hs_store h) = Some cid"
proof -
  obtain state key clears persists where "state_of reg a = (state, key, clears, persists)"
    by (cases "state_of reg a") auto
  with assms obtain ops h2 where "list_rows (\<lambda>cid. of_pod cid ns pod) h = (Inr ops, h2)"
    by (cases "cleared_with reg a") (auto simp: reconcile_history_def list_driver_operations_for_pod_def op_bind_Inr split: if_splits)
  then show ?thesis by (rule list_rows_Inr) blast
qed

lemma save_Inr:
  assumes ok: "save_driver_operation reg now ns pod drv a h = (Inr u, h')" and ids: "ids_ok h"
  shows "\<exists>cid. st_cluster (hs_store h) = Some cid \<and>
    (if cancels reg a
     then rows_of h' = filter (\<lambda>r. \<not> (of_pod cid ns pod r \<and> displaced reg a r)) (rows_of h) \<and> same_env h h'
     else rows_of h' = filter (\<lambda>r. \<not> (of_pod cid ns pod r \<and> displaced reg a r) \<and> \<not> same_payload cid ns pod drv a r) (rows_of h) @
          [\<lparr>o_id = hs_next h, o_cluster = cid, o_ns = ns, o_pod = pod, o_driver = drv, o_type = e_type a,
            o_action = Some (persisted a), o_at = now\<rparr>] \<and> hs_next h' = Suc (hs_next h))"
proof -
  from ok obtain fin h1 where r: "reconcile_history reg ns pod a h = (Inr fin, h1)"
    and rest: "(if fin then op_ret () else op_bind (on_table need_cluster) (\<lambda>cid.
         op_bind (on_table (db_exec ''replace'' (filter (\<lambda>r. \<not> same_payload cid ns pod drv a r)))) (\<lambda>_.
         insert_row \<lparr>o_id = 0, o_cluster = cid, o_ns = ns, o_pod = pod, o_driver = drv, o_type = e_type a,
                     o_action = Some (persisted a), o_at = now\<rparr>))) h1 = (Inr u, h')"
    by (auto simp: save_driver_operation_def op_bind_Inr)
  have "same_env h h1" using r only_removes_reconcile only_removesD by blast
  moreover have "fin \<Longrightarrow> \<exists>cid. st_cluster (hs_store h) = Some cid"
    using r reconcile_cluster [of reg ns pod a h h1] by simp
  ultimately obtain cid where cid: "st_cluster (hs_store h) = Some cid"
    using rest by (cases fin) (auto simp: op_bind_Inr same_env_def)
  from reconcile_Inr [OF r ids cid] have d: "fin = cancels reg a" "same_env h h1"
    and f: "rows_of h1 = filter (\<lambda>r. \<not> (of_pod cid ns pod r \<and> displaced reg a r)) (rows_of h)" by auto
  show ?thesis
  proof (cases "cancels reg a")
    case True
    with rest d f cid show ?thesis by auto
  next
    case False
    have c1: "st_cluster (hs_store h1) = Some cid" using d(2) cid by (simp add: same_env_def)
    with rest False d(1) obtain h2 where
      x: "on_table (db_exec ''replace'' (filter (\<lambda>r. \<not> same_payload cid ns pod drv a r))) h1 = (Inr (), h2)"
      and i: "insert_row \<lparr>o_id = 0, o_cluster = cid, o_ns = ns, o_pod = pod, o_driver = drv, o_type = e_type a,
                     o_action = Some (persisted a), o_at = now\<rparr> h2 = (Inr u, h')"
      by (auto simp: op_bind_Inr)
    from table_exec_Inr [OF x] d(2) have n: "hs_next h2 = hs_next h" by (simp add: same_env_def)
    from i obtain h3 where h3: "on_table (db_exec ''insert'' (\<lambda>rows. rows @
        [\<lparr>o_id = hs_next h2, o_cluster = cid, o_ns = ns, o_pod = pod, o_driver = drv, o_type = e_type a,
          o_action = Some (persisted a), o_at = now\<rparr>])) h2 = (Inr (), h3)" "rows_of h' = rows_of h3"
      "hs_next h' = Suc (hs_next h3)"
      by (auto simp: insert_row_def op_bind_Inr)
    from table_exec_Inr [OF h3(1)] n have "hs_next h' = Suc (hs_next h)"
      using h3(3) by (simp add: same_env_def)
    with h3(2) table_exec_Inr [OF h3(1)] table_exec_Inr [OF x] f n False cid show ?thesis
      by (auto simp: conj_commute)
  qed
qed



subsection \<open>The last word on each piece of state\<close>

text \<open>What the history says of a piece of state of a pod.\<close>

definition standing :: "action_registry \<Rightarrow> operation list \<Rightarrow> string \<Rightarrow> string \<Rightarrow> string \<Rightarrow> string \<Rightarrow> string \<Rightarrow> action_entry list" where
  "standing reg rows c n p s k = map op_action (filter (\<lambda>r. of_pod c n p r \<and> on_state reg s k r) rows)"

text \<open>The contract of a save: a map from pieces of state to the action that stands, updated.\<close>

definition word_after :: "action_registry \<Rightarrow> action_entry \<Rightarrow> (string \<Rightarrow> string \<Rightarrow> action_entry list) \<Rightarrow> string \<Rightarrow> string \<Rightarrow> action_entry list" where
  "word_after reg a m s k =
     (case state_of reg a of (state, key, clears, persists) \<Rightarrow>
      case cleared_with reg a of (states, keyed) \<Rightarrow>
        if state = [] then m s k
        else if s = state \<and> k = key then (if clears \<and> \<not> persists then [] else [persisted a])
        else if s \<in> set states \<and> (keyed \<longrightarrow> k = key) then []
        else m s k)"

lemma keys_ignore_content: "map_of key_of_state s = Some (Some k) \<Longrightarrow> k (a\<lparr>e_file_content := x\<rparr>) = k a"
proof -
  have "list_all (\<lambda>(s, k). case k of None \<Rightarrow> True | Some k \<Rightarrow> \<forall>a x. k (a\<lparr>e_file_content := x\<rparr>) = k a) key_of_state"
    by (simp add: key_of_state_def key_defs)
  then show "map_of key_of_state s = Some (Some k) \<Longrightarrow> k (a\<lparr>e_file_content := x\<rparr>) = k a"
    by (fastforce simp: list_all_iff dest: map_of_SomeD)
qed

lemma state_key_persisted:
  assumes look: "lookup_action startup_actions ty = Some d" and ne: "ad_state d \<noteq> []"
  shows "state_key d (persisted a) = state_key d a"
proof (cases "ad_state d = ''default_route''")
  case True
  then show ?thesis using startup_default_route_key [OF look]
    by (simp add: state_key_def persisted_def key_default_route_family_def key_default_route_set_def)
next
  case False
  from startup_key [OF look ne False] keys_ignore_content show ?thesis
    by (cases "ad_key d") (auto simp: state_key_def persisted_def)
qed

lemma state_of_persisted [simp]: "state_of startup_actions (persisted a) = state_of startup_actions a"
  using state_key_persisted [of "e_type a" _ a] by (auto simp: state_of_def persisted_def split: option.splits)

lemma op_action_saved:
  "o_type r = e_type a \<Longrightarrow> o_action r = Some (persisted a) \<Longrightarrow> op_action r = persisted a"
  by (simp add: op_action_def entry_def persisted_def Let_def)

lemma same_payload_action: "same_payload cid ns pod drv a r \<Longrightarrow> op_action r = persisted a"
  by (auto simp: same_payload_def intro: op_action_saved)

text \<open>
  C14: the history refines a map from pieces of state to the action that stands. After a save
  that succeeds, what the history says of any piece of state of that pod is what the contract
  \<open>word_after\<close> says: the action's own state holds the action, or nothing when the action undoes
  a state nothing would restore, the states it takes down hold nothing, the rest is as it was.
\<close>

theorem history_refines_last_word:
  assumes ok: "save_driver_operation startup_actions now ns pod drv a h = (Inr u, h')" and ids: "ids_ok h"
    and cid: "st_cluster (hs_store h) = Some cid" and s: "s \<noteq> []"
  shows "standing startup_actions (rows_of h') cid ns pod s k =
    word_after startup_actions a (standing startup_actions (rows_of h) cid ns pod) s k"
proof -
  let ?reg = startup_actions
  obtain state key clears persists where st: "state_of ?reg a = (state, key, clears, persists)"
    by (cases "state_of ?reg a") auto
  obtain states keyed where cw: "cleared_with ?reg a = (states, keyed)" by (cases "cleared_with ?reg a")
  have disp: "on_state ?reg s k r \<Longrightarrow> displaced ?reg a r \<longleftrightarrow>
      state \<noteq> [] \<and> (s = state \<and> k = key \<or> s \<in> set states \<and> (keyed \<longrightarrow> k = key))" for r
    using st cw by (auto simp: displaced_def on_state_def on_states_def split: prod.splits)
  have pay: "on_state ?reg s k r \<Longrightarrow> same_payload cid ns pod drv a r \<Longrightarrow> s = state \<and> k = key \<and> state \<noteq> []" for r
    using same_payload_action [of cid ns pod drv a r] st s by (auto simp: on_state_def)
  let ?new = "\<lparr>o_id = hs_next h, o_cluster = cid, o_ns = ns, o_pod = pod, o_driver = drv, o_type = e_type a,
            o_action = Some (persisted a), o_at = now\<rparr>"
  have new: "op_action ?new = persisted a" by (rule op_action_saved) simp_all
  then have on_new: "on_state ?reg s k ?new \<longleftrightarrow> s = state \<and> k = key" using st by (auto simp: on_state_def)
  have can: "cancels ?reg a \<longleftrightarrow> state \<noteq> [] \<and> clears \<and> \<not> persists" using st by (simp add: cancels_def)
  define gone where "gone \<longleftrightarrow> state \<noteq> [] \<and> (s = state \<and> k = key \<or> s \<in> set states \<and> (keyed \<longrightarrow> k = key))"
  have kept: "filter (\<lambda>r. of_pod cid ns pod r \<and> on_state ?reg s k r)
        (filter (\<lambda>r. \<not> (of_pod cid ns pod r \<and> displaced ?reg a r) \<and> (c \<longrightarrow> \<not> same_payload cid ns pod drv a r)) xs) =
      (if gone then [] else filter (\<lambda>r. of_pod cid ns pod r \<and> on_state ?reg s k r) xs)" for xs c
  proof (cases gone)
    case True
    with disp show ?thesis by (auto simp: gone_def filter_empty_conv)
  next
    case False
    have "(\<not> (of_pod cid ns pod r \<and> displaced ?reg a r) \<and> (c \<longrightarrow> \<not> same_payload cid ns pod drv a r)) \<and>
        of_pod cid ns pod r \<and> on_state ?reg s k r \<longleftrightarrow> of_pod cid ns pod r \<and> on_state ?reg s k r" for r
      using False disp [of r] pay [of r] unfolding gone_def by blast
    with False show ?thesis by simp
  qed
  show ?thesis
  proof (cases "cancels ?reg a")
    case True
    with save_Inr [OF ok ids] cid have "rows_of h' = filter (\<lambda>r. \<not> (of_pod cid ns pod r \<and> displaced ?reg a r) \<and>
        (False \<longrightarrow> \<not> same_payload cid ns pod drv a r)) (rows_of h)" by simp
    then have "standing ?reg (rows_of h') cid ns pod s k =
        (if gone then [] else standing ?reg (rows_of h) cid ns pod s k)"
      using kept [of False "rows_of h"] by (simp add: standing_def)
    moreover have "word_after ?reg a (standing ?reg (rows_of h) cid ns pod) s k =
        (if gone then [] else standing ?reg (rows_of h) cid ns pod s k)"
      using True can st cw by (auto simp: word_after_def gone_def)
    ultimately show ?thesis by simp
  next
    case False
    with save_Inr [OF ok ids] cid have "rows_of h' = filter (\<lambda>r. \<not> (of_pod cid ns pod r \<and> displaced ?reg a r) \<and>
        (True \<longrightarrow> \<not> same_payload cid ns pod drv a r)) (rows_of h) @ [?new]" by simp
    then have "standing ?reg (rows_of h') cid ns pod s k =
        (if gone then [] else standing ?reg (rows_of h) cid ns pod s k) @ (if s = state \<and> k = key then [persisted a] else [])"
      using kept [of True "rows_of h"] on_new new by (simp add: standing_def of_pod_def)
    moreover have "word_after ?reg a (standing ?reg (rows_of h) cid ns pod) s k =
        (if gone then [] else standing ?reg (rows_of h) cid ns pod s k) @ (if s = state \<and> k = key then [persisted a] else [])"
      using False can st cw s by (auto simp: word_after_def gone_def)
    ultimately show ?thesis by simp
  qed
qed

text \<open>An empty table of one cluster, and an action saved to it.\<close>

definition empty_history :: history where
  "empty_history = \<lparr>hs_store = \<lparr>st_open = True, st_cluster = Some ''c'', st_faults = [], st_rows = []\<rparr>, hs_next = 1\<rparr>"

lemma empty_ids [simp]: "ids_ok empty_history" by (simp add: ids_ok_def empty_history_def)

definition set_ip_action :: action_entry where
  "set_ip_action = (entry_of ''set_ip'')\<lparr>e_iface := ''eth1'', e_cidr := ''10.0.0.1/24''\<rparr>"

definition remove_ip_action :: action_entry where
  "remove_ip_action = set_ip_action\<lparr>e_type := ''remove_ip''\<rparr>"

lemma l3_lookup:
  "\<exists>c u. lookup_action startup_actions ''set_ip'' = Some (describe c u (l3_actions ! 0))"
  "\<exists>c u. lookup_action startup_actions ''remove_ip'' = Some (describe c u (l3_actions ! 2))"
proof -
  have m: "l3_actions ! 0 \<in> set l3_actions" "l3_actions ! 2 \<in> set l3_actions" by (simp_all add: l3_actions_def)
  have "ad_type (l3_actions ! 0) = ''set_ip''" "ad_type (l3_actions ! 2) = ''remove_ip''"
    by (simp_all add: l3_actions_def declare_action_def)
  with l3_decl [OF m(1)] l3_decl [OF m(2)]
  show "\<exists>c u. lookup_action startup_actions ''set_ip'' = Some (describe c u (l3_actions ! 0))"
    "\<exists>c u. lookup_action startup_actions ''remove_ip'' = Some (describe c u (l3_actions ! 2))" by metis+
qed

lemma ip_states:
  "state_of startup_actions set_ip_action = (''address'', ''eth1 10.0.0.1/24'', False, False)"
  "state_of startup_actions remove_ip_action = (''address'', ''eth1 10.0.0.1/24'', True, True)"
  "cleared_with startup_actions set_ip_action = ([], True)"
  "cleared_with startup_actions remove_ip_action = ([], True)"
  using l3_lookup
  by (auto simp: state_of_def cleared_with_def set_ip_action_def remove_ip_action_def entry_of_def state_key_def
      l3_actions_def declare_action_def key_address_def)

lemmas save_eval = save_driver_operation_def reconcile_history_def list_driver_operations_for_pod_def list_rows_def
  on_table_def op_bind_def need_open_def need_cluster_def db_query_def db_exec_def next_fault_def insert_row_def
  scan_rows_def rows_on_state_def rows_on_states_def ignore_no_rows_def delete_by_id_def empty_history_def

lemma first_save:
  "save_driver_operation startup_actions ''t1'' ''ns'' ''r-0'' ''drv'' set_ip_action empty_history =
     (Inr (), empty_history\<lparr>hs_next := 2, hs_store := (hs_store empty_history)\<lparr>st_rows :=
        [\<lparr>o_id = 1, o_cluster = ''c'', o_ns = ''ns'', o_pod = ''r-0'', o_driver = ''drv'', o_type = ''set_ip'',
          o_action = Some set_ip_action, o_at = ''t1''\<rparr>]\<rparr>\<rparr>)"
  by (simp add: save_eval ip_states numeral_2_eq_2) (simp add: set_ip_action_def persisted_def entry_of_def)


theorem history_refines_last_word_witness:
  "standing startup_actions
      (rows_of (snd (save_driver_operation startup_actions ''t1'' ''ns'' ''r-0'' ''drv'' set_ip_action empty_history)))
      ''c'' ''ns'' ''r-0'' ''address'' ''eth1 10.0.0.1/24'' = [set_ip_action]"
  using history_refines_last_word [OF first_save empty_ids, of "''c''" "''address''" "''eth1 10.0.0.1/24''"]
  by (simp add: first_save ip_states word_after_def)
    (simp add: empty_history_def set_ip_action_def persisted_def entry_of_def)

lemma on_states_Nil [simp]: "on_states reg [] k b r = False"
  by (simp add: on_states_def split: prod.splits)

text \<open>
  A save is not one transaction: when the insert of the new row fails, the row it replaces
  is already gone. With an address set on an interface, a removal of that address whose insert
  fails leaves the history without either, although the address was put there by the history.
\<close>

theorem failed_save_loses_the_row:
  "let h = snd (save_driver_operation startup_actions ''t1'' ''ns'' ''r-0'' ''drv'' set_ip_action empty_history);
       h' = h\<lparr>hs_store := (hs_store h)\<lparr>st_faults := [False, False, False, False, True]\<rparr>\<rparr>;
       r = save_driver_operation startup_actions ''t2'' ''ns'' ''r-0'' ''drv'' remove_ip_action h'
   in fst r = Inl (HDb (StmtFailed ''insert'')) \<and> rows_of (snd r) = [] \<and> length (rows_of h') = 1"
proof -
  let ?r = "\<lparr>o_id = 1, o_cluster = ''c'', o_ns = ''ns'', o_pod = ''r-0'', o_driver = ''drv'', o_type = ''set_ip'',
          o_action = Some set_ip_action, o_at = ''t1''\<rparr>"
  let ?h = "\<lambda>fs rs. \<lparr>hs_store = \<lparr>st_open = True, st_cluster = Some ''c'', st_faults = fs, st_rows = rs\<rparr>, hs_next = 2\<rparr>"
  have "op_action ?r = set_ip_action"
    by (simp add: op_action_def entry_def set_ip_action_def entry_of_def)
  then have on: "on_state startup_actions ''address'' ''eth1 10.0.0.1/24'' ?r" by (simp add: on_state_def ip_states)
  have l: "list_rows (\<lambda>cid. of_pod cid ''ns'' ''r-0'') (?h [False, False, False, False, True] [?r]) =
      (Inr [?r], ?h [False, False, False, True] [?r])"
    by (simp add: list_rows_def on_table_def op_bind_def need_open_def need_cluster_def db_query_def next_fault_def
        scan_rows_def of_pod_def)
  have d: "ignore_no_rows (delete_by_id 1) (?h [False, False, False, True] [?r]) = (Inr (), ?h [False, True] [])"
    by (simp add: ignore_no_rows_def delete_by_id_def on_table_def op_bind_def need_open_def db_exec_def db_query_def
        next_fault_def)
  have r: "reconcile_history startup_actions ''ns'' ''r-0'' remove_ip_action (?h [False, False, False, False, True] [?r]) =
      (Inr False, ?h [False, True] [])"
    using on by (simp add: reconcile_history_def ip_states list_driver_operations_for_pod_def op_bind_def l d
        rows_on_state_def rows_on_states_def del: One_nat_def)
  have "save_driver_operation startup_actions ''t2'' ''ns'' ''r-0'' ''drv'' remove_ip_action
        (?h [False, False, False, False, True] [?r]) = (Inl (HDb (StmtFailed ''insert'')), ?h [] [])"
    by (simp add: save_driver_operation_def on_table_def need_open_def op_bind_def need_cluster_def r
        db_exec_def next_fault_def insert_row_def del: One_nat_def)
  then show ?thesis unfolding Let_def first_save by (simp add: empty_history_def del: One_nat_def)
qed

section \<open>Every history the operations can reach\<close>

text \<open>
  One operation on the history, whether it succeeds or fails on the way, or a change of its
  surroundings: another cluster selected, the database closed or reopened, other faults to come.
\<close>

inductive hist_step :: "history \<Rightarrow> history \<Rightarrow> bool" where
  step_save: "save_driver_operation startup_actions now ns pod drv a h = (r, h') \<Longrightarrow> hist_step h h'"
| step_touch: "touch_driver_operation now i h = (r, h') \<Longrightarrow> hist_step h h'"
| step_delete: "delete_by_id i h = (r, h') \<Longrightarrow> hist_step h h'"
| step_purge: "purge_driver_operations_before tp ns t h = (r', h') \<Longrightarrow> hist_step h h'"
| step_forget_pod: "delete_driver_operation_history_for_pod ns pod h = (r, h') \<Longrightarrow> hist_step h h'"
| step_forget_namespace: "delete_namespace_driver_operation_history ns h = (r, h') \<Longrightarrow> hist_step h h'"
| step_environment: "hist_step h (h\<lparr>hs_store := (hs_store h)\<lparr>st_open := b, st_cluster := c, st_faults := fs\<rparr>\<rparr>)"

inductive hist_run :: "history \<Rightarrow> history \<Rightarrow> bool" where
  run_here: "hist_run h h"
| run_step: "hist_run h h' \<Longrightarrow> hist_step h' h'' \<Longrightarrow> hist_run h h''"

definition piece :: "operation \<Rightarrow> (string \<times> string \<times> string) \<times> string \<times> string" where
  "piece r = ((o_cluster r, o_ns r, o_pod r),
     (case state_of startup_actions (op_action r) of (s, k, _) \<Rightarrow> (s, k)))"

text \<open>One row for each piece of state of a pod.\<close>

definition one_word :: "operation list \<Rightarrow> bool" where
  "one_word rows \<longleftrightarrow> distinct (map piece (filter (\<lambda>r. fst (snd (piece r)) \<noteq> []) rows))"

definition history_inv :: "history \<Rightarrow> bool" where
  "history_inv h \<longleftrightarrow> ids_ok h \<and> one_word (rows_of h)"

lemma distinct_map_filter2: "distinct (map f (filter P xs)) \<Longrightarrow> distinct (map f (filter (\<lambda>x. Q x \<and> P x) xs))"
  using distinct_map_filter [of f "filter P xs" Q] by (simp add: conj_commute)

lemma one_word_snoc:
  assumes "one_word rows" and "\<And>r. r \<in> set rows \<Longrightarrow> fst (snd (piece n)) \<noteq> [] \<Longrightarrow> piece r \<noteq> piece n"
  shows "one_word (rows @ [n])"
proof (cases "fst (snd (piece n)) = []")
  case True
  with assms(1) show ?thesis by (simp add: one_word_def)
next
  case False
  with assms have "piece n \<notin> piece ` set (filter (\<lambda>r. fst (snd (piece r)) \<noteq> []) rows)" by fastforce
  with assms(1) False show ?thesis by (simp add: one_word_def)
qed

lemma inv_filter:
  assumes "history_inv h" and "rows_of h' = filter P (rows_of h)" and "hs_next h' = hs_next h"
  shows "history_inv h'"
  using assms distinct_map_filter
  by (auto simp: history_inv_def ids_ok_def one_word_def distinct_map_filter2)

lemma inv_only_removes: "only_removes m \<Longrightarrow> m h = (r, h') \<Longrightarrow> history_inv h \<Longrightarrow> history_inv h'"
  using only_removesD inv_filter by (metis same_env_def)

text \<open>A save that fails has only taken rows away.\<close>

definition fails_removing :: "(history, history_error, 'a) op \<Rightarrow> bool" where
  "fails_removing m \<longleftrightarrow> (\<forall>h e h'. m h = (Inl e, h') \<longrightarrow> same_env h h' \<and> (\<exists>P. rows_of h' = filter P (rows_of h)))"

lemma fails_removing_insert: "fails_removing (insert_row r)"
  unfolding fails_removing_def
proof (intro allI impI)
  fix h e h' assume "insert_row r h = (Inl e, h')"
  then have "on_table (db_exec ''insert'' (\<lambda>rows. rows @ [r\<lparr>o_id := hs_next h\<rparr>])) h = (Inl e, h')"
    by (auto simp: insert_row_def op_bind_def split: prod.splits sum.splits)
  then obtain d s where s: "db_exec ''insert'' (\<lambda>rows. rows @ [r\<lparr>o_id := hs_next h\<rparr>]) (hs_store h) = (Inl d, s)"
    "h' = h\<lparr>hs_store := s\<rparr>" by (auto simp: on_table_Inl)
  with db_exec_Inl [OF s(1)] db_exec_keeps [OF s(1)] show "same_env h h' \<and> (\<exists>P. rows_of h' = filter P (rows_of h))"
    by (auto simp: same_env_def intro: exI [of _ "\<lambda>_. True"])
qed

lemma fails_removing_only: "only_removes m \<Longrightarrow> fails_removing m"
  by (auto simp: fails_removing_def only_removes_def)

lemma fails_removing_bind:
  assumes "only_removes m" and "\<And>a. fails_removing (f a)"
  shows "fails_removing (op_bind m f)"
  unfolding fails_removing_def
proof (intro allI impI)
  fix h e h' assume "op_bind m f h = (Inl e, h')"
  then consider "m h = (Inl e, h')" | a h1 where "m h = (Inr a, h1)" "f a h1 = (Inl e, h')" by (auto simp: op_bind_Inl)
  then show "same_env h h' \<and> (\<exists>P. rows_of h' = filter P (rows_of h))"
  proof cases
    case 1
    then show ?thesis using assms(1) by (auto dest: only_removesD)
  next
    case 2
    from only_removesD [OF assms(1) 2(1)] 2(2) assms(2) obtain P Q where
      "rows_of h1 = filter P (rows_of h)" "rows_of h' = filter Q (rows_of h1)" "same_env h h1" "same_env h1 h'"
      unfolding fails_removing_def by meson
    then have "rows_of h' = filter (\<lambda>x. P x \<and> Q x) (rows_of h)" "same_env h h'" by (auto intro: same_env_trans)
    then show ?thesis by blast
  qed
qed

lemma fails_removing_save: "fails_removing (save_driver_operation reg now ns pod drv a)"
  unfolding save_driver_operation_def
  by (intro fails_removing_bind) (auto intro: fails_removing_bind fails_removing_insert fails_removing_only)

lemma inv_save:
  assumes "save_driver_operation startup_actions now ns pod drv a h = (r, h')" and inv: "history_inv h"
  shows "history_inv h'"
proof (cases r)
  case (Inl e)
  with assms fails_removing_save obtain P where "same_env h h'" "rows_of h' = filter P (rows_of h)"
    unfolding fails_removing_def by blast
  then show ?thesis using inv_filter [OF inv] by (simp add: same_env_def)
next
  case (Inr u)
  let ?reg = startup_actions
  have ids: "ids_ok h" using inv by (simp add: history_inv_def)
  from save_Inr [OF assms(1) [unfolded Inr] ids] obtain cid where
    s: "if cancels ?reg a
     then rows_of h' = filter (\<lambda>r. \<not> (of_pod cid ns pod r \<and> displaced ?reg a r)) (rows_of h) \<and> same_env h h'
     else rows_of h' = filter (\<lambda>r. \<not> (of_pod cid ns pod r \<and> displaced ?reg a r) \<and> \<not> same_payload cid ns pod drv a r) (rows_of h) @
          [\<lparr>o_id = hs_next h, o_cluster = cid, o_ns = ns, o_pod = pod, o_driver = drv, o_type = e_type a,
            o_action = Some (persisted a), o_at = now\<rparr>] \<and> hs_next h' = Suc (hs_next h)" by auto
  show ?thesis
  proof (cases "cancels ?reg a")
    case True
    with s show ?thesis using inv_filter [OF inv] by (simp add: same_env_def)
  next
    case False
    let ?n = "\<lparr>o_id = hs_next h, o_cluster = cid, o_ns = ns, o_pod = pod, o_driver = drv, o_type = e_type a,
            o_action = Some (persisted a), o_at = now\<rparr>"
    let ?k = "filter (\<lambda>r. \<not> (of_pod cid ns pod r \<and> displaced ?reg a r) \<and> \<not> same_payload cid ns pod drv a r) (rows_of h)"
    from False s have rows: "rows_of h' = ?k @ [?n]" "hs_next h' = Suc (hs_next h)" by auto
    have kept: "ids_ok (h\<lparr>hs_store := (hs_store h)\<lparr>st_rows := ?k\<rparr>\<rparr>)" "one_word ?k"
      using inv_filter [OF inv, of "h\<lparr>hs_store := (hs_store h)\<lparr>st_rows := ?k\<rparr>\<rparr>"] by (auto simp: history_inv_def)
    then have "ids_ok h'" using rows by (auto simp: ids_ok_def)
    have act: "op_action ?n = persisted a" by (rule op_action_saved) simp_all
    have "piece r \<noteq> piece ?n" if "r \<in> set ?k" "fst (snd (piece ?n)) \<noteq> []" for r
    proof
      assume e: "piece r = piece ?n"
      then have "of_pod cid ns pod r" by (simp add: piece_def of_pod_def)
      moreover from e that(2) act have "displaced ?reg a r"
        by (auto simp: piece_def displaced_def on_state_def split: prod.splits)
      ultimately show False using that(1) by simp
    qed
    then have "one_word (rows_of h')" unfolding rows(1) by (rule one_word_snoc [OF kept(2)])
    with \<open>ids_ok h'\<close> show ?thesis by (simp add: history_inv_def)
  qed
qed

lemma piece_touch [simp]: "piece (r\<lparr>o_at := now\<rparr>) = piece r"
proof -
  have "op_action (r\<lparr>o_at := now\<rparr>) = op_action r" by (cases r) (simp add: op_action_def entry_def Let_def split: option.splits)
  then show ?thesis by (simp add: piece_def)
qed

lemma inv_touch:
  assumes "touch_driver_operation now i h = (r, h')" and inv: "history_inv h"
  shows "history_inv h'"
proof -
  let ?f = "map (\<lambda>r. if o_id r = i then r\<lparr>o_at := now\<rparr> else r)"
  have ids: "map o_id (?f rs) = map o_id rs" for rs by simp
  have below: "(\<forall>r \<in> set rs. o_id r < k) \<longleftrightarrow> (\<forall>j \<in> set (map o_id rs). j < k)" for rs k by simp
  have "map piece (filter (\<lambda>r. fst (snd (piece r)) \<noteq> []) (?f rs)) = map piece (filter (\<lambda>r. fst (snd (piece r)) \<noteq> []) rs)" for rs
    by (induction rs) auto
  then have words: "one_word (?f rs) \<longleftrightarrow> one_word rs" for rs by (simp only: one_word_def)
  have "same_env h h' \<and> rows_of h' \<in> {rows_of h, ?f (rows_of h)}"
  proof (cases "st_open (hs_store h)")
    case True
    then have "on_table need_open h = (Inr (), h)" by simp
    with assms(1) have "on_table (db_exec ''touch'' ?f) h = (r, h')" by (simp add: touch_driver_operation_def op_bind_def)
    then show ?thesis using table_exec_any by blast
  next
    case False
    with assms(1) show ?thesis
      by (auto simp: touch_driver_operation_def op_bind_def on_table_def need_open_def)
  qed
  then consider "same_env h h'" "rows_of h' = rows_of h" | "same_env h h'" "rows_of h' = ?f (rows_of h)" by blast
  then show ?thesis
  proof cases
    case 1
    with inv show ?thesis by (simp add: history_inv_def ids_ok_def same_env_def)
  next
    case 2
    with inv show ?thesis unfolding history_inv_def ids_ok_def same_env_def below by (simp only: ids words) blast
  qed
qed

lemma inv_step: "hist_step h h' \<Longrightarrow> history_inv h \<Longrightarrow> history_inv h'"
proof (induction rule: hist_step.induct)
  case (step_environment h b c fs)
  then show ?case by (simp add: history_inv_def ids_ok_def)
qed (auto intro: inv_save inv_touch inv_only_removes
    simp: delete_driver_operation_history_for_pod_def delete_namespace_driver_operation_history_def)

text \<open>
  C15: whatever is saved, touched, purged and forgotten, in whatever order and wherever an
  operation fails, the history of a pod never holds two rows on the same piece of state, and
  no two rows share an id.
\<close>

theorem history_keeps_one_word:
  assumes "hist_run h h'" and "history_inv h"
  shows "history_inv h'"
  using assms by (induction rule: hist_run.induct) (auto intro: inv_step)

theorem history_keeps_one_word_witness:
  "history_inv (snd (save_driver_operation startup_actions ''t1'' ''ns'' ''r-0'' ''drv'' set_ip_action empty_history))"
proof (rule history_keeps_one_word)
  show "history_inv empty_history" by (simp add: history_inv_def one_word_def) (simp add: empty_history_def)
  have "hist_step empty_history (snd (save_driver_operation startup_actions ''t1'' ''ns'' ''r-0'' ''drv'' set_ip_action empty_history))"
    by (rule step_save) (rule prod.collapse [symmetric])
  then show "hist_run empty_history (snd (save_driver_operation startup_actions ''t1'' ''ns'' ''r-0'' ''drv'' set_ip_action empty_history))"
    by (blast intro: hist_run.intros)
qed

section \<open>Retrying a replayed command\<close>

text \<open>The state after \<open>i\<close> calls, and the error the next one returns.\<close>

definition called :: "('s \<Rightarrow> string option \<times> 's) \<Rightarrow> nat \<Rightarrow> 's \<Rightarrow> 's" where
  "called fn i = (\<lambda>s. snd (fn s)) ^^ i"

definition gives_up_on :: "string option \<Rightarrow> bool" where
  "gives_up_on e \<longleftrightarrow> e = None \<or> is_transient_exec_error e"

lemma called_0 [simp]: "called fn 0 s = s" by (simp add: called_def)

lemma called_Suc: "called fn (Suc i) s = called fn i (snd (fn s))"
  by (simp add: called_def funpow_Suc_right del: funpow.simps)

lemma retry_from_spec:
  "retry_from (Suc left) attempt fn s = ((e, pauses, c), u) \<Longrightarrow>
     1 \<le> c \<and> c \<le> Suc left \<and> e = fst (fn (called fn (c - 1) s)) \<and> u = called fn c s \<and>
     pauses = map (\<lambda>i. 2 * (attempt + i)) [0..<c - 1] \<and>
     (\<forall>i < c - 1. \<not> gives_up_on (fst (fn (called fn i s)))) \<and> (gives_up_on e \<or> c = Suc left)"
proof (induction left arbitrary: attempt s e pauses c u)
  case 0
  then show ?case by (auto simp: gives_up_on_def called_Suc split: prod.splits if_splits)
next
  case (Suc left)
  obtain e0 t where f: "fn s = (e0, t)" by fastforce
  show ?case
  proof (cases "gives_up_on e0")
    case True
    then have "((e0, [], 1), t) = ((e, pauses, c), u)"
      using Suc.prems f by (auto simp: gives_up_on_def split: prod.splits if_splits)
    then show ?thesis using f True by (auto simp: called_Suc)
  next
    case False
    obtain e' p' c' u' where r: "retry_from (Suc left) (Suc attempt) fn t = ((e', p', c'), u')"
      by (metis prod.exhaust)
    with Suc.prems f False have eq: "e = e'" "pauses = 2 * attempt # p'" "c = Suc c'" "u' = u"
      by (auto simp add: gives_up_on_def retry_from.simps(2) [of "Suc left"] simp del: retry_from.simps)
    from Suc.IH [OF r, unfolded eq(4)] have ih: "1 \<le> c' \<and> c' \<le> Suc left" "e' = fst (fn (called fn (c' - 1) t))" "u = called fn c' t"
      "p' = map (\<lambda>i. 2 * (Suc attempt + i)) [0..<c' - 1]" "gives_up_on e' \<or> c' = Suc left" and
      failed: "\<And>i. i < c' - 1 \<Longrightarrow> \<not> gives_up_on (fst (fn (called fn i t)))" by auto
    then obtain d where d: "c' = Suc d" by (cases c') auto
    have "[0..<c - 1] = 0 # map Suc [0..<d]" by (simp add: eq d map_Suc_upt upt_conv_Cons del: upt_Suc)
    moreover have "\<not> gives_up_on (fst (fn (called fn i s)))" if "i < c - 1" for i
      using that failed False f by (cases i) (auto simp: eq d called_Suc)
    ultimately show ?thesis using ih f eq by (auto simp: d called_Suc)
  qed
qed

text \<open>
  C17: a replayed command is tried at least once and at most four times, the pauses between the
  tries are 2, 4 and 6 seconds, at most 12 in all. Every try but the last failed with an error
  that is not a matter of transport, what comes back is the result of the last one, and only
  four failed tries give up on a command.
\<close>

theorem replay_retry_bounds:
  assumes "exec_with_replay_retry fn s = ((e, pauses, c), u)"
  shows "1 \<le> c \<and> c \<le> 4 \<and> sum_list pauses \<le> 12 \<and> pauses = take (c - 1) [2, 4, 6] \<and>
     u = called fn c s \<and> e = fst (fn (called fn (c - 1) s)) \<and>
     (\<forall>i < c - 1. \<not> gives_up_on (fst (fn (called fn i s)))) \<and> (gives_up_on e \<or> c = 4)"
proof -
  have "retry_from (Suc 3) 1 fn s = ((e, pauses, c), u)"
    using assms by (simp add: exec_with_replay_retry_def replay_exec_attempts_def eval_nat_numeral(3) [symmetric])
  note spec = retry_from_spec [OF this]
  then have "c = 1 \<or> c = 2 \<or> c = 3 \<or> c = 4" by arith
  then have "map (\<lambda>i. 2 * (1 + i)) [0..<c - 1] = take (c - 1) [2, 4, 6]"
    by (elim disjE) (simp_all add: upt_rec)
  with spec have "pauses = take (c - 1) [2, 4, 6]" by simp
  moreover have "sum_list (take k [2, 4, 6 :: nat]) \<le> 12" for k by (simp add: take_Cons' )
  ultimately show ?thesis using spec by auto
qed

text \<open>A daemon that answers from the third call on.\<close>

definition slow_daemon :: "nat \<Rightarrow> string option \<times> nat" where
  "slow_daemon n = (if n < 2 then Some ''exit status 1'' else None, Suc n)"

theorem replay_retry_bounds_witness:
  "exec_with_replay_retry slow_daemon 0 = ((None, [2, 4], 3), 3) \<and>
   3 = called slow_daemon 3 (0 :: nat) \<and> \<not> gives_up_on (fst (slow_daemon (called slow_daemon 1 0)))"
proof -
  have run: "exec_with_replay_retry slow_daemon 0 = ((None, [2, 4], 3), 3)" by code_simp
  from replay_retry_bounds [OF run] show ?thesis using run by auto
qed

end
