(* ===== verification/Action_Pipeline.thy ===== *)
theory Action_Pipeline
  imports Base_Commands Operation_History
begin

text \<open>
  From a request to what ran on a pod: \<open>helpers/configurator.go\<close> resolves the executor and the
  commands of each action, \<open>helpers/netns_tools.go\<close> chooses the container that has the tools,
  \<open>helpers/action_pipeline.go\<close> plans the actions of a pod, groups them into one commit or one
  shell script, runs them and takes the outcomes apart again.
  A driver is the record \<open>driver_face\<close> of what planning asks of it. The pod is a state \<open>'s\<close> that
  the exec stream, the probe for a tool and the injection of the toolbox act on; the cache of
  \<open>NetnsContainer\<close> is kept beside it. A Go panic while planning is \<open>None\<close>.
\<close>

section \<open>Planning\<close>

record action_flags =
  fl_persist :: bool
  fl_get :: bool

definition resolve_action_flags :: "action_entry \<Rightarrow> action_flags" where
  "resolve_action_flags a =
     (case e_options a of
        None \<Rightarrow> \<lparr>fl_persist = True, fl_get = False\<rparr>
      | Some os \<Rightarrow> \<lparr>fl_persist = (case ao_persist os of None \<Rightarrow> True | Some b \<Rightarrow> b),
                   fl_get = (case ao_capture os of None \<Rightarrow> False | Some b \<Rightarrow> b)\<rparr>)"

record driver_face =
  df_caps :: "string list"
  df_stp_modes :: "string list"
  df_rows :: "cap_call \<Rightarrow> build"
  df_executor :: "string option"
  df_guest :: "(string \<Rightarrow> string \<Rightarrow> string \<Rightarrow> string + string) option"
  df_precondition :: "string \<Rightarrow> action_entry \<Rightarrow> (string list \<times> string) option"

text \<open>The nil driver of a pod without one: no capability, so only commands given as such.\<close>

definition no_driver :: driver_face where
  "no_driver = \<lparr>df_caps = [], df_stp_modes = [], df_rows = rows_with [], df_executor = None, df_guest = None,
     df_precondition = (\<lambda>_ _. None)\<rparr>"

record plan_env =
  pe_registry :: action_registry
  pe_executors :: "executor list"
  pe_run :: run_env
  pe_file :: "string \<Rightarrow> string \<Rightarrow> string + string"

datatype plan_error =
    PNoDriver string | PUnknownAction string | PInvalid validate_error | PUnsupported | PFileError string
  | PGuestError string | PBuild string | PNoCommands | PNoExecutor string | PNoTool string string

definition executor_names :: "plan_env \<Rightarrow> string list" where
  "executor_names pe = map (\<lambda>e. trim_space (executor_name e)) (pe_executors pe)"

text \<open>\<open>Run\<close> on a validated request; a capability method on a driver without it is a nil method call.\<close>

definition build_rows :: "plan_env \<Rightarrow> driver_face \<Rightarrow> descriptor \<Rightarrow> action_entry \<Rightarrow> (plan_error + string list list) option" where
  "build_rows pe drv d a =
     (case ad_run d ((pe_run pe)\<lparr>rn_caps := df_caps drv, rn_stp_modes := df_stp_modes drv\<rparr>) a of
        Inl e \<Rightarrow> Some (Inl (PBuild e))
      | Inr c \<Rightarrow> (case df_rows drv c of Rows rows \<Rightarrow> Some (Inr rows) | _ \<Rightarrow> None))"

definition choose_executor :: "plan_env \<Rightarrow> driver_face \<Rightarrow> descriptor \<Rightarrow> action_entry \<Rightarrow> plan_error + string" where
  "choose_executor pe drv d a =
     (let name = (if ad_from_request d \<and> e_executor a \<noteq> [] then e_executor a else ad_executor d) in
      if name \<noteq> [] then Inr name
      else case resolve_for_driver (pe_executors pe) (df_executor drv) of
        None \<Rightarrow> Inl (PNoExecutor []) | Some n \<Rightarrow> Inr n)"

definition read_file_param :: "plan_env \<Rightarrow> string \<Rightarrow> descriptor \<Rightarrow> action_entry \<Rightarrow> plan_error + action_entry" where
  "read_file_param pe ns d a =
     (case file_param d of None \<Rightarrow> Inr a
      | Some p \<Rightarrow> (case pe_file pe ns (e_file a) of
          Inl e \<Rightarrow> Inl (PFileError e) | Inr text \<Rightarrow> Inr (a\<lparr>e_file_content := text\<rparr>)))"

definition map_guest :: "driver_face \<Rightarrow> string \<Rightarrow> string \<Rightarrow> descriptor \<Rightarrow> action_entry \<Rightarrow> plan_error + action_entry" where
  "map_guest drv ns pod d a =
     (case df_guest drv of None \<Rightarrow> Inr a
      | Some g \<Rightarrow> (case map_interfaces (g ns pod) d a of Inl e \<Rightarrow> Inl (PGuestError e) | Inr a' \<Rightarrow> Inr a'))"

definition resolve_driver_execution_plan ::
  "plan_env \<Rightarrow> string \<Rightarrow> string \<Rightarrow> driver_face \<Rightarrow> action_entry \<Rightarrow> (plan_error + string \<times> string list list) option" where
  "resolve_driver_execution_plan pe ns pod drv a =
     (case lookup_action (pe_registry pe) (e_type a) of
        None \<Rightarrow> Some (Inl (PUnknownAction (e_type a)))
      | Some d \<Rightarrow>
          (case validate (executor_names pe) d a of
             Some e \<Rightarrow> Some (Inl (PInvalid e))
           | None \<Rightarrow>
               if \<not> supports d (df_caps drv) then Some (Inl PUnsupported)
               else (case bindR (read_file_param pe ns d a) (map_guest drv ns pod d) of
                  Inl e \<Rightarrow> Some (Inl e)
                | Inr a' \<Rightarrow> map_option (\<lambda>r. bindR r (\<lambda>rows. bindR (choose_executor pe drv d a') (\<lambda>x. Inr (x, rows))))
                    (build_rows pe drv d a'))))"

record planned =
  pl_action :: action_entry
  pl_flags :: action_flags
  pl_executor :: string
  pl_exec :: "executor option"
  pl_commands :: "string list list"
  pl_container :: string
  pl_precondition :: "(string list \<times> string) option"
  pl_skip :: string
  pl_err :: "plan_error option"

definition precondition_rc :: nat where "precondition_rc = 96"

definition precondition_guard :: "string list \<times> string \<Rightarrow> string" where
  "precondition_guard pc =
     ''( '' @ shell_join (fst pc) @ '' || { echo '' @ shell_quote (snd pc) @ ''; exit '' @ nat_str precondition_rc @ ''; }; )''"

definition planned_with :: "action_entry \<Rightarrow> string \<Rightarrow> executor option \<Rightarrow> string list list \<Rightarrow> plan_error option \<Rightarrow> planned" where
  "planned_with a x e rows err =
     \<lparr>pl_action = a, pl_flags = resolve_action_flags a, pl_executor = x, pl_exec = e, pl_commands = rows,
      pl_container = [], pl_precondition = None, pl_skip = [], pl_err = err\<rparr>"

text \<open>The need of the capability, checked before the commands; a captured action runs it as its first command.\<close>

definition guard_plan :: "planned \<Rightarrow> (string list \<times> string) option \<Rightarrow> planned" where
  "guard_plan p check =
     (case check of None \<Rightarrow> p
      | Some pc \<Rightarrow> p\<lparr>pl_precondition := Some pc,
          pl_commands := (if fl_get (pl_flags p) then [''sh'', ''-c'', precondition_guard pc] # pl_commands p else pl_commands p)\<rparr>)"

definition plan_resolved ::
  "plan_env \<Rightarrow> string \<Rightarrow> string \<Rightarrow> driver_face \<Rightarrow> action_entry \<Rightarrow> planned option" where
  "plan_resolved pe ns pod drv a =
     map_option (\<lambda>r. case r of
         Inl e \<Rightarrow> planned_with a [] None [] (Some e)
       | Inr (x, rows) \<Rightarrow>
           if rows = [] then planned_with a x None [] (Some PNoCommands)
           else (case get_executor (pe_executors pe) x of
               None \<Rightarrow> planned_with a x None rows (Some (PNoExecutor x))
             | Some e \<Rightarrow>
                 let p = planned_with a x (Some e) rows None in
                 if x \<noteq> default_executor_name then p
                 else (case lookup_action (pe_registry pe) (e_type a) of None \<Rightarrow> p
                   | Some d \<Rightarrow> guard_plan p (df_precondition drv (ds_capability d) a))))
       (resolve_driver_execution_plan pe ns pod drv a)"

definition plan_action ::
  "plan_env \<Rightarrow> string \<Rightarrow> string \<Rightarrow> string + driver_face \<Rightarrow> action_entry \<Rightarrow> planned option" where
  "plan_action pe ns pod drv a =
     (case drv of
        Inr f \<Rightarrow> plan_resolved pe ns pod f a
      | Inl e \<Rightarrow>
          (if (case lookup_action (pe_registry pe) (e_type a) of None \<Rightarrow> True | Some d \<Rightarrow> \<not> ds_universal d)
           then Some (planned_with a [] None [] (Some (PNoDriver e)))
           else plan_resolved pe ns pod no_driver a))"

definition plan_actions ::
  "plan_env \<Rightarrow> string \<Rightarrow> string \<Rightarrow> string + driver_face \<Rightarrow> action_entry list \<Rightarrow> planned list option" where
  "plan_actions pe ns pod drv acts = those (map (plan_action pe ns pod drv) acts)"

section \<open>Where a command finds its tools\<close>

datatype tool_class = ToolNone | ToolNetns | ToolBridge | ToolIptables | ToolTayga

text \<open>The expressions of \<open>netns_tools.go\<close>: \<open>\s\<close> of RE2, a word after the start or an operator.\<close>

definition word_here :: "string list \<Rightarrow> string \<Rightarrow> bool" where
  "word_here ws s \<longleftrightarrow>
     list_ex (\<lambda>w. has_prefix s w \<and> (case drop (length w) s of [] \<Rightarrow> True | c # _ \<Rightarrow> re_space c)) ws"

fun word_after_operator :: "string list \<Rightarrow> string \<Rightarrow> bool" where
  "word_after_operator ws [] = False"
| "word_after_operator ws (c # s) =
     (c \<in> set '';&|({!'' \<and> word_here ws (dropWhile re_space s) \<or> word_after_operator ws s)"

definition runs_tool :: "string list \<Rightarrow> string \<Rightarrow> bool" where
  "runs_tool ws s \<longleftrightarrow> word_here ws s \<or> word_after_operator ws s"

definition word_char :: "char \<Rightarrow> bool" where
  "word_char c \<longleftrightarrow> is_alnum c \<or> c = CHR ''_''"

fun at_word_start :: "(string \<Rightarrow> bool) \<Rightarrow> bool \<Rightarrow> string \<Rightarrow> bool" where
  "at_word_start P edge [] = False"
| "at_word_start P edge (c # s) = (edge \<and> P (c # s) \<or> at_word_start P (\<not> word_char c) s)"

definition bridge_options :: "string \<Rightarrow> bool" where
  "bridge_options s \<longleftrightarrow>
     has_prefix s ''type bridge_slave'' \<and> (case drop 17 s of [] \<Rightarrow> True | c # _ \<Rightarrow> \<not> word_char c) \<or>
     has_prefix s ''type bridge'' \<and> (case drop 11 s of [] \<Rightarrow> False | c # r \<Rightarrow> re_space c \<and> dropWhile re_space r \<noteq> [])"

definition tool_class_of :: "string list \<Rightarrow> tool_class" where
  "tool_class_of argv =
     (if argv = [] then ToolNone
      else let text = (if hd argv \<in> {''sh'', ''bash''} \<and> length argv \<ge> 3 \<and> argv ! 1 = ''-c'' then argv ! 2
                       else join_with '' '' argv) in
        if runs_tool [''tayga''] text then ToolTayga
        else if runs_tool [''iptables'', ''ip6tables''] text then ToolIptables
        else if runs_tool [''bridge''] text \<or> at_word_start bridge_options True text then ToolBridge
        else if runs_tool [''ip'', ''tc''] text then ToolNetns
        else ToolNone)"

primrec class_of_rows :: "tool_class \<Rightarrow> string list list \<Rightarrow> tool_class" where
  "class_of_rows class [] = class"
| "class_of_rows class (r # rs) =
     (case tool_class_of r of
        ToolTayga \<Rightarrow> ToolTayga
      | ToolIptables \<Rightarrow> class_of_rows ToolIptables rs
      | ToolBridge \<Rightarrow> class_of_rows (if class \<noteq> ToolIptables then ToolBridge else class) rs
      | ToolNetns \<Rightarrow> class_of_rows (if class = ToolNone then ToolNetns else class) rs
      | ToolNone \<Rightarrow> class_of_rows class rs)"

definition tool_class_of_rows :: "string list list \<Rightarrow> tool_class" where
  "tool_class_of_rows rows = class_of_rows ToolNone rows"

fun tool_probe :: "tool_class \<Rightarrow> string" where
  "tool_probe ToolTayga = ''tayga''"
| "tool_probe ToolIptables = ''iptables''"
| "tool_probe ToolBridge = ''bridge''"
| "tool_probe _ = ''ip''"

record 's cluster_ops = "'s pod_exec" +
  co_exec_in_pod :: "string \<Rightarrow> string \<Rightarrow> string list \<Rightarrow> 's \<Rightarrow> bool \<times> 's"
  co_ensure_toolbox :: "string \<Rightarrow> string \<Rightarrow> ('s, string, string) op"

record 's machine =
  mc_pods :: 's
  mc_tools :: "(string \<times> string \<times> tool_class) \<Rightarrow> bool option"

definition on_pods :: "('s, 'e, 'a) op \<Rightarrow> ('s machine, 'e, 'a) op" where
  "on_pods m = (\<lambda>mc. case m (mc_pods mc) of (r, t) \<Rightarrow> (r, mc\<lparr>mc_pods := t\<rparr>))"

definition toolbox_for :: "'s cluster_ops \<Rightarrow> string \<Rightarrow> string \<Rightarrow> ('s machine, string, string) op" where
  "toolbox_for co ns pod = op_map_err (\<lambda>e. ''could not ensure the toolbox: '' @ e) (on_pods (co_ensure_toolbox co ns pod))"

definition netns_container :: "'s cluster_ops \<Rightarrow> string \<Rightarrow> string \<Rightarrow> tool_class \<Rightarrow> ('s machine, string, string) op" where
  "netns_container co ns pod class =
     (if class = ToolNone then op_ret []
      else (\<lambda>mc. case mc_tools mc (ns, pod, class) of
         Some False \<Rightarrow> (Inr [], mc)
       | Some True \<Rightarrow> toolbox_for co ns pod mc
       | None \<Rightarrow>
           (case co_exec_in_pod co ns pod [''sh'', ''-c'', ''command -v '' @ tool_probe class] (mc_pods mc) of
              (True, t) \<Rightarrow> (Inr [], mc\<lparr>mc_pods := t, mc_tools := (mc_tools mc)((ns, pod, class) \<mapsto> False)\<rparr>)
            | (False, t) \<Rightarrow>
                toolbox_for co ns pod (mc\<lparr>mc_pods := t, mc_tools := (mc_tools mc)((ns, pod, class) \<mapsto> True)\<rparr>))))"

definition place_plan :: "'s cluster_ops \<Rightarrow> string \<Rightarrow> string \<Rightarrow> planned \<Rightarrow> 's machine \<Rightarrow> planned \<times> 's machine" where
  "place_plan co ns pod p s =
     (if pl_err p \<noteq> None \<or> pl_skip p \<noteq> [] \<or> pl_executor p \<noteq> default_executor_name then (p, s)
      else let class = tool_class_of_rows (pl_commands p) in
        if class = ToolNone then (p, s)
        else case netns_container co ns pod class s of
          (Inl e, t) \<Rightarrow> (p\<lparr>pl_err := Some (PNoTool (tool_probe class) e)\<rparr>, t)
        | (Inr c, t) \<Rightarrow> (p\<lparr>pl_container := c\<rparr>, t))"

primrec place_plans :: "'s cluster_ops \<Rightarrow> string \<Rightarrow> string \<Rightarrow> planned list \<Rightarrow> 's machine \<Rightarrow> planned list \<times> 's machine" where
  "place_plans co ns pod [] s = ([], s)"
| "place_plans co ns pod (p # ps) s =
     (case place_plan co ns pod p s of (q, t) \<Rightarrow>
        case place_plans co ns pod ps t of (qs, u) \<Rightarrow> (q # qs, u))"

end
