(* ===== verification/Action_Run.thy ===== *)
theory Action_Run
  imports Action_Pipeline
begin

text \<open>
  Running planned actions, the second half of \<open>helpers/action_pipeline.go\<close>: consecutive actions on
  a batchable executor are one command, consecutive kubectl actions one shell script whose output
  is split by the marker lines, every other action runs command by command. The wrapper around
  an execution and the errors that abort a run are options of the caller: a configure runs once
  and never aborts, a replay retries (\<open>execWithReplayRetry\<close>) and aborts on a transport error.
  The theorems: every runnable action gets one outcome, in order, an abort leaves the later ones
  alone; and a script's output splits back into what each action printed.
\<close>

section \<open>Scripts\<close>

definition batch_marker :: string where "batch_marker = ''__kubendt_rc__''"

definition script_commands :: "planned \<Rightarrow> string list" where
  "script_commands p =
     (case pl_precondition p of None \<Rightarrow> [] | Some pc \<Rightarrow> [precondition_guard pc]) @
     map shell_join (filter (\<lambda>r. r \<noteq> []) (pl_commands p))"

definition script_line :: "nat \<Rightarrow> planned \<Rightarrow> string" where
  "script_line k p =
     (let cmds = script_commands p in
      ''{ '' @ join_with '' && '' (if cmds = [] then [''true''] else cmds) @ ''; } 2>&1; echo '' @ [dquote] @
      batch_marker @ '' '' @ nat_str k @ '' $?'' @ [dquote, newline])"

definition shell_script :: "planned list \<Rightarrow> string" where
  "shell_script plans = concat (map2 script_line [0 ..< length plans] plans)"

record batch_result =
  br_output :: string
  br_rc :: int
  br_seen :: bool

definition unseen :: batch_result where
  "unseen = \<lparr>br_output = [], br_rc = 0, br_seen = False\<rparr>"

definition batch_err :: "batch_result \<Rightarrow> string option" where
  "batch_err r =
     (let status = Some (''exec error: exit status '' @ int_str (br_rc r) @ '' | output: '' @ br_output r) in
      if \<not> br_seen r then Some ''exec error: the action left no result in the batch''
      else if br_rc r = 0 then None
      else if br_rc r = int precondition_rc \<and> br_output r \<noteq> [] then Some (br_output r)
      else if br_rc r = 127 then
        (let prog = missing_program_in (br_output r) in
         if prog \<noteq> [] then Some (missing_text prog (br_output r)) else status)
      else status)"

text \<open>A marker line of the script: the index and the status of an action.\<close>

definition marker_of :: "nat \<Rightarrow> string \<Rightarrow> (nat \<times> int) option" where
  "marker_of n l =
     (case Go_Prelude.fields l of
        [m, a, b] \<Rightarrow>
          if m \<noteq> batch_marker then None
          else (case (atoi a, atoi b) of
             (Some k, Some rc) \<Rightarrow> if 0 \<le> k \<and> k < int n then Some (nat k, rc) else None
           | _ \<Rightarrow> None)
      | _ \<Rightarrow> None)"

primrec parse_lines :: "nat \<Rightarrow> string list \<Rightarrow> string list \<Rightarrow> batch_result list \<Rightarrow> batch_result list" where
  "parse_lines n [] cur res = res"
| "parse_lines n (l # ls) cur res =
     (case marker_of n l of
        Some (k, rc) \<Rightarrow>
          parse_lines n ls [] (res[k := \<lparr>br_output = trim_space (join_with [newline] cur), br_rc = rc, br_seen = True\<rparr>])
      | None \<Rightarrow> parse_lines n ls (cur @ [l]) res)"

definition parse_shell_script :: "string \<Rightarrow> nat \<Rightarrow> batch_result list" where
  "parse_shell_script out n = parse_lines n (split_on newline out) [] (replicate n unseen)"

section \<open>Running\<close>

datatype outcome_error = OPlan plan_error | OExec string

record action_outcome =
  oc_ran :: bool
  oc_output :: string
  oc_err :: "outcome_error option"

record 's run_options =
  ro_exec :: "('s machine, string, string) op \<Rightarrow> ('s machine, string, string) op"
  ro_abort :: "string \<Rightarrow> bool"

definition not_run :: "planned \<Rightarrow> action_outcome" where
  "not_run p = \<lparr>oc_ran = False, oc_output = [], oc_err = map_option OPlan (pl_err p)\<rparr>"

definition ran_with :: "string \<Rightarrow> string option \<Rightarrow> action_outcome" where
  "ran_with out e = \<lparr>oc_ran = True, oc_output = out, oc_err = map_option OExec e\<rparr>"

definition aborted_by :: "string \<Rightarrow> planned \<Rightarrow> action_outcome" where
  "aborted_by e p = (not_run p)\<lparr>oc_err := Some (OExec e)\<rparr>"

definition to_run :: "planned \<Rightarrow> bool" where
  "to_run p \<longleftrightarrow> pl_skip p = [] \<and> pl_err p = None"

text \<open>The executor of a planned action runs a command; a plan without an error has one.\<close>

definition run_command ::
  "'s cluster_ops \<Rightarrow> string \<Rightarrow> string \<Rightarrow> planned \<Rightarrow> command \<Rightarrow> ('s machine, string, string) op" where
  "run_command co ns pod p c =
     (case pl_exec p of None \<Rightarrow> op_fail ''nil executor''
      | Some e \<Rightarrow> on_pods (exec_command_and_get (pod_exec.truncate co) e pod ns c))"

text \<open>The group a batch takes from the actions that follow it.\<close>

definition same_batch :: "planned \<Rightarrow> planned \<Rightarrow> bool" where
  "same_batch p q \<longleftrightarrow> to_run q \<and> pl_executor q = pl_executor p \<and> \<not> fl_get (pl_flags q)"

definition same_script :: "planned \<Rightarrow> planned \<Rightarrow> bool" where
  "same_script p q \<longleftrightarrow> same_batch p q \<and> pl_container q = pl_container p"

datatype group_kind = Batch | Script | Single

definition kind_of :: "planned \<Rightarrow> group_kind" where
  "kind_of p =
     (if pl_executor p \<in> set batchable_executors \<and> \<not> fl_get (pl_flags p) then Batch
      else if pl_executor p = default_executor_name \<and> \<not> fl_get (pl_flags p) then Script
      else Single)"

definition joins :: "planned \<Rightarrow> planned \<Rightarrow> bool" where
  "joins p q = (case kind_of p of Batch \<Rightarrow> same_batch p q | Script \<Rightarrow> same_script p q | Single \<Rightarrow> False)"

text \<open>One action command by command: the trimmed outputs, and the error it stopped at.\<close>

primrec run_commands ::
  "'s run_options \<Rightarrow> (command \<Rightarrow> ('s machine, string, string) op) \<Rightarrow> command list \<Rightarrow> 's machine \<Rightarrow>
   (string list \<times> string option) \<times> 's machine" where
  "run_commands ro f [] s = (([], None), s)"
| "run_commands ro f (c # cs) s =
     (case ro_exec ro (f c) s of
        (Inl e, t) \<Rightarrow> (([], Some e), t)
      | (Inr out, t) \<Rightarrow>
          (case run_commands ro f cs t of
             ((outs, e), u) \<Rightarrow> ((if trim_space out = [] then outs else trim_space out # outs, e), u)))"

definition run_single ::
  "plan_env \<Rightarrow> 's cluster_ops \<Rightarrow> 's run_options \<Rightarrow> string \<Rightarrow> string \<Rightarrow> planned \<Rightarrow> 's machine \<Rightarrow>
   (action_outcome list + string) \<times> 's machine" where
  "run_single pe co ro ns pod p s =
     (let f = (\<lambda>c. let r = run_command co ns pod p (c\<lparr>cm_container := pl_container p\<rparr>) in
                  if fl_get (pl_flags p) then r else op_bind r (\<lambda>_. op_ret [])) in
      case run_commands ro f (commands_from_legacy_for_executor (pe_executors pe) (pl_commands p) (pl_executor p)) s of
        ((outs, None), t) \<Rightarrow> (Inl [ran_with (join_with [newline] outs) None], t)
      | ((outs, Some e), t) \<Rightarrow>
          (if ro_abort ro e then Inr e else Inl [ran_with (join_with [newline] outs) (Some e)], t))"

definition run_batch ::
  "'s cluster_ops \<Rightarrow> 's run_options \<Rightarrow> string \<Rightarrow> string \<Rightarrow> planned list \<Rightarrow> 's machine \<Rightarrow>
   (action_outcome list + string) \<times> 's machine" where
  "run_batch co ro ns pod grp s =
     (case ro_exec ro (run_command co ns pod (hd grp)
             (new_args_command (concat (concat (map pl_commands grp))))) s of
        (Inl e, t) \<Rightarrow> (if ro_abort ro e then Inr e else Inl (map (\<lambda>_. ran_with [] (Some e)) grp), t)
      | (Inr _, t) \<Rightarrow> (Inl (map (\<lambda>_. ran_with [] None) grp), t))"

definition run_script ::
  "'s cluster_ops \<Rightarrow> 's run_options \<Rightarrow> string \<Rightarrow> string \<Rightarrow> planned list \<Rightarrow> 's machine \<Rightarrow>
   (action_outcome list + string) \<times> 's machine" where
  "run_script co ro ns pod grp s =
     (case ro_exec ro (run_command co ns pod (hd grp)
             ((new_args_command [''sh'', ''-c'', shell_script grp])\<lparr>cm_container := pl_container (hd grp)\<rparr>)) s of
        (Inl e, t) \<Rightarrow> (if ro_abort ro e then Inr e else Inl (map (\<lambda>_. ran_with [] (Some e)) grp), t)
      | (Inr out, t) \<Rightarrow>
          (Inl (map (\<lambda>r. ran_with (br_output r) (batch_err r)) (parse_shell_script out (length grp))), t))"

definition run_group ::
  "plan_env \<Rightarrow> 's cluster_ops \<Rightarrow> 's run_options \<Rightarrow> string \<Rightarrow> string \<Rightarrow> planned list \<Rightarrow> 's machine \<Rightarrow>
   (action_outcome list + string) \<times> 's machine" where
  "run_group pe co ro ns pod grp s =
     (case kind_of (hd grp) of
        Batch \<Rightarrow> run_batch co ro ns pod grp s
      | Script \<Rightarrow> run_script co ro ns pod grp s
      | Single \<Rightarrow> run_single pe co ro ns pod (hd grp) s)"

text \<open>The loop over the plans, and the error that aborted it.\<close>

function run_from ::
  "plan_env \<Rightarrow> 's cluster_ops \<Rightarrow> 's run_options \<Rightarrow> string \<Rightarrow> string \<Rightarrow> planned list \<Rightarrow> 's machine \<Rightarrow>
   (action_outcome list \<times> string option) \<times> 's machine" where
  "run_from pe co ro ns pod [] s = (([], None), s)"
| "run_from pe co ro ns pod (p # ps) s =
     (if \<not> to_run p then
        (case run_from pe co ro ns pod ps s of ((os, e), t) \<Rightarrow> ((not_run p # os, e), t))
      else let grp = p # takeWhile (joins p) ps; rest = dropWhile (joins p) ps in
        case run_group pe co ro ns pod grp s of
          (Inr e, t) \<Rightarrow> ((aborted_by e p # map not_run ps, Some e), t)
        | (Inl os, t) \<Rightarrow>
            (case run_from pe co ro ns pod rest t of ((os', e), u) \<Rightarrow> ((os @ os', e), u)))"
  by pat_completeness auto
termination
  by (relation "measure (\<lambda>(_, _, _, _, _, ps, _). length ps)") (auto simp: length_dropWhile_le le_imp_less_Suc)

definition run_planned_actions ::
  "plan_env \<Rightarrow> 's cluster_ops \<Rightarrow> 's run_options \<Rightarrow> string \<Rightarrow> string \<Rightarrow> planned list \<Rightarrow> 's machine \<Rightarrow>
   (action_outcome list \<times> string option) \<times> 's machine" where
  "run_planned_actions pe co ro ns pod plans s =
     (case place_plans co ns pod plans s of (placed, t) \<Rightarrow> run_from pe co ro ns pod placed t)"

definition run_once :: "'s run_options" where
  "run_once = \<lparr>ro_exec = (\<lambda>m. m), ro_abort = (\<lambda>_. False)\<rparr>"

text \<open>\<open>RunOptions{Exec: execWithReplayRetry, Abort: isTransientExecError}\<close>: the output is that of the last try.\<close>

definition with_replay_retry :: "('s, string, string) op \<Rightarrow> ('s, string, string) op" where
  "with_replay_retry m = (\<lambda>s.
     case exec_with_replay_retry (\<lambda>(out, u). case m u of (Inl e, t) \<Rightarrow> (Some e, ([], t)) | (Inr o', t) \<Rightarrow> (None, (o', t))) ([], s) of
       ((None, _, _), (out, t)) \<Rightarrow> (Inr out, t)
     | ((Some e, _, _), (out, t)) \<Rightarrow> (Inl e, t))"

definition replay_options :: "'s run_options" where
  "replay_options = \<lparr>ro_exec = with_replay_retry, ro_abort = (\<lambda>e. is_transient_exec_error (Some e))\<rparr>"

section \<open>Every runnable action runs once, in order\<close>

text \<open>
  What carrying out a list of placed actions means, apart from the loop that does it. A script for
  some actions is one line per action, in order: its commands, which the shell reads as the words
  of the action's commands, after the guard of its precondition, and the marker with its position.
\<close>

definition runs_action :: "planned \<Rightarrow> string \<Rightarrow> bool" where
  "runs_action p body \<longleftrightarrow>
     (\<exists>cmds. map sh_words cmds = map Some (filter (\<lambda>row. row \<noteq> []) (pl_commands p)) \<and>
        (let parts = (case pl_precondition p of None \<Rightarrow> [] | Some pc \<Rightarrow> [precondition_guard pc]) @ cmds in
         body = (if parts = [] then ''true'' else join_with '' && '' parts)))"

definition scripts :: "planned list \<Rightarrow> string \<Rightarrow> bool" where
  "scripts g text \<longleftrightarrow>
     (\<exists>bodies. list_all2 runs_action g bodies \<and>
        text = concat (map (\<lambda>k. ''{ '' @ bodies ! k @ ''; } 2>&1; echo '' @ [dquote] @ ''__kubendt_rc__ '' @ nat_str k @
          '' $?'' @ [dquote, newline]) [0 ..< length g]))"

text \<open>Operations done one by one: the outputs of those that worked, and the error of the one that did not.\<close>

inductive one_by_one :: "('s, string, string) op list \<Rightarrow> 's \<Rightarrow> string list \<Rightarrow> string option \<Rightarrow> 's \<Rightarrow> bool" where
  all_done: "one_by_one [] s [] None s"
| worked: "m s = (Inr out, u) \<Longrightarrow> one_by_one ms u outs e t \<Longrightarrow> one_by_one (m # ms) s (out # outs) e t"
| failed: "m s = (Inl x, t) \<Longrightarrow> one_by_one (m # ms) s [] (Some x) t"

definition shares :: "string list \<Rightarrow> planned list \<Rightarrow> bool" where
  "shares xs g \<longleftrightarrow> g \<noteq> [] \<and> pl_executor (hd g) \<in> set xs \<and>
     (\<forall>p \<in> set g. pl_skip p = [] \<and> pl_err p = None \<and> \<not> fl_get (pl_flags p) \<and> pl_executor p = pl_executor (hd g))"

text \<open>
  The actions that go together in one command: on an executor that takes batches, one command with
  the words of all their commands in order; on kubectl, in one container, one script.
\<close>

inductive sends :: "planned list \<Rightarrow> command \<Rightarrow> bool" where
  as_batch: "shares [''exos_api'', ''vyos_ssh_apply'', ''vyos_api_apply'', ''xr_apply''] g \<Longrightarrow>
     sends g (new_args_command (concat (map (\<lambda>p. concat (pl_commands p)) g)))"
| as_script: "shares [default_executor_name] g \<Longrightarrow> \<forall>p \<in> set g. pl_container p = pl_container (hd g) \<Longrightarrow> scripts g text \<Longrightarrow>
     sends g ((new_args_command [''sh'', ''-c'', text])\<lparr>cm_container := pl_container (hd g)\<rparr>)"

definition results_of :: "planned list \<Rightarrow> string \<Rightarrow> action_outcome list" where
  "results_of g out =
     (if pl_executor (hd g) = default_executor_name
      then map (\<lambda>r. ran_with (br_output r) (batch_err r)) (parse_shell_script out (length g))
      else map (\<lambda>_. ran_with [] None) g)"

text \<open>
  The commands of an action on its own, each in the action's container; the output is kept for an
  action that asks for it.
\<close>

definition own_commands ::
  "plan_env \<Rightarrow> 's cluster_ops \<Rightarrow> 's run_options \<Rightarrow> string \<Rightarrow> string \<Rightarrow> planned \<Rightarrow> ('s machine, string, string) op list" where
  "own_commands pe co ro ns pod p =
     map (\<lambda>c. ro_exec ro (if fl_get (pl_flags p) then run_command co ns pod p (c\<lparr>cm_container := pl_container p\<rparr>)
            else op_bind (run_command co ns pod p (c\<lparr>cm_container := pl_container p\<rparr>)) (\<lambda>_. op_ret [])))
       (commands_from_legacy_for_executor (pe_executors pe) (pl_commands p) (pl_executor p))"

inductive carried_out ::
  "plan_env \<Rightarrow> 's cluster_ops \<Rightarrow> 's run_options \<Rightarrow> string \<Rightarrow> string \<Rightarrow>
   planned list \<Rightarrow> 's machine \<Rightarrow> action_outcome list \<Rightarrow> string option \<Rightarrow> 's machine \<Rightarrow> bool"
  for pe co ro ns pod where
  nothing_left: "carried_out pe co ro ns pod [] s [] None s"
| passed_over: "pl_skip p \<noteq> [] \<or> pl_err p \<noteq> None \<Longrightarrow> carried_out pe co ro ns pod ps s os e t \<Longrightarrow>
     carried_out pe co ro ns pod (p # ps) s (\<lparr>oc_ran = False, oc_output = [], oc_err = map_option OPlan (pl_err p)\<rparr> # os) e t"
| together: "sends g c \<Longrightarrow> ro_exec ro (run_command co ns pod (hd g) c) s = (Inr out, u) \<Longrightarrow>
     carried_out pe co ro ns pod ps u os e t \<Longrightarrow> carried_out pe co ro ns pod (g @ ps) s (results_of g out @ os) e t"
| together_failed: "sends g c \<Longrightarrow> ro_exec ro (run_command co ns pod (hd g) c) s = (Inl x, u) \<Longrightarrow> \<not> ro_abort ro x \<Longrightarrow>
     carried_out pe co ro ns pod ps u os e t \<Longrightarrow>
     carried_out pe co ro ns pod (g @ ps) s (map (\<lambda>_. ran_with [] (Some x)) g @ os) e t"
| together_aborted: "sends g c \<Longrightarrow> ro_exec ro (run_command co ns pod (hd g) c) s = (Inl x, t) \<Longrightarrow> ro_abort ro x \<Longrightarrow>
     carried_out pe co ro ns pod (g @ ps) s (aborted_by x (hd g) # map not_run (tl g @ ps)) (Some x) t"
| alone: "pl_skip p = [] \<Longrightarrow> pl_err p = None \<Longrightarrow> one_by_one (own_commands pe co ro ns pod p) s outs x u \<Longrightarrow>
     (case x of None \<Rightarrow> True | Some y \<Rightarrow> \<not> ro_abort ro y) \<Longrightarrow> carried_out pe co ro ns pod ps u os e t \<Longrightarrow>
     carried_out pe co ro ns pod (p # ps) s
       (ran_with (join_with [newline] (filter (\<lambda>out. out \<noteq> []) (map trim_space outs))) x # os) e t"
| alone_aborted: "pl_skip p = [] \<Longrightarrow> pl_err p = None \<Longrightarrow> one_by_one (own_commands pe co ro ns pod p) s outs (Some x) t \<Longrightarrow>
     ro_abort ro x \<Longrightarrow> carried_out pe co ro ns pod (p # ps) s (aborted_by x p # map not_run ps) (Some x) t"

lemma length_parse_lines [simp]: "length (parse_lines n ls cur res) = length res"
  by (induction ls arbitrary: cur res) (auto split: option.splits)

lemma length_parse_shell_script [simp]: "length (parse_shell_script out n) = n"
  by (simp add: parse_shell_script_def)

lemma sends_nonempty: "sends g c \<Longrightarrow> g \<noteq> []"
  by (auto simp: shares_def elim: sends.cases)

lemma carried_out_length: "carried_out pe co ro ns pod ps s os e t \<Longrightarrow> length os = length ps"
  by (induction rule: carried_out.induct) (auto simp: results_of_def dest: sends_nonempty)

lemma carried_out_abort: "carried_out pe co ro ns pod ps s os e t \<Longrightarrow> e = Some x \<Longrightarrow> ro_abort ro x"
  by (induction rule: carried_out.induct) auto

text \<open>The loop over the commands of one action.\<close>

lemma run_commands_one_by_one:
  assumes "run_commands ro f cs s = ((outs, e), t)"
  shows "\<exists>raw. one_by_one (map (\<lambda>c. ro_exec ro (f c)) cs) s raw e t \<and> outs = filter (\<lambda>out. out \<noteq> []) (map trim_space raw)"
  using assms
proof (induction cs arbitrary: s outs)
  case Nil
  then show ?case by (auto intro: one_by_one.intros)
next
  case (Cons c cs)
  obtain r u where r: "ro_exec ro (f c) s = (r, u)" by fastforce
  show ?case
  proof (cases r)
    case (Inl x)
    with Cons.prems r have "outs = []" "e = Some x" "t = u" by auto
    with r Inl show ?thesis by (intro exI [of _ "[]"]) (simp add: failed)
  next
    case (Inr out)
    with Cons.prems r obtain outs' where o': "run_commands ro f cs u = ((outs', e), t)"
      "outs = (if trim_space out = [] then outs' else trim_space out # outs')"
      by (auto split: prod.splits)
    from Cons.IH [OF o'(1)] obtain raw where
      "one_by_one (map (\<lambda>c. ro_exec ro (f c)) cs) u raw e t" "outs' = filter (\<lambda>out. out \<noteq> []) (map trim_space raw)" by blast
    with r Inr o'(2) show ?thesis by (intro exI [of _ "out # raw"]) (auto intro: worked)
  qed
qed

lemma run_single_one_by_one:
  assumes "run_single pe co ro ns pod p s = (r, t)"
  obtains outs x where "one_by_one (own_commands pe co ro ns pod p) s outs x t"
    and "r = (case x of Some y \<Rightarrow> if ro_abort ro y then Inr y
                 else Inl [ran_with (join_with [newline] (filter (\<lambda>out. out \<noteq> []) (map trim_space outs))) x]
         | None \<Rightarrow> Inl [ran_with (join_with [newline] (filter (\<lambda>out. out \<noteq> []) (map trim_space outs))) x])"
proof -
  let ?f = "\<lambda>c. if fl_get (pl_flags p) then run_command co ns pod p (c\<lparr>cm_container := pl_container p\<rparr>)
      else op_bind (run_command co ns pod p (c\<lparr>cm_container := pl_container p\<rparr>)) (\<lambda>_. op_ret [])"
  let ?cs = "commands_from_legacy_for_executor (pe_executors pe) (pl_commands p) (pl_executor p)"
  obtain r1 u where "run_commands ro ?f ?cs s = (r1, u)" by fastforce
  moreover obtain outs x where "r1 = (outs, x)" by fastforce
  ultimately have c: "run_commands ro ?f ?cs s = ((outs, x), u)" by simp
  from run_commands_one_by_one [OF c] obtain raw where
    raw: "one_by_one (own_commands pe co ro ns pod p) s raw x u" "outs = filter (\<lambda>out. out \<noteq> []) (map trim_space raw)"
    unfolding own_commands_def by blast
  have tu: "t = u" and r: "r = (case x of Some y \<Rightarrow> if ro_abort ro y then Inr y else Inl [ran_with (join_with [newline] outs) x]
      | None \<Rightarrow> Inl [ran_with (join_with [newline] outs) x])"
    using assms c by (auto simp: run_single_def Let_def split: option.splits if_splits)
  show thesis by (rule that [OF raw(1) [folded tu]]) (simp only: r raw(2))
qed

text \<open>The script the code builds is one in the sense of \<open>scripts\<close>.\<close>

lemma script_commands_reads: "runs_action p (join_with '' && '' (if script_commands p = [] then [''true''] else script_commands p))"
  unfolding runs_action_def script_commands_def Let_def
  by (intro exI [of _ "map shell_join (filter (\<lambda>r. r \<noteq> []) (pl_commands p))"]) (simp add: sh_words_shell_join comp_def)

lemma script_line_text:
  "script_line k p = ''{ '' @ join_with '' && '' (if script_commands p = [] then [''true''] else script_commands p) @
     ''; } 2>&1; echo '' @ [dquote] @ ''__kubendt_rc__ '' @ nat_str k @ '' $?'' @ [dquote, newline]"
  by (simp add: script_line_def batch_marker_def Let_def)

lemma shell_script_scripts: "scripts g (shell_script g)"
proof -
  define body where "body = (\<lambda>p. join_with '' && '' (if script_commands p = [] then [''true''] else script_commands p))"
  define line where "line = (\<lambda>k b. ''{ '' @ b @ ''; } 2>&1; echo '' @ [dquote] @ ''__kubendt_rc__ '' @ nat_str k @ '' $?'' @ [dquote, newline])"
  have sl: "script_line k p = line k (body p)" for k p unfolding script_line_text line_def body_def ..
  have b: "list_all2 runs_action g (map body g)"
    using script_commands_reads unfolding body_def by (simp add: list_all2_conv_all_nth)
  have "map2 script_line [0 ..< length g] g = map (\<lambda>k. line k (map body g ! k)) [0 ..< length g]"
    by (rule nth_equalityI) (simp_all add: sl)
  then have t: "shell_script g = concat (map (\<lambda>k. line k (map body g ! k)) [0 ..< length g])"
    by (simp only: shell_script_def)
  show ?thesis unfolding scripts_def by (rule exI, rule conjI [OF b t [unfolded line_def]])
qed

text \<open>The groups of the loop are groups that may share a command.\<close>

lemma joins_to_run: "joins p q \<Longrightarrow> to_run q"
  by (auto simp: joins_def same_script_def same_batch_def split: group_kind.splits)

definition loop_group :: "planned \<Rightarrow> planned list \<Rightarrow> planned list" where
  "loop_group p ps = p # takeWhile (joins p) ps"

lemma loop_group_Single: "kind_of p = Single \<Longrightarrow> loop_group p ps = [p]"
  by (cases ps) (simp_all add: loop_group_def joins_def)

lemma loop_group_shares:
  assumes "to_run p" and "kind_of p \<noteq> Single"
  shows "shares (if kind_of p = Batch then batchable_executors else [default_executor_name]) (loop_group p ps)"
  using assms set_takeWhileD [of _ "joins p" ps]
  by (fastforce simp: shares_def loop_group_def kind_of_def joins_def same_script_def same_batch_def to_run_def split: if_splits)

lemma loop_group_container:
  "kind_of p = Script \<Longrightarrow> \<forall>q \<in> set (loop_group p ps). pl_container q = pl_container (hd (loop_group p ps))"
  using set_takeWhileD [of _ "joins p" ps] by (auto simp: loop_group_def joins_def same_script_def)

lemma concat_concat_map: "concat (concat (map f g)) = concat (map (\<lambda>q. concat (f q)) g)"
  by (induction g) simp_all

lemma batch_not_default: "default_executor_name \<notin> set batchable_executors"
  by code_simp

text \<open>A group of the loop that is not an action on its own sends one command.\<close>

lemma run_group_sends:
  assumes "to_run p" and "kind_of p \<noteq> Single" and "run_group pe co ro ns pod (loop_group p ps) s = (r, t)"
  obtains c res where "sends (loop_group p ps) c" and "ro_exec ro (run_command co ns pod p c) s = (res, t)"
    and "r = (case res of Inl x \<Rightarrow> if ro_abort ro x then Inr x else Inl (map (\<lambda>_. ran_with [] (Some x)) (loop_group p ps))
         | Inr out \<Rightarrow> Inl (results_of (loop_group p ps) out))"
proof -
  let ?g = "loop_group p ps"
  have h: "hd ?g = p" by (simp add: loop_group_def)
  note sh = loop_group_shares [OF assms(1,2), of ps]
  show thesis
  proof (cases "kind_of p")
    case Batch
    let ?c = "new_args_command (concat (map (\<lambda>q. concat (pl_commands q)) ?g))"
    have e: "concat (concat (map pl_commands ?g)) = concat (map (\<lambda>q. concat (pl_commands q)) ?g)"
      by (rule concat_concat_map)
    have "pl_executor p \<noteq> default_executor_name" using sh Batch h batch_not_default by (auto simp: shares_def)
    then have res: "results_of ?g out = map (\<lambda>_. ran_with [] None) ?g" for out by (simp add: results_of_def h)
    obtain res u where x: "ro_exec ro (run_command co ns pod p ?c) s = (res, u)" by fastforce
    have "sends ?g ?c" using sh Batch by (intro as_batch) (simp add: batchable_executors_def)
    moreover have "u = t" "r = (case res of Inl x \<Rightarrow> if ro_abort ro x then Inr x else Inl (map (\<lambda>_. ran_with [] (Some x)) ?g)
         | Inr out \<Rightarrow> Inl (results_of ?g out))"
      using assms(3) x unfolding run_group_def run_batch_def h Batch group_kind.case e res by (auto split: sum.splits)
    ultimately show thesis using that x by blast
  next
    case Script
    let ?c = "(new_args_command [''sh'', ''-c'', shell_script ?g])\<lparr>cm_container := pl_container p\<rparr>"
    have "pl_executor p = default_executor_name" using sh Script h by (auto simp: shares_def)
    then have res: "results_of ?g out = map (\<lambda>r. ran_with (br_output r) (batch_err r)) (parse_shell_script out (length ?g))" for out
      by (simp add: results_of_def h)
    obtain res u where x: "ro_exec ro (run_command co ns pod p ?c) s = (res, u)" by fastforce
    have "sends ?g ?c"
      using as_script [OF _ loop_group_container [OF Script] shell_script_scripts, of ps] sh Script by (simp add: h)
    moreover have "u = t" "r = (case res of Inl x \<Rightarrow> if ro_abort ro x then Inr x else Inl (map (\<lambda>_. ran_with [] (Some x)) ?g)
         | Inr out \<Rightarrow> Inl (results_of ?g out))"
      using assms(3) x unfolding run_group_def run_script_def h Script group_kind.case res by (auto split: sum.splits)
    ultimately show thesis using that x by blast
  qed (use assms(2) in simp)
qed

lemma run_from_carried_out:
  "run_from pe co ro ns pod ps s = ((os, e), t) \<Longrightarrow> carried_out pe co ro ns pod ps s os e t"
proof (induction pe co ro ns pod ps s arbitrary: os e t rule: run_from.induct)
  case (1 pe co ro ns pod s)
  then show ?case by (auto intro: nothing_left)
next
  case (2 pe co ro ns pod p ps s)
  show ?case
  proof (cases "to_run p")
    case False
    then obtain os' where r: "run_from pe co ro ns pod ps s = ((os', e), t)" "os = not_run p # os'"
      using "2.prems" by (auto split: prod.splits)
    show ?thesis using passed_over [OF _ "2.IH"(1) [OF False r(1)]] False r(2) by (simp add: to_run_def not_run_def)
  next
    case True
    let ?g = "loop_group p ps" and ?rest = "dropWhile (joins p) ps"
    have g_app: "?g @ ?rest = p # ps" by (simp add: loop_group_def)
    have hd_g: "hd ?g = p" "tl ?g @ ?rest = ps" by (simp_all add: loop_group_def)
    have ok: "pl_skip p = []" "pl_err p = None" using True by (simp_all add: to_run_def)
    obtain r u where g: "run_group pe co ro ns pod ?g s = (r, u)" by fastforce
    have ih: "carried_out pe co ro ns pod ?rest u os' e' t'"
      if "r = Inl o1" and "run_from pe co ro ns pod ?rest u = ((os', e'), t')" for o1 os' e' t'
      using "2.IH"(2) [of ?g ?rest "Inl o1" u o1 os' e' t'] True g that by (simp add: loop_group_def)
    have inl: "\<exists>os'. run_from pe co ro ns pod ?rest u = ((os', e), t) \<and> os = o1 @ os'" if "r = Inl o1" for o1
      using "2.prems" True g that by (auto simp: loop_group_def split: prod.splits)
    have inr: "os = aborted_by x p # map not_run ps \<and> e = Some x \<and> t = u" if "r = Inr x" for x
      using "2.prems" True g that by (auto simp: loop_group_def)
    show ?thesis
    proof (cases "kind_of p = Single")
      case True
      then have g1: "?g = [p]" "?rest = ps" using loop_group_Single [OF True, of ps] g_app by simp_all
      have "run_single pe co ro ns pod p s = (r, u)" using g True by (simp add: g1 run_group_def)
      then obtain outs x where o': "one_by_one (own_commands pe co ro ns pod p) s outs x u"
        and r: "r = (case x of Some y \<Rightarrow> if ro_abort ro y then Inr y
                 else Inl [ran_with (join_with [newline] (filter (\<lambda>out. out \<noteq> []) (map trim_space outs))) x]
         | None \<Rightarrow> Inl [ran_with (join_with [newline] (filter (\<lambda>out. out \<noteq> []) (map trim_space outs))) x])"
        by (rule run_single_one_by_one)
      show ?thesis
      proof (cases "\<exists>y. x = Some y \<and> ro_abort ro y")
        case True
        then obtain y where y: "x = Some y" "ro_abort ro y" by blast
        with r have "r = Inr y" by simp
        with inr y show ?thesis using alone_aborted [OF ok o' [unfolded y(1)] y(2), where ps = ps] by simp
      next
        case False
        then have rl: "r = Inl [ran_with (join_with [newline] (filter (\<lambda>out. out \<noteq> []) (map trim_space outs))) x]"
          using r by (auto split: option.splits)
        from inl [OF rl] obtain os' where os': "run_from pe co ro ns pod ?rest u = ((os', e), t)"
          "os = [ran_with (join_with [newline] (filter (\<lambda>out. out \<noteq> []) (map trim_space outs))) x] @ os'" by blast
        have "case x of None \<Rightarrow> True | Some y \<Rightarrow> \<not> ro_abort ro y" using False by (auto split: option.splits)
        from alone [OF ok o' this ih [OF rl os'(1)]] os'(2) g1(2) show ?thesis by simp
      qed
    next
      case False
      obtain c res where c: "sends ?g c" "ro_exec ro (run_command co ns pod p c) s = (res, u)"
        and r: "r = (case res of Inl x \<Rightarrow> if ro_abort ro x then Inr x else Inl (map (\<lambda>_. ran_with [] (Some x)) ?g)
           | Inr out \<Rightarrow> Inl (results_of ?g out))"
        by (rule run_group_sends [OF True False g])
      have x: "ro_exec ro (run_command co ns pod (hd ?g) c) s = (res, u)" using c(2) by (simp only: hd_g)
      show ?thesis
      proof (cases res)
        case (Inr out)
        then have rl: "r = Inl (results_of ?g out)" using r by simp
        from inl [OF rl] obtain os' where "run_from pe co ro ns pod ?rest u = ((os', e), t)" "os = results_of ?g out @ os'" by blast
        with together [OF c(1) x [unfolded Inr] ih [OF rl]] show ?thesis unfolding g_app by simp
      next
        case (Inl y)
        show ?thesis
        proof (cases "ro_abort ro y")
          case True
          then have "r = Inr y" using r Inl by simp
          with inr together_aborted [OF c(1) x [unfolded Inl] True, where ps = ?rest] show ?thesis unfolding g_app hd_g by simp
        next
          case False
          then have rl: "r = Inl (map (\<lambda>_. ran_with [] (Some y)) ?g)" using r Inl by simp
          from inl [OF rl] obtain os' where "run_from pe co ro ns pod ?rest u = ((os', e), t)"
            "os = map (\<lambda>_. ran_with [] (Some y)) ?g @ os'" by blast
          with together_failed [OF c(1) x [unfolded Inl] False ih [OF rl]] show ?thesis unfolding g_app by simp
        qed
      qed
    qed
  qed
qed

lemma length_place_plans: "place_plans co ns pod ps s = (qs, t) \<Longrightarrow> length qs = length ps"
  by (induction ps arbitrary: qs s) (auto split: prod.splits)


section \<open>The output of a script\<close>

definition marker_line :: "nat \<Rightarrow> nat \<Rightarrow> string" where
  "marker_line k rc = batch_marker @ '' '' @ nat_str k @ '' '' @ nat_str rc"

lemma marker_of_line: "k < n \<Longrightarrow> n < 2 ^ 63 \<Longrightarrow> rc < 256 \<Longrightarrow> marker_of n (marker_line k rc) = Some (k, int rc)"
proof -
  assume a: "k < n" "n < 2 ^ 63" "rc < 256"
  have m: "list_all (\<lambda>c. \<not> is_space c) batch_marker" "batch_marker \<noteq> []" by (simp_all add: batch_marker_def is_space_def)
  have "Go_Prelude.fields (marker_line k rc) = [batch_marker, nat_str k, nat_str rc]"
    unfolding marker_line_def using m fields_word [OF _ nat_str_word] by (simp add: fields_word)
  moreover have "int k < 2 ^ 63" "int rc < 2 ^ 63" using a by simp_all
  ultimately show ?thesis using a(1) by (simp add: marker_of_def atoi_nat_str)
qed

lemma newline_not_marker: "newline \<notin> set (marker_line k rc)"
proof -
  have "newline \<notin> set (nat_str n)" for n
    using nat_str_word [of n] by (auto simp: list_all_iff is_space_def)
  then show ?thesis by (simp add: marker_line_def batch_marker_def)
qed

lemma split_on_join: "split_on sep (t @ sep # r) = split_on sep t @ split_on sep r"
proof (induction t)
  case (Cons c t)
  then show ?case by (cases "split_on sep t") (auto split: list.splits)
qed simp

lemma parse_lines_plain:
  "list_all (\<lambda>l. marker_of n l = None) ls \<Longrightarrow> parse_lines n (ls @ r) cur res = parse_lines n r (cur @ ls) res"
  by (induction ls arbitrary: cur) auto

lemma trim_space_newline: "trim_space (t @ [newline]) = trim_space t"
proof -
  have sp: "is_space newline" by (simp add: is_space_def)
  show ?thesis
  proof (cases "dropWhile is_space t")
    case Nil
    then have "\<forall>x \<in> set t. is_space x" by (simp add: dropWhile_eq_Nil_conv)
    with sp show ?thesis by (simp add: trim_space_def dropWhile_append1 dropWhile_append2 Nil dropWhile_eq_Nil_conv)
  next
    case (Cons c cs)
    then have "dropWhile is_space (t @ [newline]) = (c # cs) @ [newline]"
      by (metis dropWhile_append1 dropWhile_eq_Nil_conv list.distinct(1))
    with sp Cons show ?thesis by (simp add: trim_space_def)
  qed
qed

text \<open>What the script prints when each action printed whole lines and left a status.\<close>

primrec printed :: "nat \<Rightarrow> (string \<times> nat) list \<Rightarrow> string" where
  "printed k [] = []"
| "printed k (x # xs) = fst x @ marker_line k (snd x) @ newline # printed (Suc k) xs"

definition whole_lines :: "nat \<Rightarrow> string \<Rightarrow> bool" where
  "whole_lines n t \<longleftrightarrow> (t = [] \<or> last t = newline) \<and> list_all (\<lambda>l. marker_of n l = None) (split_on newline t)"

lemma parse_printed_one:
  assumes "whole_lines n t" and "k < n" and "n < 2 ^ 63" and "rc < 256"
  shows "parse_lines n (split_on newline (t @ marker_line k rc @ newline # r)) [] res =
    parse_lines n (split_on newline r) [] (res[k := \<lparr>br_output = trim_space t, br_rc = int rc, br_seen = True\<rparr>])"
proof (cases "t = []")
  case True
  with assms show ?thesis
    by (simp add: split_on_append newline_not_marker marker_of_line trim_space_def)
next
  case False
  with assms(1) obtain u where t: "t = u @ [newline]" by (metis append_butlast_last_id whole_lines_def)
  have s: "split_on newline t = split_on newline u @ [[]]" by (simp add: t split_on_join)
  have l: "list_all (\<lambda>l. marker_of n l = None) (split_on newline u)" using assms(1) by (simp add: whole_lines_def s)
  have "split_on newline (t @ marker_line k rc @ newline # r) = split_on newline u @ marker_line k rc # split_on newline r"
    by (simp add: t split_on_join split_on_append split_on_no_sep newline_not_marker)
  then show ?thesis using assms(2-4) l
    by (simp add: parse_lines_plain marker_of_line join_split_on t trim_space_newline)
qed

lemma parse_printed:
  "list_all (\<lambda>(t, rc). whole_lines n t \<and> rc < 256) xs \<Longrightarrow> k + length xs \<le> n \<Longrightarrow> n < 2 ^ 63 \<Longrightarrow> length res = n \<Longrightarrow>
   parse_lines n (split_on newline (printed k xs)) [] res =
     take k res @ map (\<lambda>(t, rc). \<lparr>br_output = trim_space t, br_rc = int rc, br_seen = True\<rparr>) xs @ drop (k + length xs) res"
proof (induction xs arbitrary: k res)
  case Nil
  have "marker_of n [] = None" by (simp add: marker_of_def Go_Prelude.fields.simps)
  then show ?case by simp
next
  case (Cons x xs)
  obtain t rc where x: "x = (t, rc)" by fastforce
  let ?r = "\<lparr>br_output = trim_space t, br_rc = int rc, br_seen = True\<rparr>"
  have "parse_lines n (split_on newline (printed k (x # xs))) [] res = parse_lines n (split_on newline (printed (Suc k) xs)) [] (res[k := ?r])"
    using Cons.prems x by (simp add: parse_printed_one)
  also have "\<dots> = take (Suc k) (res[k := ?r]) @ map (\<lambda>(t, rc). \<lparr>br_output = trim_space t, br_rc = int rc, br_seen = True\<rparr>) xs @
      drop (Suc k + length xs) (res[k := ?r])"
    using Cons by simp
  also have "take (Suc k) (res[k := ?r]) = take k res @ [?r]"
    using Cons.prems by (simp add: take_Suc_conv_app_nth)
  finally show ?case using x by simp
qed

text \<open>
  C22: when each action of a script prints whole lines, none of them a marker, the output splits
  back into the text and the exit status of each action.
\<close>

theorem script_output_reads_back:
  assumes "list_all (\<lambda>(t, rc). whole_lines (length xs) t \<and> rc < 256) xs" and "length xs < 2 ^ 63"
  shows "parse_shell_script (printed 0 xs) (length xs) =
    map (\<lambda>(t, rc). \<lparr>br_output = trim_space t, br_rc = int rc, br_seen = True\<rparr>) xs"
  using parse_printed [of "length xs" xs 0 "replicate (length xs) unseen"] assms
  by (simp add: parse_shell_script_def)

theorem script_output_reads_back_witness:
  "parse_shell_script (printed 0 [(''File exists'' @ [newline], 2), ([], 0)]) 2 =
    [\<lparr>br_output = ''File exists'', br_rc = 2, br_seen = True\<rparr>, \<lparr>br_output = [], br_rc = 0, br_seen = True\<rparr>]"
proof -
  let ?xs = "[(''File exists'' @ [newline], 2), ([], 0)] :: (string \<times> nat) list"
  have "list_all (\<lambda>(t, rc). whole_lines (length ?xs) t \<and> rc < 256) ?xs" by code_simp
  then have r: "parse_shell_script (printed 0 ?xs) (length ?xs) =
      map (\<lambda>(t, rc). \<lparr>br_output = trim_space t, br_rc = int rc, br_seen = True\<rparr>) ?xs"
    by (rule script_output_reads_back) simp
  have l: "length ?xs = 2" by simp
  have "trim_space (''File exists'' @ [newline]) = ''File exists''" "trim_space [] = []" by code_simp+
  then show ?thesis using r [unfolded l] by (simp only: list.map prod.case of_nat_numeral of_nat_0)
qed

definition sample_ops :: "nat cluster_ops" where
  "sample_ops =
     \<lparr>px_stream = (\<lambda>_ _ _ _ n. (Finished (marker_line 0 0 @ [newline]), n + 1)),
      px_tc = (\<lambda>_ _ _ n. (Inl (''tc'', []), n)), px_tc_batch = (\<lambda>_ _ _ n. (Inl (''tc'', []), n)),
      co_exec_in_pod = (\<lambda>_ _ _ n. (True, n)), co_ensure_toolbox = (\<lambda>_ _ n. (Inr ''toolbox'', n))\<rparr>"

definition sample_env :: plan_env where
  "sample_env =
     \<lparr>pe_registry = startup_actions, pe_executors = startup_executors,
      pe_run = \<lparr>rn_caps = [], rn_stp_modes = [], rn_yaml = (\<lambda>_. True), rn_command = (\<lambda>c. Inr [c]), rn_shaping = (\<lambda>_ _. Inr [])\<rparr>,
      pe_file = (\<lambda>_ _. Inl [])\<rparr>"

definition sample_plans :: "planned list" where
  "sample_plans =
     (let plan = (\<lambda>x rows. planned_with (entry_of []) x (get_executor startup_executors x) rows) in
      [plan [] [] (Some PNoCommands), plan ''kubectl'' [[''ip'', ''link'']] None,
       plan ''vyos_api_apply'' [[''set a'']] None, plan ''vyos_api_apply'' [[''set b'']] None])"


text \<open>
  Output that does not end its last line glues to the marker: an action that ran well is reported
  as one that left no result, and its text becomes that of the next action.
\<close>

lemma unterminated_output_loses_the_outcome:
  "map (\<lambda>r. (br_output r, batch_err r)) (parse_shell_script (printed 0 [(''hello'', 0), ([], 0)]) 2) =
    [([], Some ''exec error: the action left no result in the batch''), (''hello__kubendt_rc__ 0 0'', None)]"
  by code_simp

end
