(* ===== verification/Float64.thy ===== *)
theory Float64
  imports Complex_Main Go_Prelude
begin

text \<open>
  The part of Go's \<open>float64\<close> the backend uses: non-negative values, read from decimal text
  (\<open>strconv.ParseFloat\<close>), added, scaled and compared. A value is the rational it stands for, or
  infinity; \<open>f64_of\<close> rounds to the nearest double, ties to even, with gradual underflow.
\<close>

datatype f64 = Fin rat | FInf

definition pow2 :: "int \<Rightarrow> rat" where
  "pow2 e = (if 0 \<le> e then of_int (2 ^ nat e) else 1 / of_int (2 ^ nat (- e)))"

text \<open>The bits of a positive integer.\<close>

function bit_len :: "int \<Rightarrow> int" where
  "bit_len n = (if n \<le> 0 then 0 else 1 + bit_len (n div 2))"
  by pat_completeness auto
termination
  by (relation "measure nat") auto

declare bit_len.simps [simp del]

definition exponent_of :: "rat \<Rightarrow> int" where
  "exponent_of q =
     (case quotient_of q of (a, b) \<Rightarrow>
        let e = bit_len a - bit_len b in if pow2 e \<le> q then e else e - 1)"

definition round_even :: "rat \<Rightarrow> int" where
  "round_even q =
     (let f = \<lfloor>q\<rfloor>; r = q - of_int f in if r < 1 / 2 \<or> r = 1 / 2 \<and> even f then f else f + 1)"

definition f64_of :: "rat \<Rightarrow> f64" where
  "f64_of q =
     (if q \<le> 0 then Fin 0
      else let u = pow2 (max (exponent_of q) (- 1022) - 52); v = of_int (round_even (q / u)) * u in
        if 1024 \<le> exponent_of v then FInf else Fin v)"

fun f64_add :: "f64 \<Rightarrow> f64 \<Rightarrow> f64" where
  "f64_add (Fin a) (Fin b) = f64_of (a + b)"
| "f64_add _ _ = FInf"

text \<open>Multiplication by a positive constant, which is exact as a rational.\<close>

fun f64_scale :: "rat \<Rightarrow> f64 \<Rightarrow> f64" where
  "f64_scale k (Fin a) = f64_of (k * a)"
| "f64_scale k FInf = FInf"

fun f64_le :: "f64 \<Rightarrow> f64 \<Rightarrow> bool" where
  "f64_le _ FInf = True"
| "f64_le FInf (Fin _) = False"
| "f64_le (Fin a) (Fin b) = (a \<le> b)"

definition f64_less :: "f64 \<Rightarrow> f64 \<Rightarrow> bool" where
  "f64_less a b \<longleftrightarrow> \<not> f64_le b a"

definition f64_pos :: "f64 \<Rightarrow> bool" where
  "f64_pos a = f64_less (Fin 0) a"

lemma f64_le_refl [simp]: "f64_le a a"
  by (cases a) simp_all

lemma f64_le_trans: "f64_le a b \<Longrightarrow> f64_le b c \<Longrightarrow> f64_le a c"
  by (cases a; cases b; cases c) simp_all

text \<open>Decimal text: digits, and digits after a point.\<close>

definition decimal_digits :: "string \<Rightarrow> int" where
  "decimal_digits s = foldl (\<lambda>n c. 10 * n + int (digit_val c)) 0 s"

definition parse_float :: "string \<Rightarrow> f64" where
  "parse_float s =
     (case cut_at CHR ''.'' s of (a, b) \<Rightarrow> f64_of (of_int (decimal_digits (a @ b)) / 10 ^ length b))"

end
