(* ===== verification/Traffic_Shaping.thy ===== *)
theory Traffic_Shaping
  imports Float64 Base_Commands
begin

text \<open>
  Traffic shaping, \<open>helpers/tc.go\<close>: the values of a request (times, percentages, rates, sizes),
  the arguments of netem and tbf, and the htb tree with its classes, leaf queues and flower
  filters. An error is the field it names. Case folding is that of ASCII.
  \<open>build_shaping_commands\<close> is what the parameter \<open>rn_shaping\<close> of the action catalog stands for.
  The theorems: the words of the accepted commands survive the batch of \<open>tc -b\<close>, and an accepted
  htb tree is consistent, with no class over its link.
\<close>

section \<open>Values\<close>

record tc_value =
  tv_set :: bool
  tv_n :: f64
  tv_canon :: string

definition no_value :: tc_value where
  "no_value = \<lparr>tv_set = False, tv_n = Fin 0, tv_canon = []\<rparr>"

text \<open>
  The four expressions: spaces, digits with an optional fraction, spaces, one of the units or
  none, spaces. The number as written, and the unit in lower case.
\<close>

definition decimal_prefix :: "string \<Rightarrow> string \<times> string" where
  "decimal_prefix t =
     (let a = takeWhile is_digit t; r = dropWhile is_digit t in
      case r of
        [] \<Rightarrow> (a, [])
      | c # cs \<Rightarrow> if c = CHR ''.'' \<and> takeWhile is_digit cs \<noteq> []
                  then (a @ c # takeWhile is_digit cs, dropWhile is_digit cs) else (a, r))"

definition number_unit :: "string list \<Rightarrow> string \<Rightarrow> (string \<times> string) option" where
  "number_unit units s =
     (let t = dropWhile re_space s in
      if takeWhile is_digit t = [] then None
      else case decimal_prefix t of (num, rest) \<Rightarrow>
        let v = dropWhile re_space rest; u = map lower_char (takeWhile (\<lambda>c. \<not> re_space c) v);
            tail = dropWhile (\<lambda>c. \<not> re_space c) v in
        if list_all re_space tail \<and> (u = [] \<or> u \<in> set units) then Some (num, u) else None)"

definition time_units :: "string list" where
  "time_units = [''us'', ''usec'', ''usecs'', ''ms'', ''msec'', ''msecs'', ''s'', ''sec'', ''secs'']"

definition rate_units :: "string list" where
  "rate_units = [''bit'', ''kbit'', ''mbit'', ''gbit'', ''tbit'', ''bps'', ''kbps'', ''mbps'', ''gbps'', ''tbps'']"

definition size_units :: "string list" where
  "size_units = [''b'', ''k'', ''kb'', ''m'', ''mb'', ''g'', ''gb'', ''kbit'', ''mbit'', ''gbit'']"

definition tc_max_delay_ms :: rat where "tc_max_delay_ms = 60000"
definition tc_max_jitter_ms :: rat where "tc_max_jitter_ms = 10000"
definition tc_max_latency_ms :: rat where "tc_max_latency_ms = 5000"
definition tc_min_limit :: int where "tc_min_limit = 1"
definition tc_max_limit :: int where "tc_max_limit = 1000000"

definition tc_time :: "string \<Rightarrow> string \<Rightarrow> rat \<Rightarrow> rat \<Rightarrow> string + tc_value" where
  "tc_time field s lo hi =
     (if trim_space s = [] then Inr no_value
      else case number_unit time_units s of
        None \<Rightarrow> Inl field
      | Some (num, u) \<Rightarrow>
          let n = parse_float num;
              ms = (if has_prefix u ''us'' then f64_scale (1 / 1000) n
                    else if has_prefix u ''s'' then f64_scale 1000 n else n) in
          if f64_less ms (Fin lo) \<or> f64_less (Fin hi) ms then Inl field
          else Inr \<lparr>tv_set = True, tv_n = ms, tv_canon = num @ (if u = [] then ''ms'' else u)\<rparr>)"

definition tc_percent :: "string \<Rightarrow> string \<Rightarrow> string + tc_value" where
  "tc_percent field s =
     (if trim_space s = [] then Inr no_value
      else case number_unit [''%''] s of
        None \<Rightarrow> Inl field
      | Some (num, _) \<Rightarrow>
          let n = parse_float num in
          if f64_less (Fin 100) n then Inl field
          else Inr \<lparr>tv_set = True, tv_n = n, tv_canon = num @ ''%''\<rparr>)"

definition tc_rate :: "string \<Rightarrow> string \<Rightarrow> string + tc_value" where
  "tc_rate field s =
     (if trim_space s = [] then Inr no_value
      else case number_unit rate_units s of
        None \<Rightarrow> Inl field
      | Some (num, u) \<Rightarrow>
          let n = parse_float num in
          if \<not> f64_pos n then Inl field
          else Inr \<lparr>tv_set = True, tv_n = n, tv_canon = num @ (if u = [] then ''bit'' else u)\<rparr>)"

definition tc_size :: "string \<Rightarrow> string \<Rightarrow> string + tc_value" where
  "tc_size field s =
     (if trim_space s = [] then Inr no_value
      else case number_unit size_units s of
        None \<Rightarrow> Inl field
      | Some (num, u) \<Rightarrow>
          let n = parse_float num in
          if \<not> f64_pos n then Inl field
          else Inr \<lparr>tv_set = True, tv_n = n, tv_canon = num @ u\<rparr>)"

text \<open>\<open>rateBits\<close>: the bits per second of a rate as written.\<close>

definition rate_scale :: "string \<Rightarrow> rat" where
  "rate_scale u =
     (if u = [] \<or> u = ''bit'' then 1 else if u = ''kbit'' then 10 ^ 3 else if u = ''mbit'' then 10 ^ 6
      else if u = ''gbit'' then 10 ^ 9 else if u = ''tbit'' then 10 ^ 12 else if u = ''bps'' then 8
      else if u = ''kbps'' then 8 * 10 ^ 3 else if u = ''mbps'' then 8 * 10 ^ 6
      else if u = ''gbps'' then 8 * 10 ^ 9 else if u = ''tbps'' then 8 * 10 ^ 12 else 0)"

definition rate_bits :: "string \<Rightarrow> f64" where
  "rate_bits canon =
     (case number_unit rate_units canon of None \<Rightarrow> Fin 0 | Some (num, u) \<Rightarrow> f64_scale (rate_scale u) (parse_float num))"

section \<open>netem and tbf\<close>

definition reject :: "bool \<Rightarrow> string \<Rightarrow> string + 'a \<Rightarrow> string + 'a" where
  "reject bad field k = (if bad then Inl field else k)"

lemma reject_Inr [simp]: "reject b f k = Inr x \<longleftrightarrow> \<not> b \<and> k = Inr x"
  by (simp add: reject_def)

text \<open>The first field of the list that is given.\<close>

definition given_field :: "(string \<times> string) list \<Rightarrow> string option" where
  "given_field fs = map_option fst (find (\<lambda>f. snd f \<noteq> []) fs)"

definition no_fields :: "(string \<times> string) list \<Rightarrow> string + 'a \<Rightarrow> string + 'a" where
  "no_fields fs k = (case given_field fs of Some f \<Rightarrow> Inl f | None \<Rightarrow> k)"

lemma no_fields_Inr [simp]: "no_fields fs k = Inr x \<longleftrightarrow> (\<forall>f \<in> set fs. snd f = []) \<and> k = Inr x"
  by (auto simp: no_fields_def given_field_def find_None_iff find_Some_iff split: option.splits)

primrec gemodel_from :: "(string \<times> string) list \<Rightarrow> string list \<Rightarrow> string \<Rightarrow> string + string list" where
  "gemodel_from [] args prev = Inr args"
| "gemodel_from (f # fs) args prev =
     (if snd f = [] then (if fst f = ''p'' then Inl ''gemodel.p'' else gemodel_from fs args (fst f))
      else if prev \<noteq> [] then Inl (''gemodel.'' @ fst f)
      else bindR (tc_percent (''gemodel.'' @ fst f) (snd f)) (\<lambda>v. gemodel_from fs (args @ [tv_canon v]) prev))"

definition gemodel_args :: "gemodel_spec option \<Rightarrow> string + string list option" where
  "gemodel_args g =
     (case g of None \<Rightarrow> Inr None
      | Some m \<Rightarrow> bindR (gemodel_from [(''p'', gm_p m), (''r'', gm_r m), (''1-h'', gm_h m), (''1-k'', gm_k m)]
            [''loss'', ''gemodel''] []) (\<lambda>as. Inr (Some as)))"

definition netem_distributions :: "string list" where
  "netem_distributions = [''uniform'', ''normal'', ''pareto'', ''paretonormal'']"

definition limit_ok :: "int option \<Rightarrow> bool" where
  "limit_ok l = (case l of None \<Rightarrow> True | Some n \<Rightarrow> tc_min_limit \<le> n \<and> n \<le> tc_max_limit)"

definition netem_args :: "tc_fields \<Rightarrow> string + string list" where
  "netem_args p =
     no_fields [(''burst'', q_burst p), (''latency'', q_latency p)] (
     bindR (tc_time ''delay'' (q_delay p) 0 tc_max_delay_ms) (\<lambda>delay.
     bindR (tc_time ''jitter'' (q_jitter p) 0 tc_max_jitter_ms) (\<lambda>jitter.
     reject (f64_pos (tv_n jitter) \<and> \<not> f64_pos (tv_n delay)) ''jitter'' (
     bindR (tc_percent ''delay_correlation'' (q_delay_correlation p)) (\<lambda>delay_corr.
     reject (f64_pos (tv_n delay_corr) \<and> \<not> f64_pos (tv_n jitter)) ''delay_correlation'' (
     let distribution = map lower_char (trim_space (q_distribution p)) in
     reject (distribution \<noteq> [] \<and> distribution \<notin> set netem_distributions) ''distribution'' (
     reject (distribution \<noteq> [] \<and> \<not> f64_pos (tv_n jitter)) ''distribution'' (
     bindR (tc_percent ''loss'' (q_loss p)) (\<lambda>loss.
     bindR (tc_percent ''loss_correlation'' (q_loss_correlation p)) (\<lambda>loss_corr.
     reject (f64_pos (tv_n loss_corr) \<and> \<not> f64_pos (tv_n loss)) ''loss_correlation'' (
     bindR (gemodel_args (q_gemodel p)) (\<lambda>gemodel.
     reject (gemodel \<noteq> None \<and> f64_pos (tv_n loss)) ''loss'' (
     bindR (tc_percent ''duplicate'' (q_duplicate p)) (\<lambda>duplicate.
     bindR (tc_percent ''corrupt'' (q_corrupt p)) (\<lambda>corrupt.
     bindR (tc_percent ''reorder'' (q_reorder p)) (\<lambda>reorder.
     reject (f64_pos (tv_n reorder) \<and> \<not> f64_pos (tv_n delay)) ''reorder'' (
     bindR (tc_percent ''reorder_correlation'' (q_reorder_correlation p)) (\<lambda>reorder_corr.
     reject (f64_pos (tv_n reorder_corr) \<and> \<not> f64_pos (tv_n reorder)) ''reorder_correlation'' (
     bindR (tc_rate ''rate'' (q_rate p)) (\<lambda>rate.
     reject (\<not> limit_ok (q_limit p)) ''limit'' (
     Inr ((if f64_pos (tv_n delay) then [''delay'', tv_canon delay] @
             (if f64_pos (tv_n jitter) then [tv_canon jitter] @
                (if f64_pos (tv_n delay_corr) then [tv_canon delay_corr] else []) @
                (if distribution \<noteq> [] \<and> distribution \<noteq> ''uniform'' then [''distribution'', distribution] else [])
              else []) else []) @
          (if f64_pos (tv_n loss) then [''loss'', tv_canon loss] @
             (if f64_pos (tv_n loss_corr) then [tv_canon loss_corr] else []) else []) @
          (case gemodel of None \<Rightarrow> [] | Some as \<Rightarrow> as) @
          (if f64_pos (tv_n duplicate) then [''duplicate'', tv_canon duplicate] else []) @
          (if f64_pos (tv_n corrupt) then [''corrupt'', tv_canon corrupt] else []) @
          (if f64_pos (tv_n reorder) then [''reorder'', tv_canon reorder] @
             (if f64_pos (tv_n reorder_corr) then [tv_canon reorder_corr] else []) else []) @
          (if tv_set rate then [''rate'', tv_canon rate] else []) @
          (case q_limit p of None \<Rightarrow> [] | Some n \<Rightarrow> [''limit'', int_str n])))))))))))))))))))))))"

definition tbf_args :: "tc_fields \<Rightarrow> string + string list" where
  "tbf_args p =
     no_fields [(''delay'', q_delay p), (''jitter'', q_jitter p), (''delay_correlation'', q_delay_correlation p),
       (''distribution'', q_distribution p), (''loss'', q_loss p), (''loss_correlation'', q_loss_correlation p),
       (''duplicate'', q_duplicate p), (''corrupt'', q_corrupt p), (''reorder'', q_reorder p),
       (''reorder_correlation'', q_reorder_correlation p)] (
     reject (q_gemodel p \<noteq> None) ''gemodel'' (
     reject (q_limit p \<noteq> None) ''limit'' (
     bindR (tc_rate ''rate'' (q_rate p)) (\<lambda>rate.
     reject (\<not> tv_set rate) ''rate'' (
     bindR (tc_size ''burst'' (if q_burst p = [] then ''32kbit'' else q_burst p)) (\<lambda>burst.
     bindR (tc_time ''latency'' (if q_latency p = [] then ''50ms'' else q_latency p) 1 tc_max_latency_ms) (\<lambda>latency.
     Inr [''rate'', tv_canon rate, ''burst'', tv_canon burst, ''latency'', tv_canon latency])))))))"

definition build_tc_params :: "tc_param \<Rightarrow> string + string \<times> string list" where
  "build_tc_params p =
     (case p of TCParam f classes \<Rightarrow>
        reject (classes \<noteq> []) ''classes'' (
        let q = trim_space (q_qdisc f); qdisc = (if q = [] then ''netem'' else q) in
        if qdisc = ''netem'' then bindR (netem_args f) (\<lambda>as. Inr (qdisc, as))
        else if qdisc = ''tbf'' then bindR (tbf_args f) (\<lambda>as. Inr (qdisc, as))
        else Inl ''qdisc''))"

definition build_add_qdisc_command :: "string \<Rightarrow> string \<Rightarrow> string list \<Rightarrow> string list list" where
  "build_add_qdisc_command iface qdisc params =
     [tc_reset_command iface, [''tc'', ''qdisc'', ''replace'', ''dev'', iface, ''root'', qdisc] @ params]"

section \<open>htb\<close>

definition tc_max_classes :: nat where "tc_max_classes = 50"
definition tc_minor_base :: nat where "tc_minor_base = 10"

definition class_minor :: "nat \<Rightarrow> string" where
  "class_minor i = nat_str (tc_minor_base + i + 1)"

definition class_id :: "nat \<Rightarrow> string" where
  "class_id i = ''1:'' @ class_minor i"

text \<open>\<open>leafQdiscArgs\<close>: the qdisc under a class.\<close>

definition leaf_qdisc_args :: "class_fields \<Rightarrow> tc_param option \<Rightarrow> string + string list" where
  "leaf_qdisc_args c sh =
     (let q = trim_space (cl_queue c);
          queue = (if q = [] then (if sh = None then ''pfifo'' else ''netem'') else q) in
      reject (queue \<notin> {''pfifo'', ''fq_codel'', ''sfq'', ''netem''}) ''queue'' (
      reject (sh \<noteq> None \<and> queue \<noteq> ''netem'') ''shaping'' (
      reject (cl_limit c \<noteq> None \<and> queue \<noteq> ''pfifo'') ''limit'' (
      if queue = ''netem'' then
        (case sh of None \<Rightarrow> Inl ''queue''
         | Some (TCParam f _) \<Rightarrow>
             reject (q_rate f \<noteq> []) ''shaping.rate'' (
             reject (q_qdisc f \<noteq> [] \<and> q_qdisc f \<noteq> ''netem'') ''shaping.qdisc'' (
             bindR (netem_args f) (\<lambda>as. Inr (''netem'' # as)))))
      else if queue = ''pfifo'' then
        reject (\<not> limit_ok (cl_limit c)) ''limit''
          (Inr [''pfifo'', ''limit'', int_str (case cl_limit c of None \<Rightarrow> 1000 | Some n \<Rightarrow> n)])
      else if queue = ''sfq'' then Inr [''sfq'', ''perturb'', ''10'']
      else Inr [queue]))))"

fun hex_str :: "nat \<Rightarrow> string" where
  "hex_str n = (if n < 16 then [hex_digit n] else hex_str (n div 16) @ [hex_digit (n mod 16)])"

declare hex_str.simps [simp del]

definition flower_addr :: "string \<Rightarrow> string \<Rightarrow> string \<Rightarrow> string + string list" where
  "flower_addr name key v =
     (if v = [] then Inr [] else reject (parse_cidr v = None \<and> parse_ip v = None) name (Inr [key, v]))"

definition flower_port :: "string \<Rightarrow> string \<Rightarrow> string \<Rightarrow> int option \<Rightarrow> string + string list" where
  "flower_port proto name key v =
     (case v of None \<Rightarrow> Inr []
      | Some n \<Rightarrow> reject (proto \<noteq> ''tcp'' \<and> proto \<noteq> ''udp'') name (reject (n < 1 \<or> 65535 < n) name (Inr [key, int_str n])))"

definition flower_dscp :: "int option \<Rightarrow> string + string list" where
  "flower_dscp v =
     (case v of None \<Rightarrow> Inr []
      | Some n \<Rightarrow> reject (n < 0 \<or> 63 < n) ''dscp'' (Inr [''ip_tos'', ''0x'' @ hex_str (4 * nat n) @ ''/0xfc'']))"

definition flower_args :: "tc_match \<Rightarrow> string + string \<times> string list" where
  "flower_args m =
     (let proto = map lower_char (trim_space (mt_proto m)) in
      reject (proto \<noteq> [] \<and> proto \<notin> {''tcp'', ''udp'', ''icmp''}) ''proto'' (
      bindR (flower_addr ''src'' ''src_ip'' (mt_src m)) (\<lambda>src.
      bindR (flower_addr ''dst'' ''dst_ip'' (mt_dst m)) (\<lambda>dst.
      bindR (flower_port proto ''srcPort'' ''src_port'' (mt_src_port m)) (\<lambda>sport.
      bindR (flower_port proto ''dstPort'' ''dst_port'' (mt_dst_port m)) (\<lambda>dport.
      bindR (flower_dscp (mt_dscp m)) (\<lambda>dscp.
      let ip = (if proto = [] then [] else [''ip_proto'', proto]) @ src @ dst @ sport @ dport @ dscp in
      case mt_vlan m of
        Some n \<Rightarrow> reject (n < 1 \<or> 4094 < n) ''vlan''
          (Inr (''802.1Q'', [''vlan_id'', int_str n] @ (if ip = [] then [] else [''vlan_ethtype'', ''ip'']) @ ip))
      | None \<Rightarrow> reject (ip = []) ''match'' (Inr (''ip'', ip)))))))))"

record htb_state =
  ht_default :: string
  ht_sum :: f64
  ht_classes :: "string list list"
  ht_leaves :: "string list list"
  ht_filters :: "string list list"
  ht_prio :: nat

text \<open>The filters of a class, numbered through the whole tree.\<close>

primrec htb_filters :: "string \<Rightarrow> string \<Rightarrow> tc_match list \<Rightarrow> htb_state \<Rightarrow> string + htb_state" where
  "htb_filters iface cid [] st = Inr st"
| "htb_filters iface cid (m # ms) st =
     bindR (flower_args m) (\<lambda>(protocol, keys).
       htb_filters iface cid ms (st\<lparr>ht_prio := Suc (ht_prio st),
         ht_filters := ht_filters st @ [[''tc'', ''filter'', ''add'', ''dev'', iface, ''parent'', ''1:'', ''protocol'', protocol,
           ''prio'', nat_str (Suc (ht_prio st)), ''flower''] @ keys @ [''flowid'', cid]]\<rparr>))"

definition htb_class :: "string \<Rightarrow> tc_value \<Rightarrow> nat \<Rightarrow> tc_class \<Rightarrow> htb_state \<Rightarrow> string + htb_state" where
  "htb_class iface link i cls st =
     (case cls of TCClass c sh \<Rightarrow>
      bindR (tc_rate ''rate'' (cl_rate c)) (\<lambda>rate.
      reject (\<not> tv_set rate) ''rate'' (
      bindR (if cl_ceil c = [] then Inr link else tc_rate ''ceil'' (cl_ceil c)) (\<lambda>ceil.
      let lb = rate_bits (tv_canon link); rb = rate_bits (tv_canon rate); cb = rate_bits (tv_canon ceil) in
      reject (f64_less lb rb) ''rate'' (
      reject (f64_less lb cb) ''ceil'' (
      reject (f64_less cb rb) ''ceil'' (
      reject (case cl_prio c of None \<Rightarrow> False | Some n \<Rightarrow> n < 0 \<or> 7 < n) ''prio'' (
      reject (cl_default c \<and> ht_default st \<noteq> []) ''default'' (
      reject (\<not> cl_default c \<and> cl_match c = []) ''match'' (
      bindR (leaf_qdisc_args c sh) (\<lambda>leaf.
      htb_filters iface (class_id i) (cl_match c)
        (st\<lparr>ht_default := (if cl_default c then class_minor i else ht_default st),
            ht_sum := f64_add (ht_sum st) rb,
            ht_classes := ht_classes st @ [[''tc'', ''class'', ''add'', ''dev'', iface, ''parent'', ''1:1'', ''classid'', class_id i,
                ''htb'', ''rate'', tv_canon rate, ''ceil'', tv_canon ceil] @
                (case cl_prio c of None \<Rightarrow> [] | Some n \<Rightarrow> [''prio'', int_str n])],
            ht_leaves := ht_leaves st @ [[''tc'', ''qdisc'', ''add'', ''dev'', iface, ''parent'', class_id i, ''handle'',
                class_minor i @ '':''] @ leaf]\<rparr>))))))))))))"

primrec htb_classes_from :: "string \<Rightarrow> tc_value \<Rightarrow> nat \<Rightarrow> tc_class list \<Rightarrow> htb_state \<Rightarrow> string + htb_state" where
  "htb_classes_from iface link i [] st = Inr st"
| "htb_classes_from iface link i (c # cs) st =
     bindR (htb_class iface link i c st) (htb_classes_from iface link (Suc i) cs)"

definition htb_start :: htb_state where
  "htb_start = \<lparr>ht_default = [], ht_sum = Fin 0, ht_classes = [], ht_leaves = [], ht_filters = [], ht_prio = 0\<rparr>"

definition htb_commands :: "string \<Rightarrow> tc_fields \<Rightarrow> tc_class list \<Rightarrow> string + string list list" where
  "htb_commands iface f classes =
     no_fields [(''delay'', q_delay f), (''jitter'', q_jitter f), (''distribution'', q_distribution f), (''loss'', q_loss f),
       (''duplicate'', q_duplicate f), (''corrupt'', q_corrupt f), (''reorder'', q_reorder f), (''burst'', q_burst f),
       (''latency'', q_latency f)] (
     reject (q_gemodel f \<noteq> None \<or> q_limit f \<noteq> None) ''gemodel'' (
     bindR (tc_rate ''rate'' (q_rate f)) (\<lambda>link.
     reject (\<not> tv_set link) ''rate'' (
     reject (classes = []) ''classes'' (
     reject (tc_max_classes < length classes) ''classes'' (
     bindR (htb_classes_from iface link 0 classes htb_start) (\<lambda>st.
     reject (ht_default st = []) ''classes'' (
     reject (f64_less (rate_bits (tv_canon link)) (ht_sum st)) ''classes'' (
     Inr ([tc_reset_command iface,
           [''tc'', ''qdisc'', ''replace'', ''dev'', iface, ''root'', ''handle'', ''1:'', ''htb'', ''default'', ht_default st],
           [''tc'', ''class'', ''add'', ''dev'', iface, ''parent'', ''1:'', ''classid'', ''1:1'', ''htb'', ''rate'', tv_canon link,
            ''ceil'', tv_canon link]] @
          ht_classes st @ ht_leaves st @ ht_filters st))))))))))"

definition build_shaping_commands :: "string \<Rightarrow> tc_param option \<Rightarrow> string + string list list" where
  "build_shaping_commands iface p =
     (case p of None \<Rightarrow> Inl ''tcparams''
      | Some (TCParam f classes) \<Rightarrow>
          if trim_space (q_qdisc f) = ''htb'' \<or> q_qdisc f = [] \<and> classes \<noteq> [] then htb_commands iface f classes
          else bindR (build_tc_params (TCParam f classes)) (\<lambda>(qdisc, params).
            Inr (build_add_qdisc_command iface qdisc params)))"

section \<open>Words\<close>

text \<open>A word that a line of \<open>tc -b\<close> keeps whole, and the fields whose blanks are not checked.\<close>

definition token :: "string \<Rightarrow> bool" where
  "token w \<longleftrightarrow> w \<noteq> [] \<and> list_all (\<lambda>c. \<not> is_space c) w"

definition blank :: "string \<Rightarrow> bool" where
  "blank s \<longleftrightarrow> s \<noteq> [] \<and> trim_space s = []"

definition gemodel_blank :: "gemodel_spec option \<Rightarrow> bool" where
  "gemodel_blank g = (case g of None \<Rightarrow> False | Some m \<Rightarrow> list_ex blank [gm_p m, gm_r m, gm_h m, gm_k m])"

definition class_blank :: "tc_class \<Rightarrow> bool" where
  "class_blank c = (case c of TCClass k sh \<Rightarrow> blank (cl_ceil k) \<or> (case sh of Some (TCParam f _) \<Rightarrow> gemodel_blank (q_gemodel f) | None \<Rightarrow> False))"

definition has_blank :: "tc_param \<Rightarrow> bool" where
  "has_blank p = (case p of TCParam f cs \<Rightarrow>
     blank (q_burst f) \<or> blank (q_latency f) \<or> gemodel_blank (q_gemodel f) \<or> list_ex class_blank cs)"

lemma token_append: "token a \<Longrightarrow> list_all (\<lambda>c. \<not> is_space c) b \<Longrightarrow> token (a @ b)"
  by (simp add: token_def)

lemma token_lits [simp]:
  "token ''tc''" "token ''qdisc''" "token ''replace''" "token ''dev''" "token ''root''" "token ''noqueue''" "token ''netem''"
  "token ''tbf''" "token ''htb''" "token ''handle''" "token ''1:''" "token ''1:1''" "token ''default''" "token ''class''" "token ''add''"
  "token ''parent''" "token ''classid''" "token ''rate''" "token ''ceil''" "token ''prio''" "token ''filter''" "token ''protocol''"
  "token ''flower''" "token ''flowid''" "token ''delay''" "token ''loss''" "token ''gemodel''" "token ''duplicate''" "token ''corrupt''"
  "token ''reorder''" "token ''limit''" "token ''distribution''" "token ''burst''" "token ''latency''" "token ''pfifo''"
  "token ''fq_codel''" "token ''sfq''" "token ''perturb''" "token ''10''" "token ''ip''" "token ''802.1Q''" "token ''vlan_id''"
  "token ''vlan_ethtype''" "token ''ip_proto''" "token ''src_ip''" "token ''dst_ip''" "token ''src_port''" "token ''dst_port''"
  "token ''ip_tos''" "token ''tcp''" "token ''udp''" "token ''icmp''" "token ''normal''" "token ''pareto''" "token ''paretonormal''"
  by (simp_all add: token_def is_space_def)

lemma token_nat_str [simp]: "token (nat_str n)"
  by (simp add: token_def nat_str_word)

lemma token_int_str [simp]: "token (int_str n)"
  using token_nat_str by (auto simp: int_str_def token_def is_space_def)

lemma token_class_minor [simp]: "token (class_minor i)"
  by (simp add: class_minor_def)

lemma token_class_id [simp]: "token (class_id i)"
  unfolding class_id_def using token_class_minor [of i] by (simp add: token_def is_space_def)

lemma token_handle [simp]: "token (class_minor i @ '':'')"
  using token_class_minor [of i] by (simp add: token_def is_space_def)

lemma digits_token: "list_all is_digit a \<Longrightarrow> a \<noteq> [] \<Longrightarrow> token a"
  using is_digit_not_space by (auto simp: token_def list_all_iff)

lemma takeWhile_list_all: "list_all P (takeWhile P xs)"
  using set_takeWhileD by (fastforce simp: list_all_iff)

lemma number_unit_token:
  assumes "number_unit units s = Some (num, u)"
  shows "token num" and "u = [] \<or> u \<in> set units"
proof -
  let ?t = "dropWhile re_space s"
  from assms have ne: "takeWhile is_digit ?t \<noteq> []" and u: "u = [] \<or> u \<in> set units" and n: "num = fst (decimal_prefix ?t)"
    by (auto simp: number_unit_def Let_def split: if_splits prod.splits)
  then show "u = [] \<or> u \<in> set units" by simp
  have d: "token (takeWhile is_digit x)" if "takeWhile is_digit x \<noteq> []" for x
    using that takeWhile_list_all by (blast intro: digits_token)
  have dot: "\<not> is_space CHR ''.''" by (simp add: is_space_def)
  show "token num"
    using n ne d dot by (auto simp: decimal_prefix_def Let_def token_def split: list.splits)
qed

lemma units_spaceless: "u \<in> set (time_units @ rate_units @ size_units @ [''%'']) \<Longrightarrow> list_all (\<lambda>c. \<not> is_space c) u"
  by (auto simp: time_units_def rate_units_def size_units_def is_space_def)

lemma f64_pos_zero [simp]: "f64_pos (Fin 0) = False"
  by (simp add: f64_pos_def f64_less_def)

lemma no_value_simps [simp]: "tv_set no_value = False" "tv_n no_value = Fin 0"
  by (simp_all add: no_value_def)

text \<open>A value that is given is a word, and a positive one is given.\<close>

definition value_ok :: "string \<Rightarrow> tc_value \<Rightarrow> bool" where
  "value_ok s v \<longleftrightarrow> (tv_set v \<longleftrightarrow> trim_space s \<noteq> []) \<and> (tv_set v \<longrightarrow> token (tv_canon v)) \<and> (f64_pos (tv_n v) \<longrightarrow> tv_set v)"

lemma value_okD: "value_ok s v \<Longrightarrow> f64_pos (tv_n v) \<Longrightarrow> token (tv_canon v)" "value_ok s v \<Longrightarrow> tv_set v \<Longrightarrow> token (tv_canon v)"
  "value_ok s v \<Longrightarrow> \<not> blank s \<Longrightarrow> s \<noteq> [] \<Longrightarrow> token (tv_canon v)"
  by (auto simp: value_ok_def blank_def)

lemma value_ok_no_value: "trim_space s = [] \<Longrightarrow> value_ok s no_value" by (simp add: value_ok_def)

lemma value_ok_given:
  "number_unit units s = Some (num, u) \<Longrightarrow> trim_space s \<noteq> [] \<Longrightarrow> list_all (\<lambda>c. \<not> is_space c) x \<Longrightarrow>
     value_ok s \<lparr>tv_set = True, tv_n = n, tv_canon = num @ x\<rparr>"
  using number_unit_token(1) by (simp add: value_ok_def token_append)

lemma unit_spaceless:
  "number_unit time_units s = Some (num, u) \<Longrightarrow> list_all (\<lambda>c. \<not> is_space c) u"
  "number_unit rate_units s = Some (num, u) \<Longrightarrow> list_all (\<lambda>c. \<not> is_space c) u"
  "number_unit size_units s = Some (num, u) \<Longrightarrow> list_all (\<lambda>c. \<not> is_space c) u"
  using number_unit_token(2) [of _ s num u] units_spaceless [of u] by fastforce+

lemma spaceless_units [simp]: "\<not> is_space CHR ''m''" "\<not> is_space CHR ''s''" "\<not> is_space CHR ''b''" "\<not> is_space CHR ''i''"
  "\<not> is_space CHR ''t''" "\<not> is_space CHR ''%''"
  by (simp_all add: is_space_def)

lemma tc_time_ok: "tc_time f s lo hi = Inr v \<Longrightarrow> value_ok s v"
  by (auto simp: tc_time_def Let_def value_ok_no_value split: if_splits option.splits
      intro!: value_ok_given intro: unit_spaceless)

lemma tc_percent_ok: "tc_percent f s = Inr v \<Longrightarrow> value_ok s v"
  by (auto simp: tc_percent_def Let_def value_ok_no_value split: if_splits option.splits
      intro!: value_ok_given)

lemma tc_rate_ok: "tc_rate f s = Inr v \<Longrightarrow> value_ok s v"
  by (auto simp: tc_rate_def Let_def value_ok_no_value split: if_splits option.splits
      intro!: value_ok_given intro: unit_spaceless)

lemma tc_size_ok: "tc_size f s = Inr v \<Longrightarrow> value_ok s v"
  by (auto simp: tc_size_def Let_def value_ok_no_value split: if_splits option.splits
      intro!: value_ok_given intro: unit_spaceless)

lemmas tc_values_ok = tc_time_ok tc_percent_ok tc_rate_ok tc_size_ok


section \<open>The words of an accepted request\<close>

abbreviation tokens :: "string list \<Rightarrow> bool" where
  "tokens ws \<equiv> list_all token ws"

text \<open>What holds of the result when there is one, by the steps of the computation.\<close>

definition yields :: "('a \<Rightarrow> bool) \<Rightarrow> string + 'a \<Rightarrow> bool" where
  "yields P m \<longleftrightarrow> (\<forall>x. m = Inr x \<longrightarrow> P x)"

lemma yieldsD: "yields P m \<Longrightarrow> m = Inr x \<Longrightarrow> P x" by (simp add: yields_def)

lemma yields_Inr: "P x \<Longrightarrow> yields P (Inr x)" by (simp add: yields_def)

lemma yields_Inl: "yields P (Inl e)" by (simp add: yields_def)

lemma yields_bind: "(\<And>a. m = Inr a \<Longrightarrow> yields P (f a)) \<Longrightarrow> yields P (bindR m f)"
  by (auto simp: yields_def bindR_Inr)

lemma yields_reject: "(\<not> b \<Longrightarrow> yields P k) \<Longrightarrow> yields P (reject b f k)"
  by (simp add: yields_def)

lemma yields_no_fields: "(\<forall>f \<in> set fs. snd f = [] \<Longrightarrow> yields P k) \<Longrightarrow> yields P (no_fields fs k)"
  by (simp add: yields_def)

lemma yields_if: "(b \<Longrightarrow> yields P x) \<Longrightarrow> (\<not> b \<Longrightarrow> yields P y) \<Longrightarrow> yields P (if b then x else y)"
  by simp

lemmas yields_intros = yields_Inr yields_Inl yields_bind yields_reject yields_no_fields

lemma gemodel_from_tokens:
  "gemodel_from fs args prev = Inr as \<Longrightarrow> tokens args \<Longrightarrow> list_all (\<lambda>f. \<not> blank (snd f)) fs \<Longrightarrow> tokens as"
proof (induction fs arbitrary: args prev)
  case (Cons f fs)
  show ?case
  proof (cases "snd f = []")
    case True
    with Cons show ?thesis by (auto split: if_splits)
  next
    case False
    with Cons.prems obtain v where v: "tc_percent (''gemodel.'' @ fst f) (snd f) = Inr v"
      "gemodel_from fs (args @ [tv_canon v]) prev = Inr as" by (auto simp: bindR_Inr split: if_splits)
    moreover have "token (tv_canon v)"
      using tc_percent_ok [OF v(1)] False Cons.prems(3) by (auto intro: value_okD(3) simp: list_all_iff)
    ultimately show ?thesis using Cons by auto
  qed
qed simp

lemma gemodel_tokens: "gemodel_args g = Inr (Some as) \<Longrightarrow> \<not> gemodel_blank g \<Longrightarrow> tokens as"
  by (auto simp: gemodel_args_def gemodel_blank_def bindR_Inr split: option.splits
      elim!: gemodel_from_tokens simp del: gemodel_from.simps)

lemma gemodel_given: "gemodel_args g = Inr x \<Longrightarrow> x = Some as \<Longrightarrow> \<not> gemodel_blank g \<Longrightarrow> tokens as"
  by (simp add: gemodel_tokens)

lemma distribution_token:
  "\<not> (d \<noteq> [] \<and> d \<notin> set netem_distributions) \<Longrightarrow> d \<noteq> [] \<and> d \<noteq> ''uniform'' \<Longrightarrow> token d"
  by (auto simp: netem_distributions_def)

lemma tc_time_token: "tc_time f s lo hi = Inr v \<Longrightarrow> f64_pos (tv_n v) \<Longrightarrow> token (tv_canon v)"
  by (rule value_okD(1) [OF tc_time_ok])

lemma tc_percent_token: "tc_percent f s = Inr v \<Longrightarrow> f64_pos (tv_n v) \<Longrightarrow> token (tv_canon v)"
  by (rule value_okD(1) [OF tc_percent_ok])

lemma tc_rate_token: "tc_rate f s = Inr v \<Longrightarrow> tv_set v \<Longrightarrow> token (tv_canon v)"
  by (rule value_okD(2) [OF tc_rate_ok])

lemma tokens_append: "tokens xs \<Longrightarrow> tokens ys \<Longrightarrow> tokens (xs @ ys)" by simp
lemma tokens_Nil: "tokens []" by simp
lemma tokens_Cons: "token x \<Longrightarrow> tokens xs \<Longrightarrow> tokens (x # xs)" by simp
lemma tokens_if: "(b \<Longrightarrow> tokens xs) \<Longrightarrow> (\<not> b \<Longrightarrow> tokens ys) \<Longrightarrow> tokens (if b then xs else ys)" by simp
lemma tokens_option: "(\<And>n. x = Some n \<Longrightarrow> tokens (f n)) \<Longrightarrow> tokens (case x of None \<Rightarrow> [] | Some n \<Rightarrow> f n)"
  by (cases x) simp_all

lemmas tokens_intros = tokens_Nil tokens_append tokens_Cons tokens_if tokens_option

lemma netem_tokens:
  assumes "\<not> gemodel_blank (q_gemodel f)"
  shows "yields tokens (netem_args f)"
  unfolding netem_args_def Let_def
  by (intro yields_intros tokens_intros;
    (rule token_lits token_int_str | erule (1) tc_time_token | erule (1) tc_percent_token | erule (1) tc_rate_token
      | erule (1) distribution_token | (erule (1) gemodel_given, rule assms)))

lemma tbf_tokens:
  assumes "tbf_args f = Inr as" and "\<not> blank (q_burst f)" and "\<not> blank (q_latency f)"
  shows "tokens as"
proof -
  have d: "\<not> blank ''32kbit''" "\<not> blank ''50ms''" by (simp_all add: blank_def trim_space_def is_space_def)
  from assms(1) show ?thesis
    using d assms(2,3) by (clarsimp simp: tbf_args_def bindR_Inr dest!: tc_values_ok) (auto intro: value_okD split: if_splits)
qed

lemma leaf_tokens:
  assumes "leaf_qdisc_args c sh = Inr as" and "\<not> class_blank (TCClass c sh)"
  shows "tokens as"
  using assms
  by (auto simp: leaf_qdisc_args_def Let_def bindR_Inr class_blank_def dest: yieldsD [OF netem_tokens]
      split: if_splits option.splits tc_param.splits)

lemma inert_token: "shell_inert s \<Longrightarrow> s \<noteq> [] \<Longrightarrow> token s"
  by (auto simp: shell_inert_def inert_char_def token_def list_all_iff)

lemma hex_str_token [simp]: "token (hex_str n)"
proof (induction n rule: hex_str.induct)
  case (1 n)
  have "\<not> is_space (hex_digit k)" if "k < 16" for k :: nat
  proof -
    have "k \<in> set [0 ..< 16]" using that by simp
    moreover have "list_all (\<lambda>k. \<not> is_space (hex_digit k)) [0 ..< 16]" by code_simp
    ultimately show ?thesis unfolding list_all_iff by blast
  qed
  then have d: "token [hex_digit (n mod 16)]" "n < 16 \<Longrightarrow> token [hex_digit n]" by (simp_all add: token_def)
  show ?case
  proof (cases "n < 16")
    case False
    with 1 d(1) show ?thesis by (subst hex_str.simps) (simp add: token_def)
  qed (subst hex_str.simps, simp add: d)
qed

lemma dscp_token [simp]: "token (CHR ''0'' # CHR ''x'' # hex_str n @ ''/0xfc'')"
  using hex_str_token [of n] by (simp add: token_def is_space_def)

lemma flower_addr_tokens: "flower_addr n k v = Inr ws \<Longrightarrow> token k \<Longrightarrow> tokens ws"
  using ip_inert [of v] cidr_inert [of v] inert_token [of v] by (auto simp: flower_addr_def split: if_splits)

lemma flower_port_tokens: "flower_port p n k v = Inr ws \<Longrightarrow> token k \<Longrightarrow> tokens ws"
  by (auto simp: flower_port_def split: option.splits)

lemma flower_dscp_tokens: "flower_dscp v = Inr ws \<Longrightarrow> tokens ws"
  by (auto simp: flower_dscp_def split: option.splits)

lemma proto_token: "\<not> (p \<noteq> [] \<and> p \<notin> {''tcp'', ''udp'', ''icmp''}) \<Longrightarrow> p \<noteq> [] \<Longrightarrow> token p" by auto

lemma flower_tokens:
  "yields (\<lambda>k. token (fst k) \<and> tokens (snd k)) (flower_args m)"
proof -
  have vlan: "tokens ip \<Longrightarrow> yields (\<lambda>k. token (fst k) \<and> tokens (snd k)) (case v of
      Some n \<Rightarrow> reject (n < 1 \<or> 4094 < n) ''vlan'' (Inr (''802.1Q'', [''vlan_id'', int_str n] @ (if ip = [] then [] else [''vlan_ethtype'', ''ip'']) @ ip))
    | None \<Rightarrow> reject (ip = []) ''match'' (Inr (''ip'', ip)))" for v ip
    by (cases v) (simp_all add: yields_def)
  show ?thesis
    unfolding flower_args_def Let_def
    by (intro yields_intros vlan tokens_intros;
      (rule token_lits | erule (1) proto_token | (erule flower_addr_tokens, simp) | (erule flower_port_tokens, simp)
        | erule flower_dscp_tokens | simp))
qed

section \<open>The batch and the tree\<close>

definition row_ok :: "string list \<Rightarrow> bool" where
  "row_ok r \<longleftrightarrow> tl r \<noteq> [] \<and> hd r = ''tc'' \<and> tokens r"

definition tree_ok :: "htb_state \<Rightarrow> bool" where
  "tree_ok st \<longleftrightarrow> list_all row_ok (ht_classes st @ ht_leaves st @ ht_filters st) \<and> (ht_default st = [] \<or> token (ht_default st))"

lemma filters_ok:
  assumes "token iface" and "token cid"
  shows "tree_ok st \<Longrightarrow> yields tree_ok (htb_filters iface cid ms st)"
proof (induction ms arbitrary: st)
  case (Cons m ms)
  have "tree_ok (st\<lparr>ht_prio := Suc (ht_prio st),
         ht_filters := ht_filters st @ [[''tc'', ''filter'', ''add'', ''dev'', iface, ''parent'', ''1:'', ''protocol'', fst a,
           ''prio'', nat_str (Suc (ht_prio st)), ''flower''] @ snd a @ [''flowid'', cid]]\<rparr>)"
    if "flower_args m = Inr a" for a
    using that yieldsD [OF flower_tokens that] Cons.prems assms by (simp add: tree_ok_def row_ok_def)
  with Cons.IH show ?case by (auto simp: split_beta intro!: yields_intros)
qed (simp add: yields_def)

lemma class_ok:
  assumes "token iface" and "tree_ok st" and "\<not> class_blank cls" and "tc_rate fld s = Inr link" and "tv_set link"
  shows "yields tree_ok (htb_class iface link i cls st)"
proof -
  obtain c sh where cls: "cls = TCClass c sh" by (cases cls)
  have link: "token (tv_canon link)" using assms(4,5) by (rule tc_rate_token)
  have ceil: "token (tv_canon v)" if "(if cl_ceil c = [] then Inr link else tc_rate ''ceil'' (cl_ceil c)) = Inr v" for v
    using that link assms(3) cls by (auto simp: class_blank_def split: if_splits dest: tc_rate_ok intro: value_okD(3))
  have leaf: "tokens as" if "leaf_qdisc_args c sh = Inr as" for as
    using that assms(3) cls leaf_tokens by blast
  have prio: "tokens (case p of None \<Rightarrow> [] | Some n \<Rightarrow> [''prio'', int_str n])" for p
    by (simp split: option.split)
  show ?thesis
    unfolding cls htb_class_def tc_class.case Let_def
    by (intro yields_intros filters_ok [OF assms(1) token_class_id])
      (use assms(1,2) prio in \<open>auto simp: tree_ok_def row_ok_def dest: ceil leaf tc_rate_token\<close>)
qed

lemma classes_ok:
  assumes "token iface" and "tc_rate fld s = Inr link" and "tv_set link"
  shows "list_all (\<lambda>c. \<not> class_blank c) cs \<Longrightarrow> tree_ok st \<Longrightarrow> yields tree_ok (htb_classes_from iface link i cs st)"
proof (induction cs arbitrary: i st)
  case (Cons c cs)
  have "tree_ok a" if "htb_class iface link i c st = Inr a" for a
    using class_ok [OF assms(1) Cons.prems(2) _ assms(2,3)] Cons.prems(1) that by (auto dest: yieldsD)
  with Cons show ?case by (auto intro!: yields_intros)
qed (simp add: yields_def)

lemma reset_ok: "token iface \<Longrightarrow> row_ok (tc_reset_command iface)"
  by (simp add: tc_reset_command_def row_ok_def)

lemma htb_rows_ok:
  assumes "token iface" and "list_all (\<lambda>c. \<not> class_blank c) cs"
  shows "yields (list_all row_ok) (htb_commands iface f cs)"
proof -
  have "list_all row_ok ([tc_reset_command iface,
           [''tc'', ''qdisc'', ''replace'', ''dev'', iface, ''root'', ''handle'', ''1:'', ''htb'', ''default'', ht_default st],
           [''tc'', ''class'', ''add'', ''dev'', iface, ''parent'', ''1:'', ''classid'', ''1:1'', ''htb'', ''rate'', tv_canon link,
            ''ceil'', tv_canon link]] @ ht_classes st @ ht_leaves st @ ht_filters st)"
    if "tc_rate ''rate'' (q_rate f) = Inr link" "\<not> \<not> tv_set link" "htb_classes_from iface link 0 cs htb_start = Inr st" "ht_default st \<noteq> []" for link st
  proof -
    have "tree_ok htb_start" by (simp add: tree_ok_def htb_start_def)
    then have "tree_ok st" using classes_ok [OF assms(1) that(1) _ assms(2)] that(2,3) by (auto dest: yieldsD)
    moreover have "token (tv_canon link)" using that(1,2) by (simp add: tc_rate_token)
    ultimately show ?thesis using assms(1) that(4) reset_ok by (simp add: tree_ok_def row_ok_def)
  qed
  then show ?thesis unfolding htb_commands_def by (intro yields_intros) blast
qed

lemma shaping_rows_ok:
  assumes "build_shaping_commands iface (Some p) = Inr rows" and "token iface" and "\<not> has_blank p"
  shows "list_all row_ok rows"
proof -
  obtain f cs where p: "p = TCParam f cs" by (cases p)
  have nb: "\<not> gemodel_blank (q_gemodel f)" "\<not> blank (q_burst f)" "\<not> blank (q_latency f)" "list_all (\<lambda>c. \<not> class_blank c) cs"
    using assms(3) p by (auto simp: has_blank_def list_all_iff list_ex_iff)
  show ?thesis
  proof (cases "trim_space (q_qdisc f) = ''htb'' \<or> q_qdisc f = [] \<and> cs \<noteq> []")
    case True
    with assms(1) p have "htb_commands iface f cs = Inr rows" by (auto simp: build_shaping_commands_def)
    with htb_rows_ok [OF assms(2) nb(4)] show ?thesis by (auto dest: yieldsD)
  next
    case False
    with assms(1) p obtain qdisc params where b: "build_tc_params (TCParam f cs) = Inr (qdisc, params)"
      "rows = build_add_qdisc_command iface qdisc params" by (auto simp: build_shaping_commands_def bindR_Inr)
    from b(1) have q: "qdisc = ''netem'' \<or> qdisc = ''tbf''"
      by (auto simp: build_tc_params_def Let_def bindR_Inr split: if_splits)
    from b(1) have "tokens params"
      using yieldsD [OF netem_tokens [OF nb(1)]] tbf_tokens [OF _ nb(2,3)]
      by (auto simp: build_tc_params_def Let_def bindR_Inr split: if_splits)
    with q b(2) assms(2) reset_ok show ?thesis by (auto simp: build_add_qdisc_command_def row_ok_def)
  qed
qed

lemma fields_join_tokens: "tokens ws \<Longrightarrow> Go_Prelude.fields (join_with '' '' ws) = ws"
proof (induction ws rule: induct_list012)
  case 1
  show ?case by (subst Go_Prelude.fields.simps) simp
next
  case (2 w)
  then show ?case by (simp add: token_def fields_word(2))
next
  case (3 v w ws)
  then show ?case by (simp add: token_def fields_word(1))
qed


lemma trim_space_id: "s = [] \<or> \<not> is_space (hd s) \<and> \<not> is_space (last s) \<Longrightarrow> trim_space s = s"
proof (cases s rule: rev_cases)
  case (snoc t c)
  assume a: "s = [] \<or> \<not> is_space (hd s) \<and> \<not> is_space (last s)"
  with snoc have "\<not> is_space (hd s)" by simp
  then have "dropWhile is_space s = s" by (cases s) auto
  with a snoc show ?thesis by (simp add: trim_space_def)
qed (simp add: trim_space_def)

lemma hd_last_token: "token w \<Longrightarrow> \<not> is_space (hd w) \<and> \<not> is_space (last w)"
  by (auto simp: token_def list_all_iff)

lemma join_tokens_ends:
  "tokens ws \<Longrightarrow> ws \<noteq> [] \<Longrightarrow> join_with '' '' ws \<noteq> [] \<and> \<not> is_space (hd (join_with '' '' ws)) \<and> \<not> is_space (last (join_with '' '' ws))"
proof (induction ws rule: induct_list012)
  case (2 w)
  then show ?case using hd_last_token [of w] by (simp add: token_def)
next
  case (3 v w ws)
  then show ?case using hd_last_token [of v] by (simp add: token_def)
qed simp

lemma batch_lines_tc:
  "list_all row_ok rows \<Longrightarrow> batch_lines ''tc'' rows = (''tc'', map (\<lambda>r. join_with '' '' (tl r)) rows)"
  by (induction rows) (auto simp: row_ok_def)

lemma batch_from_rows_tc:
  assumes "list_all row_ok rows" and "rows \<noteq> []"
  shows "batch_from_rows rows = new_batch_command ''tc'' (map (\<lambda>r. join_with '' '' (tl r)) rows)"
proof -
  obtain r rs where rs: "rows = r # rs" using assms(2) by (cases rows) auto
  with assms(1) have "batch_lines [] rows = batch_lines ''tc'' rows" by (auto simp: row_ok_def Let_def)
  with assms(1) show ?thesis by (simp add: batch_from_rows_def batch_lines_tc)
qed

text \<open>
  C24: an accepted shaping request is one batch for the tc executor, and the words of each of its
  lines are the words of the command: nothing a request says splits or joins an argument. The
  interface is a word, and no optional field holds only blanks.
\<close>

theorem shaping_batch_reads_back:
  assumes "build_shaping_commands iface (Some p) = Inr rows" and "token iface" and "\<not> has_blank p"
  shows "\<exists>c. commands_from_legacy_for_executor startup_executors rows ''tc_universal'' = [c] \<and> cm_kind c = CBatch \<and>
    map Go_Prelude.fields (cm_lines c) = map tl rows \<and> list_all (\<lambda>r. hd r = ''tc'') rows"
proof -
  have ok: "list_all row_ok rows" using assms by (rule shaping_rows_ok)
  have ne: "rows \<noteq> []"
    using assms(1) by (auto simp: build_shaping_commands_def htb_commands_def build_add_qdisc_command_def bindR_Inr Let_def
        split: tc_param.splits if_splits)
  let ?ls = "map (\<lambda>r. join_with '' '' (tl r)) rows"
  have t: "tokens (tl r)" "tl r \<noteq> []" if "r \<in> set rows" for r
    using ok that by (cases r; auto simp: list_all_iff row_ok_def)+
  have keep: "filter (\<lambda>l. l \<noteq> []) (map trim_space ?ls) = ?ls"
  proof -
    have "map trim_space ?ls = ?ls" using t join_tokens_ends by (auto intro!: trim_space_id)
    then show ?thesis using t join_tokens_ends by (simp only:) (auto simp: filter_id_conv)
  qed
  have "map Go_Prelude.fields ?ls = map tl rows" using t fields_join_tokens by simp
  moreover have "commands_from_legacy_for_executor startup_executors rows ''tc_universal'' = [batch_from_rows rows]"
  proof -
    have "kind_for startup_executors ''tc_universal'' = CBatch" by code_simp
    then show ?thesis by (simp add: commands_from_legacy_for_executor_def)
  qed
  ultimately show ?thesis
    using ok ne keep by (auto simp: batch_from_rows_tc new_batch_command_def list_all_iff row_ok_def)
qed

definition slow_link :: tc_param where
  "slow_link = TCParam \<lparr>q_qdisc = [], q_delay = ''50'', q_jitter = ''10ms'', q_delay_correlation = [], q_distribution = ''normal'',
     q_loss = ''1%'', q_loss_correlation = [], q_gemodel = None, q_duplicate = [], q_corrupt = [], q_reorder = [],
     q_reorder_correlation = [], q_limit = None, q_rate = [], q_burst = [], q_latency = []\<rparr> []"

theorem shaping_batch_reads_back_witness:
  "\<exists>c. commands_from_legacy_for_executor startup_executors
      [[''tc'', ''qdisc'', ''replace'', ''dev'', ''eth1'', ''root'', ''noqueue''],
       [''tc'', ''qdisc'', ''replace'', ''dev'', ''eth1'', ''root'', ''netem'', ''delay'', ''50ms'', ''10ms'', ''distribution'', ''normal'',
        ''loss'', ''1%'']] ''tc_universal'' = [c] \<and> cm_kind c = CBatch \<and>
    map Go_Prelude.fields (cm_lines c) =
      [[''qdisc'', ''replace'', ''dev'', ''eth1'', ''root'', ''noqueue''],
       [''qdisc'', ''replace'', ''dev'', ''eth1'', ''root'', ''netem'', ''delay'', ''50ms'', ''10ms'', ''distribution'', ''normal'',
        ''loss'', ''1%'']]"
proof -
  have "build_shaping_commands ''eth1'' (Some slow_link) =
      Inr [[''tc'', ''qdisc'', ''replace'', ''dev'', ''eth1'', ''root'', ''noqueue''],
       [''tc'', ''qdisc'', ''replace'', ''dev'', ''eth1'', ''root'', ''netem'', ''delay'', ''50ms'', ''10ms'', ''distribution'', ''normal'',
        ''loss'', ''1%'']]" by code_simp
  moreover have "token ''eth1''" by (simp add: token_def is_space_def)
  moreover have "\<not> has_blank slow_link" by code_simp
  ultimately show ?thesis using shaping_batch_reads_back [of "''eth1''" slow_link] by simp
qed

text \<open>
  A burst of blanks counts as given and then as absent: tc is handed an empty word. The
  correlations of a request are dropped without a word when the qdisc is htb.
\<close>

lemma blank_burst_leaves_an_empty_word:
  "tbf_args ((case slow_link of TCParam f _ \<Rightarrow> f)\<lparr>q_delay := [], q_jitter := [], q_distribution := [], q_loss := [],
      q_rate := ''1mbit'', q_burst := '' ''\<rparr>) = Inr [''rate'', ''1mbit'', ''burst'', [], ''latency'', ''50ms'']"
  by code_simp

end
