(* ===== verification/Shaping_Trees.thy ===== *)
theory Shaping_Trees
  imports Traffic_Shaping
begin

text \<open>
  What an accepted htb request builds: one class and one leaf per entry, numbered 1:11, 1:12, ...,
  filters with increasing preferences into these classes, one default class, and rates that fit
  the link. Rates compare as the doubles the code compares.
\<close>

definition is_default :: "tc_class \<Rightarrow> bool" where
  "is_default c = (case c of TCClass k _ \<Rightarrow> cl_default k)"

definition rate_of :: "tc_class \<Rightarrow> f64" where
  "rate_of c = (case c of TCClass k _ \<Rightarrow> (case tc_rate ''rate'' (cl_rate k) of Inr v \<Rightarrow> rate_bits (tv_canon v) | Inl _ \<Rightarrow> Fin 0))"

definition ceil_of :: "tc_value \<Rightarrow> tc_class \<Rightarrow> f64" where
  "ceil_of link c = (case c of TCClass k _ \<Rightarrow>
     (if cl_ceil k = [] then rate_bits (tv_canon link)
      else case tc_rate ''ceil'' (cl_ceil k) of Inr v \<Rightarrow> rate_bits (tv_canon v) | Inl _ \<Rightarrow> Fin 0))"

text \<open>The positions of the default classes, counted from \<open>i\<close>.\<close>

primrec defaults_of :: "nat \<Rightarrow> tc_class list \<Rightarrow> nat list" where
  "defaults_of i [] = []"
| "defaults_of i (c # cs) = (if is_default c then [i] else []) @ defaults_of (Suc i) cs"

lemma defaults_of_filter: "defaults_of 0 cs = filter (\<lambda>k. is_default (cs ! k)) [0 ..< length cs]"
proof -
  have "defaults_of i cs = map ((+) i) (filter (\<lambda>k. is_default (cs ! k)) [0 ..< length cs])" for i
  proof (induction cs arbitrary: i)
    case (Cons c cs)
    have "filter (\<lambda>k. is_default ((c # cs) ! k)) [0 ..< Suc (length cs)] =
        (if is_default c then [0] else []) @ map Suc (filter (\<lambda>k. is_default (cs ! k)) [0 ..< length cs])"
      by (simp add: upt_conv_Cons map_Suc_upt [symmetric] filter_map comp_def del: upt_Suc)
    then show ?case using Cons.IH [of "Suc i"] by simp
  qed simp
  from this [of 0] show ?thesis by (simp add: map_idI)
qed

definition default_after :: "nat list \<Rightarrow> string \<Rightarrow> string \<Rightarrow> bool" where
  "default_after ks d d' \<longleftrightarrow>
     (if d = [] then (case ks of [] \<Rightarrow> d' = [] | [k] \<Rightarrow> d' = class_minor k | _ \<Rightarrow> False) else ks = [] \<and> d' = d)"

text \<open>What \<open>n\<close> entries add to the state.\<close>

definition grows :: "nat \<Rightarrow> tc_class list \<Rightarrow> tc_value \<Rightarrow> htb_state \<Rightarrow> htb_state \<Rightarrow> bool" where
  "grows i cs link st st' \<longleftrightarrow>
     map (\<lambda>r. r ! 8) (ht_classes st') = map (\<lambda>r. r ! 8) (ht_classes st) @ map class_id [i ..< i + length cs] \<and>
     map (\<lambda>r. (r ! 6, r ! 8)) (ht_leaves st') =
       map (\<lambda>r. (r ! 6, r ! 8)) (ht_leaves st) @ map (\<lambda>k. (class_id k, class_minor k @ '':'')) [i ..< i + length cs] \<and>
     ht_sum st' = foldl f64_add (ht_sum st) (map rate_of cs) \<and>
     list_all (\<lambda>c. f64_le (rate_of c) (ceil_of link c) \<and> f64_le (ceil_of link c) (rate_bits (tv_canon link))) cs \<and>
     default_after (defaults_of i cs) (ht_default st) (ht_default st')"

definition filters_ok :: "nat \<Rightarrow> htb_state \<Rightarrow> bool" where
  "filters_ok n st \<longleftrightarrow>
     map (\<lambda>r. r ! 10) (ht_filters st) = map nat_str [1 ..< Suc (ht_prio st)] \<and>
     list_all (\<lambda>r. last r \<in> class_id ` {..< n}) (ht_filters st)"

lemma htb_filters_keeps:
  "htb_filters iface cid ms st = Inr st' \<Longrightarrow>
     ht_default st' = ht_default st \<and> ht_sum st' = ht_sum st \<and> ht_classes st' = ht_classes st \<and> ht_leaves st' = ht_leaves st"
  by (induction ms arbitrary: st) (fastforce simp: bindR_Inr)+

lemma grows_same:
  "grows i cs link st a \<Longrightarrow> ht_default b = ht_default a \<and> ht_sum b = ht_sum a \<and> ht_classes b = ht_classes a \<and>
     ht_leaves b = ht_leaves a \<Longrightarrow> grows i cs link st b"
  unfolding grows_def by (elim conjE, intro conjI; simp only:)

lemma htb_filters_ok:
  "htb_filters iface (class_id i) ms st = Inr st' \<Longrightarrow> i < n \<Longrightarrow> filters_ok n st \<Longrightarrow> filters_ok n st'"
proof (induction ms arbitrary: st)
  case (Cons m ms)
  then obtain p ks where r: "htb_filters iface (class_id i) ms (st\<lparr>ht_prio := Suc (ht_prio st),
         ht_filters := ht_filters st @ [[''tc'', ''filter'', ''add'', ''dev'', iface, ''parent'', ''1:'', ''protocol'', p,
           ''prio'', nat_str (Suc (ht_prio st)), ''flower''] @ ks @ [''flowid'', class_id i]]\<rparr>) = Inr st'"
    by (auto simp: bindR_Inr)
  show ?case by (rule Cons.IH [OF r Cons.prems(2)]) (use Cons.prems(2,3) in \<open>auto simp: filters_ok_def\<close>)
qed simp

lemma filters_ok_mono: "filters_ok m st \<Longrightarrow> m \<le> n \<Longrightarrow> filters_ok n st"
  by (force simp: filters_ok_def list_all_iff)

lemma htb_class_grows:
  assumes "htb_class iface link i c st = Inr st'"
  shows "grows i [c] link st st' \<and> (filters_ok i st \<longrightarrow> filters_ok (Suc i) st')"
proof -
  obtain k sh where c: "c = TCClass k sh" by (cases c)
  from assms obtain rate ceil leaf where
    rate: "tc_rate ''rate'' (cl_rate k) = Inr rate" and
    ceil: "(if cl_ceil k = [] then Inr link else tc_rate ''ceil'' (cl_ceil k)) = Inr ceil" and
    le: "f64_le (rate_bits (tv_canon ceil)) (rate_bits (tv_canon link))" "f64_le (rate_bits (tv_canon rate)) (rate_bits (tv_canon ceil))" and
    d: "\<not> (cl_default k \<and> ht_default st \<noteq> [])" and
    f: "htb_filters iface (class_id i) (cl_match k)
        (st\<lparr>ht_default := (if cl_default k then class_minor i else ht_default st),
            ht_sum := f64_add (ht_sum st) (rate_bits (tv_canon rate)),
            ht_classes := ht_classes st @ [[''tc'', ''class'', ''add'', ''dev'', iface, ''parent'', ''1:1'', ''classid'', class_id i,
                ''htb'', ''rate'', tv_canon rate, ''ceil'', tv_canon ceil] @
                (case cl_prio k of None \<Rightarrow> [] | Some n \<Rightarrow> [''prio'', int_str n])],
            ht_leaves := ht_leaves st @ [[''tc'', ''qdisc'', ''add'', ''dev'', iface, ''parent'', class_id i, ''handle'',
                class_minor i @ '':''] @ leaf]\<rparr>) = Inr st'" (is "htb_filters _ _ _ ?st = _")
    unfolding c htb_class_def tc_class.case Let_def bindR_Inr reject_Inr f64_less_def by blast
  have "rate_of c = rate_bits (tv_canon rate)" "ceil_of link c = rate_bits (tv_canon ceil)"
    using rate ceil by (auto simp: rate_of_def ceil_of_def c split: if_splits)
  moreover have "is_default c = cl_default k" by (simp add: is_default_def c)
  ultimately have "grows i [c] link st ?st" using le d by (auto simp: grows_def default_after_def)
  moreover have "filters_ok (Suc i) ?st" if "filters_ok i st"
    using filters_ok_mono [OF that, of "Suc i"] by (simp add: filters_ok_def)
  ultimately show ?thesis
    using grows_same [OF _ htb_filters_keeps [OF f]] htb_filters_ok [OF f, of "Suc i"] by blast
qed

lemma default_after_trans:
  "default_after ks d d1 \<Longrightarrow> default_after ls d1 d2 \<Longrightarrow> default_after (ks @ ls) d d2"
  by (auto simp: default_after_def class_minor_def split: if_splits list.splits)

lemma grows_Cons:
  assumes "grows i [c] link st st1" and "grows (Suc i) cs link st1 st2"
  shows "grows i (c # cs) link st st2"
proof -
  have u: "[i ..< i + length (c # cs)] = i # [Suc i ..< Suc i + length cs]"
    using upt_conv_Cons [of i "i + length (c # cs)"] by (simp del: upt_Suc)
  have "default_after (defaults_of i (c # cs)) (ht_default st) (ht_default st2)"
    using assms default_after_trans by (fastforce simp: grows_def)
  moreover have "[i ..< i + length [c]] = [i]" by simp
  ultimately show ?thesis using assms unfolding grows_def u by (simp del: upt_Suc defaults_of.simps)
qed

lemma htb_classes_grow:
  "htb_classes_from iface link i cs st = Inr st' \<Longrightarrow> filters_ok i st \<Longrightarrow>
     grows i cs link st st' \<and> filters_ok (i + length cs) st'"
proof (induction cs arbitrary: i st)
  case Nil
  then show ?case by (simp add: grows_def default_after_def)
next
  case (Cons c cs)
  then obtain st1 where "htb_class iface link i c st = Inr st1" "htb_classes_from iface link (Suc i) cs st1 = Inr st'"
    by (auto simp: bindR_Inr)
  with Cons htb_class_grows grows_Cons show ?case by (metis add_Suc add_Suc_right length_Cons)
qed

text \<open>The minor of the class at position \<open>k\<close>, as the commands write it: 11, 12, and so on.\<close>

lemma class_minor_text: "class_minor k = nat_str (11 + k)" and class_id_text: "class_id k = ''1:'' @ nat_str (11 + k)"
  by (simp_all add: class_minor_def class_id_def tc_minor_base_def)

lemma distinct_numbered: "distinct (map (\<lambda>k. a @ nat_str (11 + k) @ b) [0 ..< n])"
  by (auto simp: distinct_map inj_on_def nat_str_inj)

text \<open>
  C23: an accepted htb request has between one and fifty classes, exactly one of them the default;
  each class's rate fits its ceiling and the ceiling the link, and the rates together fit the
  link. Its commands give the class at position k the id 1:(11 + k), so no two classes share an
  id, and one leaf under that id whose handle is its minor, so no two leaves share a handle; the
  root sends unmatched traffic to the default class, and the filters have increasing preferences
  and lead to classes of the tree.
\<close>

theorem htb_tree_consistent:
  assumes "htb_commands iface f cs = Inr rows" and "tc_rate ''rate'' (q_rate f) = Inr link"
  shows "1 \<le> length cs \<and> length cs \<le> 50 \<and>
    list_all (\<lambda>c. f64_le (rate_of c) (ceil_of link c) \<and> f64_le (ceil_of link c) (rate_bits (tv_canon link))) cs \<and>
    f64_le (foldl f64_add (Fin 0) (map rate_of cs)) (rate_bits (tv_canon link)) \<and>
    (\<exists>d root crows lrows frows. filter (\<lambda>k. is_default (cs ! k)) [0 ..< length cs] = [d] \<and>
       rows = root @ crows @ lrows @ frows \<and> length root = 3 \<and> last (root ! 1) = nat_str (11 + d) \<and>
       map (\<lambda>r. r ! 8) crows = map (\<lambda>k. ''1:'' @ nat_str (11 + k)) [0 ..< length cs] \<and> distinct (map (\<lambda>r. r ! 8) crows) \<and>
       map (\<lambda>r. r ! 6) lrows = map (\<lambda>r. r ! 8) crows \<and>
       map (\<lambda>r. r ! 8) lrows = map (\<lambda>k. nat_str (11 + k) @ '':'') [0 ..< length cs] \<and> distinct (map (\<lambda>r. r ! 8) lrows) \<and>
       map (\<lambda>r. r ! 10) frows = map nat_str [1 ..< Suc (length frows)] \<and>
       set (map last frows) \<subseteq> set (map (\<lambda>r. r ! 8) crows))"
proof -
  from assms obtain st where n: "cs \<noteq> []" "length cs \<le> 50" and
    st: "htb_classes_from iface link 0 cs htb_start = Inr st" "ht_default st \<noteq> []"
      "f64_le (ht_sum st) (rate_bits (tv_canon link))" and
    rows: "rows = [tc_reset_command iface,
           [''tc'', ''qdisc'', ''replace'', ''dev'', iface, ''root'', ''handle'', ''1:'', ''htb'', ''default'', ht_default st],
           [''tc'', ''class'', ''add'', ''dev'', iface, ''parent'', ''1:'', ''classid'', ''1:1'', ''htb'', ''rate'', tv_canon link,
            ''ceil'', tv_canon link]] @ ht_classes st @ ht_leaves st @ ht_filters st" (is "_ = ?root @ _")
    by (auto simp: htb_commands_def bindR_Inr tc_max_classes_def f64_less_def)
  have "filters_ok 0 htb_start" by (simp add: filters_ok_def htb_start_def)
  with htb_classes_grow [OF st(1)] have g: "grows 0 cs link htb_start st" and fo: "filters_ok (length cs) st" by simp_all
  have "ht_default htb_start = []" by (simp add: htb_start_def)
  with g st(2) obtain d where d: "defaults_of 0 cs = [d]" "ht_default st = class_minor d"
    by (auto simp: grows_def default_after_def split: list.splits)
  have "map (\<lambda>r. r ! 10) (ht_filters st) = map nat_str [1 ..< Suc (length (ht_filters st))]"
  proof -
    have m: "map (\<lambda>r. r ! 10) (ht_filters st) = map nat_str [1 ..< Suc (ht_prio st)]" using fo by (simp add: filters_ok_def)
    then have "length (ht_filters st) = ht_prio st" by (metis diff_Suc_1 length_map length_upt)
    with m show ?thesis by simp
  qed
  moreover have "1 \<le> length cs" using n(1) by (cases cs) simp_all
  moreover have c: "map (\<lambda>r. r ! 8) (ht_classes st) = map (\<lambda>k. ''1:'' @ nat_str (11 + k)) [0 ..< length cs]"
    and l: "map (\<lambda>r. (r ! 6, r ! 8)) (ht_leaves st) = map (\<lambda>k. (''1:'' @ nat_str (11 + k), nat_str (11 + k) @ '':'')) [0 ..< length cs]"
    using g by (simp_all add: grows_def htb_start_def class_minor_text class_id_text)
  moreover from arg_cong [OF l, of "map fst"] arg_cong [OF l, of "map snd"]
  have "map (\<lambda>r. r ! 6) (ht_leaves st) = map (\<lambda>k. ''1:'' @ nat_str (11 + k)) [0 ..< length cs]"
    "map (\<lambda>r. r ! 8) (ht_leaves st) = map (\<lambda>k. nat_str (11 + k) @ '':'') [0 ..< length cs]"
    by (simp_all add: comp_def)
  moreover have "set (map last (ht_filters st)) \<subseteq> set (map (\<lambda>r. r ! 8) (ht_classes st))"
    unfolding c using fo by (auto simp: filters_ok_def list_all_iff class_id_text)
  moreover have "list_all (\<lambda>c. f64_le (rate_of c) (ceil_of link c) \<and> f64_le (ceil_of link c) (rate_bits (tv_canon link))) cs"
    "f64_le (foldl f64_add (Fin 0) (map rate_of cs)) (rate_bits (tv_canon link))"
    using g st(3) by (simp_all add: grows_def htb_start_def)
  ultimately show ?thesis
    using n(2) d rows distinct_numbered [of "''1:''" "[]" "length cs"] distinct_numbered [of "[]" "'':''" "length cs"]
    by (intro conjI exI [of _ d] exI [of _ ?root] exI [of _ "ht_classes st"] exI [of _ "ht_leaves st"] exI [of _ "ht_filters st"])
      (simp_all add: defaults_of_filter class_minor_text)
qed

definition two_classes :: "tc_class list" where
  "two_classes =
     (let c = \<lparr>cl_name = [], cl_rate = ''6mbit'', cl_ceil = [], cl_prio = Some 1, cl_match = [], cl_default = True, cl_queue = [], cl_limit = None\<rparr>;
          m = \<lparr>mt_proto = ''udp'', mt_src = [], mt_dst = [], mt_src_port = None, mt_dst_port = Some 5060, mt_dscp = None, mt_vlan = None\<rparr> in
      [TCClass c None, TCClass (c\<lparr>cl_rate := ''4mbit'', cl_ceil := ''5mbit'', cl_default := False, cl_match := [m]\<rparr>) None])"

definition htb_fields :: tc_fields where
  "htb_fields = \<lparr>q_qdisc = ''htb'', q_delay = [], q_jitter = [], q_delay_correlation = [], q_distribution = [],
     q_loss = [], q_loss_correlation = [], q_gemodel = None, q_duplicate = [], q_corrupt = [], q_reorder = [],
     q_reorder_correlation = [], q_limit = None, q_rate = ''10mbit'', q_burst = [], q_latency = []\<rparr>"

theorem htb_tree_consistent_witness:
  "f64_le (foldl f64_add (Fin 0) (map rate_of two_classes)) (Fin 10000000) \<and>
   (case htb_commands ''eth1'' htb_fields two_classes of Inl _ \<Rightarrow> False | Inr rows \<Rightarrow> length rows = 8)"
proof -
  let ?link = "\<lparr>tv_set = True, tv_n = Fin 10, tv_canon = ''10mbit''\<rparr>"
  have "case htb_commands ''eth1'' htb_fields two_classes of Inl _ \<Rightarrow> False | Inr rows \<Rightarrow> length rows = 8" by code_simp
  then obtain rows where r: "htb_commands ''eth1'' htb_fields two_classes = Inr rows" "length rows = 8"
    by (auto split: sum.splits)
  have l: "tc_rate ''rate'' (q_rate htb_fields) = Inr ?link" by code_simp
  have "rate_bits (tv_canon ?link) = Fin 10000000" by code_simp
  with htb_tree_consistent [OF r(1) l] r show ?thesis by simp
qed

text \<open>The correlations of an htb request are dropped: it builds what it builds without them.\<close>

lemma htb_drops_correlations:
  "htb_commands iface (f\<lparr>q_delay_correlation := a, q_loss_correlation := b, q_reorder_correlation := c\<rparr>) cs = htb_commands iface f cs"
  by (simp add: htb_commands_def)

end
