(* ===== verification/Login_Limit.thy ===== *)
theory Login_Limit
  imports Go_Prelude
begin

text \<open>
  The limit on login attempts, \<open>auth/loginlimit.go\<close>: after eight failures of a client, each within
  fifteen minutes of the one before, further attempts are refused until fifteen minutes after the
  last. Times are the nanoseconds of a clock that never goes back. The entries of all clients
  share a map that every failure sweeps.
\<close>

definition login_max_attempts :: nat where "login_max_attempts = 8"

definition login_window :: int where "login_window = 15 * 60 * 1000000000"

record login_attempt =
  la_fails :: nat
  la_reset :: int

type_synonym attempts = "string \<Rightarrow> login_attempt option"

definition login_allowed :: "string \<Rightarrow> int \<Rightarrow> attempts \<Rightarrow> bool \<times> int" where
  "login_allowed ip now m =
     (case m ip of
        None \<Rightarrow> (True, 0)
      | Some a \<Rightarrow>
          if la_reset a < now then (True, 0)
          else if login_max_attempts \<le> la_fails a then (False, la_reset a - now)
          else (True, 0))"

definition sweep :: "int \<Rightarrow> attempts \<Rightarrow> attempts" where
  "sweep now m = (\<lambda>k. case m k of None \<Rightarrow> None | Some a \<Rightarrow> if la_reset a < now then None else Some a)"

definition register_login_failure :: "string \<Rightarrow> int \<Rightarrow> attempts \<Rightarrow> attempts" where
  "register_login_failure ip now m =
     (let a = (case m ip of None \<Rightarrow> \<lparr>la_fails = 0, la_reset = 0\<rparr>
               | Some a \<Rightarrow> if la_reset a < now then \<lparr>la_fails = 0, la_reset = 0\<rparr> else a) in
      sweep now (m(ip \<mapsto> \<lparr>la_fails = Suc (la_fails a), la_reset = now + login_window\<rparr>)))"

definition register_login_success :: "string \<Rightarrow> attempts \<Rightarrow> attempts" where
  "register_login_success ip m = m(ip := None)"

text \<open>A login handled at a time: refused, failed or successful.\<close>

datatype login = Login string int bool

fun login_ip :: "login \<Rightarrow> string" where "login_ip (Login ip _ _) = ip"
fun login_time :: "login \<Rightarrow> int" where "login_time (Login _ t _) = t"

fun handle_login :: "login \<Rightarrow> attempts \<Rightarrow> attempts" where
  "handle_login (Login ip now ok) m =
     (if \<not> fst (login_allowed ip now m) then m
      else if ok then register_login_success ip m
      else register_login_failure ip now m)"

text \<open>
  The reference, on the logins of one client alone: the length of the run of failures and the
  time of its last one.
\<close>

fun client_step :: "login \<Rightarrow> nat \<times> int \<Rightarrow> nat \<times> int" where
  "client_step (Login ip now ok) (n, u) =
     (let n' = (if u + login_window < now then 0 else n) in
      if login_max_attempts \<le> n' then (n, u) else if ok then (0, now) else (Suc n', now))"

definition client_run :: "string \<Rightarrow> login list \<Rightarrow> nat \<times> int" where
  "client_run ip ls = fold client_step (filter (\<lambda>l. login_ip l = ip) ls) (0, 0)"

definition agrees :: "string \<Rightarrow> int \<Rightarrow> attempts \<Rightarrow> nat \<times> int \<Rightarrow> bool" where
  "agrees ip now m c \<longleftrightarrow>
     (case m ip of
        Some a \<Rightarrow> a = \<lparr>la_fails = fst c, la_reset = snd c + login_window\<rparr>
      | None \<Rightarrow> fst c = 0 \<or> snd c + login_window < now)"

lemma agrees_later: "agrees ip now m c \<Longrightarrow> now \<le> t \<Longrightarrow> agrees ip t m c"
  by (auto simp: agrees_def split: option.splits)

lemma sweep_agrees: "agrees ip now m c \<Longrightarrow> agrees ip now (sweep now m) c"
  by (auto simp: agrees_def sweep_def split: option.splits)

lemma allowed_agrees:
  "agrees ip now m c \<Longrightarrow> fst (login_allowed ip now m) \<longleftrightarrow> fst c < login_max_attempts \<or> snd c + login_window < now"
  by (auto simp: agrees_def login_allowed_def login_max_attempts_def split: option.splits)

lemma step_agrees:
  assumes "agrees ip t m c" and "login_time l = t"
  shows "agrees ip t (handle_login l m) (if login_ip l = ip then client_step l c else c)"
proof -
  obtain i ok where l: "l = Login i t ok" using assms(2) by (cases l) auto
  show ?thesis
  proof (cases "i = ip")
    case False
    with assms(1) have "agrees ip t (m(i \<mapsto> a)) c" "agrees ip t (m(i := None)) c" for a
      by (simp_all add: agrees_def)
    with False l assms(1) show ?thesis
      by (auto simp: register_login_failure_def register_login_success_def Let_def intro: sweep_agrees)
  next
    case True
    obtain n u where c: "c = (n, u)" by (cases c)
    have w: "0 \<le> login_window" by (simp add: login_window_def)
    show ?thesis
      using assms(1) w unfolding l c True
      by (auto simp: agrees_def login_allowed_def register_login_failure_def register_login_success_def sweep_def Let_def
          login_max_attempts_def split: option.splits)
  qed
qed

lemma run_agrees:
  assumes "sorted (map login_time ls)" and "list_all (\<lambda>l. t0 \<le> login_time l) ls" and "agrees ip t0 m c"
    and "t0 \<le> now" and "list_all (\<lambda>l. login_time l \<le> now) ls"
  shows "agrees ip now (fold handle_login ls m) (fold client_step (filter (\<lambda>l. login_ip l = ip) ls) c)"
  using assms
proof (induction ls arbitrary: t0 m c)
  case Nil
  then show ?case by (auto intro: agrees_later)
next
  case (Cons l ls)
  let ?t = "login_time l"
  have "agrees ip ?t m c" using Cons.prems(2,3) by (auto intro: agrees_later)
  then have s: "agrees ip ?t (handle_login l m) (if login_ip l = ip then client_step l c else c)"
    by (rule step_agrees) simp
  have r: "agrees ip now (fold handle_login ls (handle_login l m))
      (fold client_step (filter (\<lambda>l. login_ip l = ip) ls) (if login_ip l = ip then client_step l c else c))"
    using Cons.IH [OF _ _ s] Cons.prems by (simp add: list_all_iff)
  show ?case using r by (cases "login_ip l = ip") simp_all
qed

text \<open>
  C25: whatever the other clients do and whenever their entries are swept, a login is refused
  exactly when the client's own failures have reached eight in a row, each within the window of
  the one before, and the window after the last has not passed: so a client is never refused for
  another's failures, and every client is admitted again once the window has passed.
\<close>

theorem login_lockout_exact:
  assumes "sorted (map login_time ls)" and "list_all (\<lambda>l. 0 \<le> login_time l \<and> login_time l \<le> now) ls" and "0 \<le> now"
  shows "(fst (login_allowed ip now (fold handle_login ls (\<lambda>_. None))) \<longleftrightarrow>
      fst (client_run ip ls) < login_max_attempts \<or> snd (client_run ip ls) + login_window < now) \<and>
    fst (client_run ip ls) \<le> login_max_attempts \<and>
    (\<exists>t. \<forall>u. t < u \<longrightarrow> fst (login_allowed ip u (fold handle_login ls (\<lambda>_. None))))"
proof -
  let ?m = "fold handle_login ls (\<lambda>_. None)" and ?c = "client_run ip ls"
  have a: "agrees ip now ?m ?c"
    unfolding client_run_def
    by (rule run_agrees [where ?t0.0 = 0]) (use assms in \<open>auto simp: list_all_iff agrees_def\<close>)
  have le: "fst (fold client_step xs (n, t)) \<le> login_max_attempts" if "n \<le> login_max_attempts" for xs n t
    using that
  proof (induction xs arbitrary: n t)
    case (Cons x xs)
    obtain i v ok where x: "x = Login i v ok" by (cases x)
    obtain n' t' where s: "client_step x (n, t) = (n', t')" by fastforce
    then have "n' \<le> login_max_attempts" using Cons.prems x
      by (auto simp: Let_def login_max_attempts_def split: if_splits)
    with Cons.IH s show ?case by simp
  qed simp
  have "fst (login_allowed ip u ?m)" if "max now (snd ?c + login_window) < u" for u
    using allowed_agrees [OF agrees_later [OF a, of u]] that by auto
  then show ?thesis using allowed_agrees [OF a] le [of 0] unfolding client_run_def by blast
qed

definition eight_failures :: "login list" where
  "eight_failures = map (\<lambda>k. Login ''10.0.0.9'' (int k) False) [0 ..< 8]"

theorem login_lockout_exact_witness:
  "\<not> fst (login_allowed ''10.0.0.9'' 10 (fold handle_login eight_failures (\<lambda>_. None))) \<and>
   fst (login_allowed ''10.0.0.7'' 10 (fold handle_login eight_failures (\<lambda>_. None)))"
proof -
  have h: "sorted (map login_time eight_failures)" "list_all (\<lambda>l. 0 \<le> login_time l \<and> login_time l \<le> 10) eight_failures" by code_simp+
  have "client_run ''10.0.0.9'' eight_failures = (8, 7)" "client_run ''10.0.0.7'' eight_failures = (0, 0)" by code_simp+
  then show ?thesis
    using login_lockout_exact [OF h, of "''10.0.0.9''"] login_lockout_exact [OF h, of "''10.0.0.7''"]
    by (simp add: login_max_attempts_def login_window_def)
qed

end
