(* ===== verification/VyOS_Commands.thy ===== *)
theory VyOS_Commands
  imports Base_Commands
begin

text \<open>
  \<open>drivers/drivers/router_vyos.go\<close>: the configure lines a VyOS guest gets for an action, one
  definition per method of the driver, and the methods by the name the catalog calls.
  The theorems: every line converts into one operation of the guest's API, so the actions of a
  batch are one commit; an undo deletes everything the action it undoes has set; and the rule
  numbers of port forwards, which the code derives from a sum, are shared by different forwards.
\<close>

section \<open>Runes\<close>

text \<open>\<open>range\<close> over a string: the code points of UTF-8, U+FFFD for a byte that starts none.\<close>

definition rune_shape :: "nat \<Rightarrow> nat \<times> nat \<times> nat" where
  "rune_shape b =
     (if 194 \<le> b \<and> b \<le> 223 then (2, 128, 191)
      else if b = 224 then (3, 160, 191)
      else if b = 237 then (3, 128, 159)
      else if 225 \<le> b \<and> b \<le> 239 then (3, 128, 191)
      else if b = 240 then (4, 144, 191)
      else if b = 244 then (4, 128, 143)
      else if 241 \<le> b \<and> b \<le> 243 then (4, 128, 191)
      else (0, 0, 0))"

fun rune_at :: "nat list \<Rightarrow> nat \<times> nat" where
  "rune_at [] = (65533, 1)"
| "rune_at (b # r) =
     (if b < 128 then (b, 1)
      else case rune_shape b of (n, lo, hi) \<Rightarrow>
        if n = 0 \<or> length r < n - 1 \<or> r ! 0 < lo \<or> r ! 0 > hi \<or>
           \<not> list_all (\<lambda>x. 128 \<le> x \<and> x \<le> 191) (take (n - 2) (drop 1 r)) then (65533, 1)
        else (fold (\<lambda>x acc. acc * 64 + x mod 64) (take (n - 1) r) (b mod 2 ^ (7 - n)), n))"

function runes :: "nat list \<Rightarrow> nat list" where
  "runes [] = []"
| "runes (b # r) = (case rune_at (b # r) of (c, n) \<Rightarrow> c # runes (drop (n - 1) r))"
  by pat_completeness auto
termination by (relation "measure length") auto

section \<open>The configure lines\<close>

definition vyos_iface_path :: "string \<Rightarrow> string" where
  "vyos_iface_path iface =
     (if CHR ''.'' \<in> set iface then
        ''ethernet '' @ fst (cut_at CHR ''.'' iface) @ '' vif '' @ snd (cut_at CHR ''.'' iface)
      else ''ethernet '' @ iface)"

definition vyos_nat_rule_num :: "string \<Rightarrow> int \<Rightarrow> string" where
  "vyos_nat_rule_num key base =
     (let s = int (sum_list (runes (map of_char key))) in int_str (base + (s mod 90) * 10))"

subsection \<open>Links\<close>

definition vyos_link_down :: "string \<Rightarrow> string list list" where
  "vyos_link_down iface =
     [[''set interfaces '' @ vyos_iface_path iface @ '' disable'']]"

definition vyos_link_up :: "string \<Rightarrow> string list list" where
  "vyos_link_up iface =
     [[''delete interfaces '' @ vyos_iface_path iface @ '' disable'']]"

subsection \<open>Subinterfaces\<close>

definition vyos_add_vlan_subinterface :: "string \<Rightarrow> int \<Rightarrow> string \<Rightarrow> string list list" where
  "vyos_add_vlan_subinterface parent vlan cidr =
     (let path = ''interfaces ethernet '' @ parent @ '' vif '' @ int_str vlan in
      let cmds = [[''set '' @ path]] in
      let cmds = (if cidr \<noteq> [] then cmds @ [[''set '' @ path @ '' address '' @ cidr]] else
        cmds) in
      cmds)"

definition vyos_remove_vlan_subinterface :: "string \<Rightarrow> int \<Rightarrow> string list list" where
  "vyos_remove_vlan_subinterface parent vlan =
     [[''delete interfaces ethernet '' @ parent @ '' vif '' @ int_str vlan]]"

subsection \<open>Addresses and routes\<close>

definition vyos_set_ip :: "string \<Rightarrow> string \<Rightarrow> string list list" where
  "vyos_set_ip iface cidr =
     [[''set interfaces '' @ vyos_iface_path iface @ '' address '' @ cidr]]"

definition vyos_replace_ip :: "string \<Rightarrow> string \<Rightarrow> string list list" where
  "vyos_replace_ip iface cidr =
     [[''delete interfaces '' @ vyos_iface_path iface @ '' address''], [''set interfaces '' @
       vyos_iface_path iface @ '' address '' @ cidr]]"

definition vyos_remove_ip :: "string \<Rightarrow> string \<Rightarrow> string list list" where
  "vyos_remove_ip iface cidr =
     [[''delete interfaces '' @ vyos_iface_path iface @ '' address '' @ cidr]]"

definition vyos_set_default_route :: "string \<Rightarrow> string list list" where
  "vyos_set_default_route gateway =
     (if is_ipv6 gateway then [[''set protocols static route6 ::/0 next-hop '' @ gateway]] else
        [[''set protocols static route 0.0.0.0/0 next-hop '' @ gateway]])"

definition vyos_remove_default_route :: "string list list" where
  "vyos_remove_default_route =
     [[''delete protocols static route 0.0.0.0/0'']]"

definition vyos_remove_default_route6 :: "string list list" where
  "vyos_remove_default_route6 =
     [[''delete protocols static route6 ::/0'']]"

definition vyos_static_route :: "string \<Rightarrow> string" where
  "vyos_static_route dst_cidr =
     (if is_ipv6 dst_cidr then ''protocols static route6 '' else ''protocols static route '')"

definition vyos_add_static_route :: "string \<Rightarrow> string \<Rightarrow> string \<Rightarrow> string list list" where
  "vyos_add_static_route dst_cidr via dev =
     [[''set '' @ vyos_static_route dst_cidr @ dst_cidr @ '' next-hop '' @ via]]"

definition vyos_remove_static_route :: "string \<Rightarrow> string \<Rightarrow> string \<Rightarrow> string list list" where
  "vyos_remove_static_route dst_cidr via dev =
     [[''delete '' @ vyos_static_route dst_cidr @ dst_cidr @ '' next-hop '' @ via]]"

definition vyos_add_dns_nameserver :: "string \<Rightarrow> string list list" where
  "vyos_add_dns_nameserver server =
     [[''set system name-server '' @ server]]"

definition vyos_remove_dns_nameserver :: "string \<Rightarrow> string list list" where
  "vyos_remove_dns_nameserver server =
     [[''delete system name-server '' @ server]]"

definition vyos_add_dns_search :: "string \<Rightarrow> string list list" where
  "vyos_add_dns_search domain =
     [[''set system domain-search '' @ domain]]"

definition vyos_remove_dns_search :: "string \<Rightarrow> string list list" where
  "vyos_remove_dns_search domain =
     [[''delete system domain-search '' @ domain]]"

definition vyos_set_dns :: "string list \<Rightarrow> string list \<Rightarrow> string list list" where
  "vyos_set_dns servers search =
     (let cmds = [[''delete system name-server''], [''delete system domain-search'']] in
      let cmds = cmds @ concat (map (\<lambda>s. [[''set system name-server '' @ s]]) servers) in
      let cmds = cmds @ concat (map (\<lambda>d. [[''set system domain-search '' @ d]]) search)
        in
      cmds)"

definition vyos_clear_dns :: "string list list" where
  "vyos_clear_dns =
     [[''delete system name-server''], [''delete system domain-search'']]"

subsection \<open>NAT\<close>

definition vyos_nat :: "bool \<Rightarrow> string" where
  "vyos_nat v6 =
     (if v6 then ''nat66'' else ''nat'')"

definition vyos_enable_snat :: "string \<Rightarrow> bool \<Rightarrow> string list list" where
  "vyos_enable_snat iface v6 =
     (let rule = vyos_nat_rule_num iface 100 in
      let p = ''set '' @ vyos_nat v6 @ '' source rule '' @ rule @ '' '' in
      let match = ''source address 0.0.0.0/0'' in
      let match = (if v6 then ''source prefix ::/0'' else match) in
      [[p @ ''outbound-interface name '' @ iface], [p @ match], [p @
        ''translation address masquerade'']])"

definition vyos_disable_snat :: "string \<Rightarrow> bool \<Rightarrow> string list list" where
  "vyos_disable_snat iface v6 =
     [[''delete '' @ vyos_nat v6 @ '' source rule '' @ vyos_nat_rule_num iface 100]]"

definition vyos_enable_dnat :: "string \<Rightarrow> int \<Rightarrow> string \<Rightarrow> int \<Rightarrow> string \<Rightarrow> bool \<Rightarrow> string list list" where
  "vyos_enable_dnat iface external_port internal_ip internal_port protocol v6 =
     (let rule = vyos_nat_rule_num (iface @ int_str external_port @ protocol) 200 in
      let p = ''set '' @ vyos_nat v6 @ '' destination rule '' @ rule @ '' '' in
      [[p @ ''inbound-interface name '' @ iface], [p @ ''protocol '' @ protocol], [p @
        ''destination port '' @ int_str external_port], [p @ ''translation address '' @
        internal_ip], [p @ ''translation port '' @ int_str internal_port]])"

definition vyos_disable_dnat :: "string \<Rightarrow> int \<Rightarrow> string \<Rightarrow> int \<Rightarrow> string \<Rightarrow> bool \<Rightarrow> string list list" where
  "vyos_disable_dnat iface external_port internal_ip internal_port protocol v6 =
     [[''delete '' @ vyos_nat v6 @ '' destination rule '' @ vyos_nat_rule_num (iface @ int_str
       external_port @ protocol) 200]]"

subsection \<open>NAT64\<close>

definition vyos_nat64_enable :: "string \<Rightarrow> string \<Rightarrow> string list list" where
  "vyos_nat64_enable prefix pool =
     [[''set nat64 source rule 1 source prefix '' @ prefix],
       [''set nat64 source rule 1 translation pool 1 address '' @ pool],
       [''set nat64 source rule 1 translation pool 1 port 1024-32767'']]"

definition vyos_nat64_disable :: "string list list" where
  "vyos_nat64_disable =
     [[''delete nat64'']]"

subsection \<open>OSPFv3\<close>

definition vyos_ospf6_set_router_id :: "string \<Rightarrow> string list list" where
  "vyos_ospf6_set_router_id router_id =
     [[''set protocols ospfv3 parameters router-id '' @ router_id]]"

definition vyos_ospf6_remove_router_id :: "string list list" where
  "vyos_ospf6_remove_router_id =
     [[''delete protocols ospfv3 parameters router-id'']]"

definition vyos_ospf6_add_interface :: "string \<Rightarrow> string \<Rightarrow> string list list" where
  "vyos_ospf6_add_interface iface area =
     [[''set protocols ospfv3 interface '' @ iface @ '' area '' @ area]]"

definition vyos_ospf6_remove_interface :: "string \<Rightarrow> string \<Rightarrow> string list list" where
  "vyos_ospf6_remove_interface iface area =
     [[''delete protocols ospfv3 interface '' @ iface @ '' area'']]"

definition vyos_ospf6_passive_interface :: "string \<Rightarrow> string list list" where
  "vyos_ospf6_passive_interface iface =
     [[''set protocols ospfv3 interface '' @ iface @ '' passive'']]"

definition vyos_ospf6_remove_passive_interface :: "string \<Rightarrow> string list list" where
  "vyos_ospf6_remove_passive_interface iface =
     [[''delete protocols ospfv3 interface '' @ iface @ '' passive'']]"

definition vyos_ospf6_redistribute :: "string \<Rightarrow> string list list" where
  "vyos_ospf6_redistribute source =
     [[''set protocols ospfv3 redistribute '' @ source]]"

definition vyos_ospf6_remove_redistribute :: "string \<Rightarrow> string list list" where
  "vyos_ospf6_remove_redistribute source =
     [[''delete protocols ospfv3 redistribute '' @ source]]"

definition vyos_ospf6_originate_default :: "string list list" where
  "vyos_ospf6_originate_default =
     [[''set protocols ospfv3 default-information originate always'']]"

definition vyos_ospf6_remove_originate_default :: "string list list" where
  "vyos_ospf6_remove_originate_default =
     [[''delete protocols ospfv3 default-information originate'']]"

subsection \<open>RIP\<close>

definition vyos_rip :: "bool \<Rightarrow> string" where
  "vyos_rip v6 =
     (if v6 then ''protocols ripng '' else ''protocols rip '')"

definition vyos_rip_source :: "string \<Rightarrow> bool \<Rightarrow> string" where
  "vyos_rip_source source v6 =
     (if (source = ''ospf'' \<and> v6) then ''ospfv3'' else source)"

definition vyos_rip_add_network :: "string \<Rightarrow> bool \<Rightarrow> string list list" where
  "vyos_rip_add_network network v6 =
     [[''set '' @ vyos_rip v6 @ ''network '' @ network]]"

definition vyos_rip_remove_network :: "string \<Rightarrow> bool \<Rightarrow> string list list" where
  "vyos_rip_remove_network network v6 =
     [[''delete '' @ vyos_rip v6 @ ''network '' @ network]]"

definition vyos_rip_passive_interface :: "string \<Rightarrow> bool \<Rightarrow> string list list" where
  "vyos_rip_passive_interface iface v6 =
     [[''set '' @ vyos_rip v6 @ ''passive-interface '' @ iface]]"

definition vyos_rip_remove_passive_interface :: "string \<Rightarrow> bool \<Rightarrow> string list list" where
  "vyos_rip_remove_passive_interface iface v6 =
     [[''delete '' @ vyos_rip v6 @ ''passive-interface '' @ iface]]"

definition vyos_rip_redistribute :: "string \<Rightarrow> bool \<Rightarrow> string list list" where
  "vyos_rip_redistribute source v6 =
     [[''set '' @ vyos_rip v6 @ ''redistribute '' @ vyos_rip_source source v6]]"

definition vyos_rip_remove_redistribute :: "string \<Rightarrow> bool \<Rightarrow> string list list" where
  "vyos_rip_remove_redistribute source v6 =
     [[''delete '' @ vyos_rip v6 @ ''redistribute '' @ vyos_rip_source source v6]]"

definition vyos_rip_set_timers :: "int \<Rightarrow> int \<Rightarrow> int \<Rightarrow> bool \<Rightarrow> string list list" where
  "vyos_rip_set_timers update timeout garbage v6 =
     (let p = vyos_rip v6 in
      [[''set '' @ p @ ''timers update '' @ int_str update], [''set '' @ p @ ''timers timeout ''
        @ int_str timeout], [''set '' @ p @ ''timers garbage-collection '' @ int_str garbage]])"

definition vyos_rip_remove_timers :: "bool \<Rightarrow> string list list" where
  "vyos_rip_remove_timers v6 =
     [[''delete '' @ vyos_rip v6 @ ''timers'']]"

subsection \<open>BGP\<close>

definition vyos_bgp_family :: "bool \<Rightarrow> string" where
  "vyos_bgp_family v6 =
     (if v6 then ''protocols bgp address-family ipv6-unicast '' else
        ''protocols bgp address-family ipv4-unicast '')"

definition vyos_bgp_source :: "string \<Rightarrow> bool \<Rightarrow> string" where
  "vyos_bgp_source source v6 =
     (if v6 then if source = ''ospf'' then ''ospfv3'' else if source = ''rip'' then ''ripng''
        else source else source)"

definition vyos_bgp_set_router :: "int \<Rightarrow> string \<Rightarrow> string list list" where
  "vyos_bgp_set_router asn router_id =
     (let cmds = [[''set protocols bgp system-as '' @ int_str asn]] in
      let cmds = (if router_id \<noteq> [] then cmds @
        [[''set protocols bgp parameters router-id '' @ router_id]] else cmds) in
      cmds)"

definition vyos_bgp_remove_router :: "string list list" where
  "vyos_bgp_remove_router =
     [[''delete protocols bgp'']]"

definition vyos_bgp_add_neighbor :: "string \<Rightarrow> int \<Rightarrow> string \<Rightarrow> int \<Rightarrow> bool \<Rightarrow> string list list" where
  "vyos_bgp_add_neighbor neighbor remote_as update_source multihop v6 =
     (let n = ''set protocols bgp neighbor '' @ neighbor @ '' '' in
      let cmds = [[n @ ''remote-as '' @ int_str remote_as]] in
      let cmds = (if update_source \<noteq> [] then cmds @ [[n @ ''update-source '' @
        update_source]] else cmds) in
      let cmds = (if multihop > 0 then cmds @ [[n @ ''ebgp-multihop '' @ int_str multihop]] else
        cmds) in
      let af = ''address-family ipv4-unicast'' in
      let af = (if v6 then ''address-family ipv6-unicast'' else af) in
      cmds @ [[n @ af]])"

definition vyos_bgp_remove_neighbor :: "string \<Rightarrow> string list list" where
  "vyos_bgp_remove_neighbor neighbor =
     [[''delete protocols bgp neighbor '' @ neighbor]]"

definition vyos_bgp_add_network :: "string \<Rightarrow> bool \<Rightarrow> string list list" where
  "vyos_bgp_add_network network v6 =
     [[''set '' @ vyos_bgp_family v6 @ ''network '' @ network]]"

definition vyos_bgp_remove_network :: "string \<Rightarrow> bool \<Rightarrow> string list list" where
  "vyos_bgp_remove_network network v6 =
     [[''delete '' @ vyos_bgp_family v6 @ ''network '' @ network]]"

definition vyos_bgp_redistribute :: "string \<Rightarrow> bool \<Rightarrow> string list list" where
  "vyos_bgp_redistribute source v6 =
     [[''set '' @ vyos_bgp_family v6 @ ''redistribute '' @ vyos_bgp_source source v6]]"

definition vyos_bgp_remove_redistribute :: "string \<Rightarrow> bool \<Rightarrow> string list list" where
  "vyos_bgp_remove_redistribute source v6 =
     [[''delete '' @ vyos_bgp_family v6 @ ''redistribute '' @ vyos_bgp_source source v6]]"

subsection \<open>IS-IS\<close>

definition vyos_isis_circuit_type :: "string \<Rightarrow> string" where
  "vyos_isis_circuit_type level =
     (if level = ''level-2'' then ''level-2-only'' else level)"

definition vyos_isis_family :: "bool \<Rightarrow> string" where
  "vyos_isis_family v6 =
     (if v6 then ''ipv6'' else ''ipv4'')"

definition vyos_isis_set_router :: "string \<Rightarrow> string \<Rightarrow> string list list" where
  "vyos_isis_set_router net level =
     (let cmds = [[''set protocols isis net '' @ net], [''set protocols isis lsp-mtu '' @ int_str
        isis_lsp_mtu]] in
      let cmds = (if level \<noteq> [] then cmds @ [[''set protocols isis level '' @ level]] else
        cmds) in
      cmds)"

definition vyos_isis_remove_router :: "string list list" where
  "vyos_isis_remove_router =
     [[''delete protocols isis'']]"

definition vyos_isis_add_interface :: "string \<Rightarrow> string \<Rightarrow> bool \<Rightarrow> bool \<Rightarrow> string list list" where
  "vyos_isis_add_interface iface level v4 v6 =
     (let cmds = [[''set protocols isis interface '' @ iface]] in
      let cmds = (if level \<noteq> [] then cmds @ [[''set protocols isis interface '' @ iface @
        '' circuit-type '' @ vyos_isis_circuit_type level]] else cmds) in
      cmds)"

definition vyos_isis_remove_interface :: "string \<Rightarrow> string list list" where
  "vyos_isis_remove_interface iface =
     [[''delete protocols isis interface '' @ iface]]"

definition vyos_isis_passive_interface :: "string \<Rightarrow> string list list" where
  "vyos_isis_passive_interface iface =
     [[''set protocols isis interface '' @ iface @ '' passive'']]"

definition vyos_isis_remove_passive_interface :: "string \<Rightarrow> string list list" where
  "vyos_isis_remove_passive_interface iface =
     [[''delete protocols isis interface '' @ iface @ '' passive'']]"

definition vyos_isis_set_metric :: "string \<Rightarrow> int \<Rightarrow> string list list" where
  "vyos_isis_set_metric iface metric =
     [[''set protocols isis interface '' @ iface @ '' metric '' @ int_str metric]]"

definition vyos_isis_remove_metric :: "string \<Rightarrow> string list list" where
  "vyos_isis_remove_metric iface =
     [[''delete protocols isis interface '' @ iface @ '' metric'']]"

definition vyos_isis_set_network_type :: "string \<Rightarrow> string \<Rightarrow> string list list" where
  "vyos_isis_set_network_type iface network_type =
     [[''set protocols isis interface '' @ iface @ '' network '' @ network_type]]"

definition vyos_isis_remove_network_type :: "string \<Rightarrow> string list list" where
  "vyos_isis_remove_network_type iface =
     [[''delete protocols isis interface '' @ iface @ '' network'']]"

definition vyos_isis_redistribute :: "string \<Rightarrow> string \<Rightarrow> bool \<Rightarrow> string list list" where
  "vyos_isis_redistribute source level v6 =
     [[''set protocols isis redistribute '' @ vyos_isis_family v6 @ '' '' @ vyos_bgp_source
       source v6 @ '' '' @ level]]"

definition vyos_isis_remove_redistribute :: "string \<Rightarrow> string \<Rightarrow> bool \<Rightarrow> string list list" where
  "vyos_isis_remove_redistribute source level v6 =
     [[''delete protocols isis redistribute '' @ vyos_isis_family v6 @ '' '' @ vyos_bgp_source
       source v6]]"

subsection \<open>OSPF\<close>

definition vyos_ospf_add_network :: "string \<Rightarrow> string \<Rightarrow> string list list" where
  "vyos_ospf_add_network network area =
     [[''set protocols ospf area '' @ area @ '' network '' @ network]]"

definition vyos_ospf_remove_network :: "string \<Rightarrow> string \<Rightarrow> string list list" where
  "vyos_ospf_remove_network network area =
     [[''delete protocols ospf area '' @ area @ '' network '' @ network]]"

definition vyos_ospf_set_router_id :: "string \<Rightarrow> string list list" where
  "vyos_ospf_set_router_id router_id =
     [[''set protocols ospf parameters router-id '' @ router_id]]"

definition vyos_ospf_remove_router_id :: "string list list" where
  "vyos_ospf_remove_router_id =
     [[''delete protocols ospf parameters router-id'']]"

definition vyos_ospf_passive_default :: "string list list" where
  "vyos_ospf_passive_default =
     [[''set protocols ospf passive-interface default'']]"

definition vyos_ospf_remove_passive_default :: "string list list" where
  "vyos_ospf_remove_passive_default =
     [[''delete protocols ospf passive-interface default'']]"

definition vyos_ospf_no_passive :: "string \<Rightarrow> string list list" where
  "vyos_ospf_no_passive iface =
     [[''set protocols ospf interface '' @ iface @ '' passive disable'']]"

definition vyos_ospf_remove_no_passive :: "string \<Rightarrow> string list list" where
  "vyos_ospf_remove_no_passive iface =
     [[''delete protocols ospf interface '' @ iface @ '' passive disable'']]"

definition vyos_ospf_originate_default :: "string list list" where
  "vyos_ospf_originate_default =
     [[''set protocols ospf default-information originate always'']]"

definition vyos_ospf_remove_originate_default :: "string list list" where
  "vyos_ospf_remove_originate_default =
     [[''delete protocols ospf default-information originate'']]"

definition vyos_ospf_mtu_ignore :: "string \<Rightarrow> string list list" where
  "vyos_ospf_mtu_ignore iface =
     [[''set protocols ospf interface '' @ iface @ '' mtu-ignore'']]"

definition vyos_ospf_remove_mtu_ignore :: "string \<Rightarrow> string list list" where
  "vyos_ospf_remove_mtu_ignore iface =
     [[''delete protocols ospf interface '' @ iface @ '' mtu-ignore'']]"

definition vyos_ospf_redistribute :: "string \<Rightarrow> string list list" where
  "vyos_ospf_redistribute source =
     [[''set protocols ospf redistribute '' @ source]]"

definition vyos_ospf_remove_redistribute :: "string \<Rightarrow> string list list" where
  "vyos_ospf_remove_redistribute source =
     [[''delete protocols ospf redistribute '' @ source]]"

definition vyos_ospf_set_cost :: "string \<Rightarrow> int \<Rightarrow> string list list" where
  "vyos_ospf_set_cost iface cost =
     [[''set protocols ospf interface '' @ iface @ '' cost '' @ int_str cost]]"

definition vyos_ospf_remove_cost :: "string \<Rightarrow> string list list" where
  "vyos_ospf_remove_cost iface =
     [[''delete protocols ospf interface '' @ iface @ '' cost'']]"

definition vyos_ospf_set_priority :: "string \<Rightarrow> int \<Rightarrow> string list list" where
  "vyos_ospf_set_priority iface priority =
     [[''set protocols ospf interface '' @ iface @ '' priority '' @ int_str priority]]"

definition vyos_ospf_remove_priority :: "string \<Rightarrow> string list list" where
  "vyos_ospf_remove_priority iface =
     [[''delete protocols ospf interface '' @ iface @ '' priority'']]"

definition vyos_ospf_set_timers :: "string \<Rightarrow> int \<Rightarrow> int \<Rightarrow> string list list" where
  "vyos_ospf_set_timers iface hello dead =
     [[''set protocols ospf interface '' @ iface @ '' hello-interval '' @ int_str hello],
       [''set protocols ospf interface '' @ iface @ '' dead-interval '' @ int_str dead]]"

definition vyos_ospf_remove_timers :: "string \<Rightarrow> string list list" where
  "vyos_ospf_remove_timers iface =
     [[''delete protocols ospf interface '' @ iface @ '' hello-interval''],
       [''delete protocols ospf interface '' @ iface @ '' dead-interval'']]"

definition vyos_ospf_set_network_type :: "string \<Rightarrow> string \<Rightarrow> string list list" where
  "vyos_ospf_set_network_type iface network_type =
     [[''set protocols ospf interface '' @ iface @ '' network '' @ network_type]]"

definition vyos_ospf_remove_network_type :: "string \<Rightarrow> string list list" where
  "vyos_ospf_remove_network_type iface =
     [[''delete protocols ospf interface '' @ iface @ '' network'']]"

definition vyos_area_type :: "string \<Rightarrow> string" where
  "vyos_area_type area_type =
     (if area_type = ''totally-stub'' then ''stub no-summary'' else if area_type =
        ''totally-nssa'' then ''nssa no-summary'' else area_type)"

definition vyos_ospf_set_area_type :: "string \<Rightarrow> string \<Rightarrow> string list list" where
  "vyos_ospf_set_area_type area area_type =
     [[''set protocols ospf area '' @ area @ '' area-type '' @ vyos_area_type area_type]]"

definition vyos_ospf_remove_area_type :: "string \<Rightarrow> string \<Rightarrow> string list list" where
  "vyos_ospf_remove_area_type area area_type =
     [[''delete protocols ospf area '' @ area @ '' area-type'']]"

definition vyos_ospf_add_area_range :: "string \<Rightarrow> string \<Rightarrow> string list list" where
  "vyos_ospf_add_area_range area cidr =
     [[''set protocols ospf area '' @ area @ '' range '' @ cidr]]"

definition vyos_ospf_remove_area_range :: "string \<Rightarrow> string \<Rightarrow> string list list" where
  "vyos_ospf_remove_area_range area cidr =
     [[''delete protocols ospf area '' @ area @ '' range '' @ cidr]]"

definition vyos_ospf_set_authentication :: "string \<Rightarrow> string \<Rightarrow> string \<Rightarrow> int \<Rightarrow> string list list" where
  "vyos_ospf_set_authentication iface auth_type key key_id =
     (if auth_type = ''md5'' then [[''set protocols ospf interface '' @ iface @
        '' authentication md5 key-id '' @ int_str key_id @ '' md5-key '' @ key]] else
        [[''set protocols ospf interface '' @ iface @ '' authentication plaintext-password '' @
        key]])"

definition vyos_ospf_remove_authentication :: "string \<Rightarrow> string \<Rightarrow> int \<Rightarrow> string list list" where
  "vyos_ospf_remove_authentication iface auth_type key_id =
     [[''delete protocols ospf interface '' @ iface @ '' authentication'']]"

subsection \<open>The guest\<close>

definition vyos_guest_mtu_commands :: "string \<Rightarrow> int \<Rightarrow> string list list" where
  "vyos_guest_mtu_commands iface mtu =
     [[''set interfaces '' @ vyos_iface_path iface @ '' mtu '' @ int_str mtu]]"

definition vyos_vtysh_argv :: "string \<Rightarrow> string list" where
  "vyos_vtysh_argv command =
     [''ssh_qemu'', ''sudo'', ''vtysh'', ''-c'', [apostrophe] @ command @ [apostrophe]]"

section \<open>Methods by name\<close>

definition vyos_link_methods :: "(string \<times> (arg list \<Rightarrow> build)) list" where
  "vyos_link_methods =
     [(''LinkDown'', on_s vyos_link_down),
      (''LinkUp'', on_s vyos_link_up)]"

definition vyos_subinterface_methods :: "(string \<times> (arg list \<Rightarrow> build)) list" where
  "vyos_subinterface_methods =
     [(''AddVLANSubinterface'', \<lambda>as. case as of [AStr x, AInt y, AStr z] \<Rightarrow> Rows (vyos_add_vlan_subinterface x y z) | _ \<Rightarrow> NoMethod),
      (''RemoveVLANSubinterface'', on_si vyos_remove_vlan_subinterface)]"

definition vyos_l3_methods :: "(string \<times> (arg list \<Rightarrow> build)) list" where
  "vyos_l3_methods =
     [(''SetIP'', on_ss vyos_set_ip),
      (''ReplaceIP'', on_ss vyos_replace_ip),
      (''RemoveIP'', on_ss vyos_remove_ip),
      (''SetDefaultRoute'', on_s vyos_set_default_route),
      (''RemoveDefaultRoute'', on_args0 vyos_remove_default_route),
      (''RemoveDefaultRoute6'', on_args0 vyos_remove_default_route6),
      (''AddStaticRoute'', on_sss vyos_add_static_route),
      (''RemoveStaticRoute'', on_sss vyos_remove_static_route),
      (''AddDNSNameserver'', on_s vyos_add_dns_nameserver),
      (''RemoveDNSNameserver'', on_s vyos_remove_dns_nameserver),
      (''AddDNSSearch'', on_s vyos_add_dns_search),
      (''RemoveDNSSearch'', on_s vyos_remove_dns_search),
      (''SetDNS'', \<lambda>as. case as of [AStrs x, AStrs y] \<Rightarrow> Rows (vyos_set_dns x y) | _ \<Rightarrow> NoMethod),
      (''ClearDNS'', on_args0 vyos_clear_dns)]"

definition vyos_nat_methods :: "(string \<times> (arg list \<Rightarrow> build)) list" where
  "vyos_nat_methods =
     [(''EnableSNAT'', on_sb vyos_enable_snat),
      (''DisableSNAT'', on_sb vyos_disable_snat),
      (''EnableDNAT'', on_dnat vyos_enable_dnat),
      (''DisableDNAT'', on_dnat vyos_disable_dnat)]"

definition vyos_nat64_methods :: "(string \<times> (arg list \<Rightarrow> build)) list" where
  "vyos_nat64_methods =
     [(''NAT64Enable'', on_ss vyos_nat64_enable),
      (''NAT64Disable'', on_args0 vyos_nat64_disable)]"

definition vyos_ospf6_methods :: "(string \<times> (arg list \<Rightarrow> build)) list" where
  "vyos_ospf6_methods =
     [(''OSPF6SetRouterID'', on_s vyos_ospf6_set_router_id),
      (''OSPF6RemoveRouterID'', on_args0 vyos_ospf6_remove_router_id),
      (''OSPF6AddInterface'', on_ss vyos_ospf6_add_interface),
      (''OSPF6RemoveInterface'', on_ss vyos_ospf6_remove_interface),
      (''OSPF6PassiveInterface'', on_s vyos_ospf6_passive_interface),
      (''OSPF6RemovePassiveInterface'', on_s vyos_ospf6_remove_passive_interface),
      (''OSPF6Redistribute'', on_s vyos_ospf6_redistribute),
      (''OSPF6RemoveRedistribute'', on_s vyos_ospf6_remove_redistribute),
      (''OSPF6OriginateDefault'', on_args0 vyos_ospf6_originate_default),
      (''OSPF6RemoveOriginateDefault'', on_args0 vyos_ospf6_remove_originate_default)]"

definition vyos_rip_methods :: "(string \<times> (arg list \<Rightarrow> build)) list" where
  "vyos_rip_methods =
     [(''RIPAddNetwork'', on_sb vyos_rip_add_network),
      (''RIPRemoveNetwork'', on_sb vyos_rip_remove_network),
      (''RIPPassiveInterface'', on_sb vyos_rip_passive_interface),
      (''RIPRemovePassiveInterface'', on_sb vyos_rip_remove_passive_interface),
      (''RIPRedistribute'', on_sb vyos_rip_redistribute),
      (''RIPRemoveRedistribute'', on_sb vyos_rip_remove_redistribute),
      (''RIPSetTimers'', \<lambda>as. case as of [AInt x, AInt y, AInt z, ABool u] \<Rightarrow> Rows (vyos_rip_set_timers x y z u) | _ \<Rightarrow> NoMethod),
      (''RIPRemoveTimers'', \<lambda>as. case as of [ABool x] \<Rightarrow> Rows (vyos_rip_remove_timers x) | _ \<Rightarrow> NoMethod)]"

definition vyos_bgp_methods :: "(string \<times> (arg list \<Rightarrow> build)) list" where
  "vyos_bgp_methods =
     [(''BGPSetRouter'', \<lambda>as. case as of [AInt x, AStr y] \<Rightarrow> Rows (vyos_bgp_set_router x y) | _ \<Rightarrow> NoMethod),
      (''BGPRemoveRouter'', on_args0 vyos_bgp_remove_router),
      (''BGPAddNeighbor'', \<lambda>as. case as of [AStr x, AInt y, AStr z, AInt u, ABool w] \<Rightarrow> Rows (vyos_bgp_add_neighbor x y z u w) | _ \<Rightarrow> NoMethod),
      (''BGPRemoveNeighbor'', on_s vyos_bgp_remove_neighbor),
      (''BGPAddNetwork'', on_sb vyos_bgp_add_network),
      (''BGPRemoveNetwork'', on_sb vyos_bgp_remove_network),
      (''BGPRedistribute'', on_sb vyos_bgp_redistribute),
      (''BGPRemoveRedistribute'', on_sb vyos_bgp_remove_redistribute)]"

definition vyos_isis_methods :: "(string \<times> (arg list \<Rightarrow> build)) list" where
  "vyos_isis_methods =
     [(''ISISSetRouter'', on_ss vyos_isis_set_router),
      (''ISISRemoveRouter'', on_args0 vyos_isis_remove_router),
      (''ISISAddInterface'', \<lambda>as. case as of [AStr x, AStr y, ABool z, ABool u] \<Rightarrow> Rows (vyos_isis_add_interface x y z u) | _ \<Rightarrow> NoMethod),
      (''ISISRemoveInterface'', on_s vyos_isis_remove_interface),
      (''ISISPassiveInterface'', on_s vyos_isis_passive_interface),
      (''ISISRemovePassiveInterface'', on_s vyos_isis_remove_passive_interface),
      (''ISISSetMetric'', on_si vyos_isis_set_metric),
      (''ISISRemoveMetric'', on_s vyos_isis_remove_metric),
      (''ISISSetNetworkType'', on_ss vyos_isis_set_network_type),
      (''ISISRemoveNetworkType'', on_s vyos_isis_remove_network_type),
      (''ISISRedistribute'', \<lambda>as. case as of [AStr x, AStr y, ABool z] \<Rightarrow> Rows (vyos_isis_redistribute x y z) | _ \<Rightarrow> NoMethod),
      (''ISISRemoveRedistribute'', \<lambda>as. case as of [AStr x, AStr y, ABool z] \<Rightarrow> Rows (vyos_isis_remove_redistribute x y z) | _ \<Rightarrow> NoMethod)]"

definition vyos_ospf_methods :: "(string \<times> (arg list \<Rightarrow> build)) list" where
  "vyos_ospf_methods =
     [(''OSPFAddNetwork'', on_ss vyos_ospf_add_network),
      (''OSPFRemoveNetwork'', on_ss vyos_ospf_remove_network),
      (''OSPFSetRouterID'', on_s vyos_ospf_set_router_id),
      (''OSPFRemoveRouterID'', on_args0 vyos_ospf_remove_router_id),
      (''OSPFPassiveDefault'', on_args0 vyos_ospf_passive_default),
      (''OSPFRemovePassiveDefault'', on_args0 vyos_ospf_remove_passive_default),
      (''OSPFNoPassive'', on_s vyos_ospf_no_passive),
      (''OSPFRemoveNoPassive'', on_s vyos_ospf_remove_no_passive),
      (''OSPFOriginateDefault'', on_args0 vyos_ospf_originate_default),
      (''OSPFRemoveOriginateDefault'', on_args0 vyos_ospf_remove_originate_default),
      (''OSPFMTUIgnore'', on_s vyos_ospf_mtu_ignore),
      (''OSPFRemoveMTUIgnore'', on_s vyos_ospf_remove_mtu_ignore),
      (''OSPFRedistribute'', on_s vyos_ospf_redistribute),
      (''OSPFRemoveRedistribute'', on_s vyos_ospf_remove_redistribute),
      (''OSPFSetCost'', on_si vyos_ospf_set_cost),
      (''OSPFRemoveCost'', on_s vyos_ospf_remove_cost),
      (''OSPFSetPriority'', on_si vyos_ospf_set_priority),
      (''OSPFRemovePriority'', on_s vyos_ospf_remove_priority),
      (''OSPFSetTimers'', \<lambda>as. case as of [AStr x, AInt y, AInt z] \<Rightarrow> Rows (vyos_ospf_set_timers x y z) | _ \<Rightarrow> NoMethod),
      (''OSPFRemoveTimers'', on_s vyos_ospf_remove_timers),
      (''OSPFSetNetworkType'', on_ss vyos_ospf_set_network_type),
      (''OSPFRemoveNetworkType'', on_s vyos_ospf_remove_network_type),
      (''OSPFSetAreaType'', on_ss vyos_ospf_set_area_type),
      (''OSPFRemoveAreaType'', on_ss vyos_ospf_remove_area_type),
      (''OSPFAddAreaRange'', on_ss vyos_ospf_add_area_range),
      (''OSPFRemoveAreaRange'', on_ss vyos_ospf_remove_area_range),
      (''OSPFSetAuthentication'', \<lambda>as. case as of [AStr x, AStr y, AStr z, AInt u] \<Rightarrow> Rows (vyos_ospf_set_authentication x y z u) | _ \<Rightarrow> NoMethod),
      (''OSPFRemoveAuthentication'', \<lambda>as. case as of [AStr x, AStr y, AInt z] \<Rightarrow> Rows (vyos_ospf_remove_authentication x y z) | _ \<Rightarrow> NoMethod)]"

definition vyos_methods :: "(string \<times> (arg list \<Rightarrow> build)) list" where
  "vyos_methods =
     vyos_link_methods @
     vyos_subinterface_methods @
     vyos_l3_methods @
     vyos_nat_methods @
     vyos_nat64_methods @
     vyos_ospf6_methods @
     vyos_rip_methods @
     vyos_bgp_methods @
     vyos_isis_methods @
     vyos_ospf_methods"

definition vyos_rows :: "cap_call \<Rightarrow> build" where
  "vyos_rows = rows_with vyos_methods"

lemmas vyos_methods_defs =
  vyos_methods_def vyos_link_methods_def vyos_subinterface_methods_def vyos_l3_methods_def
  vyos_nat_methods_def vyos_nat64_methods_def vyos_ospf6_methods_def vyos_rip_methods_def
  vyos_bgp_methods_def vyos_isis_methods_def vyos_ospf_methods_def

lemma vyos_distinct: "distinct (map fst vyos_methods)"
proof (rule distinct_by_sort)
  have "map fst vyos_methods =
     [''LinkDown'', ''LinkUp'', ''AddVLANSubinterface'', ''RemoveVLANSubinterface'', ''SetIP'',
      ''ReplaceIP'', ''RemoveIP'', ''SetDefaultRoute'', ''RemoveDefaultRoute'',
      ''RemoveDefaultRoute6'', ''AddStaticRoute'', ''RemoveStaticRoute'', ''AddDNSNameserver'',
      ''RemoveDNSNameserver'', ''AddDNSSearch'', ''RemoveDNSSearch'', ''SetDNS'', ''ClearDNS'',
      ''EnableSNAT'', ''DisableSNAT'', ''EnableDNAT'', ''DisableDNAT'', ''NAT64Enable'',
      ''NAT64Disable'', ''OSPF6SetRouterID'', ''OSPF6RemoveRouterID'', ''OSPF6AddInterface'',
      ''OSPF6RemoveInterface'', ''OSPF6PassiveInterface'', ''OSPF6RemovePassiveInterface'',
      ''OSPF6Redistribute'', ''OSPF6RemoveRedistribute'', ''OSPF6OriginateDefault'',
      ''OSPF6RemoveOriginateDefault'', ''RIPAddNetwork'', ''RIPRemoveNetwork'',
      ''RIPPassiveInterface'', ''RIPRemovePassiveInterface'', ''RIPRedistribute'',
      ''RIPRemoveRedistribute'', ''RIPSetTimers'', ''RIPRemoveTimers'', ''BGPSetRouter'',
      ''BGPRemoveRouter'', ''BGPAddNeighbor'', ''BGPRemoveNeighbor'', ''BGPAddNetwork'',
      ''BGPRemoveNetwork'', ''BGPRedistribute'', ''BGPRemoveRedistribute'', ''ISISSetRouter'',
      ''ISISRemoveRouter'', ''ISISAddInterface'', ''ISISRemoveInterface'',
      ''ISISPassiveInterface'', ''ISISRemovePassiveInterface'', ''ISISSetMetric'',
      ''ISISRemoveMetric'', ''ISISSetNetworkType'', ''ISISRemoveNetworkType'',
      ''ISISRedistribute'', ''ISISRemoveRedistribute'', ''OSPFAddNetwork'', ''OSPFRemoveNetwork'',
      ''OSPFSetRouterID'', ''OSPFRemoveRouterID'', ''OSPFPassiveDefault'',
      ''OSPFRemovePassiveDefault'', ''OSPFNoPassive'', ''OSPFRemoveNoPassive'',
      ''OSPFOriginateDefault'', ''OSPFRemoveOriginateDefault'', ''OSPFMTUIgnore'',
      ''OSPFRemoveMTUIgnore'', ''OSPFRedistribute'', ''OSPFRemoveRedistribute'', ''OSPFSetCost'',
      ''OSPFRemoveCost'', ''OSPFSetPriority'', ''OSPFRemovePriority'', ''OSPFSetTimers'',
      ''OSPFRemoveTimers'', ''OSPFSetNetworkType'', ''OSPFRemoveNetworkType'',
      ''OSPFSetAreaType'', ''OSPFRemoveAreaType'', ''OSPFAddAreaRange'', ''OSPFRemoveAreaRange'',
      ''OSPFSetAuthentication'', ''OSPFRemoveAuthentication'']"
    by (simp add: vyos_methods_defs)
  then show "increasing_str (msort_str 7 (map fst vyos_methods))" by (simp only:) code_simp
qed

lemma vyos_parts:
  "set vyos_link_methods \<subseteq> set vyos_methods"
  "set vyos_subinterface_methods \<subseteq> set vyos_methods"
  "set vyos_l3_methods \<subseteq> set vyos_methods"
  "set vyos_nat_methods \<subseteq> set vyos_methods"
  "set vyos_nat64_methods \<subseteq> set vyos_methods"
  "set vyos_ospf6_methods \<subseteq> set vyos_methods"
  "set vyos_rip_methods \<subseteq> set vyos_methods"
  "set vyos_bgp_methods \<subseteq> set vyos_methods"
  "set vyos_isis_methods \<subseteq> set vyos_methods"
  "set vyos_ospf_methods \<subseteq> set vyos_methods"
  by (auto simp: vyos_methods_def)

lemma vyos_rows_commands [simp]: "vyos_rows (Commands cs) = Rows cs"
  by (simp add: vyos_rows_def rows_with_def)

lemma vyos_link_rows [simp]:
  "vyos_rows (Call ''LinkDown'' [AStr s0]) = Rows (vyos_link_down s0)"
  "vyos_rows (Call ''LinkUp'' [AStr s0]) = Rows (vyos_link_up s0)"
  unfolding vyos_rows_def
  by (subst rows_with_part [OF vyos_distinct vyos_parts(1)], (simp add: vyos_link_methods_def; fail), simp add: on_args_defs)+

lemma vyos_subinterface_rows [simp]:
  "vyos_rows (Call ''AddVLANSubinterface'' [AStr s0, AInt n1, AStr s2]) = Rows (vyos_add_vlan_subinterface s0 n1 s2)"
  "vyos_rows (Call ''RemoveVLANSubinterface'' [AStr s0, AInt n1]) = Rows (vyos_remove_vlan_subinterface s0 n1)"
  unfolding vyos_rows_def
  by (subst rows_with_part [OF vyos_distinct vyos_parts(2)], (simp add: vyos_subinterface_methods_def; fail), simp add: on_args_defs)+

lemma vyos_l3_rows [simp]:
  "vyos_rows (Call ''SetIP'' [AStr s0, AStr s1]) = Rows (vyos_set_ip s0 s1)"
  "vyos_rows (Call ''ReplaceIP'' [AStr s0, AStr s1]) = Rows (vyos_replace_ip s0 s1)"
  "vyos_rows (Call ''RemoveIP'' [AStr s0, AStr s1]) = Rows (vyos_remove_ip s0 s1)"
  "vyos_rows (Call ''SetDefaultRoute'' [AStr s0]) = Rows (vyos_set_default_route s0)"
  "vyos_rows (Call ''RemoveDefaultRoute'' []) = Rows vyos_remove_default_route"
  "vyos_rows (Call ''RemoveDefaultRoute6'' []) = Rows vyos_remove_default_route6"
  "vyos_rows (Call ''AddStaticRoute'' [AStr s0, AStr s1, AStr s2]) = Rows (vyos_add_static_route s0 s1 s2)"
  "vyos_rows (Call ''RemoveStaticRoute'' [AStr s0, AStr s1, AStr s2]) = Rows (vyos_remove_static_route s0 s1 s2)"
  "vyos_rows (Call ''AddDNSNameserver'' [AStr s0]) = Rows (vyos_add_dns_nameserver s0)"
  "vyos_rows (Call ''RemoveDNSNameserver'' [AStr s0]) = Rows (vyos_remove_dns_nameserver s0)"
  "vyos_rows (Call ''AddDNSSearch'' [AStr s0]) = Rows (vyos_add_dns_search s0)"
  "vyos_rows (Call ''RemoveDNSSearch'' [AStr s0]) = Rows (vyos_remove_dns_search s0)"
  "vyos_rows (Call ''SetDNS'' [AStrs ss0, AStrs ss1]) = Rows (vyos_set_dns ss0 ss1)"
  "vyos_rows (Call ''ClearDNS'' []) = Rows vyos_clear_dns"
  unfolding vyos_rows_def
  by (subst rows_with_part [OF vyos_distinct vyos_parts(3)], (simp add: vyos_l3_methods_def; fail), simp add: on_args_defs)+

lemma vyos_nat_rows [simp]:
  "vyos_rows (Call ''EnableSNAT'' [AStr s0, ABool b1]) = Rows (vyos_enable_snat s0 b1)"
  "vyos_rows (Call ''DisableSNAT'' [AStr s0, ABool b1]) = Rows (vyos_disable_snat s0 b1)"
  "vyos_rows (Call ''EnableDNAT'' [AStr s0, AInt n1, AStr s2, AInt n3, AStr s4, ABool b5]) = Rows (vyos_enable_dnat s0 n1 s2 n3 s4 b5)"
  "vyos_rows (Call ''DisableDNAT'' [AStr s0, AInt n1, AStr s2, AInt n3, AStr s4, ABool b5]) = Rows (vyos_disable_dnat s0 n1 s2 n3 s4 b5)"
  unfolding vyos_rows_def
  by (subst rows_with_part [OF vyos_distinct vyos_parts(4)], (simp add: vyos_nat_methods_def; fail), simp add: on_args_defs)+

lemma vyos_nat64_rows [simp]:
  "vyos_rows (Call ''NAT64Enable'' [AStr s0, AStr s1]) = Rows (vyos_nat64_enable s0 s1)"
  "vyos_rows (Call ''NAT64Disable'' []) = Rows vyos_nat64_disable"
  unfolding vyos_rows_def
  by (subst rows_with_part [OF vyos_distinct vyos_parts(5)], (simp add: vyos_nat64_methods_def; fail), simp add: on_args_defs)+

lemma vyos_ospf6_rows [simp]:
  "vyos_rows (Call ''OSPF6SetRouterID'' [AStr s0]) = Rows (vyos_ospf6_set_router_id s0)"
  "vyos_rows (Call ''OSPF6RemoveRouterID'' []) = Rows vyos_ospf6_remove_router_id"
  "vyos_rows (Call ''OSPF6AddInterface'' [AStr s0, AStr s1]) = Rows (vyos_ospf6_add_interface s0 s1)"
  "vyos_rows (Call ''OSPF6RemoveInterface'' [AStr s0, AStr s1]) = Rows (vyos_ospf6_remove_interface s0 s1)"
  "vyos_rows (Call ''OSPF6PassiveInterface'' [AStr s0]) = Rows (vyos_ospf6_passive_interface s0)"
  "vyos_rows (Call ''OSPF6RemovePassiveInterface'' [AStr s0]) = Rows (vyos_ospf6_remove_passive_interface s0)"
  "vyos_rows (Call ''OSPF6Redistribute'' [AStr s0]) = Rows (vyos_ospf6_redistribute s0)"
  "vyos_rows (Call ''OSPF6RemoveRedistribute'' [AStr s0]) = Rows (vyos_ospf6_remove_redistribute s0)"
  "vyos_rows (Call ''OSPF6OriginateDefault'' []) = Rows vyos_ospf6_originate_default"
  "vyos_rows (Call ''OSPF6RemoveOriginateDefault'' []) = Rows vyos_ospf6_remove_originate_default"
  unfolding vyos_rows_def
  by (subst rows_with_part [OF vyos_distinct vyos_parts(6)], (simp add: vyos_ospf6_methods_def; fail), simp add: on_args_defs)+

lemma vyos_rip_rows [simp]:
  "vyos_rows (Call ''RIPAddNetwork'' [AStr s0, ABool b1]) = Rows (vyos_rip_add_network s0 b1)"
  "vyos_rows (Call ''RIPRemoveNetwork'' [AStr s0, ABool b1]) = Rows (vyos_rip_remove_network s0 b1)"
  "vyos_rows (Call ''RIPPassiveInterface'' [AStr s0, ABool b1]) = Rows (vyos_rip_passive_interface s0 b1)"
  "vyos_rows (Call ''RIPRemovePassiveInterface'' [AStr s0, ABool b1]) = Rows (vyos_rip_remove_passive_interface s0 b1)"
  "vyos_rows (Call ''RIPRedistribute'' [AStr s0, ABool b1]) = Rows (vyos_rip_redistribute s0 b1)"
  "vyos_rows (Call ''RIPRemoveRedistribute'' [AStr s0, ABool b1]) = Rows (vyos_rip_remove_redistribute s0 b1)"
  "vyos_rows (Call ''RIPSetTimers'' [AInt n0, AInt n1, AInt n2, ABool b3]) = Rows (vyos_rip_set_timers n0 n1 n2 b3)"
  "vyos_rows (Call ''RIPRemoveTimers'' [ABool b0]) = Rows (vyos_rip_remove_timers b0)"
  unfolding vyos_rows_def
  by (subst rows_with_part [OF vyos_distinct vyos_parts(7)], (simp add: vyos_rip_methods_def; fail), simp add: on_args_defs)+

lemma vyos_bgp_rows [simp]:
  "vyos_rows (Call ''BGPSetRouter'' [AInt n0, AStr s1]) = Rows (vyos_bgp_set_router n0 s1)"
  "vyos_rows (Call ''BGPRemoveRouter'' []) = Rows vyos_bgp_remove_router"
  "vyos_rows (Call ''BGPAddNeighbor'' [AStr s0, AInt n1, AStr s2, AInt n3, ABool b4]) = Rows (vyos_bgp_add_neighbor s0 n1 s2 n3 b4)"
  "vyos_rows (Call ''BGPRemoveNeighbor'' [AStr s0]) = Rows (vyos_bgp_remove_neighbor s0)"
  "vyos_rows (Call ''BGPAddNetwork'' [AStr s0, ABool b1]) = Rows (vyos_bgp_add_network s0 b1)"
  "vyos_rows (Call ''BGPRemoveNetwork'' [AStr s0, ABool b1]) = Rows (vyos_bgp_remove_network s0 b1)"
  "vyos_rows (Call ''BGPRedistribute'' [AStr s0, ABool b1]) = Rows (vyos_bgp_redistribute s0 b1)"
  "vyos_rows (Call ''BGPRemoveRedistribute'' [AStr s0, ABool b1]) = Rows (vyos_bgp_remove_redistribute s0 b1)"
  unfolding vyos_rows_def
  by (subst rows_with_part [OF vyos_distinct vyos_parts(8)], (simp add: vyos_bgp_methods_def; fail), simp add: on_args_defs)+

lemma vyos_isis_rows [simp]:
  "vyos_rows (Call ''ISISSetRouter'' [AStr s0, AStr s1]) = Rows (vyos_isis_set_router s0 s1)"
  "vyos_rows (Call ''ISISRemoveRouter'' []) = Rows vyos_isis_remove_router"
  "vyos_rows (Call ''ISISAddInterface'' [AStr s0, AStr s1, ABool b2, ABool b3]) = Rows (vyos_isis_add_interface s0 s1 b2 b3)"
  "vyos_rows (Call ''ISISRemoveInterface'' [AStr s0]) = Rows (vyos_isis_remove_interface s0)"
  "vyos_rows (Call ''ISISPassiveInterface'' [AStr s0]) = Rows (vyos_isis_passive_interface s0)"
  "vyos_rows (Call ''ISISRemovePassiveInterface'' [AStr s0]) = Rows (vyos_isis_remove_passive_interface s0)"
  "vyos_rows (Call ''ISISSetMetric'' [AStr s0, AInt n1]) = Rows (vyos_isis_set_metric s0 n1)"
  "vyos_rows (Call ''ISISRemoveMetric'' [AStr s0]) = Rows (vyos_isis_remove_metric s0)"
  "vyos_rows (Call ''ISISSetNetworkType'' [AStr s0, AStr s1]) = Rows (vyos_isis_set_network_type s0 s1)"
  "vyos_rows (Call ''ISISRemoveNetworkType'' [AStr s0]) = Rows (vyos_isis_remove_network_type s0)"
  "vyos_rows (Call ''ISISRedistribute'' [AStr s0, AStr s1, ABool b2]) = Rows (vyos_isis_redistribute s0 s1 b2)"
  "vyos_rows (Call ''ISISRemoveRedistribute'' [AStr s0, AStr s1, ABool b2]) = Rows (vyos_isis_remove_redistribute s0 s1 b2)"
  unfolding vyos_rows_def
  by (subst rows_with_part [OF vyos_distinct vyos_parts(9)], (simp add: vyos_isis_methods_def; fail), simp add: on_args_defs)+

lemma vyos_ospf_rows [simp]:
  "vyos_rows (Call ''OSPFAddNetwork'' [AStr s0, AStr s1]) = Rows (vyos_ospf_add_network s0 s1)"
  "vyos_rows (Call ''OSPFRemoveNetwork'' [AStr s0, AStr s1]) = Rows (vyos_ospf_remove_network s0 s1)"
  "vyos_rows (Call ''OSPFSetRouterID'' [AStr s0]) = Rows (vyos_ospf_set_router_id s0)"
  "vyos_rows (Call ''OSPFRemoveRouterID'' []) = Rows vyos_ospf_remove_router_id"
  "vyos_rows (Call ''OSPFPassiveDefault'' []) = Rows vyos_ospf_passive_default"
  "vyos_rows (Call ''OSPFRemovePassiveDefault'' []) = Rows vyos_ospf_remove_passive_default"
  "vyos_rows (Call ''OSPFNoPassive'' [AStr s0]) = Rows (vyos_ospf_no_passive s0)"
  "vyos_rows (Call ''OSPFRemoveNoPassive'' [AStr s0]) = Rows (vyos_ospf_remove_no_passive s0)"
  "vyos_rows (Call ''OSPFOriginateDefault'' []) = Rows vyos_ospf_originate_default"
  "vyos_rows (Call ''OSPFRemoveOriginateDefault'' []) = Rows vyos_ospf_remove_originate_default"
  "vyos_rows (Call ''OSPFMTUIgnore'' [AStr s0]) = Rows (vyos_ospf_mtu_ignore s0)"
  "vyos_rows (Call ''OSPFRemoveMTUIgnore'' [AStr s0]) = Rows (vyos_ospf_remove_mtu_ignore s0)"
  "vyos_rows (Call ''OSPFRedistribute'' [AStr s0]) = Rows (vyos_ospf_redistribute s0)"
  "vyos_rows (Call ''OSPFRemoveRedistribute'' [AStr s0]) = Rows (vyos_ospf_remove_redistribute s0)"
  "vyos_rows (Call ''OSPFSetCost'' [AStr s0, AInt n1]) = Rows (vyos_ospf_set_cost s0 n1)"
  "vyos_rows (Call ''OSPFRemoveCost'' [AStr s0]) = Rows (vyos_ospf_remove_cost s0)"
  "vyos_rows (Call ''OSPFSetPriority'' [AStr s0, AInt n1]) = Rows (vyos_ospf_set_priority s0 n1)"
  "vyos_rows (Call ''OSPFRemovePriority'' [AStr s0]) = Rows (vyos_ospf_remove_priority s0)"
  "vyos_rows (Call ''OSPFSetTimers'' [AStr s0, AInt n1, AInt n2]) = Rows (vyos_ospf_set_timers s0 n1 n2)"
  "vyos_rows (Call ''OSPFRemoveTimers'' [AStr s0]) = Rows (vyos_ospf_remove_timers s0)"
  "vyos_rows (Call ''OSPFSetNetworkType'' [AStr s0, AStr s1]) = Rows (vyos_ospf_set_network_type s0 s1)"
  "vyos_rows (Call ''OSPFRemoveNetworkType'' [AStr s0]) = Rows (vyos_ospf_remove_network_type s0)"
  "vyos_rows (Call ''OSPFSetAreaType'' [AStr s0, AStr s1]) = Rows (vyos_ospf_set_area_type s0 s1)"
  "vyos_rows (Call ''OSPFRemoveAreaType'' [AStr s0, AStr s1]) = Rows (vyos_ospf_remove_area_type s0 s1)"
  "vyos_rows (Call ''OSPFAddAreaRange'' [AStr s0, AStr s1]) = Rows (vyos_ospf_add_area_range s0 s1)"
  "vyos_rows (Call ''OSPFRemoveAreaRange'' [AStr s0, AStr s1]) = Rows (vyos_ospf_remove_area_range s0 s1)"
  "vyos_rows (Call ''OSPFSetAuthentication'' [AStr s0, AStr s1, AStr s2, AInt n3]) = Rows (vyos_ospf_set_authentication s0 s1 s2 n3)"
  "vyos_rows (Call ''OSPFRemoveAuthentication'' [AStr s0, AStr s1, AInt n2]) = Rows (vyos_ospf_remove_authentication s0 s1 n2)"
  unfolding vyos_rows_def
  by (subst rows_with_part [OF vyos_distinct vyos_parts(10)], (simp add: vyos_ospf_methods_def; fail), simp add: on_args_defs)+

lemmas vyos_link_defs =
  vyos_link_down_def vyos_link_up_def

lemmas vyos_subinterface_defs =
  vyos_add_vlan_subinterface_def vyos_remove_vlan_subinterface_def

lemmas vyos_l3_defs =
  vyos_set_ip_def vyos_replace_ip_def vyos_remove_ip_def vyos_set_default_route_def
  vyos_remove_default_route_def vyos_remove_default_route6_def vyos_add_static_route_def
  vyos_remove_static_route_def vyos_add_dns_nameserver_def vyos_remove_dns_nameserver_def
  vyos_add_dns_search_def vyos_remove_dns_search_def vyos_set_dns_def vyos_clear_dns_def

lemmas vyos_nat_defs =
  vyos_enable_snat_def vyos_disable_snat_def vyos_enable_dnat_def vyos_disable_dnat_def

lemmas vyos_nat64_defs =
  vyos_nat64_enable_def vyos_nat64_disable_def

lemmas vyos_ospf6_defs =
  vyos_ospf6_set_router_id_def vyos_ospf6_remove_router_id_def vyos_ospf6_add_interface_def
  vyos_ospf6_remove_interface_def vyos_ospf6_passive_interface_def
  vyos_ospf6_remove_passive_interface_def vyos_ospf6_redistribute_def
  vyos_ospf6_remove_redistribute_def vyos_ospf6_originate_default_def
  vyos_ospf6_remove_originate_default_def

lemmas vyos_rip_defs =
  vyos_rip_add_network_def vyos_rip_remove_network_def vyos_rip_passive_interface_def
  vyos_rip_remove_passive_interface_def vyos_rip_redistribute_def
  vyos_rip_remove_redistribute_def vyos_rip_set_timers_def vyos_rip_remove_timers_def

lemmas vyos_bgp_defs =
  vyos_bgp_set_router_def vyos_bgp_remove_router_def vyos_bgp_add_neighbor_def
  vyos_bgp_remove_neighbor_def vyos_bgp_add_network_def vyos_bgp_remove_network_def
  vyos_bgp_redistribute_def vyos_bgp_remove_redistribute_def

lemmas vyos_isis_defs =
  vyos_isis_set_router_def vyos_isis_remove_router_def vyos_isis_add_interface_def
  vyos_isis_remove_interface_def vyos_isis_passive_interface_def
  vyos_isis_remove_passive_interface_def vyos_isis_set_metric_def vyos_isis_remove_metric_def
  vyos_isis_set_network_type_def vyos_isis_remove_network_type_def vyos_isis_redistribute_def
  vyos_isis_remove_redistribute_def

lemmas vyos_ospf_defs =
  vyos_ospf_add_network_def vyos_ospf_remove_network_def vyos_ospf_set_router_id_def
  vyos_ospf_remove_router_id_def vyos_ospf_passive_default_def
  vyos_ospf_remove_passive_default_def vyos_ospf_no_passive_def vyos_ospf_remove_no_passive_def
  vyos_ospf_originate_default_def vyos_ospf_remove_originate_default_def
  vyos_ospf_mtu_ignore_def vyos_ospf_remove_mtu_ignore_def vyos_ospf_redistribute_def
  vyos_ospf_remove_redistribute_def vyos_ospf_set_cost_def vyos_ospf_remove_cost_def
  vyos_ospf_set_priority_def vyos_ospf_remove_priority_def vyos_ospf_set_timers_def
  vyos_ospf_remove_timers_def vyos_ospf_set_network_type_def vyos_ospf_remove_network_type_def
  vyos_ospf_set_area_type_def vyos_ospf_remove_area_type_def vyos_ospf_add_area_range_def
  vyos_ospf_remove_area_range_def vyos_ospf_set_authentication_def
  vyos_ospf_remove_authentication_def

end
