(* ===== verification/VyOS_Commits.thy ===== *)
theory VyOS_Commits
  imports VyOS_Commands
begin

text \<open>
  What the lines of \<open>VyOS_Commands\<close> do together. A line with a verb and a word converts into one
  operation of the guest's API (\<open>vyos_line\<close>), so every action is one commit. The path of a delete
  line lies above the paths of the set lines it undoes (\<open>under\<close>), for every pair of actions on one
  state. Port forwards share rule numbers.
\<close>

section \<open>Lines and operations\<close>

definition vyos_line :: "string \<Rightarrow> bool" where
  "vyos_line l \<longleftrightarrow> (\<exists>v \<in> {''set'', ''delete''}. \<exists>x r. l = v @ CHR '' '' # x # r \<and> \<not> is_space x)"

lemma vyos_line_simps [simp]:
  "vyos_line (CHR ''s'' # CHR ''e'' # CHR ''t'' # CHR '' '' # x # r) \<longleftrightarrow> \<not> is_space x"
  "vyos_line (CHR ''d'' # CHR ''e'' # CHR ''l'' # CHR ''e'' # CHR ''t'' # CHR ''e'' # CHR '' '' # x # r) \<longleftrightarrow> \<not> is_space x"
  by (simp_all add: vyos_line_def)

lemma fields_append: "Go_Prelude.fields (s @ CHR '' '' # r) = Go_Prelude.fields s @ Go_Prelude.fields r"
proof (induction s rule: Go_Prelude.fields.induct)
  case (1 s)
  have sp: "is_space CHR '' ''" by (simp add: is_space_def)
  have d: "Go_Prelude.fields r = Go_Prelude.fields (dropWhile is_space r)" for r
    by (subst (1 2) Go_Prelude.fields.simps) simp
  show ?case
  proof (cases "dropWhile is_space s")
    case Nil
    then have "\<forall>x \<in> set s. is_space x" by (simp add: dropWhile_eq_Nil_conv)
    then have "dropWhile is_space (s @ CHR '' '' # r) = dropWhile is_space r" using sp by (simp add: dropWhile_append2)
    then have "Go_Prelude.fields (s @ CHR '' '' # r) = Go_Prelude.fields r" using d by metis
    moreover have "Go_Prelude.fields s = []" by (subst Go_Prelude.fields.simps) (simp only: Nil list.case)
    ultimately show ?thesis by simp
  next
    case (Cons c cs)
    then have "dropWhile is_space (s @ CHR '' '' # r) = c # cs @ CHR '' '' # r"
      by (metis append_Cons dropWhile_append1 dropWhile_eq_Nil_conv list.distinct(1))
    moreover have "takeWhile (\<lambda>x. \<not> is_space x) (cs @ CHR '' '' # r) = takeWhile (\<lambda>x. \<not> is_space x) cs"
      "dropWhile (\<lambda>x. \<not> is_space x) (cs @ CHR '' '' # r) = dropWhile (\<lambda>x. \<not> is_space x) cs @ CHR '' '' # r"
      using sp by (simp_all add: takeWhile_tail dropWhile_append3)
    ultimately show ?thesis using 1 [of c cs] Cons by (simp add: Go_Prelude.fields.simps [of s] Go_Prelude.fields.simps [of "s @ CHR '' '' # r"])
  qed
qed

lemma line_operation:
  assumes "v \<in> {''set'', ''delete''}" and "\<not> is_space x"
  shows "vyos_configure_op (v @ CHR '' '' # x # r) = Inr \<lparr>vo_op = v, vo_path = Go_Prelude.fields (x # r)\<rparr>"
proof -
  obtain p ps where f: "Go_Prelude.fields (x # r) = p # ps" using assms(2) by (cases "Go_Prelude.fields (x # r)") (auto simp: Go_Prelude.fields.simps)
  have "Go_Prelude.fields v = [v]" using assms(1) by (intro fields_word) (auto simp: is_space_def)
  then have "Go_Prelude.fields (v @ CHR '' '' # x # r) = v # p # ps" using f by (simp add: fields_append)
  then show ?thesis using f assms(1) by (auto simp: vyos_configure_op_def vyos_verbs_def)
qed

text \<open>Rows of one line each, every line an operation.\<close>

definition one_commit :: "build \<Rightarrow> bool" where
  "one_commit b \<longleftrightarrow>
     (\<exists>rows. b = Rows rows \<and> rows \<noteq> [] \<and> list_all (\<lambda>r. case r of [l] \<Rightarrow> vyos_line l | _ \<Rightarrow> False) rows)"

lemma one_commit_Rows [simp]:
  "one_commit (Rows rows) \<longleftrightarrow> rows \<noteq> [] \<and> list_all (\<lambda>r. case r of [l] \<Rightarrow> vyos_line l | _ \<Rightarrow> False) rows"
  by (simp add: one_commit_def)

lemmas commit_simps = declare_action_def call_def is_space_def Let_def list_all_iff

lemma commit_l2: "e \<in> set l2_actions \<Longrightarrow> ad_run e v a = Inr c \<Longrightarrow> one_commit (vyos_rows c)"
  by (auto simp: l2_actions_def commit_simps vyos_link_defs)

lemma commit_l3: "e \<in> set l3_actions \<Longrightarrow> ad_run e v a = Inr c \<Longrightarrow> one_commit (vyos_rows c)"
  by (auto simp: l3_actions_def commit_simps vyos_l3_defs vyos_static_route_def split: if_splits)

lemma commit_subinterface: "e \<in> set subinterface_actions \<Longrightarrow> ad_run e v a = Inr c \<Longrightarrow> one_commit (vyos_rows c)"
  by (auto simp: subinterface_actions_def commit_simps vyos_subinterface_defs)

lemma commit_nat: "e \<in> set nat_actions \<Longrightarrow> ad_run e v a = Inr c \<Longrightarrow> one_commit (vyos_rows c)"
  by (auto simp: nat_actions_def commit_simps vyos_nat_defs vyos_nat_def)

lemma commit_nat64: "e \<in> set nat64_actions \<Longrightarrow> ad_run e v a = Inr c \<Longrightarrow> one_commit (vyos_rows c)"
  by (auto simp: nat64_actions_def commit_simps vyos_nat64_defs bindR_Inr)

lemma commit_ospf6: "e \<in> set ospf6_actions \<Longrightarrow> ad_run e v a = Inr c \<Longrightarrow> one_commit (vyos_rows c)"
  by (auto simp: ospf6_actions_def commit_simps vyos_ospf6_defs)

lemma commit_rip: "e \<in> set rip_actions \<Longrightarrow> ad_run e v a = Inr c \<Longrightarrow> one_commit (vyos_rows c)"
  by (auto simp: rip_actions_def commit_simps vyos_rip_defs vyos_rip_def split: option.splits)

lemma commit_bgp: "e \<in> set bgp_actions \<Longrightarrow> ad_run e v a = Inr c \<Longrightarrow> one_commit (vyos_rows c)"
  by (auto simp: bgp_actions_def commit_simps vyos_bgp_defs vyos_bgp_family_def)

lemma commit_isis: "e \<in> set isis_actions \<Longrightarrow> ad_run e v a = Inr c \<Longrightarrow> one_commit (vyos_rows c)"
  by (auto simp: isis_actions_def commit_simps vyos_isis_defs)

lemma commit_ospf: "e \<in> set ospf_actions \<Longrightarrow> ad_run e v a = Inr c \<Longrightarrow> one_commit (vyos_rows c)"
  by (auto simp: ospf_actions_def commit_simps vyos_ospf_defs split: option.splits)


definition vyos_actions :: "action_decl list" where
  "vyos_actions = l2_actions @ l3_actions @ subinterface_actions @ nat_actions @ nat64_actions @ ospf6_actions @
     rip_actions @ bgp_actions @ isis_actions @ ospf_actions"

lemma commit_vyos: "e \<in> set vyos_actions \<Longrightarrow> ad_run e v a = Inr c \<Longrightarrow> one_commit (vyos_rows c)"
  by (auto simp: vyos_actions_def intro: commit_l2 commit_l3 commit_subinterface commit_nat commit_nat64 commit_ospf6
      commit_rip commit_bgp commit_isis commit_ospf)

section \<open>An undo takes down what its action set\<close>

fun under :: "string \<Rightarrow> string \<Rightarrow> bool" where
  "under [] r = (case r of [] \<Rightarrow> True | c # _ \<Rightarrow> c = CHR '' '')"
| "under (c # d) [] = False"
| "under (c # d) (x # s) = (c = x \<and> under d s)"

lemma under_append [simp]: "under (xs @ d) (xs @ s) = under d s"
  by (induction xs) auto

lemma under_self [simp]: "under xs xs"
  by (induction xs) auto

lemma under_longer [simp]: "under xs (xs @ s) = under [] s"
  by (induction xs) auto

lemma under_fields: "under d s \<Longrightarrow> \<exists>ws. Go_Prelude.fields s = Go_Prelude.fields d @ ws"
proof -
  assume "under d s"
  then have "s = d \<or> (\<exists>r. s = d @ CHR '' '' # r)"
    by (induction d s rule: under.induct) (auto split: list.splits)
  then show ?thesis by (auto simp: fields_append)
qed

definition set_path :: "string list \<Rightarrow> string option" where
  "set_path r = (case r of [a # b # c # d # p] \<Rightarrow> if [a, b, c, d] = ''set '' then Some p else None | _ \<Rightarrow> None)"

definition delete_path :: "string list \<Rightarrow> string option" where
  "delete_path r = (case r of [a # b # c # d # e # f # g # p] \<Rightarrow>
     if [a, b, c, d, e, f, g] = ''delete '' then Some p else None | _ \<Rightarrow> None)"

definition undoes :: "build \<Rightarrow> build \<Rightarrow> bool" where
  "undoes u c \<longleftrightarrow> (\<exists>us rs. u = Rows us \<and> c = Rows rs \<and>
     (\<forall>r \<in> set rs. case set_path r of None \<Rightarrow> True
        | Some p \<Rightarrow> \<exists>d \<in> set us. case delete_path d of None \<Rightarrow> False | Some q \<Rightarrow> under q p))"

lemma undoes_Rows [simp]:
  "undoes (Rows us) (Rows rs) \<longleftrightarrow>
     (\<forall>r \<in> set rs. case set_path r of None \<Rightarrow> True
        | Some p \<Rightarrow> \<exists>d \<in> set us. case delete_path d of None \<Rightarrow> False | Some q \<Rightarrow> under q p)"
  by (auto simp: undoes_def)

lemmas undo_simps = declare_action_def call_def Let_def set_path_def delete_path_def

text \<open>The pairs of a set and an undo of one state among the actions of a capability, by position.\<close>

definition undo_pairs :: "(string \<times> bool) list \<Rightarrow> (nat \<times> nat) list" where
  "undo_pairs ts =
     concat (map (\<lambda>(i, s, c). if c then [] else
         map (Pair i \<circ> fst) (filter (\<lambda>(j, s', c'). c' \<and> s = s') (enumerate 0 ts)))
       (enumerate 0 ts))"

definition undone_by :: "action_decl \<Rightarrow> action_decl \<Rightarrow> bool" where
  "undone_by u e \<longleftrightarrow> (\<forall>v a c c'. state_key e a = state_key u a \<longrightarrow> ad_run e v a = Inr c \<longrightarrow> ad_run u v a = Inr c' \<longrightarrow>
     undoes (vyos_rows c') (vyos_rows c))"

definition undone :: "action_decl list \<Rightarrow> bool" where
  "undone acts \<longleftrightarrow> list_all (\<lambda>(i, j). undone_by (acts ! j) (acts ! i)) (undo_pairs (map (\<lambda>e. (ad_state e, ad_clears e)) acts))"

lemma undoneD:
  assumes "undone acts" and "e \<in> set acts" and "u \<in> set acts" and "ad_state e = ad_state u" and "\<not> ad_clears e" and "ad_clears u"
  shows "undone_by u e"
proof -
  obtain i j where ij: "i < length acts" "j < length acts" "e = acts ! i" "u = acts ! j"
    using assms(2,3) by (auto simp: in_set_conv_nth)
  let ?ts = "map (\<lambda>e. (ad_state e, ad_clears e)) acts"
  have "(i, ad_state e, False) \<in> set (enumerate 0 ?ts)" "(j, ad_state e, True) \<in> set (enumerate 0 ?ts)"
    using ij assms(4-6) by (auto simp: in_set_enumerate_eq)
  then have "(i, j) \<in> set (undo_pairs ?ts)"
    unfolding undo_pairs_def set_concat set_map
    by (intro UnionI [OF imageI [OF imageI]]) (auto simp: image_iff intro!: bexI [rotated])
  with assms(1) ij show ?thesis by (auto simp: undone_def list_all_iff)
qed

lemma l2_undo_pairs:
  "undo_pairs (map (\<lambda>e. (ad_state e, ad_clears e)) l2_actions) =
     [(0, 1)]"
proof -
  have m: "map (\<lambda>e. (ad_state e, ad_clears e)) l2_actions =
     [(''link'', False), (''link'', True)]"
    by (simp add: l2_actions_def declare_action_def)
  show ?thesis unfolding m by (simp add: undo_pairs_def)
qed

lemma undone_l2: "undone l2_actions"
  unfolding undone_def l2_undo_pairs unfolding l2_actions_def
  by (simp only: list.pred_inject prod.case nth_Cons_numeral nth_Cons_0 nth_Cons_Suc One_nat_def) (auto simp: undone_by_def undo_simps vyos_link_defs)

lemma l3_undo_pairs:
  "undo_pairs (map (\<lambda>e. (ad_state e, ad_clears e)) l3_actions) =
     [(0, 2), (1, 2), (3, 4), (5, 6), (7, 8), (9, 10), (11, 12)]"
proof -
  have m: "map (\<lambda>e. (ad_state e, ad_clears e)) l3_actions =
     [(''address'', False), (''address'', False), (''address'', True), (''default_route'', False),
       (''default_route'', True), (''static_route'', False), (''static_route'', True),
       (''dns_nameserver'', False), (''dns_nameserver'', True), (''dns_search'', False),
       (''dns_search'', True), (''dns'', False), (''dns'', True)]"
    by (simp add: l3_actions_def declare_action_def)
  show ?thesis unfolding m by (simp add: undo_pairs_def)
qed

lemma undone_l3: "undone l3_actions"
  unfolding undone_def l3_undo_pairs unfolding l3_actions_def
  by (simp only: list.pred_inject prod.case nth_Cons_numeral nth_Cons_0 nth_Cons_Suc One_nat_def) (auto simp: undone_by_def undo_simps vyos_l3_defs vyos_static_route_def state_key_def key_default_route_set_def key_default_route_family_def split: if_splits)

lemma subinterface_undo_pairs:
  "undo_pairs (map (\<lambda>e. (ad_state e, ad_clears e)) subinterface_actions) =
     [(0, 1)]"
proof -
  have m: "map (\<lambda>e. (ad_state e, ad_clears e)) subinterface_actions =
     [(''subinterface'', False), (''subinterface'', True)]"
    by (simp add: subinterface_actions_def declare_action_def)
  show ?thesis unfolding m by (simp add: undo_pairs_def)
qed

lemma undone_subinterface: "undone subinterface_actions"
  unfolding undone_def subinterface_undo_pairs unfolding subinterface_actions_def
  by (simp only: list.pred_inject prod.case nth_Cons_numeral nth_Cons_0 nth_Cons_Suc One_nat_def) (auto simp: undone_by_def undo_simps vyos_subinterface_defs)

lemma nat_undo_pairs:
  "undo_pairs (map (\<lambda>e. (ad_state e, ad_clears e)) nat_actions) =
     [(0, 1), (2, 3)]"
proof -
  have m: "map (\<lambda>e. (ad_state e, ad_clears e)) nat_actions =
     [(''snat'', False), (''snat'', True), (''dnat'', False), (''dnat'', True)]"
    by (simp add: nat_actions_def declare_action_def)
  show ?thesis unfolding m by (simp add: undo_pairs_def)
qed

lemma undone_nat: "undone nat_actions"
  unfolding undone_def nat_undo_pairs unfolding nat_actions_def
  by (simp only: list.pred_inject prod.case nth_Cons_numeral nth_Cons_0 nth_Cons_Suc One_nat_def) (auto simp: undone_by_def undo_simps vyos_nat_defs)

lemma nat64_undo_pairs:
  "undo_pairs (map (\<lambda>e. (ad_state e, ad_clears e)) nat64_actions) =
     [(0, 1)]"
proof -
  have m: "map (\<lambda>e. (ad_state e, ad_clears e)) nat64_actions =
     [(''nat64'', False), (''nat64'', True)]"
    by (simp add: nat64_actions_def declare_action_def)
  show ?thesis unfolding m by (simp add: undo_pairs_def)
qed

lemma undone_nat64: "undone nat64_actions"
  unfolding undone_def nat64_undo_pairs unfolding nat64_actions_def
  by (simp only: list.pred_inject prod.case nth_Cons_numeral nth_Cons_0 nth_Cons_Suc One_nat_def) (auto simp: undone_by_def undo_simps vyos_nat64_defs bindR_Inr)

lemma ospf6_undo_pairs:
  "undo_pairs (map (\<lambda>e. (ad_state e, ad_clears e)) ospf6_actions) =
     [(0, 1), (2, 3), (4, 5), (6, 7), (8, 9)]"
proof -
  have m: "map (\<lambda>e. (ad_state e, ad_clears e)) ospf6_actions =
     [(''ospf6_router_id'', False), (''ospf6_router_id'', True), (''ospf6_interface'', False),
       (''ospf6_interface'', True), (''ospf6_passive'', False), (''ospf6_passive'', True),
       (''ospf6_redistribute'', False), (''ospf6_redistribute'', True), (''ospf6_originate_default'',
       False), (''ospf6_originate_default'', True)]"
    by (simp add: ospf6_actions_def declare_action_def)
  show ?thesis unfolding m by (simp add: undo_pairs_def)
qed

lemma undone_ospf6: "undone ospf6_actions"
  unfolding undone_def ospf6_undo_pairs unfolding ospf6_actions_def
  by (simp only: list.pred_inject prod.case nth_Cons_numeral nth_Cons_0 nth_Cons_Suc One_nat_def) (auto simp: undone_by_def undo_simps vyos_ospf6_defs)

lemma rip_undo_pairs:
  "undo_pairs (map (\<lambda>e. (ad_state e, ad_clears e)) rip_actions) =
     [(0, 1), (2, 3), (4, 5), (6, 7)]"
proof -
  have m: "map (\<lambda>e. (ad_state e, ad_clears e)) rip_actions =
     [(''rip_network'', False), (''rip_network'', True), (''rip_passive'', False),
       (''rip_passive'', True), (''rip_redistribute'', False), (''rip_redistribute'', True),
       (''rip_timers'', False), (''rip_timers'', True)]"
    by (simp add: rip_actions_def declare_action_def)
  show ?thesis unfolding m by (simp add: undo_pairs_def)
qed

lemma undone_rip: "undone rip_actions"
  unfolding undone_def rip_undo_pairs unfolding rip_actions_def
  by (simp only: list.pred_inject prod.case nth_Cons_numeral nth_Cons_0 nth_Cons_Suc One_nat_def) (auto simp: undone_by_def undo_simps vyos_rip_defs vyos_rip_def split: option.splits)

lemma bgp_undo_pairs:
  "undo_pairs (map (\<lambda>e. (ad_state e, ad_clears e)) bgp_actions) =
     [(0, 1), (2, 3), (4, 5), (6, 7)]"
proof -
  have m: "map (\<lambda>e. (ad_state e, ad_clears e)) bgp_actions =
     [(''bgp_router'', False), (''bgp_router'', True), (''bgp_neighbor'', False),
       (''bgp_neighbor'', True), (''bgp_network'', False), (''bgp_network'', True),
       (''bgp_redistribute'', False), (''bgp_redistribute'', True)]"
    by (simp add: bgp_actions_def declare_action_def)
  show ?thesis unfolding m by (simp add: undo_pairs_def)
qed

lemma undone_bgp: "undone bgp_actions"
  unfolding undone_def bgp_undo_pairs unfolding bgp_actions_def
  by (simp only: list.pred_inject prod.case nth_Cons_numeral nth_Cons_0 nth_Cons_Suc One_nat_def) (auto simp: undone_by_def undo_simps vyos_bgp_defs)

lemma isis_undo_pairs:
  "undo_pairs (map (\<lambda>e. (ad_state e, ad_clears e)) isis_actions) =
     [(0, 1), (2, 3), (4, 5), (6, 7), (8, 9), (10, 11)]"
proof -
  have m: "map (\<lambda>e. (ad_state e, ad_clears e)) isis_actions =
     [(''isis_router'', False), (''isis_router'', True), (''isis_interface'', False),
       (''isis_interface'', True), (''isis_passive'', False), (''isis_passive'', True),
       (''isis_metric'', False), (''isis_metric'', True), (''isis_network_type'', False),
       (''isis_network_type'', True), (''isis_redistribute'', False), (''isis_redistribute'', True)]"
    by (simp add: isis_actions_def declare_action_def)
  show ?thesis unfolding m by (simp add: undo_pairs_def)
qed

lemma undone_isis: "undone isis_actions"
  unfolding undone_def isis_undo_pairs unfolding isis_actions_def
  by (simp only: list.pred_inject prod.case nth_Cons_numeral nth_Cons_0 nth_Cons_Suc One_nat_def) (auto simp: undone_by_def undo_simps vyos_isis_defs)

lemma ospf_undo_pairs:
  "undo_pairs (map (\<lambda>e. (ad_state e, ad_clears e)) ospf_actions) =
     [(0, 1), (2, 3), (4, 5), (6, 7), (8, 9), (10, 11), (12, 13), (14, 15), (16, 17), (18, 19),
       (20, 21), (22, 23), (24, 25), (26, 27)]"
proof -
  have m: "map (\<lambda>e. (ad_state e, ad_clears e)) ospf_actions =
     [(''ospf_network'', False), (''ospf_network'', True), (''ospf_router_id'', False),
       (''ospf_router_id'', True), (''ospf_passive_default'', False), (''ospf_passive_default'',
       True), (''ospf_no_passive'', False), (''ospf_no_passive'', True), (''ospf_originate_default'',
       False), (''ospf_originate_default'', True), (''ospf_mtu_ignore'', False),
       (''ospf_mtu_ignore'', True), (''ospf_redistribute'', False), (''ospf_redistribute'', True),
       (''ospf_cost'', False), (''ospf_cost'', True), (''ospf_priority'', False), (''ospf_priority'',
       True), (''ospf_timers'', False), (''ospf_timers'', True), (''ospf_network_type'', False),
       (''ospf_network_type'', True), (''ospf_area_type'', False), (''ospf_area_type'', True),
       (''ospf_area_range'', False), (''ospf_area_range'', True), (''ospf_auth'', False),
       (''ospf_auth'', True)]"
    by (simp add: ospf_actions_def declare_action_def)
  show ?thesis unfolding m by (simp add: undo_pairs_def)
qed

lemma undone_ospf: "undone ospf_actions"
  unfolding undone_def ospf_undo_pairs unfolding ospf_actions_def
  by (simp only: list.pred_inject prod.case nth_Cons_numeral nth_Cons_0 nth_Cons_Suc One_nat_def) (auto simp: undone_by_def undo_simps vyos_ospf_defs split: option.splits)

text \<open>The lines of a set and of its undo as operations of the API.\<close>

lemma map_err_Inr: "list_all (\<lambda>x. f x = Inr (g x)) xs \<Longrightarrow> map_err f xs = Inr (map g xs)"
  by (induction xs) auto

definition line_op :: "string \<Rightarrow> vyos_op" where
  "line_op l = (case Go_Prelude.fields l of v # ps \<Rightarrow> \<lparr>vo_op = v, vo_path = ps\<rparr> | [] \<Rightarrow> \<lparr>vo_op = [], vo_path = []\<rparr>)"

lemma line_op: "vyos_line l \<Longrightarrow> vyos_configure_op l = Inr (line_op l) \<and> vo_op (line_op l) \<in> {''set'', ''delete''}"
proof -
  assume "vyos_line l"
  then obtain v x r where l: "v \<in> {''set'', ''delete''}" "l = v @ CHR '' '' # x # r" "\<not> is_space x" unfolding vyos_line_def by blast
  have "Go_Prelude.fields v = [v]" using l(1) by (intro fields_word) (auto simp: is_space_def)
  then have "line_op l = \<lparr>vo_op = v, vo_path = Go_Prelude.fields (x # r)\<rparr>" by (simp add: line_op_def l(2) fields_append)
  with line_operation [OF l(1,3), of r] l(1,2) show ?thesis by simp
qed

lemma one_commit_row: "one_commit (Rows rows) \<Longrightarrow> r \<in> set rows \<Longrightarrow> \<exists>l. r = [l] \<and> vyos_line l"
proof -
  assume "one_commit (Rows rows)" and "r \<in> set rows"
  then have "case r of [l] \<Rightarrow> vyos_line l | _ \<Rightarrow> False" by (simp add: list_all_iff)
  then show ?thesis by (auto split: list.splits)
qed

lemma commit_ops:
  assumes "one_commit (Rows rows)"
  shows "vyos_configure_ops (concat rows) = Inr (map (line_op \<circ> hd) rows)"
proof -
  have "map (\<lambda>r. [hd r]) rows = rows" by (rule map_idI) (use one_commit_row [OF assms] in fastforce)
  then have c: "concat rows = map hd rows" by (metis concat_map_singleton)
  have "list_all (\<lambda>l. vyos_configure_op l = Inr (line_op l)) (map hd rows)"
    using one_commit_row [OF assms] line_op unfolding list_all_iff set_map ball_simps by (metis list.sel(1))
  with assms show ?thesis by (simp add: vyos_configure_ops_def c map_err_Inr)
qed

text \<open>
  C26: the lines of every action of a VyOS router convert, one for one, into operations that set
  or delete a configuration path: no action is refused by the executor of the API, whatever the
  fields of the request hold, and each is a single commit.
\<close>

theorem vyos_actions_are_one_commit:
  assumes "e \<in> set vyos_actions" and "ad_run e v a = Inr c"
  shows "\<exists>rows ops. vyos_rows c = Rows rows \<and> rows \<noteq> [] \<and> length ops = length rows \<and>
    dispatch_as_vyos_api_apply (new_args_command (concat rows)) = Inr [vyos_ops_json ops] \<and>
    list_all (\<lambda>op. vo_op op \<in> {''set'', ''delete''}) ops"
proof -
  obtain rows where r: "vyos_rows c = Rows rows" "one_commit (Rows rows)"
    using commit_vyos [OF assms] by (auto simp: one_commit_def)
  have "list_all (\<lambda>op. vo_op op \<in> {''set'', ''delete''}) (map (line_op \<circ> hd) rows)"
    using one_commit_row [OF r(2)] line_op unfolding list_all_iff set_map ball_simps comp_apply by (metis list.sel(1))
  moreover have "dispatch_as_vyos_api_apply (new_args_command (concat rows)) = Inr [vyos_ops_json (map (line_op \<circ> hd) rows)]"
    using commit_ops [OF r(2)] by (simp add: dispatch_as_vyos_api_apply_def new_args_command_def)
  ultimately show ?thesis using r by (intro exI [of _ rows] exI [of _ "map (line_op \<circ> hd) rows"]) simp
qed

theorem vyos_actions_are_one_commit_witness:
  "\<exists>rows ops. vyos_rows (Call ''SetIP'' [AStr ''eth1'', AStr ''10.0.0.1/24'']) = Rows rows \<and> rows \<noteq> [] \<and>
    length ops = length rows \<and>
    dispatch_as_vyos_api_apply (new_args_command (concat rows)) = Inr [vyos_ops_json ops] \<and>
    list_all (\<lambda>op. vo_op op \<in> {''set'', ''delete''}) ops"
proof (rule vyos_actions_are_one_commit)
  show "hd l3_actions \<in> set vyos_actions" by (simp add: vyos_actions_def l3_actions_def)
  show "ad_run (hd l3_actions) v ((entry_of ''set_ip'')\<lparr>e_iface := ''eth1'', e_cidr := ''10.0.0.1/24''\<rparr>) =
      Inr (Call ''SetIP'' [AStr ''eth1'', AStr ''10.0.0.1/24''])" for v
    by (simp add: l3_actions_def declare_action_def call_def)
qed

definition vyos_capabilities :: "action_decl list list" where
  "vyos_capabilities = [l2_actions, l3_actions, subinterface_actions, nat_actions, nat64_actions, ospf6_actions,
     rip_actions, bgp_actions, isis_actions, ospf_actions]"

lemma undone_vyos: "acts \<in> set vyos_capabilities \<Longrightarrow> undone acts"
  by (auto simp: vyos_capabilities_def undone_l2 undone_l3 undone_subinterface undone_nat undone_nat64 undone_ospf6
      undone_rip undone_bgp undone_isis undone_ospf)

lemma set_path_line: "set_path [l] = Some p \<longleftrightarrow> l = ''set '' @ p"
  by (auto simp: set_path_def split: list.splits if_splits)

lemma delete_path_line: "delete_path [l] = Some p \<longleftrightarrow> l = ''delete '' @ p"
  by (auto simp: delete_path_def split: list.splits if_splits)

lemma line_op_set: "vyos_line l \<Longrightarrow> vo_op (line_op l) = ''set'' \<Longrightarrow> \<exists>p. set_path [l] = Some p \<and> vo_path (line_op l) = Go_Prelude.fields p"
proof -
  assume v: "vyos_line l" and s: "vo_op (line_op l) = ''set''"
  then obtain w x r where l: "w \<in> {''set'', ''delete''}" "l = w @ CHR '' '' # x # r" unfolding vyos_line_def by blast
  have "Go_Prelude.fields w = [w]" using l(1) by (intro fields_word) (auto simp: is_space_def)
  then have o': "line_op l = \<lparr>vo_op = w, vo_path = Go_Prelude.fields (x # r)\<rparr>" by (simp add: line_op_def l(2) fields_append)
  with s l show ?thesis by (auto simp: set_path_line)
qed

lemma line_op_delete: "delete_path [l] = Some q \<Longrightarrow> line_op l = \<lparr>vo_op = ''delete'', vo_path = Go_Prelude.fields q\<rparr>"
proof -
  assume "delete_path [l] = Some q"
  then have l: "l = ''delete'' @ CHR '' '' # q" by (simp add: delete_path_line)
  have "Go_Prelude.fields ''delete'' = [''delete'']" by (intro fields_word) (auto simp: is_space_def)
  then show ?thesis unfolding l line_op_def fields_append by simp
qed

text \<open>
  C27: when two actions of a VyOS router are on one state, with one key, the commit of the undo
  deletes a path above every path the commit of the set has written, whatever the fields hold:
  nothing an action configured is left behind by its undo.
\<close>

theorem vyos_undo_covers_set:
  assumes "acts \<in> set vyos_capabilities" and "e \<in> set acts" and "u \<in> set acts"
    and "ad_state e = ad_state u" and "\<not> ad_clears e" and "ad_clears u" and "state_key e a = state_key u a"
    and "ad_run e v a = Inr c" and "ad_run u v a = Inr c'"
  shows "\<exists>rows undo ops dels. vyos_rows c = Rows rows \<and> vyos_rows c' = Rows undo \<and>
    vyos_configure_ops (concat rows) = Inr ops \<and> vyos_configure_ops (concat undo) = Inr dels \<and>
    (\<forall>s \<in> set ops. vo_op s = ''set'' \<longrightarrow>
       (\<exists>d \<in> set dels. vo_op d = ''delete'' \<and> take (length (vo_path d)) (vo_path s) = vo_path d))"
proof -
  have va: "e \<in> set vyos_actions" "u \<in> set vyos_actions"
    using assms(1-3) by (auto simp: vyos_capabilities_def vyos_actions_def)
  obtain rows undo where r: "vyos_rows c = Rows rows" "one_commit (Rows rows)" "vyos_rows c' = Rows undo" "one_commit (Rows undo)"
    using commit_vyos [OF va(1) assms(8)] commit_vyos [OF va(2) assms(9)] by (auto simp: one_commit_def)
  have "undoes (Rows undo) (Rows rows)"
    using undoneD [OF undone_vyos [OF assms(1)] assms(2-6)] assms(7-9) r unfolding undone_by_def by metis
  then have u: "case set_path x of None \<Rightarrow> True
      | Some p \<Rightarrow> \<exists>d \<in> set undo. case delete_path d of None \<Rightarrow> False | Some q \<Rightarrow> under q p" if "x \<in> set rows" for x
    using that by simp
  have "\<exists>d \<in> set (map (line_op \<circ> hd) undo). vo_op d = ''delete'' \<and> take (length (vo_path d)) (vo_path s) = vo_path d"
    if s: "s \<in> set (map (line_op \<circ> hd) rows)" "vo_op s = ''set''" for s
  proof -
    obtain x l where x: "x \<in> set rows" "x = [l]" "vyos_line l" "s = line_op l"
      using s(1) one_commit_row [OF r(2)] by fastforce
    then obtain p where p: "set_path x = Some p" "vo_path s = Go_Prelude.fields p" using line_op_set s(2) by blast
    then obtain d q where d: "d \<in> set undo" "delete_path d = Some q" "under q p"
      using u [OF x(1)] by (auto split: option.splits)
    then obtain m where m: "d = [m]" using one_commit_row [OF r(4)] by blast
    obtain ws where "Go_Prelude.fields p = Go_Prelude.fields q @ ws" using under_fields [OF d(3)] by blast
    with p(2) d(1) m line_op_delete [of m q] d(2) show ?thesis by (intro bexI [of _ "line_op m"]) force+
  qed
  with r commit_ops show ?thesis by blast
qed

theorem vyos_undo_covers_set_witness:
  "\<exists>ops dels. vyos_configure_ops [''set protocols static route 10.1.0.0/16 next-hop 10.0.0.2''] = Inr ops \<and>
    vyos_configure_ops [''delete protocols static route 10.1.0.0/16 next-hop 10.0.0.2''] = Inr dels \<and>
    list_all (\<lambda>s. list_ex (\<lambda>d. take (length (vo_path d)) (vo_path s) = vo_path d) dels) (filter (\<lambda>s. vo_op s = ''set'') ops)"
proof -
  let ?a = "(entry_of ''add_static_route'')\<lparr>e_dst_cidr := ''10.1.0.0/16'', e_gateway := ''10.0.0.2''\<rparr>"
  let ?e = "l3_actions ! 5" and ?u = "l3_actions ! 6"
  let ?args = "[AStr ''10.1.0.0/16'', AStr ''10.0.0.2'', AStr []]"
  have d: "?e \<in> set l3_actions" "?u \<in> set l3_actions" "ad_state ?e = ad_state ?u" "\<not> ad_clears ?e" "ad_clears ?u"
    "state_key ?e ?a = state_key ?u ?a"
    "\<And>v. ad_run ?e v ?a = Inr (Call ''AddStaticRoute'' ?args)" "\<And>v. ad_run ?u v ?a = Inr (Call ''RemoveStaticRoute'' ?args)"
    by (simp_all add: l3_actions_def declare_action_def state_key_def call_def entry_of_def)
  have "\<not> is_ipv6 ''10.1.0.0/16''" by code_simp
  then have rows: "vyos_rows (Call ''AddStaticRoute'' ?args) = Rows [[''set protocols static route 10.1.0.0/16 next-hop 10.0.0.2'']]"
    "vyos_rows (Call ''RemoveStaticRoute'' ?args) = Rows [[''delete protocols static route 10.1.0.0/16 next-hop 10.0.0.2'']]"
    by (simp_all add: vyos_add_static_route_def vyos_remove_static_route_def vyos_static_route_def)
  have "l3_actions \<in> set vyos_capabilities" by (simp add: vyos_capabilities_def)
  from vyos_undo_covers_set [OF this d] show ?thesis
    unfolding rows build.inject list_all_iff list_ex_iff set_filter by (elim exE conjE) (intro exI conjI; force)
qed

section \<open>Port forwards share rule numbers\<close>

lemma vyos_nat_rule_num_values: "vyos_nat_rule_num key base \<in> (\<lambda>k. int_str (base + int k * 10)) ` {..< 90}"
proof -
  let ?k = "nat (int (sum_list (runes (map of_char key))) mod 90)"
  have "?k < 90" by (simp add: nat_less_iff)
  moreover have "vyos_nat_rule_num key base = int_str (base + int ?k * 10)" by (simp add: vyos_nat_rule_num_def Let_def)
  ultimately show ?thesis by blast
qed

text \<open>
  The rule number of a port forward is one of ninety, so of any ninety-one forwards of an
  interface two have one rule: the second rewrites the first, and the removal of either deletes
  what the other set, although the two are different states of the history.
\<close>

theorem vyos_port_forwards_collide:
  assumes "distinct ports" and "length ports > 90"
  shows "\<exists>p \<in> set ports. \<exists>q \<in> set ports. p \<noteq> q \<and>
    undoes (Rows (vyos_disable_dnat iface q ip' port' protocol v6)) (Rows (vyos_enable_dnat iface p ip port protocol v6))"
proof -
  let ?f = "\<lambda>p. vyos_nat_rule_num (iface @ int_str p @ protocol) 200"
  have "?f ` set ports \<subseteq> (\<lambda>k. int_str (200 + int k * 10)) ` {..< 90}" using vyos_nat_rule_num_values by blast
  then have "card (?f ` set ports) \<le> card {..< 90 :: nat}"
    by (meson card_image_le card_mono finite_imageI finite_lessThan le_trans)
  also have "\<dots> < card (set ports)" using assms by (simp add: distinct_card)
  finally obtain p q where pq: "p \<in> set ports" "q \<in> set ports" "p \<noteq> q" "?f p = ?f q"
    using pigeonhole unfolding inj_on_def by blast
  then have "undoes (Rows (vyos_disable_dnat iface q ip' port' protocol v6)) (Rows (vyos_enable_dnat iface p ip port protocol v6))"
    by (simp add: vyos_disable_dnat_def vyos_enable_dnat_def Let_def set_path_def delete_path_def)
  with pq show ?thesis by blast
qed

theorem vyos_port_forwards_collide_witness:
  "\<exists>p \<in> set [1 .. 91]. \<exists>q \<in> set [1 .. 91]. p \<noteq> q \<and>
    undoes (Rows (vyos_disable_dnat ''eth1'' q ''10.0.0.3'' 22 ''tcp'' False)) (Rows (vyos_enable_dnat ''eth1'' p ''10.0.0.2'' 80 ''tcp'' False))"
  by (rule vyos_port_forwards_collide) simp_all

text \<open>The digits of the port are enough: two forwards a user may well ask for.\<close>

lemma validated_forwards_collide:
  "validate [] (nat_actions ! 2) ((entry_of ''enable_dnat'')\<lparr>e_iface := ''eth1'', e_external_port := 8021,
       e_internal_ip := ''10.0.0.2'', e_internal_port := 80, e_protocol := ''tcp''\<rparr>) = None \<and>
   validate [] (nat_actions ! 2) ((entry_of ''enable_dnat'')\<lparr>e_iface := ''eth1'', e_external_port := 8012,
       e_internal_ip := ''10.0.0.3'', e_internal_port := 22, e_protocol := ''tcp''\<rparr>) = None \<and>
   vyos_disable_dnat ''eth1'' 8012 ''10.0.0.3'' 22 ''tcp'' False = vyos_disable_dnat ''eth1'' 8021 ''10.0.0.2'' 80 ''tcp'' False"
  by code_simp

end
