(* ===== verification/FRR_Commands.thy ===== *)
theory FRR_Commands
  imports Base_Commands
begin

text \<open>
  \<open>drivers/drivers/router_frr.go\<close>: the commands an FRR node runs for an action, one definition
  per method of the driver. The driver embeds the base structs of a Linux router and overrides
  the routes, which go through \<open>staticd\<close>; the routing protocols are \<open>vtysh\<close> commands, and a
  precondition tests the socket of the daemon they go to.
\<close>

section \<open>The commands\<close>

definition frr_isis_tag :: string where "frr_isis_tag = ''kubendt''"

definition frr_daemons :: "string list" where
  "frr_daemons = [''ospfd'', ''ospf6d'', ''ripd'', ''ripngd'', ''bgpd'', ''isisd'']"

definition frr_daemon_for :: "string \<Rightarrow> action_entry \<Rightarrow> string" where
  "frr_daemon_for capability a =
     (if capability = ''OSPFCapable'' then ''ospfd''
      else if capability = ''OSPF6Capable'' then ''ospf6d''
      else if capability = ''BGPCapable'' then ''bgpd''
      else if capability = ''ISISCapable'' then ''isisd''
      else if capability = ''RIPCapable'' then
        (if e_family a = ''6'' \<or> is_ipv6 (e_cidr a) then ''ripngd'' else ''ripd'')
      else [])"

definition frr_capability_precondition :: "string \<Rightarrow> action_entry \<Rightarrow> (string list \<times> string) option" where
  "frr_capability_precondition capability a =
     (let daemon = frr_daemon_for capability a in
      if daemon = [] then None
      else Some ([''test'', ''-S'', ''/var/run/frr/'' @ daemon @ ''.vty''],
        daemon @ '' is not running: enable it in /etc/frr/daemons before FRR starts ('' @ daemon @
        ''=yes), as the examples do from the node commands, and restart the node''))"

definition frr_route_line :: "string \<Rightarrow> string \<Rightarrow> string \<Rightarrow> string" where
  "frr_route_line prefix via dev =
     (let words = (if is_ipv6 prefix then ''ipv6 route'' else ''ip route'') in
      words @ '' '' @ prefix @ '' '' @ via @ (if dev = [] then [] else '' '' @ dev))"

definition frr_clear_prefix :: "string \<Rightarrow> string" where
  "frr_clear_prefix prefix =
     (let words = (if is_ipv6 prefix then ''ipv6 route'' else ''ip route'');
          escaped = concat (map (\<lambda>c. if c = CHR ''.'' then [backslash, c] else [c]) (words @ '' '' @ prefix));
          pattern = ''^'' @ escaped @ '' '' in
      ''vtysh -c '' @ [apostrophe] @ ''show running-config'' @ [apostrophe] @ '' | grep '' @ [apostrophe] @
      pattern @ [apostrophe] @ '' | while read -r l; do vtysh -c '' @ [apostrophe] @
      ''configure terminal'' @ [apostrophe] @ '' -c '' @ [dquote] @ ''no $l'' @ [dquote] @ ''; done'')"

text \<open>The range with its host bits set; the mask of an IPv4-mapped prefix has sixteen bytes.\<close>

definition frr_range_prefix :: "string \<Rightarrow> string" where
  "frr_range_prefix cidr =
     (case parse_cidr cidr of
        None \<Rightarrow> cidr
      | Some an \<Rightarrow>
          (case to4_bytes (network_ip an) of
             None \<Rightarrow> cidr
           | Some b \<Rightarrow>
               join_with ''.'' (map nat_str (map2 (\<lambda>x m. or x (255 - m)) b (mask_parts 8 (snd an) [255, 255, 255, 255]))) @
               ''/'' @ nat_str (snd an)))"

subsection \<open>Start-up and daemons\<close>

definition frr_startup_commands :: "string list" where
  "frr_startup_commands =
     (let sed = [] in
      let sed = sed @ concat (map (\<lambda>d. [''s/^'' @ d @ ''=no/'' @ d @ ''=yes/''])
        frr_daemons) in
      [''sh'', ''-c'', ''sed -i '' @ [apostrophe] @ join_with ''; '' sed @ [apostrophe] @
        '' /etc/frr/daemons && touch /etc/frr/frr.conf /etc/frr/vtysh.conf && '' @
        ''chown frr:frr /etc/frr/frr.conf /etc/frr/vtysh.conf && exec /sbin/tini -- /usr/lib/frr/docker-start''])"

subsection \<open>Routes\<close>

definition frr_ensure_route :: "string \<Rightarrow> string \<Rightarrow> string \<Rightarrow> string" where
  "frr_ensure_route prefix via dev =
     (let line = frr_route_line prefix via dev in
      ''{ vtysh -c '' @ [apostrophe] @ ''show running-config'' @ [apostrophe] @ '' | grep -qxF ''
        @ [apostrophe] @ line @ [apostrophe] @ '' || { '' @ frr_clear_prefix prefix @
        '' && vtysh -c '' @ [apostrophe] @ ''configure terminal'' @ [apostrophe] @ '' -c '' @
        [apostrophe] @ line @ [apostrophe] @ ''; }; }'')"

definition frr_drop_pod_default :: "bool \<Rightarrow> string" where
  "frr_drop_pod_default v6 =
     (let ip = ''ip'' in
      let ip = (if v6 then ''ip -6'' else ip) in
      ''{ ! '' @ ip @ '' -o route show default dev eth0 | grep -q . || '' @ ip @
        '' route del default dev eth0; }'')"

definition frr_set_default_route :: "string \<Rightarrow> string list list" where
  "frr_set_default_route gateway =
     (let v6 = is_ipv6 gateway in
      let prefix = ''0.0.0.0/0'' in
      let prefix = (if v6 then ''::/0'' else prefix) in
      [[''sh'', ''-c'', frr_drop_pod_default v6 @ '' && '' @ frr_ensure_route prefix gateway
        []]])"

definition frr_remove_default_route :: "string list list" where
  "frr_remove_default_route =
     [[''sh'', ''-c'', frr_drop_pod_default False @ '' && '' @ frr_clear_prefix ''0.0.0.0/0'']]"

definition frr_remove_default_route6 :: "string list list" where
  "frr_remove_default_route6 =
     [[''sh'', ''-c'', frr_drop_pod_default True @ '' && '' @ frr_clear_prefix ''::/0'']]"

definition frr_add_static_route :: "string \<Rightarrow> string \<Rightarrow> string \<Rightarrow> string list list" where
  "frr_add_static_route dst_cidr via dev =
     [[''sh'', ''-c'', frr_ensure_route dst_cidr via dev]]"

definition frr_remove_static_route :: "string \<Rightarrow> string \<Rightarrow> string \<Rightarrow> string list list" where
  "frr_remove_static_route dst_cidr via dev =
     [[''vtysh'', ''-c'', ''configure terminal'', ''-c'', ''no '' @ frr_route_line dst_cidr via
       dev]]"

subsection \<open>OSPF\<close>

definition frr_ospf_add_network :: "string \<Rightarrow> string \<Rightarrow> string list list" where
  "frr_ospf_add_network network area =
     [[''vtysh'', ''-c'', ''configure terminal'', ''-c'', ''router ospf'', ''-c'', ''network '' @
       network @ '' area '' @ area]]"

definition frr_ospf_remove_network :: "string \<Rightarrow> string \<Rightarrow> string list list" where
  "frr_ospf_remove_network network area =
     [[''vtysh'', ''-c'', ''configure terminal'', ''-c'', ''router ospf'', ''-c'',
       ''no network '' @ network @ '' area '' @ area]]"

definition frr_ospf_set_router_id :: "string \<Rightarrow> string list list" where
  "frr_ospf_set_router_id router_id =
     [[''vtysh'', ''-c'', ''configure terminal'', ''-c'', ''router ospf'', ''-c'',
       ''ospf router-id '' @ router_id]]"

definition frr_ospf_remove_router_id :: "string list list" where
  "frr_ospf_remove_router_id =
     [[''vtysh'', ''-c'', ''configure terminal'', ''-c'', ''router ospf'', ''-c'',
       ''no ospf router-id'']]"

definition frr_ospf_passive_default :: "string list list" where
  "frr_ospf_passive_default =
     [[''vtysh'', ''-c'', ''configure terminal'', ''-c'', ''router ospf'', ''-c'',
       ''passive-interface default'']]"

definition frr_ospf_remove_passive_default :: "string list list" where
  "frr_ospf_remove_passive_default =
     [[''vtysh'', ''-c'', ''configure terminal'', ''-c'', ''router ospf'', ''-c'',
       ''no passive-interface default'']]"

definition frr_ospf_no_passive :: "string \<Rightarrow> string list list" where
  "frr_ospf_no_passive iface =
     [[''vtysh'', ''-c'', ''configure terminal'', ''-c'', ''router ospf'', ''-c'',
       ''no passive-interface '' @ iface]]"

definition frr_ospf_remove_no_passive :: "string \<Rightarrow> string list list" where
  "frr_ospf_remove_no_passive iface =
     [[''vtysh'', ''-c'', ''configure terminal'', ''-c'', ''router ospf'', ''-c'',
       ''passive-interface '' @ iface]]"

definition frr_ospf_originate_default :: "string list list" where
  "frr_ospf_originate_default =
     [[''vtysh'', ''-c'', ''configure terminal'', ''-c'', ''router ospf'', ''-c'',
       ''default-information originate always'']]"

definition frr_ospf_remove_originate_default :: "string list list" where
  "frr_ospf_remove_originate_default =
     [[''vtysh'', ''-c'', ''configure terminal'', ''-c'', ''router ospf'', ''-c'',
       ''no default-information originate'']]"

definition frr_ospf_mtu_ignore :: "string \<Rightarrow> string list list" where
  "frr_ospf_mtu_ignore iface =
     [[''vtysh'', ''-c'', ''configure terminal'', ''-c'', ''interface '' @ iface, ''-c'',
       ''ip ospf mtu-ignore'']]"

definition frr_ospf_remove_mtu_ignore :: "string \<Rightarrow> string list list" where
  "frr_ospf_remove_mtu_ignore iface =
     [[''vtysh'', ''-c'', ''configure terminal'', ''-c'', ''interface '' @ iface, ''-c'',
       ''no ip ospf mtu-ignore'']]"

definition frr_ospf_redistribute :: "string \<Rightarrow> string list list" where
  "frr_ospf_redistribute source =
     [[''vtysh'', ''-c'', ''configure terminal'', ''-c'', ''router ospf'', ''-c'',
       ''redistribute '' @ source]]"

definition frr_ospf_remove_redistribute :: "string \<Rightarrow> string list list" where
  "frr_ospf_remove_redistribute source =
     [[''vtysh'', ''-c'', ''configure terminal'', ''-c'', ''router ospf'', ''-c'',
       ''no redistribute '' @ source]]"

definition frr_ospf_iface :: "string \<Rightarrow> string list \<Rightarrow> string list list" where
  "frr_ospf_iface iface lines =
     (let cmd = [''vtysh'', ''-c'', ''configure terminal'', ''-c'', ''interface '' @ iface] in
      let cmd = cmd @ concat (map (\<lambda>l. [''-c'', l]) lines) in
      [cmd])"

definition frr_ospf_set_cost :: "string \<Rightarrow> int \<Rightarrow> string list list" where
  "frr_ospf_set_cost iface cost =
     frr_ospf_iface iface [''ip ospf cost '' @ int_str cost]"

definition frr_ospf_remove_cost :: "string \<Rightarrow> string list list" where
  "frr_ospf_remove_cost iface =
     frr_ospf_iface iface [''no ip ospf cost'']"

definition frr_ospf_set_priority :: "string \<Rightarrow> int \<Rightarrow> string list list" where
  "frr_ospf_set_priority iface priority =
     frr_ospf_iface iface [''ip ospf priority '' @ int_str priority]"

definition frr_ospf_remove_priority :: "string \<Rightarrow> string list list" where
  "frr_ospf_remove_priority iface =
     frr_ospf_iface iface [''no ip ospf priority'']"

definition frr_ospf_set_timers :: "string \<Rightarrow> int \<Rightarrow> int \<Rightarrow> string list list" where
  "frr_ospf_set_timers iface hello dead =
     frr_ospf_iface iface [''ip ospf hello-interval '' @ int_str hello,
       ''ip ospf dead-interval '' @ int_str dead]"

definition frr_ospf_remove_timers :: "string \<Rightarrow> string list list" where
  "frr_ospf_remove_timers iface =
     frr_ospf_iface iface [''no ip ospf hello-interval'', ''no ip ospf dead-interval'']"

definition frr_ospf_set_network_type :: "string \<Rightarrow> string \<Rightarrow> string list list" where
  "frr_ospf_set_network_type iface network_type =
     frr_ospf_iface iface [''ip ospf network '' @ network_type]"

definition frr_ospf_remove_network_type :: "string \<Rightarrow> string list list" where
  "frr_ospf_remove_network_type iface =
     frr_ospf_iface iface [''no ip ospf network'']"

definition frr_ospf :: "string \<Rightarrow> string list list" where
  "frr_ospf line =
     [[''vtysh'', ''-c'', ''configure terminal'', ''-c'', ''router ospf'', ''-c'', line]]"

definition frr_area_type :: "string \<Rightarrow> string" where
  "frr_area_type area_type =
     (if area_type = ''totally-stub'' then ''stub no-summary'' else if area_type =
        ''totally-nssa'' then ''nssa no-summary'' else area_type)"

definition frr_ospf_set_area_type :: "string \<Rightarrow> string \<Rightarrow> string list list" where
  "frr_ospf_set_area_type area area_type =
     (if \<not> has_prefix area_type ''totally-'' then frr_ospf (''area '' @ area @ '' '' @
        frr_area_type area_type) else let kind = trim_prefix ''totally-'' area_type in
      [[''sh'', ''-c'', ''vtysh -c '' @ [apostrophe] @ ''configure terminal'' @ [apostrophe] @
        '' -c '' @ [apostrophe] @ ''router ospf'' @ [apostrophe] @ '' -c '' @ [apostrophe] @
        ''no area '' @ area @ '' '' @ kind @ [apostrophe] @ '' >/dev/null 2>&1; vtysh -c '' @
        [apostrophe] @ ''configure terminal'' @ [apostrophe] @ '' -c '' @ [apostrophe] @
        ''router ospf'' @ [apostrophe] @ '' -c '' @ [apostrophe] @ ''area '' @ area @ '' '' @
        frr_area_type area_type @ [apostrophe]]])"

definition frr_ospf_remove_area_type :: "string \<Rightarrow> string \<Rightarrow> string list list" where
  "frr_ospf_remove_area_type area area_type =
     (let kind = ''stub'' in
      let kind = (if has_suffix area_type ''nssa'' then ''nssa'' else kind) in
      frr_ospf (''no area '' @ area @ '' '' @ kind))"

definition frr_ospf_add_area_range :: "string \<Rightarrow> string \<Rightarrow> string list list" where
  "frr_ospf_add_area_range area cidr =
     frr_ospf (''area '' @ area @ '' range '' @ frr_range_prefix cidr)"

definition frr_ospf_remove_area_range :: "string \<Rightarrow> string \<Rightarrow> string list list" where
  "frr_ospf_remove_area_range area cidr =
     frr_ospf (''no area '' @ area @ '' range '' @ frr_range_prefix cidr)"

definition frr_ospf_set_authentication :: "string \<Rightarrow> string \<Rightarrow> string \<Rightarrow> int \<Rightarrow> string list list" where
  "frr_ospf_set_authentication iface auth_type key key_id =
     (if auth_type = ''md5'' then frr_ospf_iface iface
        [''ip ospf authentication message-digest'', ''ip ospf message-digest-key '' @ int_str
        key_id @ '' md5 '' @ key] else frr_ospf_iface iface [''ip ospf authentication'',
        ''ip ospf authentication-key '' @ key])"

definition frr_ospf_remove_authentication :: "string \<Rightarrow> string \<Rightarrow> int \<Rightarrow> string list list" where
  "frr_ospf_remove_authentication iface auth_type key_id =
     (if auth_type = ''md5'' then frr_ospf_iface iface [''no ip ospf authentication'',
        ''no ip ospf message-digest-key '' @ int_str key_id] else frr_ospf_iface iface
        [''no ip ospf authentication'', ''no ip ospf authentication-key''])"

subsection \<open>OSPFv3\<close>

definition frr_ospf6 :: "string \<Rightarrow> string list list" where
  "frr_ospf6 line =
     [[''vtysh'', ''-c'', ''configure terminal'', ''-c'', ''router ospf6'', ''-c'', line]]"

definition frr_ospf6_iface :: "string \<Rightarrow> string \<Rightarrow> string list list" where
  "frr_ospf6_iface iface line =
     [[''vtysh'', ''-c'', ''configure terminal'', ''-c'', ''interface '' @ iface, ''-c'', line]]"

definition frr_ospf6_set_router_id :: "string \<Rightarrow> string list list" where
  "frr_ospf6_set_router_id router_id =
     frr_ospf6 (''ospf6 router-id '' @ router_id)"

definition frr_ospf6_remove_router_id :: "string list list" where
  "frr_ospf6_remove_router_id =
     frr_ospf6 ''no ospf6 router-id''"

definition frr_ospf6_add_interface :: "string \<Rightarrow> string \<Rightarrow> string list list" where
  "frr_ospf6_add_interface iface area =
     frr_ospf6_iface iface (''ipv6 ospf6 area '' @ area)"

definition frr_ospf6_remove_interface :: "string \<Rightarrow> string \<Rightarrow> string list list" where
  "frr_ospf6_remove_interface iface area =
     frr_ospf6_iface iface (''no ipv6 ospf6 area '' @ area)"

definition frr_ospf6_passive_interface :: "string \<Rightarrow> string list list" where
  "frr_ospf6_passive_interface iface =
     frr_ospf6_iface iface ''ipv6 ospf6 passive''"

definition frr_ospf6_remove_passive_interface :: "string \<Rightarrow> string list list" where
  "frr_ospf6_remove_passive_interface iface =
     frr_ospf6_iface iface ''no ipv6 ospf6 passive''"

definition frr_ospf6_redistribute :: "string \<Rightarrow> string list list" where
  "frr_ospf6_redistribute source =
     frr_ospf6 (''redistribute '' @ source)"

definition frr_ospf6_remove_redistribute :: "string \<Rightarrow> string list list" where
  "frr_ospf6_remove_redistribute source =
     frr_ospf6 (''no redistribute '' @ source)"

definition frr_ospf6_originate_default :: "string list list" where
  "frr_ospf6_originate_default =
     frr_ospf6 ''default-information originate always''"

definition frr_ospf6_remove_originate_default :: "string list list" where
  "frr_ospf6_remove_originate_default =
     frr_ospf6 ''no default-information originate''"

subsection \<open>RIP\<close>

definition frr_rip :: "bool \<Rightarrow> string \<Rightarrow> string list list" where
  "frr_rip v6 line =
     (let router = ''router rip'' in
      let router = (if v6 then ''router ripng'' else router) in
      [[''vtysh'', ''-c'', ''configure terminal'', ''-c'', router, ''-c'', line]])"

definition frr_rip_source :: "string \<Rightarrow> bool \<Rightarrow> string" where
  "frr_rip_source source v6 =
     (if (source = ''ospf'' \<and> v6) then ''ospf6'' else source)"

definition frr_rip_add_network :: "string \<Rightarrow> bool \<Rightarrow> string list list" where
  "frr_rip_add_network network v6 =
     frr_rip v6 (''network '' @ network)"

definition frr_rip_remove_network :: "string \<Rightarrow> bool \<Rightarrow> string list list" where
  "frr_rip_remove_network network v6 =
     frr_rip v6 (''no network '' @ network)"

definition frr_rip_passive_interface :: "string \<Rightarrow> bool \<Rightarrow> string list list" where
  "frr_rip_passive_interface iface v6 =
     frr_rip v6 (''passive-interface '' @ iface)"

definition frr_rip_remove_passive_interface :: "string \<Rightarrow> bool \<Rightarrow> string list list" where
  "frr_rip_remove_passive_interface iface v6 =
     frr_rip v6 (''no passive-interface '' @ iface)"

definition frr_rip_redistribute :: "string \<Rightarrow> bool \<Rightarrow> string list list" where
  "frr_rip_redistribute source v6 =
     frr_rip v6 (''redistribute '' @ frr_rip_source source v6)"

definition frr_rip_remove_redistribute :: "string \<Rightarrow> bool \<Rightarrow> string list list" where
  "frr_rip_remove_redistribute source v6 =
     frr_rip v6 (''no redistribute '' @ frr_rip_source source v6)"

definition frr_rip_set_timers :: "int \<Rightarrow> int \<Rightarrow> int \<Rightarrow> bool \<Rightarrow> string list list" where
  "frr_rip_set_timers update timeout garbage v6 =
     frr_rip v6 (''timers basic '' @ int_str update @ '' '' @ int_str timeout @ '' '' @ int_str
       garbage)"

definition frr_rip_remove_timers :: "bool \<Rightarrow> string list list" where
  "frr_rip_remove_timers v6 =
     frr_rip v6 ''no timers basic''"

subsection \<open>BGP\<close>

definition frr_bgp :: "string list \<Rightarrow> string list list" where
  "frr_bgp lines =
     (let argv = [''vtysh'', ''-c'', ''configure terminal'', ''-c'', ''router bgp''] in
      let argv = argv @ concat (map (\<lambda>l. [''-c'', l]) lines) in
      [argv])"

definition frr_bgp_family :: "bool \<Rightarrow> string list \<Rightarrow> string list list" where
  "frr_bgp_family v6 lines =
     (let af = ''address-family ipv4 unicast'' in
      let af = (if v6 then ''address-family ipv6 unicast'' else af) in
      frr_bgp ([af] @ lines))"

definition frr_v6_source :: "string \<Rightarrow> bool \<Rightarrow> string" where
  "frr_v6_source source v6 =
     (if v6 then if source = ''ospf'' then ''ospf6'' else if source = ''rip'' then ''ripng'' else
        source else source)"

definition frr_bgp_set_router :: "int \<Rightarrow> string \<Rightarrow> string list list" where
  "frr_bgp_set_router asn router_id =
     (let argv = [''vtysh'', ''-c'', ''configure terminal'', ''-c'', ''router bgp '' @ int_str
        asn, ''-c'', ''no bgp ebgp-requires-policy''] in
      let argv = (if router_id \<noteq> [] then argv @ [''-c'', ''bgp router-id '' @ router_id]
        else argv @ [''-c'', ''no bgp router-id'']) in
      [argv])"

definition frr_bgp_remove_router :: "string list list" where
  "frr_bgp_remove_router =
     [[''vtysh'', ''-c'', ''configure terminal'', ''-c'', ''no router bgp'']]"

definition frr_bgp_add_neighbor :: "string \<Rightarrow> int \<Rightarrow> string \<Rightarrow> int \<Rightarrow> bool \<Rightarrow> string list list" where
  "frr_bgp_add_neighbor neighbor remote_as update_source multihop v6 =
     (let lines = [''neighbor '' @ neighbor @ '' remote-as '' @ int_str remote_as] in
      let lines = (if update_source \<noteq> [] then lines @ [''neighbor '' @ neighbor @
        '' update-source '' @ update_source] else lines @ [''no neighbor '' @ neighbor @
        '' update-source'']) in
      let lines = (if multihop > 0 then lines @ [''neighbor '' @ neighbor @ '' ebgp-multihop '' @
        int_str multihop] else lines @ [''no neighbor '' @ neighbor @ '' ebgp-multihop'']) in
      let af = ''address-family ipv4 unicast'' in
      let af = (if v6 then ''address-family ipv6 unicast'' else af) in
      let lines = lines @ [af, ''neighbor '' @ neighbor @ '' activate''] in
      frr_bgp lines)"

definition frr_bgp_remove_neighbor :: "string \<Rightarrow> string list list" where
  "frr_bgp_remove_neighbor neighbor =
     frr_bgp [''no neighbor '' @ neighbor]"

definition frr_bgp_add_network :: "string \<Rightarrow> bool \<Rightarrow> string list list" where
  "frr_bgp_add_network network v6 =
     frr_bgp_family v6 [''network '' @ network]"

definition frr_bgp_remove_network :: "string \<Rightarrow> bool \<Rightarrow> string list list" where
  "frr_bgp_remove_network network v6 =
     frr_bgp_family v6 [''no network '' @ network]"

definition frr_bgp_redistribute :: "string \<Rightarrow> bool \<Rightarrow> string list list" where
  "frr_bgp_redistribute source v6 =
     frr_bgp_family v6 [''redistribute '' @ frr_v6_source source v6]"

definition frr_bgp_remove_redistribute :: "string \<Rightarrow> bool \<Rightarrow> string list list" where
  "frr_bgp_remove_redistribute source v6 =
     frr_bgp_family v6 [''no redistribute '' @ frr_v6_source source v6]"

subsection \<open>IS-IS\<close>

definition frr_isis :: "string list \<Rightarrow> string list list" where
  "frr_isis lines =
     (let argv = [''vtysh'', ''-c'', ''configure terminal'', ''-c'', ''router isis '' @
        frr_isis_tag] in
      let argv = argv @ concat (map (\<lambda>l. [''-c'', l]) lines) in
      [argv])"

definition frr_isis_iface :: "string \<Rightarrow> string list \<Rightarrow> string list list" where
  "frr_isis_iface iface lines =
     (let argv = [''vtysh'', ''-c'', ''configure terminal'', ''-c'', ''interface '' @ iface] in
      let argv = argv @ concat (map (\<lambda>l. [''-c'', l]) lines) in
      [argv])"

definition frr_isis_level :: "string \<Rightarrow> string" where
  "frr_isis_level level =
     (if level = ''level-2'' then ''level-2-only'' else level)"

definition frr_isis_set_router :: "string \<Rightarrow> string \<Rightarrow> string list list" where
  "frr_isis_set_router net level =
     (let mtu = ''lsp-mtu '' @ int_str isis_lsp_mtu in
      if level = [] then frr_isis [''net '' @ net, mtu, ''no is-type''] else frr_isis [''net '' @
        net, mtu, ''is-type '' @ frr_isis_level level])"

definition frr_isis_remove_router :: "string list list" where
  "frr_isis_remove_router =
     [[''sh'', ''-c'', ''vtysh -c '' @ [apostrophe] @ ''configure terminal'' @ [apostrophe] @
       '' -c '' @ [apostrophe] @ ''no router isis '' @ frr_isis_tag @ [apostrophe] @
       ''; for p in '' @ [apostrophe] @ ''^ isis '' @ [apostrophe] @ '' '' @ [apostrophe] @
       ''^ (ip|ipv6) router isis '' @ [apostrophe] @ ''; do vtysh -c '' @ [apostrophe] @
       ''show running-config'' @ [apostrophe] @ '' | awk -v p='' @ [dquote] @ ''$p'' @ [dquote] @
       '' '' @ [apostrophe] @ ''/^interface /{i=$2} $0 ~ p {print i'' @ [dquote] @ '' '' @
       [dquote] @ ''$0}'' @ [apostrophe] @ '' | while read -r i l; do vtysh -c '' @ [apostrophe]
       @ ''configure terminal'' @ [apostrophe] @ '' -c '' @ [dquote] @ ''interface $i'' @
       [dquote] @ '' -c '' @ [dquote] @ ''no $l'' @ [dquote] @ ''; done; done'']]"

definition frr_isis_add_interface :: "string \<Rightarrow> string \<Rightarrow> bool \<Rightarrow> bool \<Rightarrow> string list list" where
  "frr_isis_add_interface iface level v4 v6 =
     (let lines = [] in
      let lines = (if v4 then lines @ [''ip router isis '' @ frr_isis_tag] else lines) in
      let lines = (if v6 then lines @ [''ipv6 router isis '' @ frr_isis_tag] else lines) in
      let lines = (if \<not> v4 then lines @ [''no ip router isis '' @ frr_isis_tag] else lines)
        in
      let lines = (if \<not> v6 then lines @ [''no ipv6 router isis '' @ frr_isis_tag] else
        lines) in
      let lines = (if level = [] then lines @ [''no isis circuit-type''] else lines @
        [''isis circuit-type '' @ frr_isis_level level]) in
      frr_isis_iface iface lines)"

definition frr_isis_remove_interface :: "string \<Rightarrow> string list list" where
  "frr_isis_remove_interface iface =
     [[''sh'', ''-c'', ''if vtysh -c '' @ [apostrophe] @ ''show running-config'' @ [apostrophe] @
       '' | awk -v i='' @ iface @ '' '' @ [apostrophe] @ ''$0=='' @ [dquote] @ ''interface '' @
       [dquote] @ ''i{f=1;next} /^exit/{f=0} f && / router isis /{m=1} END{exit !m}'' @
       [apostrophe] @ ''; then vtysh -c '' @ [apostrophe] @ ''configure terminal'' @ [apostrophe]
       @ '' -c '' @ [apostrophe] @ ''interface '' @ iface @ [apostrophe] @ '' -c '' @
       [apostrophe] @ ''no isis passive'' @ [apostrophe] @ '' -c '' @ [apostrophe] @
       ''no isis metric'' @ [apostrophe] @ '' -c '' @ [apostrophe] @ ''no isis circuit-type'' @
       [apostrophe] @ '' -c '' @ [apostrophe] @ ''no isis network point-to-point'' @ [apostrophe]
       @ '' -c '' @ [apostrophe] @ ''no ip router isis '' @ frr_isis_tag @ [apostrophe] @
       '' -c '' @ [apostrophe] @ ''no ipv6 router isis '' @ frr_isis_tag @ [apostrophe] @
       ''; fi'']]"

definition frr_isis_passive_interface :: "string \<Rightarrow> string list list" where
  "frr_isis_passive_interface iface =
     frr_isis_iface iface [''isis passive'']"

definition frr_isis_remove_passive_interface :: "string \<Rightarrow> string list list" where
  "frr_isis_remove_passive_interface iface =
     frr_isis_iface iface [''no isis passive'']"

definition frr_isis_set_metric :: "string \<Rightarrow> int \<Rightarrow> string list list" where
  "frr_isis_set_metric iface metric =
     frr_isis_iface iface [''isis metric '' @ int_str metric]"

definition frr_isis_remove_metric :: "string \<Rightarrow> string list list" where
  "frr_isis_remove_metric iface =
     frr_isis_iface iface [''no isis metric'']"

definition frr_isis_set_network_type :: "string \<Rightarrow> string \<Rightarrow> string list list" where
  "frr_isis_set_network_type iface network_type =
     (if network_type = ''point-to-point'' then frr_isis_iface iface
        [''isis network point-to-point''] else frr_isis_iface iface
        [''no isis network point-to-point''])"

definition frr_isis_remove_network_type :: "string \<Rightarrow> string list list" where
  "frr_isis_remove_network_type iface =
     frr_isis_iface iface [''no isis network point-to-point'']"

definition frr_isis_family :: "bool \<Rightarrow> string" where
  "frr_isis_family v6 =
     (if v6 then ''ipv6'' else ''ipv4'')"

definition frr_isis_redistribute :: "string \<Rightarrow> string \<Rightarrow> bool \<Rightarrow> string list list" where
  "frr_isis_redistribute source level v6 =
     frr_isis [''redistribute '' @ frr_isis_family v6 @ '' '' @ frr_v6_source source v6 @ '' '' @
       level]"

definition frr_isis_remove_redistribute :: "string \<Rightarrow> string \<Rightarrow> bool \<Rightarrow> string list list" where
  "frr_isis_remove_redistribute source level v6 =
     frr_isis [''no redistribute '' @ frr_isis_family v6 @ '' '' @ frr_v6_source source v6 @
       '' '' @ level]"

section \<open>Methods by name\<close>

definition frr_route_methods :: "(string \<times> (arg list \<Rightarrow> build)) list" where
  "frr_route_methods =
     [(''SetDefaultRoute'', on_s frr_set_default_route),
      (''RemoveDefaultRoute'', on_args0 frr_remove_default_route),
      (''RemoveDefaultRoute6'', on_args0 frr_remove_default_route6),
      (''AddStaticRoute'', on_sss frr_add_static_route),
      (''RemoveStaticRoute'', on_sss frr_remove_static_route)]"

definition frr_ospf_methods :: "(string \<times> (arg list \<Rightarrow> build)) list" where
  "frr_ospf_methods =
     [(''OSPFAddNetwork'', on_ss frr_ospf_add_network),
      (''OSPFRemoveNetwork'', on_ss frr_ospf_remove_network),
      (''OSPFSetRouterID'', on_s frr_ospf_set_router_id),
      (''OSPFRemoveRouterID'', on_args0 frr_ospf_remove_router_id),
      (''OSPFPassiveDefault'', on_args0 frr_ospf_passive_default),
      (''OSPFRemovePassiveDefault'', on_args0 frr_ospf_remove_passive_default),
      (''OSPFNoPassive'', on_s frr_ospf_no_passive),
      (''OSPFRemoveNoPassive'', on_s frr_ospf_remove_no_passive),
      (''OSPFOriginateDefault'', on_args0 frr_ospf_originate_default),
      (''OSPFRemoveOriginateDefault'', on_args0 frr_ospf_remove_originate_default),
      (''OSPFMTUIgnore'', on_s frr_ospf_mtu_ignore),
      (''OSPFRemoveMTUIgnore'', on_s frr_ospf_remove_mtu_ignore),
      (''OSPFRedistribute'', on_s frr_ospf_redistribute),
      (''OSPFRemoveRedistribute'', on_s frr_ospf_remove_redistribute),
      (''OSPFSetCost'', on_si frr_ospf_set_cost),
      (''OSPFRemoveCost'', on_s frr_ospf_remove_cost),
      (''OSPFSetPriority'', on_si frr_ospf_set_priority),
      (''OSPFRemovePriority'', on_s frr_ospf_remove_priority),
      (''OSPFSetTimers'', \<lambda>as. case as of [AStr x, AInt y, AInt z] \<Rightarrow> Rows (frr_ospf_set_timers x y z) | _ \<Rightarrow> NoMethod),
      (''OSPFRemoveTimers'', on_s frr_ospf_remove_timers),
      (''OSPFSetNetworkType'', on_ss frr_ospf_set_network_type),
      (''OSPFRemoveNetworkType'', on_s frr_ospf_remove_network_type),
      (''OSPFSetAreaType'', on_ss frr_ospf_set_area_type),
      (''OSPFRemoveAreaType'', on_ss frr_ospf_remove_area_type),
      (''OSPFAddAreaRange'', on_ss frr_ospf_add_area_range),
      (''OSPFRemoveAreaRange'', on_ss frr_ospf_remove_area_range),
      (''OSPFSetAuthentication'', \<lambda>as. case as of [AStr x, AStr y, AStr z, AInt u] \<Rightarrow> Rows (frr_ospf_set_authentication x y z u) | _ \<Rightarrow> NoMethod),
      (''OSPFRemoveAuthentication'', \<lambda>as. case as of [AStr x, AStr y, AInt z] \<Rightarrow> Rows (frr_ospf_remove_authentication x y z) | _ \<Rightarrow> NoMethod)]"

definition frr_ospf6_methods :: "(string \<times> (arg list \<Rightarrow> build)) list" where
  "frr_ospf6_methods =
     [(''OSPF6SetRouterID'', on_s frr_ospf6_set_router_id),
      (''OSPF6RemoveRouterID'', on_args0 frr_ospf6_remove_router_id),
      (''OSPF6AddInterface'', on_ss frr_ospf6_add_interface),
      (''OSPF6RemoveInterface'', on_ss frr_ospf6_remove_interface),
      (''OSPF6PassiveInterface'', on_s frr_ospf6_passive_interface),
      (''OSPF6RemovePassiveInterface'', on_s frr_ospf6_remove_passive_interface),
      (''OSPF6Redistribute'', on_s frr_ospf6_redistribute),
      (''OSPF6RemoveRedistribute'', on_s frr_ospf6_remove_redistribute),
      (''OSPF6OriginateDefault'', on_args0 frr_ospf6_originate_default),
      (''OSPF6RemoveOriginateDefault'', on_args0 frr_ospf6_remove_originate_default)]"

definition frr_rip_methods :: "(string \<times> (arg list \<Rightarrow> build)) list" where
  "frr_rip_methods =
     [(''RIPAddNetwork'', on_sb frr_rip_add_network),
      (''RIPRemoveNetwork'', on_sb frr_rip_remove_network),
      (''RIPPassiveInterface'', on_sb frr_rip_passive_interface),
      (''RIPRemovePassiveInterface'', on_sb frr_rip_remove_passive_interface),
      (''RIPRedistribute'', on_sb frr_rip_redistribute),
      (''RIPRemoveRedistribute'', on_sb frr_rip_remove_redistribute),
      (''RIPSetTimers'', \<lambda>as. case as of [AInt x, AInt y, AInt z, ABool u] \<Rightarrow> Rows (frr_rip_set_timers x y z u) | _ \<Rightarrow> NoMethod),
      (''RIPRemoveTimers'', \<lambda>as. case as of [ABool x] \<Rightarrow> Rows (frr_rip_remove_timers x) | _ \<Rightarrow> NoMethod)]"

definition frr_bgp_methods :: "(string \<times> (arg list \<Rightarrow> build)) list" where
  "frr_bgp_methods =
     [(''BGPSetRouter'', \<lambda>as. case as of [AInt x, AStr y] \<Rightarrow> Rows (frr_bgp_set_router x y) | _ \<Rightarrow> NoMethod),
      (''BGPRemoveRouter'', on_args0 frr_bgp_remove_router),
      (''BGPAddNeighbor'', \<lambda>as. case as of [AStr x, AInt y, AStr z, AInt u, ABool w] \<Rightarrow> Rows (frr_bgp_add_neighbor x y z u w) | _ \<Rightarrow> NoMethod),
      (''BGPRemoveNeighbor'', on_s frr_bgp_remove_neighbor),
      (''BGPAddNetwork'', on_sb frr_bgp_add_network),
      (''BGPRemoveNetwork'', on_sb frr_bgp_remove_network),
      (''BGPRedistribute'', on_sb frr_bgp_redistribute),
      (''BGPRemoveRedistribute'', on_sb frr_bgp_remove_redistribute)]"

definition frr_isis_methods :: "(string \<times> (arg list \<Rightarrow> build)) list" where
  "frr_isis_methods =
     [(''ISISSetRouter'', on_ss frr_isis_set_router),
      (''ISISRemoveRouter'', on_args0 frr_isis_remove_router),
      (''ISISAddInterface'', \<lambda>as. case as of [AStr x, AStr y, ABool z, ABool u] \<Rightarrow> Rows (frr_isis_add_interface x y z u) | _ \<Rightarrow> NoMethod),
      (''ISISRemoveInterface'', on_s frr_isis_remove_interface),
      (''ISISPassiveInterface'', on_s frr_isis_passive_interface),
      (''ISISRemovePassiveInterface'', on_s frr_isis_remove_passive_interface),
      (''ISISSetMetric'', on_si frr_isis_set_metric),
      (''ISISRemoveMetric'', on_s frr_isis_remove_metric),
      (''ISISSetNetworkType'', on_ss frr_isis_set_network_type),
      (''ISISRemoveNetworkType'', on_s frr_isis_remove_network_type),
      (''ISISRedistribute'', \<lambda>as. case as of [AStr x, AStr y, ABool z] \<Rightarrow> Rows (frr_isis_redistribute x y z) | _ \<Rightarrow> NoMethod),
      (''ISISRemoveRedistribute'', \<lambda>as. case as of [AStr x, AStr y, ABool z] \<Rightarrow> Rows (frr_isis_remove_redistribute x y z) | _ \<Rightarrow> NoMethod)]"

text \<open>The methods the driver declares come before those of the structs it embeds.\<close>

definition frr_own_methods :: "(string \<times> (arg list \<Rightarrow> build)) list" where
  "frr_own_methods =
     frr_route_methods @
     frr_ospf_methods @
     frr_ospf6_methods @
     frr_rip_methods @
     frr_bgp_methods @
     frr_isis_methods"

definition frr_methods :: "(string \<times> (arg list \<Rightarrow> build)) list" where
  "frr_methods = frr_own_methods @ linux_methods"

definition frr_rows :: "cap_call \<Rightarrow> build" where
  "frr_rows = rows_with frr_methods"

lemmas frr_methods_defs =
  frr_own_methods_def frr_route_methods_def frr_ospf_methods_def frr_ospf6_methods_def
  frr_rip_methods_def frr_bgp_methods_def frr_isis_methods_def

lemma frr_own_names:
  "map fst frr_own_methods =
     [''SetDefaultRoute'', ''RemoveDefaultRoute'', ''RemoveDefaultRoute6'', ''AddStaticRoute'',
      ''RemoveStaticRoute'', ''OSPFAddNetwork'', ''OSPFRemoveNetwork'', ''OSPFSetRouterID'',
      ''OSPFRemoveRouterID'', ''OSPFPassiveDefault'', ''OSPFRemovePassiveDefault'',
      ''OSPFNoPassive'', ''OSPFRemoveNoPassive'', ''OSPFOriginateDefault'',
      ''OSPFRemoveOriginateDefault'', ''OSPFMTUIgnore'', ''OSPFRemoveMTUIgnore'',
      ''OSPFRedistribute'', ''OSPFRemoveRedistribute'', ''OSPFSetCost'', ''OSPFRemoveCost'',
      ''OSPFSetPriority'', ''OSPFRemovePriority'', ''OSPFSetTimers'', ''OSPFRemoveTimers'',
      ''OSPFSetNetworkType'', ''OSPFRemoveNetworkType'', ''OSPFSetAreaType'',
      ''OSPFRemoveAreaType'', ''OSPFAddAreaRange'', ''OSPFRemoveAreaRange'',
      ''OSPFSetAuthentication'', ''OSPFRemoveAuthentication'', ''OSPF6SetRouterID'',
      ''OSPF6RemoveRouterID'', ''OSPF6AddInterface'', ''OSPF6RemoveInterface'',
      ''OSPF6PassiveInterface'', ''OSPF6RemovePassiveInterface'', ''OSPF6Redistribute'',
      ''OSPF6RemoveRedistribute'', ''OSPF6OriginateDefault'', ''OSPF6RemoveOriginateDefault'',
      ''RIPAddNetwork'', ''RIPRemoveNetwork'', ''RIPPassiveInterface'',
      ''RIPRemovePassiveInterface'', ''RIPRedistribute'', ''RIPRemoveRedistribute'',
      ''RIPSetTimers'', ''RIPRemoveTimers'', ''BGPSetRouter'', ''BGPRemoveRouter'',
      ''BGPAddNeighbor'', ''BGPRemoveNeighbor'', ''BGPAddNetwork'', ''BGPRemoveNetwork'',
      ''BGPRedistribute'', ''BGPRemoveRedistribute'', ''ISISSetRouter'', ''ISISRemoveRouter'',
      ''ISISAddInterface'', ''ISISRemoveInterface'', ''ISISPassiveInterface'',
      ''ISISRemovePassiveInterface'', ''ISISSetMetric'', ''ISISRemoveMetric'',
      ''ISISSetNetworkType'', ''ISISRemoveNetworkType'', ''ISISRedistribute'',
      ''ISISRemoveRedistribute'']"
  by (simp add: frr_methods_defs)

lemma frr_distinct: "distinct (map fst frr_own_methods)"
proof (rule distinct_by_sort)
  show "increasing_str (msort_str 7 (map fst frr_own_methods))" unfolding frr_own_names by code_simp
qed

lemma frr_parts:
  "set frr_route_methods \<subseteq> set frr_own_methods"
  "set frr_ospf_methods \<subseteq> set frr_own_methods"
  "set frr_ospf6_methods \<subseteq> set frr_own_methods"
  "set frr_rip_methods \<subseteq> set frr_own_methods"
  "set frr_bgp_methods \<subseteq> set frr_own_methods"
  "set frr_isis_methods \<subseteq> set frr_own_methods"
  by (auto simp: frr_own_methods_def)

lemma frr_rows_own: "rows_with frr_own_methods (Call m as) = Rows r \<Longrightarrow> frr_rows (Call m as) = Rows r"
  by (auto simp: frr_rows_def frr_methods_def rows_with_def split: option.splits)

lemma frr_rows_base: "m \<notin> set (map fst frr_own_methods) \<Longrightarrow> frr_rows (Call m as) = linux_rows (Call m as)"
  by (simp add: frr_rows_def frr_methods_def linux_rows_def rows_with_def map_add_dom_app_simps(3) dom_map_of_conv_image_fst)

lemma frr_rows_commands [simp]: "frr_rows (Commands cs) = Rows cs"
  by (simp add: frr_rows_def rows_with_def)

lemma frr_route_rows [simp]:
  "frr_rows (Call ''SetDefaultRoute'' [AStr s0]) = Rows (frr_set_default_route s0)"
  "frr_rows (Call ''RemoveDefaultRoute'' []) = Rows frr_remove_default_route"
  "frr_rows (Call ''RemoveDefaultRoute6'' []) = Rows frr_remove_default_route6"
  "frr_rows (Call ''AddStaticRoute'' [AStr s0, AStr s1, AStr s2]) = Rows (frr_add_static_route s0 s1 s2)"
  "frr_rows (Call ''RemoveStaticRoute'' [AStr s0, AStr s1, AStr s2]) = Rows (frr_remove_static_route s0 s1 s2)"
  by (rule frr_rows_own, subst rows_with_part [OF frr_distinct frr_parts(1)], (simp add: frr_route_methods_def; fail),
    simp add: on_args_defs)+

lemma frr_ospf_rows [simp]:
  "frr_rows (Call ''OSPFAddNetwork'' [AStr s0, AStr s1]) = Rows (frr_ospf_add_network s0 s1)"
  "frr_rows (Call ''OSPFRemoveNetwork'' [AStr s0, AStr s1]) = Rows (frr_ospf_remove_network s0 s1)"
  "frr_rows (Call ''OSPFSetRouterID'' [AStr s0]) = Rows (frr_ospf_set_router_id s0)"
  "frr_rows (Call ''OSPFRemoveRouterID'' []) = Rows frr_ospf_remove_router_id"
  "frr_rows (Call ''OSPFPassiveDefault'' []) = Rows frr_ospf_passive_default"
  "frr_rows (Call ''OSPFRemovePassiveDefault'' []) = Rows frr_ospf_remove_passive_default"
  "frr_rows (Call ''OSPFNoPassive'' [AStr s0]) = Rows (frr_ospf_no_passive s0)"
  "frr_rows (Call ''OSPFRemoveNoPassive'' [AStr s0]) = Rows (frr_ospf_remove_no_passive s0)"
  "frr_rows (Call ''OSPFOriginateDefault'' []) = Rows frr_ospf_originate_default"
  "frr_rows (Call ''OSPFRemoveOriginateDefault'' []) = Rows frr_ospf_remove_originate_default"
  "frr_rows (Call ''OSPFMTUIgnore'' [AStr s0]) = Rows (frr_ospf_mtu_ignore s0)"
  "frr_rows (Call ''OSPFRemoveMTUIgnore'' [AStr s0]) = Rows (frr_ospf_remove_mtu_ignore s0)"
  "frr_rows (Call ''OSPFRedistribute'' [AStr s0]) = Rows (frr_ospf_redistribute s0)"
  "frr_rows (Call ''OSPFRemoveRedistribute'' [AStr s0]) = Rows (frr_ospf_remove_redistribute s0)"
  "frr_rows (Call ''OSPFSetCost'' [AStr s0, AInt n1]) = Rows (frr_ospf_set_cost s0 n1)"
  "frr_rows (Call ''OSPFRemoveCost'' [AStr s0]) = Rows (frr_ospf_remove_cost s0)"
  "frr_rows (Call ''OSPFSetPriority'' [AStr s0, AInt n1]) = Rows (frr_ospf_set_priority s0 n1)"
  "frr_rows (Call ''OSPFRemovePriority'' [AStr s0]) = Rows (frr_ospf_remove_priority s0)"
  "frr_rows (Call ''OSPFSetTimers'' [AStr s0, AInt n1, AInt n2]) = Rows (frr_ospf_set_timers s0 n1 n2)"
  "frr_rows (Call ''OSPFRemoveTimers'' [AStr s0]) = Rows (frr_ospf_remove_timers s0)"
  "frr_rows (Call ''OSPFSetNetworkType'' [AStr s0, AStr s1]) = Rows (frr_ospf_set_network_type s0 s1)"
  "frr_rows (Call ''OSPFRemoveNetworkType'' [AStr s0]) = Rows (frr_ospf_remove_network_type s0)"
  "frr_rows (Call ''OSPFSetAreaType'' [AStr s0, AStr s1]) = Rows (frr_ospf_set_area_type s0 s1)"
  "frr_rows (Call ''OSPFRemoveAreaType'' [AStr s0, AStr s1]) = Rows (frr_ospf_remove_area_type s0 s1)"
  "frr_rows (Call ''OSPFAddAreaRange'' [AStr s0, AStr s1]) = Rows (frr_ospf_add_area_range s0 s1)"
  "frr_rows (Call ''OSPFRemoveAreaRange'' [AStr s0, AStr s1]) = Rows (frr_ospf_remove_area_range s0 s1)"
  "frr_rows (Call ''OSPFSetAuthentication'' [AStr s0, AStr s1, AStr s2, AInt n3]) = Rows (frr_ospf_set_authentication s0 s1 s2 n3)"
  "frr_rows (Call ''OSPFRemoveAuthentication'' [AStr s0, AStr s1, AInt n2]) = Rows (frr_ospf_remove_authentication s0 s1 n2)"
  by (rule frr_rows_own, subst rows_with_part [OF frr_distinct frr_parts(2)], (simp add: frr_ospf_methods_def; fail),
    simp add: on_args_defs)+

lemma frr_ospf6_rows [simp]:
  "frr_rows (Call ''OSPF6SetRouterID'' [AStr s0]) = Rows (frr_ospf6_set_router_id s0)"
  "frr_rows (Call ''OSPF6RemoveRouterID'' []) = Rows frr_ospf6_remove_router_id"
  "frr_rows (Call ''OSPF6AddInterface'' [AStr s0, AStr s1]) = Rows (frr_ospf6_add_interface s0 s1)"
  "frr_rows (Call ''OSPF6RemoveInterface'' [AStr s0, AStr s1]) = Rows (frr_ospf6_remove_interface s0 s1)"
  "frr_rows (Call ''OSPF6PassiveInterface'' [AStr s0]) = Rows (frr_ospf6_passive_interface s0)"
  "frr_rows (Call ''OSPF6RemovePassiveInterface'' [AStr s0]) = Rows (frr_ospf6_remove_passive_interface s0)"
  "frr_rows (Call ''OSPF6Redistribute'' [AStr s0]) = Rows (frr_ospf6_redistribute s0)"
  "frr_rows (Call ''OSPF6RemoveRedistribute'' [AStr s0]) = Rows (frr_ospf6_remove_redistribute s0)"
  "frr_rows (Call ''OSPF6OriginateDefault'' []) = Rows frr_ospf6_originate_default"
  "frr_rows (Call ''OSPF6RemoveOriginateDefault'' []) = Rows frr_ospf6_remove_originate_default"
  by (rule frr_rows_own, subst rows_with_part [OF frr_distinct frr_parts(3)], (simp add: frr_ospf6_methods_def; fail),
    simp add: on_args_defs)+

lemma frr_rip_rows [simp]:
  "frr_rows (Call ''RIPAddNetwork'' [AStr s0, ABool b1]) = Rows (frr_rip_add_network s0 b1)"
  "frr_rows (Call ''RIPRemoveNetwork'' [AStr s0, ABool b1]) = Rows (frr_rip_remove_network s0 b1)"
  "frr_rows (Call ''RIPPassiveInterface'' [AStr s0, ABool b1]) = Rows (frr_rip_passive_interface s0 b1)"
  "frr_rows (Call ''RIPRemovePassiveInterface'' [AStr s0, ABool b1]) = Rows (frr_rip_remove_passive_interface s0 b1)"
  "frr_rows (Call ''RIPRedistribute'' [AStr s0, ABool b1]) = Rows (frr_rip_redistribute s0 b1)"
  "frr_rows (Call ''RIPRemoveRedistribute'' [AStr s0, ABool b1]) = Rows (frr_rip_remove_redistribute s0 b1)"
  "frr_rows (Call ''RIPSetTimers'' [AInt n0, AInt n1, AInt n2, ABool b3]) = Rows (frr_rip_set_timers n0 n1 n2 b3)"
  "frr_rows (Call ''RIPRemoveTimers'' [ABool b0]) = Rows (frr_rip_remove_timers b0)"
  by (rule frr_rows_own, subst rows_with_part [OF frr_distinct frr_parts(4)], (simp add: frr_rip_methods_def; fail),
    simp add: on_args_defs)+

lemma frr_bgp_rows [simp]:
  "frr_rows (Call ''BGPSetRouter'' [AInt n0, AStr s1]) = Rows (frr_bgp_set_router n0 s1)"
  "frr_rows (Call ''BGPRemoveRouter'' []) = Rows frr_bgp_remove_router"
  "frr_rows (Call ''BGPAddNeighbor'' [AStr s0, AInt n1, AStr s2, AInt n3, ABool b4]) = Rows (frr_bgp_add_neighbor s0 n1 s2 n3 b4)"
  "frr_rows (Call ''BGPRemoveNeighbor'' [AStr s0]) = Rows (frr_bgp_remove_neighbor s0)"
  "frr_rows (Call ''BGPAddNetwork'' [AStr s0, ABool b1]) = Rows (frr_bgp_add_network s0 b1)"
  "frr_rows (Call ''BGPRemoveNetwork'' [AStr s0, ABool b1]) = Rows (frr_bgp_remove_network s0 b1)"
  "frr_rows (Call ''BGPRedistribute'' [AStr s0, ABool b1]) = Rows (frr_bgp_redistribute s0 b1)"
  "frr_rows (Call ''BGPRemoveRedistribute'' [AStr s0, ABool b1]) = Rows (frr_bgp_remove_redistribute s0 b1)"
  by (rule frr_rows_own, subst rows_with_part [OF frr_distinct frr_parts(5)], (simp add: frr_bgp_methods_def; fail),
    simp add: on_args_defs)+

lemma frr_isis_rows [simp]:
  "frr_rows (Call ''ISISSetRouter'' [AStr s0, AStr s1]) = Rows (frr_isis_set_router s0 s1)"
  "frr_rows (Call ''ISISRemoveRouter'' []) = Rows frr_isis_remove_router"
  "frr_rows (Call ''ISISAddInterface'' [AStr s0, AStr s1, ABool b2, ABool b3]) = Rows (frr_isis_add_interface s0 s1 b2 b3)"
  "frr_rows (Call ''ISISRemoveInterface'' [AStr s0]) = Rows (frr_isis_remove_interface s0)"
  "frr_rows (Call ''ISISPassiveInterface'' [AStr s0]) = Rows (frr_isis_passive_interface s0)"
  "frr_rows (Call ''ISISRemovePassiveInterface'' [AStr s0]) = Rows (frr_isis_remove_passive_interface s0)"
  "frr_rows (Call ''ISISSetMetric'' [AStr s0, AInt n1]) = Rows (frr_isis_set_metric s0 n1)"
  "frr_rows (Call ''ISISRemoveMetric'' [AStr s0]) = Rows (frr_isis_remove_metric s0)"
  "frr_rows (Call ''ISISSetNetworkType'' [AStr s0, AStr s1]) = Rows (frr_isis_set_network_type s0 s1)"
  "frr_rows (Call ''ISISRemoveNetworkType'' [AStr s0]) = Rows (frr_isis_remove_network_type s0)"
  "frr_rows (Call ''ISISRedistribute'' [AStr s0, AStr s1, ABool b2]) = Rows (frr_isis_redistribute s0 s1 b2)"
  "frr_rows (Call ''ISISRemoveRedistribute'' [AStr s0, AStr s1, ABool b2]) = Rows (frr_isis_remove_redistribute s0 s1 b2)"
  by (rule frr_rows_own, subst rows_with_part [OF frr_distinct frr_parts(6)], (simp add: frr_isis_methods_def; fail),
    simp add: on_args_defs)+

lemmas frr_route_defs =
  frr_set_default_route_def frr_remove_default_route_def frr_remove_default_route6_def
  frr_add_static_route_def frr_remove_static_route_def

lemmas frr_ospf_defs =
  frr_ospf_add_network_def frr_ospf_remove_network_def frr_ospf_set_router_id_def
  frr_ospf_remove_router_id_def frr_ospf_passive_default_def frr_ospf_remove_passive_default_def
  frr_ospf_no_passive_def frr_ospf_remove_no_passive_def frr_ospf_originate_default_def
  frr_ospf_remove_originate_default_def frr_ospf_mtu_ignore_def frr_ospf_remove_mtu_ignore_def
  frr_ospf_redistribute_def frr_ospf_remove_redistribute_def frr_ospf_set_cost_def
  frr_ospf_remove_cost_def frr_ospf_set_priority_def frr_ospf_remove_priority_def
  frr_ospf_set_timers_def frr_ospf_remove_timers_def frr_ospf_set_network_type_def
  frr_ospf_remove_network_type_def frr_ospf_set_area_type_def frr_ospf_remove_area_type_def
  frr_ospf_add_area_range_def frr_ospf_remove_area_range_def frr_ospf_set_authentication_def
  frr_ospf_remove_authentication_def

lemmas frr_ospf6_defs =
  frr_ospf6_set_router_id_def frr_ospf6_remove_router_id_def frr_ospf6_add_interface_def
  frr_ospf6_remove_interface_def frr_ospf6_passive_interface_def
  frr_ospf6_remove_passive_interface_def frr_ospf6_redistribute_def
  frr_ospf6_remove_redistribute_def frr_ospf6_originate_default_def
  frr_ospf6_remove_originate_default_def

lemmas frr_rip_defs =
  frr_rip_add_network_def frr_rip_remove_network_def frr_rip_passive_interface_def
  frr_rip_remove_passive_interface_def frr_rip_redistribute_def frr_rip_remove_redistribute_def
  frr_rip_set_timers_def frr_rip_remove_timers_def

lemmas frr_bgp_defs =
  frr_bgp_set_router_def frr_bgp_remove_router_def frr_bgp_add_neighbor_def
  frr_bgp_remove_neighbor_def frr_bgp_add_network_def frr_bgp_remove_network_def
  frr_bgp_redistribute_def frr_bgp_remove_redistribute_def

lemmas frr_isis_defs =
  frr_isis_set_router_def frr_isis_remove_router_def frr_isis_add_interface_def
  frr_isis_remove_interface_def frr_isis_passive_interface_def
  frr_isis_remove_passive_interface_def frr_isis_set_metric_def frr_isis_remove_metric_def
  frr_isis_set_network_type_def frr_isis_remove_network_type_def frr_isis_redistribute_def
  frr_isis_remove_redistribute_def

end
