(* ===== verification/Switch_Commands.thy ===== *)
theory Switch_Commands
  imports Base_Commands
begin

text \<open>
  The commands of the switches and of the OpenFlow controller: \<open>drivers/drivers/switch_exos.go\<close>
  (lines for the wrapper of the EXOS API), \<open>switch_ovs.go\<close> (\<open>ovs-vsctl\<close> and \<open>ovs-ofctl\<close>) and
  \<open>controller_faucet.go\<close>, one definition per method. A bridge of EXOS is a VLAN.
\<close>

section \<open>EXOS\<close>

text \<open>The VLAN a spanning tree action names: by its tag when the text is a number.\<close>

definition exos_vlan :: "int \<Rightarrow> string" where
  "exos_vlan vlan =
     ''v'' @ int_str vlan"

definition exos_stp_vlan :: "string \<Rightarrow> string" where
  "exos_stp_vlan bridge = (case atoi bridge of Some n \<Rightarrow> exos_vlan n | None \<Rightarrow> bridge)"

definition exos_guest_mtu_commands :: "string \<Rightarrow> int \<Rightarrow> string list list" where
  "exos_guest_mtu_commands iface mtu =
     []"

definition exos_link_up :: "string \<Rightarrow> string list list" where
  "exos_link_up port =
     [[''enable ports '' @ port]]"

definition exos_link_down :: "string \<Rightarrow> string list list" where
  "exos_link_down port =
     [[''disable ports '' @ port]]"

definition exos_setup_bridge :: "string \<Rightarrow> string list \<Rightarrow> string list list" where
  "exos_setup_bridge bridge ports =
     (let cmds = [[''create vlan '' @ bridge]] in
      if ports = [] then cmds
      else cmds @ [[''configure vlan '' @ bridge @ '' add ports '' @ join_with '','' ports @ '' untagged'']])"

definition exos_teardown_bridge :: "string \<Rightarrow> string list list" where
  "exos_teardown_bridge bridge =
     [[''delete vlan '' @ bridge]]"

definition exos_add_interface_to_bridge :: "string \<Rightarrow> string \<Rightarrow> string list list" where
  "exos_add_interface_to_bridge port bridge =
     [[''configure vlan '' @ bridge @ '' add ports '' @ port @ '' untagged'']]"

definition exos_remove_interface_from_bridge :: "string \<Rightarrow> string \<Rightarrow> string list list" where
  "exos_remove_interface_from_bridge port bridge =
     [[''configure vlan '' @ bridge @ '' delete ports '' @ port]]"

definition exos_vlan_set_access :: "string \<Rightarrow> int \<Rightarrow> string list list" where
  "exos_vlan_set_access port vlan =
     (let v = exos_vlan vlan in
      [[''@clear-port '' @ port], [''-create vlan '' @ v @ '' tag '' @ int_str vlan],
        [''configure vlan '' @ v @ '' add ports '' @ port @ '' untagged'']])"

definition exos_vlan_set_trunk :: "string \<Rightarrow> int list \<Rightarrow> int \<Rightarrow> string list list" where
  "exos_vlan_set_trunk port vlans native =
     (let add = (\<lambda>vlan mode. [[''-create vlan '' @ exos_vlan vlan @ '' tag '' @ int_str vlan],
            [''configure vlan '' @ exos_vlan vlan @ '' add ports '' @ port @ mode]]) in
      [[''@clear-port '' @ port]] @
      concat (map (\<lambda>vlan. add vlan '' tagged'') (filter (\<lambda>vlan. vlan \<noteq> native) vlans)) @
      (if native \<noteq> 0 then add native '' untagged'' else []))"

definition exos_vlan_clear_port :: "string \<Rightarrow> string list list" where
  "exos_vlan_clear_port port =
     [[''@clear-port '' @ port], [''configure vlan Default add ports '' @ port @ '' untagged'']]"

definition exos_stp_enable :: "string \<Rightarrow> string \<Rightarrow> string list list" where
  "exos_stp_enable bridge mode =
     (let exos_mode = ''dot1w'' in
      let exos_mode = (if mode = ''stp'' then ''dot1d'' else exos_mode) in
      [[''-disable stpd s0''], [''configure stpd s0 mode '' @ exos_mode],
        [''enable stpd s0 auto-bind vlan '' @ exos_stp_vlan bridge], [''enable stpd s0'']])"

definition exos_stp_disable :: "string \<Rightarrow> string list list" where
  "exos_stp_disable bridge =
     (let v = exos_stp_vlan bridge in
      [[''-disable stpd s0 auto-bind vlan '' @ v], [''-configure stpd s0 delete vlan '' @ v @
        '' ports all'']])"

definition exos_stp_set_bridge_priority :: "string \<Rightarrow> int \<Rightarrow> string list list" where
  "exos_stp_set_bridge_priority bridge priority =
     [[''configure stpd s0 priority '' @ int_str priority]]"

definition exos_stp_set_port :: "string \<Rightarrow> int \<Rightarrow> int \<Rightarrow> string list list" where
  "exos_stp_set_port port cost priority =
     (let cmds = [] in
      let cmds = (if cost > 0 then cmds @ [[''configure stpd s0 ports cost '' @ int_str cost @
        '' '' @ port]] else cmds) in
      let cmds = (if priority \<ge> 0 then cmds @ [[''configure stpd s0 ports port-priority '' @
        int_str priority @ '' '' @ port]] else cmds) in
      cmds)"

section \<open>Open vSwitch\<close>

definition of_versions :: string where
  "of_versions = ''OpenFlow10,OpenFlow11,OpenFlow12,OpenFlow13,OpenFlow14,OpenFlow15''"

definition ovs_add_port :: "string \<Rightarrow> string \<Rightarrow> string list" where
  "ovs_add_port bridge iface =
     [''ovs-vsctl'', ''--may-exist'', ''add-port'', bridge, iface, ''--'', ''--id=@q'',
       ''create'', ''qos'', ''type=linux-noop'', ''--'', ''set'', ''port'', iface, ''qos=@q'']"

definition ofctl :: "string list \<Rightarrow> string list" where
  "ofctl args =
     [''ovs-ofctl'', ''-O'', of_versions] @ args"

definition ovs_setup_bridge :: "string \<Rightarrow> string list \<Rightarrow> string list list" where
  "ovs_setup_bridge bridge ifaces =
     (let cmds = [[''sh'', ''-c'', ''ovs-vsctl br-exists '' @ bridge @ '' || ovs-vsctl add-br ''
        @ bridge], [''ip'', ''link'', ''set'', bridge, ''up'']] in
      let cmds = cmds @ concat (map (\<lambda>iface. [ovs_add_port bridge iface]) ifaces) in
      cmds)"

definition ovs_teardown_bridge :: "string \<Rightarrow> string list list" where
  "ovs_teardown_bridge bridge =
     [[''ovs-vsctl'', ''del-br'', bridge]]"

definition ovs_add_interface_to_bridge :: "string \<Rightarrow> string \<Rightarrow> string list list" where
  "ovs_add_interface_to_bridge iface bridge =
     [ovs_add_port bridge iface]"

definition ovs_remove_interface_from_bridge :: "string \<Rightarrow> string \<Rightarrow> string list list" where
  "ovs_remove_interface_from_bridge iface bridge =
     [[''ovs-vsctl'', ''del-port'', bridge, iface]]"

definition ovs_vlan_set_access :: "string \<Rightarrow> int \<Rightarrow> string list list" where
  "ovs_vlan_set_access port vlan =
     [[''ovs-vsctl'', ''set'', ''port'', port, ''vlan_mode=access'', ''tag='' @ int_str vlan,
       ''--'', ''clear'', ''port'', port, ''trunks'']]"

definition ovs_vlan_set_trunk :: "string \<Rightarrow> int list \<Rightarrow> int \<Rightarrow> string list list" where
  "ovs_vlan_set_trunk port vlans native =
     (let trunks = ''trunks='' @ join_with '','' (map int_str vlans) in
      if native \<noteq> 0 then
        [[''ovs-vsctl'', ''set'', ''port'', port, ''vlan_mode=native-untagged'', ''tag='' @ int_str native, trunks]]
      else [[''ovs-vsctl'', ''set'', ''port'', port, ''vlan_mode=trunk'', trunks, ''--'', ''clear'', ''port'', port, ''tag'']])"

definition ovs_vlan_clear_port :: "string \<Rightarrow> string list list" where
  "ovs_vlan_clear_port port =
     [[''ovs-vsctl'', ''clear'', ''port'', port, ''tag'', ''trunks'', ''vlan_mode'']]"

definition ovs_stp_enable :: "string \<Rightarrow> string \<Rightarrow> string list list" where
  "ovs_stp_enable bridge mode =
     (if mode = ''stp'' then [[''ovs-vsctl'', ''set'', ''bridge'', bridge, ''stp_enable=true'',
        ''rstp_enable=false'']] else [[''ovs-vsctl'', ''set'', ''bridge'', bridge,
        ''rstp_enable=true'', ''stp_enable=false'']])"

definition ovs_stp_disable :: "string \<Rightarrow> string list list" where
  "ovs_stp_disable bridge =
     [[''ovs-vsctl'', ''set'', ''bridge'', bridge, ''stp_enable=false'', ''rstp_enable=false'']]"

definition ovs_stp_set_bridge_priority :: "string \<Rightarrow> int \<Rightarrow> string list list" where
  "ovs_stp_set_bridge_priority bridge priority =
     (let p = int_str priority in
      [[''ovs-vsctl'', ''set'', ''bridge'', bridge, ''other_config:stp-priority='' @ p,
        ''other_config:rstp-priority='' @ p]])"

definition ovs_stp_set_port :: "string \<Rightarrow> int \<Rightarrow> int \<Rightarrow> string list list" where
  "ovs_stp_set_port port cost priority =
     [[''ovs-vsctl'', ''set'', ''port'', port] @
      (if cost > 0 then [''other_config:stp-path-cost='' @ int_str cost, ''other_config:rstp-path-cost='' @ int_str cost]
       else []) @
      (if priority \<ge> 0 then
         [''other_config:stp-port-priority='' @ int_str priority, ''other_config:rstp-port-priority='' @ int_str priority]
       else [])]"

definition ovs_set_controller :: "string \<Rightarrow> string \<Rightarrow> string \<Rightarrow> string list list" where
  "ovs_set_controller bridge target protocols =
     (let cmd = [''ovs-vsctl'', ''set-controller'', bridge, target] in
      let cmd = (if protocols \<noteq> [] then cmd @ [''--'', ''set'', ''bridge'', bridge,
        ''protocols='' @ protocols] else cmd) in
      [cmd])"

definition ovs_remove_controller :: "string \<Rightarrow> string list list" where
  "ovs_remove_controller bridge =
     [[''ovs-vsctl'', ''del-controller'', bridge]]"

definition ovs_set_fail_mode :: "string \<Rightarrow> string \<Rightarrow> string list list" where
  "ovs_set_fail_mode bridge mode =
     [[''ovs-vsctl'', ''set-fail-mode'', bridge, mode]]"

definition ovs_set_datapath_id :: "string \<Rightarrow> string \<Rightarrow> string list list" where
  "ovs_set_datapath_id bridge ident =
     [[''ovs-vsctl'', ''set'', ''bridge'', bridge, ''other_config:datapath-id='' @ ident]]"

definition ovs_add_flow :: "string \<Rightarrow> string \<Rightarrow> string list list" where
  "ovs_add_flow bridge flow =
     [ofctl [''add-flow'', bridge, flow]]"

definition ovs_delete_flow :: "string \<Rightarrow> string \<Rightarrow> string list list" where
  "ovs_delete_flow bridge match =
     [ofctl [''--strict'', ''del-flows'', bridge, match]]"

section \<open>Faucet\<close>

definition faucet_config_path :: string where "faucet_config_path = ''/etc/faucet/faucet.yaml''"

definition shell_single_quote :: "string \<Rightarrow> string" where
  "shell_single_quote s =
     [apostrophe] @
     concat (map (\<lambda>c. if c = apostrophe then [apostrophe, backslash, apostrophe, apostrophe] else [c]) s) @ [apostrophe]"

definition faucet_apply_config :: "string \<Rightarrow> string list list" where
  "faucet_apply_config content =
     [[''sh'', ''-c'', ''printf '' @ [apostrophe] @ ''%s'' @ [backslash] @ ''n'' @ [apostrophe] @
       '' '' @ shell_single_quote content @ '' > '' @ faucet_config_path @ '' && kill -HUP 1'']]"

section \<open>Methods by name\<close>

definition exos_methods :: "(string \<times> (arg list \<Rightarrow> build)) list" where
  "exos_methods =
     [(''LinkUp'', on_s exos_link_up),
      (''LinkDown'', on_s exos_link_down),
      (''SetupBridge'', \<lambda>as. case as of [AStr x, AStrs y] \<Rightarrow> Rows (exos_setup_bridge x y) | _ \<Rightarrow> NoMethod),
      (''TeardownBridge'', on_s exos_teardown_bridge),
      (''AddInterfaceToBridge'', on_ss exos_add_interface_to_bridge),
      (''RemoveInterfaceFromBridge'', on_ss exos_remove_interface_from_bridge),
      (''VLANSetAccess'', on_si exos_vlan_set_access),
      (''VLANSetTrunk'', \<lambda>as. case as of [AStr x, AInts y, AInt z] \<Rightarrow> Rows (exos_vlan_set_trunk x y z) | _ \<Rightarrow> NoMethod),
      (''VLANClearPort'', on_s exos_vlan_clear_port),
      (''STPEnable'', on_ss exos_stp_enable),
      (''STPDisable'', on_s exos_stp_disable),
      (''STPSetBridgePriority'', on_si exos_stp_set_bridge_priority),
      (''STPSetPort'', \<lambda>as. case as of [AStr x, AInt y, AInt z] \<Rightarrow> Rows (exos_stp_set_port x y z) | _ \<Rightarrow> NoMethod)]"

definition ovs_own_methods :: "(string \<times> (arg list \<Rightarrow> build)) list" where
  "ovs_own_methods =
     [(''SetupBridge'', \<lambda>as. case as of [AStr x, AStrs y] \<Rightarrow> Rows (ovs_setup_bridge x y) | _ \<Rightarrow> NoMethod),
      (''TeardownBridge'', on_s ovs_teardown_bridge),
      (''AddInterfaceToBridge'', on_ss ovs_add_interface_to_bridge),
      (''RemoveInterfaceFromBridge'', on_ss ovs_remove_interface_from_bridge),
      (''VLANSetAccess'', on_si ovs_vlan_set_access),
      (''VLANSetTrunk'', \<lambda>as. case as of [AStr x, AInts y, AInt z] \<Rightarrow> Rows (ovs_vlan_set_trunk x y z) | _ \<Rightarrow> NoMethod),
      (''VLANClearPort'', on_s ovs_vlan_clear_port),
      (''STPEnable'', on_ss ovs_stp_enable),
      (''STPDisable'', on_s ovs_stp_disable),
      (''STPSetBridgePriority'', on_si ovs_stp_set_bridge_priority),
      (''STPSetPort'', \<lambda>as. case as of [AStr x, AInt y, AInt z] \<Rightarrow> Rows (ovs_stp_set_port x y z) | _ \<Rightarrow> NoMethod),
      (''SetController'', on_sss ovs_set_controller),
      (''RemoveController'', on_s ovs_remove_controller),
      (''SetFailMode'', on_ss ovs_set_fail_mode),
      (''SetDatapathID'', on_ss ovs_set_datapath_id),
      (''AddFlow'', on_ss ovs_add_flow),
      (''DeleteFlow'', on_ss ovs_delete_flow)]"

text \<open>Open vSwitch embeds the links and the bridge of the base structs and overrides the bridge.\<close>

definition ovs_methods :: "(string \<times> (arg list \<Rightarrow> build)) list" where
  "ovs_methods = ovs_own_methods @ l2_base_methods @ switch_base_methods"

definition faucet_methods :: "(string \<times> (arg list \<Rightarrow> build)) list" where
  "faucet_methods =
     [(''ApplyConfig'', on_s faucet_apply_config)] @ l2_base_methods @ l3_base_methods @ subinterface_base_methods"

definition exos_rows :: "cap_call \<Rightarrow> build" where "exos_rows = rows_with exos_methods"

definition ovs_rows :: "cap_call \<Rightarrow> build" where "ovs_rows = rows_with ovs_methods"

definition faucet_rows :: "cap_call \<Rightarrow> build" where "faucet_rows = rows_with faucet_methods"

lemma exos_rows_commands [simp]: "exos_rows (Commands cs) = Rows cs"
  by (simp add: exos_rows_def rows_with_def)

lemma ovs_rows_commands [simp]: "ovs_rows (Commands cs) = Rows cs"
  by (simp add: ovs_rows_def rows_with_def)

lemma ovs_rows_own: "rows_with ovs_own_methods (Call m as) = Rows r \<Longrightarrow> ovs_rows (Call m as) = Rows r"
  by (auto simp: ovs_rows_def ovs_methods_def rows_with_def split: option.splits)

lemma exos_distinct: "distinct (map fst exos_methods)"
proof (rule distinct_by_sort)
  show "increasing_str (msort_str 5 (map fst exos_methods))" by code_simp
qed

lemma ovs_distinct: "distinct (map fst ovs_own_methods)"
proof (rule distinct_by_sort)
  show "increasing_str (msort_str 5 (map fst ovs_own_methods))" by code_simp
qed

lemma exos_rows_simps [simp]:
  "exos_rows (Call ''LinkUp'' [AStr s0]) = Rows (exos_link_up s0)"
  "exos_rows (Call ''LinkDown'' [AStr s0]) = Rows (exos_link_down s0)"
  "exos_rows (Call ''SetupBridge'' [AStr s0, AStrs ss1]) = Rows (exos_setup_bridge s0 ss1)"
  "exos_rows (Call ''TeardownBridge'' [AStr s0]) = Rows (exos_teardown_bridge s0)"
  "exos_rows (Call ''AddInterfaceToBridge'' [AStr s0, AStr s1]) = Rows (exos_add_interface_to_bridge s0 s1)"
  "exos_rows (Call ''RemoveInterfaceFromBridge'' [AStr s0, AStr s1]) = Rows (exos_remove_interface_from_bridge s0 s1)"
  "exos_rows (Call ''VLANSetAccess'' [AStr s0, AInt n1]) = Rows (exos_vlan_set_access s0 n1)"
  "exos_rows (Call ''VLANSetTrunk'' [AStr s0, AInts ns1, AInt n2]) = Rows (exos_vlan_set_trunk s0 ns1 n2)"
  "exos_rows (Call ''VLANClearPort'' [AStr s0]) = Rows (exos_vlan_clear_port s0)"
  "exos_rows (Call ''STPEnable'' [AStr s0, AStr s1]) = Rows (exos_stp_enable s0 s1)"
  "exos_rows (Call ''STPDisable'' [AStr s0]) = Rows (exos_stp_disable s0)"
  "exos_rows (Call ''STPSetBridgePriority'' [AStr s0, AInt n1]) = Rows (exos_stp_set_bridge_priority s0 n1)"
  "exos_rows (Call ''STPSetPort'' [AStr s0, AInt n1, AInt n2]) = Rows (exos_stp_set_port s0 n1 n2)"
  unfolding exos_rows_def
  by (subst rows_with_part [OF exos_distinct subset_refl], (simp add: exos_methods_def; fail), simp add: on_args_defs)+

lemma ovs_rows_simps [simp]:
  "ovs_rows (Call ''SetupBridge'' [AStr s0, AStrs ss1]) = Rows (ovs_setup_bridge s0 ss1)"
  "ovs_rows (Call ''TeardownBridge'' [AStr s0]) = Rows (ovs_teardown_bridge s0)"
  "ovs_rows (Call ''AddInterfaceToBridge'' [AStr s0, AStr s1]) = Rows (ovs_add_interface_to_bridge s0 s1)"
  "ovs_rows (Call ''RemoveInterfaceFromBridge'' [AStr s0, AStr s1]) = Rows (ovs_remove_interface_from_bridge s0 s1)"
  "ovs_rows (Call ''VLANSetAccess'' [AStr s0, AInt n1]) = Rows (ovs_vlan_set_access s0 n1)"
  "ovs_rows (Call ''VLANSetTrunk'' [AStr s0, AInts ns1, AInt n2]) = Rows (ovs_vlan_set_trunk s0 ns1 n2)"
  "ovs_rows (Call ''VLANClearPort'' [AStr s0]) = Rows (ovs_vlan_clear_port s0)"
  "ovs_rows (Call ''STPEnable'' [AStr s0, AStr s1]) = Rows (ovs_stp_enable s0 s1)"
  "ovs_rows (Call ''STPDisable'' [AStr s0]) = Rows (ovs_stp_disable s0)"
  "ovs_rows (Call ''STPSetBridgePriority'' [AStr s0, AInt n1]) = Rows (ovs_stp_set_bridge_priority s0 n1)"
  "ovs_rows (Call ''STPSetPort'' [AStr s0, AInt n1, AInt n2]) = Rows (ovs_stp_set_port s0 n1 n2)"
  "ovs_rows (Call ''SetController'' [AStr s0, AStr s1, AStr s2]) = Rows (ovs_set_controller s0 s1 s2)"
  "ovs_rows (Call ''RemoveController'' [AStr s0]) = Rows (ovs_remove_controller s0)"
  "ovs_rows (Call ''SetFailMode'' [AStr s0, AStr s1]) = Rows (ovs_set_fail_mode s0 s1)"
  "ovs_rows (Call ''SetDatapathID'' [AStr s0, AStr s1]) = Rows (ovs_set_datapath_id s0 s1)"
  "ovs_rows (Call ''AddFlow'' [AStr s0, AStr s1]) = Rows (ovs_add_flow s0 s1)"
  "ovs_rows (Call ''DeleteFlow'' [AStr s0, AStr s1]) = Rows (ovs_delete_flow s0 s1)"
  by (rule ovs_rows_own, subst rows_with_part [OF ovs_distinct subset_refl], (simp add: ovs_own_methods_def; fail),
    simp add: on_args_defs)+

lemma ovs_link_rows [simp]:
  "ovs_rows (Call ''LinkUp'' [AStr s0]) = Rows (link_set s0 ''up'')"
  "ovs_rows (Call ''LinkDown'' [AStr s0]) = Rows (link_set s0 ''down'')"
  by (simp_all add: ovs_rows_def ovs_methods_def ovs_own_methods_def l2_base_methods_def switch_base_methods_def rows_with_def on_s_def)

lemmas exos_defs =
  exos_link_up_def exos_link_down_def exos_setup_bridge_def exos_teardown_bridge_def
  exos_add_interface_to_bridge_def exos_remove_interface_from_bridge_def
  exos_vlan_set_access_def exos_vlan_set_trunk_def exos_vlan_clear_port_def exos_stp_enable_def
  exos_stp_disable_def exos_stp_set_bridge_priority_def exos_stp_set_port_def

lemmas ovs_defs =
  ovs_setup_bridge_def ovs_teardown_bridge_def ovs_add_interface_to_bridge_def
  ovs_remove_interface_from_bridge_def ovs_vlan_set_access_def ovs_vlan_set_trunk_def
  ovs_vlan_clear_port_def ovs_stp_enable_def ovs_stp_disable_def ovs_stp_set_bridge_priority_def
  ovs_stp_set_port_def ovs_set_controller_def ovs_remove_controller_def ovs_set_fail_mode_def
  ovs_set_datapath_id_def ovs_add_flow_def ovs_delete_flow_def

text \<open>The quoting of the controller's configuration is that of the scripts, so the shell reads it back.\<close>

lemma shell_single_quote_is_shell_quote: "shell_single_quote s = shell_quote s"
  by (simp add: shell_single_quote_def shell_quote_def)

end
