(* ===== verification/Driver_Commands.thy ===== *)
theory Driver_Commands
  imports VyOS_Commits FRR_Commands Switch_Commands Drivers Action_Pipeline
begin

text \<open>
  The drivers of \<open>drivers/register_all.go\<close> with the methods of the structs they embed
  (\<open>drivers/drivers/*.go\<close>), joined to the capabilities their records declare: every validated
  action of every driver has commands, two cases apart, so planning an action of a registered
  driver neither panics nor finds a method missing.
\<close>

section \<open>The methods of each driver\<close>

definition host_methods :: "(string \<times> (arg list \<Rightarrow> build)) list" where
  "host_methods = l2_base_methods @ l3_base_methods @ subinterface_base_methods"

definition linux_switch_methods :: "(string \<times> (arg list \<Rightarrow> build)) list" where
  "linux_switch_methods = l2_base_methods @ switch_base_methods @ vlan_base_methods @ stp_base_methods"

definition driver_methods :: "(string \<times> (string \<times> (arg list \<Rightarrow> build)) list) list" where
  "driver_methods =
     [(''HostDriver'', host_methods), (''FaucetControllerDriver'', faucet_methods),
      (''LinuxSwitchDriver'', linux_switch_methods), (''OpenVSwitchDriver'', ovs_methods),
      (''EXOSSwitchDriver'', exos_methods), (''LinuxRouterDriver'', linux_methods),
      (''FRRRouterDriver'', frr_methods), (''VyOSRouterDriver'', vyos_methods),
      (''XRDRouterDriver'', xr_methods)]"

definition driver_rows :: "driver \<Rightarrow> cap_call \<Rightarrow> build" where
  "driver_rows drv c =
     (case map_of driver_methods (d_name drv) of None \<Rightarrow> NoMethod | Some ms \<Rightarrow> rows_with ms c)"

lemma driver_rows_simps [simp]:
  "driver_rows host_driver c = rows_with host_methods c" "driver_rows faucet_driver c = faucet_rows c"
  "driver_rows linux_switch_driver c = rows_with linux_switch_methods c" "driver_rows ovs_driver c = ovs_rows c"
  "driver_rows exos_driver c = exos_rows c" "driver_rows linux_router_driver c = linux_rows c"
  "driver_rows frr_driver c = frr_rows c" "driver_rows vyos_driver c = vyos_rows c" "driver_rows xrd_driver c = xr_rows c"
  unfolding driver_rows_def driver_methods_def driver_defs faucet_rows_def ovs_rows_def exos_rows_def linux_rows_def
    frr_rows_def vyos_rows_def xr_rows_def
  by simp_all

section \<open>The drivers made of base structs\<close>

lemma linux_distinct: "distinct (map fst linux_methods)"
proof (rule distinct_by_sort)
  show "increasing_str (msort_str 6 (map fst linux_methods))" by code_simp
qed

definition calls_in :: "(string \<times> (arg list \<Rightarrow> build)) list \<Rightarrow> cap_call \<Rightarrow> bool" where
  "calls_in ms c \<longleftrightarrow> (case c of Call m _ \<Rightarrow> m \<in> fst ` set ms | Commands _ \<Rightarrow> False)"

lemma calls_in_mono: "calls_in xs c \<Longrightarrow> set xs \<subseteq> set ms \<Longrightarrow> calls_in ms c"
  by (auto simp: calls_in_def split: cap_call.splits)

text \<open>A driver with some of the base structs runs what the Linux router runs.\<close>

lemma base_rows:
  assumes "calls_in ms c" and "set ms \<subseteq> set linux_methods"
  shows "rows_with ms c = linux_rows c"
proof -
  obtain m as where c: "c = Call m as" "m \<in> fst ` set ms" using assms(1) by (auto simp: calls_in_def split: cap_call.splits)
  then obtain f where f: "map_of ms m = Some f" by (metis map_of_eq_None_iff not_None_eq)
  then have "map_of linux_methods m = Some f"
    using assms(2) linux_distinct map_of_SomeD by (fastforce intro: map_of_is_SomeI)
  with f show ?thesis by (simp add: c(1) linux_rows_def rows_with_def)
qed

lemma calls_l2: "e \<in> set l2_actions \<Longrightarrow> ad_run e v a = Inr c \<Longrightarrow> calls_in l2_base_methods c"
  by (auto simp: l2_actions_def declare_action_def call_def l2_base_methods_def calls_in_def)

lemma calls_l3: "e \<in> set l3_actions \<Longrightarrow> ad_run e v a = Inr c \<Longrightarrow> calls_in l3_base_methods c"
  by (auto simp: l3_actions_def declare_action_def call_def l3_base_methods_def calls_in_def split: if_splits)

lemma calls_subinterface: "e \<in> set subinterface_actions \<Longrightarrow> ad_run e v a = Inr c \<Longrightarrow> calls_in subinterface_base_methods c"
  by (auto simp: subinterface_actions_def declare_action_def call_def subinterface_base_methods_def calls_in_def)

lemma calls_switch: "e \<in> set switch_actions \<Longrightarrow> ad_run e v a = Inr c \<Longrightarrow> calls_in switch_base_methods c"
  by (auto simp: switch_actions_def declare_action_def call_def switch_base_methods_def calls_in_def)

lemma calls_vlan: "e \<in> set vlan_actions \<Longrightarrow> ad_run e v a = Inr c \<Longrightarrow> calls_in vlan_base_methods c"
  by (auto simp: vlan_actions_def declare_action_def call_def vlan_base_methods_def calls_in_def)

lemma calls_stp: "e \<in> set stp_actions \<Longrightarrow> ad_run e v a = Inr c \<Longrightarrow> calls_in stp_base_methods c"
  by (auto simp: stp_actions_def declare_action_def call_def stp_base_methods_def calls_in_def Let_def split: list.splits)

lemma calls_nat: "e \<in> set nat_actions \<Longrightarrow> ad_run e v a = Inr c \<Longrightarrow> calls_in nat_base_methods c"
  by (auto simp: nat_actions_def declare_action_def call_def nat_base_methods_def calls_in_def)

lemma calls_nat64: "e \<in> set nat64_actions \<Longrightarrow> ad_run e v a = Inr c \<Longrightarrow> calls_in nat64_base_methods c"
  by (auto simp: nat64_actions_def declare_action_def call_def nat64_base_methods_def calls_in_def bindR_Inr)

lemma host_rows: "calls_in l2_base_methods c \<or> calls_in l3_base_methods c \<or> calls_in subinterface_base_methods c \<Longrightarrow>
  rows_with host_methods c = linux_rows c"
  by (rule base_rows) (auto simp: host_methods_def linux_methods_def intro: calls_in_mono)

lemma linux_switch_rows:
  "calls_in l2_base_methods c \<or> calls_in switch_base_methods c \<or> calls_in vlan_base_methods c \<or> calls_in stp_base_methods c \<Longrightarrow>
   rows_with linux_switch_methods c = linux_rows c"
  by (rule base_rows) (auto simp: linux_switch_methods_def linux_methods_def intro: calls_in_mono)

lemma faucet_rows_base:
  "calls_in l2_base_methods c \<or> calls_in l3_base_methods c \<or> calls_in subinterface_base_methods c \<Longrightarrow>
   faucet_rows c = linux_rows c"
proof -
  assume a: "calls_in l2_base_methods c \<or> calls_in l3_base_methods c \<or> calls_in subinterface_base_methods c"
  have "faucet_rows c = rows_with host_methods c"
    using a by (auto simp: calls_in_def faucet_rows_def faucet_methods_def host_methods_def rows_with_def
        l2_base_methods_def l3_base_methods_def subinterface_base_methods_def split: cap_call.splits)
  with host_rows a show ?thesis by simp
qed

definition frr_shadows :: "(string \<times> (arg list \<Rightarrow> build)) list \<Rightarrow> bool" where
  "frr_shadows xs \<longleftrightarrow> fst ` set xs \<inter> set (map fst frr_own_methods) \<noteq> {}"

lemma frr_base:
  assumes "calls_in xs c" and "\<not> frr_shadows xs"
  shows "frr_rows c = linux_rows c"
proof -
  obtain m as where c: "c = Call m as" "m \<in> fst ` set xs" using assms(1) by (auto simp: calls_in_def split: cap_call.splits)
  with assms(2) have "m \<notin> set (map fst frr_own_methods)" by (auto simp: frr_shadows_def)
  then show ?thesis unfolding c(1) by (rule frr_rows_base)
qed

lemma frr_not_shadowed:
  "\<not> frr_shadows l2_base_methods" "\<not> frr_shadows subinterface_base_methods" "\<not> frr_shadows switch_base_methods"
  "\<not> frr_shadows vlan_base_methods" "\<not> frr_shadows stp_base_methods" "\<not> frr_shadows nat_base_methods"
  "\<not> frr_shadows nat64_base_methods"
  unfolding frr_shadows_def frr_own_names base_methods_defs by simp_all

lemma frr_runnable_l3: "e \<in> set l3_actions \<Longrightarrow> ad_run e v a = Inr c \<Longrightarrow> runnable (frr_rows c)"
  by (auto simp: l3_actions_def declare_action_def call_def frr_route_defs frr_rows_base frr_own_names base_command_defs
      Let_def split: if_splits)

lemma frr_runnable_ospf: "e \<in> set ospf_actions \<Longrightarrow> ad_run e v a = Inr c \<Longrightarrow> runnable (frr_rows c)"
  by (auto simp: ospf_actions_def declare_action_def call_def frr_ospf_defs frr_ospf_iface_def frr_ospf_def Let_def
      split: option.splits)

lemma frr_runnable_ospf6: "e \<in> set ospf6_actions \<Longrightarrow> ad_run e v a = Inr c \<Longrightarrow> runnable (frr_rows c)"
  by (auto simp: ospf6_actions_def declare_action_def call_def frr_ospf6_defs frr_ospf6_iface_def frr_ospf6_def)

lemma frr_runnable_rip: "e \<in> set rip_actions \<Longrightarrow> ad_run e v a = Inr c \<Longrightarrow> runnable (frr_rows c)"
  by (auto simp: rip_actions_def declare_action_def call_def frr_rip_defs frr_rip_def Let_def split: option.splits)

lemma frr_runnable_bgp: "e \<in> set bgp_actions \<Longrightarrow> ad_run e v a = Inr c \<Longrightarrow> runnable (frr_rows c)"
  by (auto simp: bgp_actions_def declare_action_def call_def frr_bgp_defs frr_bgp_def frr_bgp_family_def Let_def)

lemma frr_runnable_isis: "e \<in> set isis_actions \<Longrightarrow> ad_run e v a = Inr c \<Longrightarrow> runnable (frr_rows c)"
  by (auto simp: isis_actions_def declare_action_def call_def frr_isis_defs frr_isis_def frr_isis_iface_def Let_def)

lemma vyos_runnable: "e \<in> set vyos_actions \<Longrightarrow> ad_run e v a = Inr c \<Longrightarrow> runnable (vyos_rows c)"
proof -
  assume "e \<in> set vyos_actions" and "ad_run e v a = Inr c"
  then obtain rows where r: "vyos_rows c = Rows rows" "one_commit (Rows rows)" using commit_vyos unfolding one_commit_def by blast
  with one_commit_row [OF r(2)] show ?thesis by fastforce
qed

section \<open>Switches and IOS-XR\<close>

lemma ovs_runnable:
  "e \<in> set (l2_actions @ switch_actions @ vlan_actions @ openflow_actions) \<Longrightarrow> ad_run e v a = Inr c \<Longrightarrow> runnable (ovs_rows c)"
  by (auto simp: l2_actions_def switch_actions_def vlan_actions_def openflow_actions_def declare_action_def call_def
      link_set_def ovs_defs ovs_add_port_def ofctl_def Let_def)

lemma ovs_runnable_stp: "e \<in> set stp_actions \<Longrightarrow> ad_run e v a = Inr c \<Longrightarrow> runnable (ovs_rows c)"
  by (auto simp: stp_actions_def declare_action_def call_def ovs_defs Let_def split: list.splits option.splits)

lemma exos_runnable:
  "e \<in> set (l2_actions @ switch_actions @ vlan_actions) \<Longrightarrow> ad_run e v a = Inr c \<Longrightarrow> runnable (exos_rows c)"
  by (auto simp: l2_actions_def switch_actions_def vlan_actions_def declare_action_def call_def exos_defs Let_def)

text \<open>A cost below zero is refused with the fields of the request.\<close>

lemma validated_cost:
  assumes "validate ex d a = None" and "optional P_Cost \<in> set (ad_params d)"
  shows "0 \<le> e_cost a"
proof -
  have "validate_param ex (ad_allow_protected d) a (optional P_Cost) = None" using assms by (simp add: validate_None)
  then show ?thesis
    by (auto simp: validate_param_def param_defs fields_of_def check_kind_def on_number_def err_unless_def iface_names_def
        split: if_splits)
qed

lemma exos_runnable_stp:
  assumes "e \<in> set stp_actions" and "ad_run e v a = Inr c" and "validate ex e a = None"
  shows "runnable (exos_rows c)"
proof -
  have "0 \<le> e_cost a" if "ad_type e = ''stp_set_port''"
    using assms(1) that by (intro validated_cost [OF assms(3)]) (auto simp: stp_actions_def declare_action_def)
  with assms(1,2) show ?thesis
    by (auto simp: stp_actions_def declare_action_def call_def exos_defs Let_def split: list.splits option.splits if_splits)
qed

lemma validated_dns_servers:
  assumes "validate ex d a = None" and "P_DNSServers \<in> set (ad_params d)"
  shows "e_dns_servers a \<noteq> []"
proof -
  have "validate_param ex (ad_allow_protected d) a P_DNSServers = None" using assms by (simp add: validate_None)
  then show ?thesis by (auto simp: validate_param_def param_defs fields_of_def split: if_splits)
qed

lemma xr_distinct: "distinct (map fst xr_methods)"
proof (rule distinct_by_sort)
  show "increasing_str (msort_str 4 (map fst xr_methods))" by code_simp
qed

lemma xr_row: "(m, f) \<in> set xr_methods \<Longrightarrow> f as = b \<Longrightarrow> xr_rows (Call m as) = b"
  using xr_distinct by (simp add: xr_rows_def rows_with_def)

lemma xr_rows_interface [simp]:
  "xr_rows (Call ''LinkUp'' [AStr s0]) = Rows [[''interface '' @ s0, ''no shutdown'']]"
  "xr_rows (Call ''LinkDown'' [AStr s0]) = Rows [[''interface '' @ s0, ''shutdown'']]"
  "xr_rows (Call ''SetIP'' [AStr s0, AStr s1]) = Rows (xr_set_ip s0 s1)"
  "xr_rows (Call ''ReplaceIP'' [AStr s0, AStr s1]) = Rows (xr_set_ip s0 s1)"
  "xr_rows (Call ''RemoveIP'' [AStr s0, AStr s1]) = Rows [[''interface '' @ s0, '' no ipv4 address'']]"
  by (rule xr_row, ((unfold xr_methods_def list.set, (rule insertI1 | rule insertI2)+)[1]), simp add: on_args_defs)+

lemma xr_rows_route [simp]:
  "xr_rows (Call ''SetDefaultRoute'' [AStr s0]) = Rows (xr_static ('' 0.0.0.0/0 '' @ s0))"
  "xr_rows (Call ''RemoveDefaultRoute'' []) = Rows (xr_static '' no 0.0.0.0/0'')"
  "xr_rows (Call ''AddStaticRoute'' [AStr s0, AStr s1, AStr s2]) = Rows (xr_static ('' '' @ s0 @ '' '' @ s1))"
  "xr_rows (Call ''RemoveStaticRoute'' [AStr s0, AStr s1, AStr s2]) = Rows (xr_static ('' no '' @ s0))"
  "xr_rows (Call ''AddDNSNameserver'' [AStr s0]) = Rows [[''domain name-server '' @ s0]]"
  by (rule xr_row, ((unfold xr_methods_def list.set, (rule insertI1 | rule insertI2)+)[1]), simp add: on_args_defs)+

lemma xr_rows_dns [simp]:
  "xr_rows (Call ''RemoveDNSNameserver'' [AStr s0]) = Rows [[''no domain name-server '' @ s0]]"
  "xr_rows (Call ''AddDNSSearch'' [AStr s0]) = Rows [[''domain list '' @ s0]]"
  "xr_rows (Call ''RemoveDNSSearch'' [AStr s0]) = Rows [[''no domain list '' @ s0]]"
  "xr_rows (Call ''SetDNS'' [AStrs ss, AStrs ts]) =
     Rows (map (\<lambda>s. [''domain name-server '' @ s]) ss @ map (\<lambda>d. [''domain list '' @ d]) ts)"
  "xr_rows (Call ''ClearDNS'' []) = Rows [[''no domain name-server''], [''no domain list'']]"
  by (rule xr_row, ((unfold xr_methods_def list.set, (rule insertI1 | rule insertI2)+)[1]), simp add: on_args_defs)+

lemma xr_set_ip_runnable: "runnable (Rows (xr_set_ip i c)) \<or> parse_cidr c = None \<and> xr_set_ip i c = []"
proof (cases "parse_cidr c")
  case None
  then show ?thesis by (simp add: xr_set_ip_def xr_cidr_to_ip_mask_def)
next
  case (Some p)
  then have "xr_cidr_to_ip_mask c = Some (fst (cut_at CHR ''/'' c), join_with ''.'' (map nat_str (mask_parts 8 (snd p) [255, 255, 255, 255])))"
    unfolding xr_cidr_to_ip_mask_def by (cases p) (simp only: option.case prod.case snd_conv)
  then obtain ip bits where "xr_cidr_to_ip_mask c = Some (ip, bits)" by blast
  then show ?thesis by (simp add: xr_set_ip_def)
qed

lemma xr_runnable_l2: "e \<in> set l2_actions \<Longrightarrow> ad_run e v a = Inr c \<Longrightarrow> runnable (xr_rows c)"
  by (auto simp: l2_actions_def declare_action_def call_def)

text \<open>IOS-XR has no IPv6 default route to remove, and no commands for an address without a prefix length.\<close>

lemma xr_runnable_l3:
  assumes "e \<in> set l3_actions" and "ad_run e v a = Inr c" and "ad_type e = ''set_dns'' \<Longrightarrow> e_dns_servers a \<noteq> []"
    and "''DefaultRoute6Remover'' \<notin> set (rn_caps v)"
  shows "runnable (xr_rows c) \<or> parse_cidr (e_cidr a) = None \<and> xr_rows c = Rows []"
proof (cases "ad_type e \<in> {''set_ip'', ''replace_ip''}")
  case True
  then have "\<exists>m \<in> {''SetIP'', ''ReplaceIP''}. c = Call m [AStr (e_iface a), AStr (e_cidr a)]"
    using assms(1,2) by (auto simp: l3_actions_def declare_action_def call_def)
  then show ?thesis using xr_set_ip_runnable [of "e_iface a" "e_cidr a"] by auto
next
  case False
  have "runnable (xr_rows c)"
    using assms False unfolding l3_actions_def list.set insert_iff empty_iff
    by (elim disjE) (auto simp: declare_action_def call_def xr_static_def split: if_splits)
  then show ?thesis ..
qed

section \<open>The translator\<close>

lemma linux_nat64:
  assumes "e \<in> set nat64_actions" and "ad_run e v a = Inr c"
  shows "runnable (linux_rows c) \<or> linux_rows c = Panics \<and> (\<exists>pool. nat64_pool a = Inr pool \<and> tayga_addresses pool = None)"
proof -
  have n: "linux_rows (Call ''NAT64Enable'' [AStr p, AStr q]) = (case nat64_enable p q of None \<Rightarrow> Panics | Some r \<Rightarrow> Rows r)" for p q
    by (simp add: linux_rows_def rows_with_def linux_methods_def base_methods_defs)
  show ?thesis
    using assms by (auto simp: nat64_actions_def declare_action_def call_def bindR_Inr n nat64_enable_def nat64_disable_def Let_def
        split: option.splits)
qed

section \<open>Every driver, every capability\<close>

text \<open>A registered action with its capability and its declaration.\<close>

lemma lookup_registered:
  assumes "lookup_action startup_actions ty = Some d"
  shows "\<exists>cap u acts e. (cap, u, acts) \<in> set registrations \<and> e \<in> set acts \<and> d = describe cap u e"
proof -
  from assms have "(ty, d) \<in> set (concat (map described registrations))"
    unfolding lookup_action_def startup_types by (rule map_of_SomeD)
  then show ?thesis by (force simp: described_def split: prod.splits)
qed

lemma faucet_sdn: "e \<in> set sdn_actions \<Longrightarrow> ad_run e v a = Inr c \<Longrightarrow> runnable (faucet_rows c)"
  by (auto simp: sdn_actions_def declare_action_def call_def faucet_rows_def faucet_methods_def rows_with_def
      on_args_defs faucet_apply_config_def split: if_splits)

lemma validate_describe: "validate ex (describe cap u e) a = validate ex e a"
  by (simp add: validate_def)

definition offers :: "driver \<Rightarrow> action_decl \<Rightarrow> bool" where
  "offers drv e \<longleftrightarrow> (\<exists>(cap, u, acts) \<in> set registrations. \<not> u \<and> cp_id cap \<in> set (d_caps drv) \<and> e \<in> set acts)"

lemma offers_simps:
  "offers host_driver e \<longleftrightarrow> e \<in> set (l2_actions @ l3_actions @ subinterface_actions)"
  "offers faucet_driver e \<longleftrightarrow> e \<in> set (l2_actions @ l3_actions @ sdn_actions @ subinterface_actions)"
  "offers linux_switch_driver e \<longleftrightarrow> e \<in> set (l2_actions @ stp_actions @ switch_actions @ vlan_actions)"
  "offers ovs_driver e \<longleftrightarrow> e \<in> set (l2_actions @ openflow_actions @ stp_actions @ switch_actions @ vlan_actions)"
  "offers exos_driver e \<longleftrightarrow> e \<in> set (l2_actions @ stp_actions @ switch_actions @ vlan_actions)"
  "offers linux_router_driver e \<longleftrightarrow>
     e \<in> set (l2_actions @ l3_actions @ nat_actions @ nat64_actions @ stp_actions @ subinterface_actions @ switch_actions @ vlan_actions)"
  "offers frr_driver e \<longleftrightarrow>
     e \<in> set (bgp_actions @ isis_actions @ l2_actions @ l3_actions @ nat_actions @ nat64_actions @ ospf_actions @
       ospf6_actions @ rip_actions @ stp_actions @ subinterface_actions @ switch_actions @ vlan_actions)"
  "offers vyos_driver e \<longleftrightarrow>
     e \<in> set (bgp_actions @ isis_actions @ l2_actions @ l3_actions @ nat_actions @ nat64_actions @ ospf_actions @
       ospf6_actions @ rip_actions @ subinterface_actions)"
  "offers xrd_driver e \<longleftrightarrow> e \<in> set (l2_actions @ l3_actions)"
  unfolding offers_def registrations_def driver_defs by simp_all

text \<open>The two ways an action can have no commands: an address IOS-XR cannot split, a pool Tayga cannot take.\<close>

definition commandless :: "driver \<Rightarrow> action_entry \<Rightarrow> build \<Rightarrow> bool" where
  "commandless drv a b \<longleftrightarrow>
     d_name drv = ''XRDRouterDriver'' \<and> b = Rows [] \<and> parse_cidr (e_cidr a) = None \<or>
     d_name drv \<in> {''LinuxRouterDriver'', ''FRRRouterDriver''} \<and> b = Panics \<and> (\<exists>pool. nat64_pool a = Inr pool \<and> tayga_addresses pool = None)"

lemma commandless_names [simp]:
  "d_name linux_router_driver = ''LinuxRouterDriver''" "d_name frr_driver = ''FRRRouterDriver''"
  "d_name xrd_driver = ''XRDRouterDriver''"
  by (simp_all add: driver_defs)

lemma runs_host: "offers host_driver e \<Longrightarrow> ad_run e v a = Inr c \<Longrightarrow> runnable (driver_rows host_driver c)"
  using runnable_l2 runnable_l3 runnable_subinterface calls_l2 calls_l3 calls_subinterface
  by (auto simp: offers_simps host_rows)

lemma runs_faucet: "offers faucet_driver e \<Longrightarrow> ad_run e v a = Inr c \<Longrightarrow> runnable (driver_rows faucet_driver c)"
  using runnable_l2 runnable_l3 runnable_subinterface calls_l2 calls_l3 calls_subinterface faucet_sdn
  by (auto simp: offers_simps faucet_rows_base)

lemma runs_linux_switch: "offers linux_switch_driver e \<Longrightarrow> ad_run e v a = Inr c \<Longrightarrow> runnable (driver_rows linux_switch_driver c)"
  using runnable_l2 runnable_switch runnable_vlan runnable_stp calls_l2 calls_switch calls_vlan calls_stp
  by (auto simp: offers_simps linux_switch_rows)

lemma runs_ovs: "offers ovs_driver e \<Longrightarrow> ad_run e v a = Inr c \<Longrightarrow> runnable (driver_rows ovs_driver c)"
  using ovs_runnable ovs_runnable_stp by (auto simp: offers_simps)

lemma runs_exos: "offers exos_driver e \<Longrightarrow> ad_run e v a = Inr c \<Longrightarrow> validate ex e a = None \<Longrightarrow> runnable (driver_rows exos_driver c)"
  using exos_runnable exos_runnable_stp by (auto simp: offers_simps)

lemma runs_linux_router: "offers linux_router_driver e \<Longrightarrow> ad_run e v a = Inr c \<Longrightarrow>
  runnable (driver_rows linux_router_driver c) \<or> commandless linux_router_driver a (driver_rows linux_router_driver c)"
  using runnable_l2 [of e v a c] runnable_l3 [of e v a c] runnable_subinterface [of e v a c] runnable_switch [of e v a c]
    runnable_vlan [of e v a c] runnable_stp [of e v a c] runnable_nat [of e v a c] linux_nat64 [of e v a c]
  by (auto simp: offers_simps commandless_def)

lemma runs_vyos: "offers vyos_driver e \<Longrightarrow> ad_run e v a = Inr c \<Longrightarrow> runnable (driver_rows vyos_driver c)"
  using vyos_runnable [of e v a c] by (auto simp: offers_simps vyos_actions_def)

lemma frr_shared:
  assumes "e \<in> set (l2_actions @ nat_actions @ stp_actions @ subinterface_actions @ switch_actions @ vlan_actions)"
    and "ad_run e v a = Inr c"
  shows "runnable (frr_rows c)"
proof -
  have "\<exists>xs. calls_in xs c \<and> \<not> frr_shadows xs"
    using assms calls_l2 [of e v a c] calls_nat [of e v a c] calls_stp [of e v a c] calls_subinterface [of e v a c]
      calls_switch [of e v a c] calls_vlan [of e v a c] frr_not_shadowed
    unfolding set_append Un_iff by blast
  then obtain xs where "calls_in xs c" "\<not> frr_shadows xs" by blast
  then have "frr_rows c = linux_rows c" by (rule frr_base)
  moreover have "runnable (linux_rows c)"
    using assms runnable_l2 runnable_nat runnable_stp runnable_subinterface runnable_switch runnable_vlan
    by (auto simp only: set_append Un_iff)
  ultimately show ?thesis by simp
qed

lemma frr_nat64:
  assumes "e \<in> set nat64_actions" and "ad_run e v a = Inr c"
  shows "frr_rows c = linux_rows c"
  using calls_nat64 [OF assms] frr_not_shadowed by (intro frr_base)

lemma runs_frr:
  assumes "offers frr_driver e" and "ad_run e v a = Inr c"
  shows "runnable (driver_rows frr_driver c) \<or> commandless frr_driver a (driver_rows frr_driver c)"
proof (cases "e \<in> set nat64_actions")
  case True
  from linux_nat64 [OF True assms(2)] show ?thesis by (auto simp: frr_nat64 [OF True assms(2)] commandless_def)
next
  case False
  with assms(1) consider "e \<in> set (l2_actions @ nat_actions @ stp_actions @ subinterface_actions @ switch_actions @ vlan_actions)"
    | "e \<in> set l3_actions" | "e \<in> set bgp_actions" | "e \<in> set isis_actions" | "e \<in> set ospf_actions"
    | "e \<in> set ospf6_actions" | "e \<in> set rip_actions"
    unfolding offers_simps set_append Un_iff by blast
  then have "runnable (frr_rows c)"
    using assms(2) by cases (rule frr_shared frr_runnable_l3 frr_runnable_bgp frr_runnable_isis frr_runnable_ospf
        frr_runnable_ospf6 frr_runnable_rip, assumption+)+
  then show ?thesis by simp
qed

lemma runs_xrd:
  assumes "offers xrd_driver e" and "ad_run e v a = Inr c" and "validate ex e a = None"
    and "''DefaultRoute6Remover'' \<notin> set (rn_caps v)"
  shows "runnable (driver_rows xrd_driver c) \<or> commandless xrd_driver a (driver_rows xrd_driver c)"
proof -
  have dns: "e_dns_servers a \<noteq> []" if "e \<in> set l3_actions" "ad_type e = ''set_dns''"
    using that by (intro validated_dns_servers [OF assms(3)]) (auto simp: l3_actions_def declare_action_def)
  from assms(1) consider "e \<in> set l2_actions" | "e \<in> set l3_actions" unfolding offers_simps set_append Un_iff by blast
  then show ?thesis
  proof cases
    case 1
    then show ?thesis using xr_runnable_l2 assms(2) by simp
  next
    case 2
    then show ?thesis using xr_runnable_l3 [OF 2 assms(2) dns assms(4)] by (auto simp: commandless_def)
  qed
qed

lemma driver_runs:
  assumes "drv \<in> set all_drivers" and "offers drv e" and "ad_run e v a = Inr c" and "validate ex e a = None"
    and "rn_caps v = d_caps drv"
  shows "runnable (driver_rows drv c) \<or> commandless drv a (driver_rows drv c)"
proof -
  have x: "''DefaultRoute6Remover'' \<notin> set (d_caps xrd_driver)" by (simp add: xrd_driver_def)
  from assms(1) consider "drv = host_driver" | "drv = faucet_driver" | "drv = linux_switch_driver" | "drv = ovs_driver"
    | "drv = exos_driver" | "drv = linux_router_driver" | "drv = frr_driver" | "drv = vyos_driver" | "drv = xrd_driver"
    unfolding all_drivers_def list.set insert_iff empty_iff by blast
  then show ?thesis
    using assms(2-5) x runs_host runs_faucet runs_linux_switch runs_ovs runs_exos runs_linux_router runs_frr runs_vyos runs_xrd
    by cases metis+
qed

text \<open>
  C28: an action that passed validation and its builder's checks for a driver that supports it always
  has commands to run, none of them empty, on every one of the nine registered drivers: the driver
  has the method the catalog calls, with its arguments. Two cases are left, which the code does not
  refuse: an address without a prefix length on IOS-XR (no commands), a NAT64 pool that Tayga's
  address arithmetic cannot take on the Linux drivers (a panic).
\<close>

theorem driver_actions_have_commands:
  assumes "drv \<in> set all_drivers" and "lookup_action startup_actions (e_type a) = Some d"
    and "supports d (d_caps drv)" and "\<not> ds_universal d" and "validate ex d a = None"
    and "ad_run d (v\<lparr>rn_caps := d_caps drv\<rparr>) a = Inr c"
  shows "(\<exists>rows. driver_rows drv c = Rows rows \<and> rows \<noteq> [] \<and> [] \<notin> set rows) \<or>
    commandless drv a (driver_rows drv c)"
proof -
  obtain cap u acts e where e: "(cap, u, acts) \<in> set registrations" "e \<in> set acts" "d = describe cap u e"
    using lookup_registered [OF assms(2)] by blast
  then have o: "offers drv e" using assms(3,4) by (auto simp: offers_def supports_def)
  have v: "validate ex e a = None" using assms(5) unfolding e(3) validate_describe .
  have "ad_run e (v\<lparr>rn_caps := d_caps drv\<rparr>) a = Inr c" using assms(6) unfolding e(3) by simp
  from driver_runs [OF assms(1) o this v] show ?thesis by (simp add: runnable_def)
qed

theorem driver_actions_have_commands_witness:
  "\<forall>v. \<exists>c. ad_run (hd l3_actions) (v\<lparr>rn_caps := d_caps vyos_driver\<rparr>)
      ((entry_of ''set_ip'')\<lparr>e_iface := ''eth1'', e_cidr := ''10.0.0.1/24''\<rparr>) = Inr c \<and>
    ((\<exists>rows. driver_rows vyos_driver c = Rows rows \<and> rows \<noteq> [] \<and> [] \<notin> set rows) \<or>
     commandless vyos_driver ((entry_of ''set_ip'')\<lparr>e_iface := ''eth1'', e_cidr := ''10.0.0.1/24''\<rparr>)
       (driver_rows vyos_driver c))"
proof (rule allI)
  fix v
  let ?a = "(entry_of ''set_ip'')\<lparr>e_iface := ''eth1'', e_cidr := ''10.0.0.1/24''\<rparr>"
  let ?cap = "\<lparr>cp_id = ''L3Capable'', cp_label = ''Level 3: IP addressing''\<rparr>" and ?e = "hd l3_actions"
  have e: "ad_type ?e = ''set_ip''" "ad_params ?e = [P_Iface, P_CIDR]" "ad_allow_protected ?e = False"
    "ad_run ?e (v\<lparr>rn_caps := d_caps vyos_driver\<rparr>) ?a = Inr (Call ''SetIP'' [AStr ''eth1'', AStr ''10.0.0.1/24''])"
    by (simp_all add: l3_actions_def declare_action_def call_def)
  have "(?cap, False, l3_actions) \<in> set registrations" "?e \<in> set l3_actions"
    by (simp_all add: registrations_def l3_actions_def)
  then have l: "lookup_action startup_actions (e_type ?a) = Some (describe ?cap False ?e)"
    using lookup_of_registration [of ?cap False l3_actions ?e] e(1) by (simp add: entry_of_def)
  have "validate_param [] False ?a P_Iface = None" "validate_param [] False ?a P_CIDR = None" by code_simp+
  then have "validate [] (describe ?cap False ?e) ?a = None" by (simp add: validate_None e)
  moreover have "supports (describe ?cap False ?e) (d_caps vyos_driver)" "\<not> ds_universal (describe ?cap False ?e)"
    by (simp_all add: supports_def vyos_driver_def)
  moreover have "vyos_driver \<in> set all_drivers" by (simp add: all_drivers_def)
  ultimately show "\<exists>c. ad_run ?e (v\<lparr>rn_caps := d_caps vyos_driver\<rparr>) ?a = Inr c \<and>
    ((\<exists>rows. driver_rows vyos_driver c = Rows rows \<and> rows \<noteq> [] \<and> [] \<notin> set rows) \<or>
     commandless vyos_driver ?a (driver_rows vyos_driver c))"
    using driver_actions_have_commands [OF _ l, of vyos_driver "[]" v] e(4) by auto
qed

end
