(* ===== verification/Link_Attributes.thy ===== *)
theory Link_Attributes
  imports Topology_Wiring Traffic_Shaping
begin

text \<open>
  The properties a request declares on its links, \<open>helpers/link_attributes.go\<close>: their checks, the
  shaping actions they become and the table \<open>link_attributes\<close> that keeps them, read back from
  either end of a link. The MTU of the platform (\<open>helpers/mtu.go\<close>) is an environment variable, an
  argument here. The column of an address list holds the JSON its text decodes to, \<open>None\<close> for
  the empty text.
\<close>

section \<open>The MTU of the platform\<close>

definition default_link_mtu :: int where "default_link_mtu = 1450"
definition min_link_mtu :: int where "min_link_mtu = 68"
definition max_link_mtu :: int where "max_link_mtu = 65535"

datatype attr_error = BadPlatformMTU string | MTURange int | MTUBelowIPv6 int | MTUAbovePlatform int int | BadShaping string

definition parse_platform_link_mtu :: "string \<Rightarrow> attr_error + int \<times> bool" where
  "parse_platform_link_mtu raw =
     (let s = trim_space raw in
      if s = [] then Inr (default_link_mtu, False)
      else case atoi s of
        None \<Rightarrow> Inl (BadPlatformMTU s)
      | Some n \<Rightarrow> if n < min_link_mtu \<or> n > max_link_mtu then Inl (BadPlatformMTU s) else Inr (n, True))"

definition validate_link_mtu :: "string \<Rightarrow> int \<Rightarrow> string list \<Rightarrow> attr_error option" where
  "validate_link_mtu env mtu addrs =
     (if mtu = 0 then None
      else if mtu < min_link_mtu \<or> mtu > max_link_mtu then Some (MTURange mtu)
      else if list_ex (\<lambda>a. ip_family a = 6 \<and> mtu < 1280) addrs then Some (MTUBelowIPv6 mtu)
      else case parse_platform_link_mtu env of
        Inl e \<Rightarrow> Some e
      | Inr (platform, _) \<Rightarrow> if mtu > platform then Some (MTUAbovePlatform mtu platform) else None)"

section \<open>Attributes of a link\<close>

record link_attrs =
  la_delay :: string
  la_jitter :: string
  la_loss :: string
  la_bandwidth :: string
  la_mtu :: int
  la_local :: "string list"
  la_peer :: "string list"

definition attrs_of :: "link_spec \<Rightarrow> link_attrs" where
  "attrs_of l =
     \<lparr>la_delay = l_delay l, la_jitter = l_jitter l, la_loss = l_loss l, la_bandwidth = l_bandwidth l, la_mtu = l_mtu l,
      la_local = addrs_extra (l_ip l), la_peer = addrs_extra (l_peer_ip l)\<rparr>"

definition has_shaping :: "link_attrs \<Rightarrow> bool" where
  "has_shaping a \<longleftrightarrow> la_delay a \<noteq> [] \<or> la_jitter a \<noteq> [] \<or> la_loss a \<noteq> [] \<or> la_bandwidth a \<noteq> []"

definition attrs_empty :: "link_attrs \<Rightarrow> bool" where
  "attrs_empty a \<longleftrightarrow> \<not> has_shaping a \<and> la_mtu a = 0 \<and> la_local a = [] \<and> la_peer a = []"

definition swapped :: "link_attrs \<Rightarrow> link_attrs" where
  "swapped a = a\<lparr>la_local := la_peer a, la_peer := la_local a\<rparr>"

definition encode_addrs :: "string list \<Rightarrow> json option" where
  "encode_addrs addrs = (if addrs = [] then None else Some (JArray (map JString addrs)))"

definition decode_addrs :: "json option \<Rightarrow> string list" where
  "decode_addrs raw =
     (case raw of
        Some (JArray js) \<Rightarrow> if list_all (\<lambda>x. json_elem x \<noteq> None) js then map (the \<circ> json_elem) js else []
      | _ \<Rightarrow> [])"

definition shaping :: "link_attrs \<Rightarrow> tc_param" where
  "shaping a =
     TCParam \<lparr>q_qdisc = ''netem'', q_delay = la_delay a, q_jitter = la_jitter a, q_delay_correlation = [],
        q_distribution = [], q_loss = la_loss a, q_loss_correlation = [], q_gemodel = None, q_duplicate = [],
        q_corrupt = [], q_reorder = [], q_reorder_correlation = [], q_limit = None, q_rate = la_bandwidth a,
        q_burst = [], q_latency = []\<rparr> []"

definition validate_link_attribute :: "string \<Rightarrow> link_spec \<Rightarrow> attr_error option" where
  "validate_link_attribute env l =
     (let a = attrs_of l in
      case (if has_shaping a then build_tc_params (shaping a) else Inr ([], [])) of
        Inl f \<Rightarrow> Some (BadShaping f)
      | Inr _ \<Rightarrow> validate_link_mtu env (la_mtu a) (l_ip l @ l_peer_ip l))"

definition validate_link_attributes :: "string \<Rightarrow> link_spec list \<Rightarrow> (nat \<times> attr_error) option" where
  "validate_link_attributes env links =
     first_error (\<lambda>i l. map_option (Pair i) (validate_link_attribute env l)) 0 links"

section \<open>The shaping actions of the links\<close>

fun add_target :: "string \<Rightarrow> action_entry \<Rightarrow> (string \<times> action_entry list) list \<Rightarrow> (string \<times> action_entry list) list" where
  "add_target pod a [] = [(pod, [a])]"
| "add_target pod a ((p, as) # ts) = (if p = pod then (p, as @ [a]) # ts else (p, as) # add_target pod a ts)"

definition shaped_ends :: "node_spec list \<Rightarrow> link_spec \<Rightarrow> (string \<times> string) list" where
  "shaped_ends nodes l =
     (resolve_pod_name (l_node l) nodes, l_intf l) #
     (if l_peer l \<noteq> external_node_name then [(resolve_pod_name (l_peer l) nodes, l_peer_intf l)] else [])"

definition shaping_action :: "link_attrs \<Rightarrow> string \<Rightarrow> action_entry" where
  "shaping_action a iface = (entry_of ''add_qdisc'')\<lparr>e_iface := iface, e_tcparams := Some (shaping a)\<rparr>"

definition link_targets :: "node_spec list \<Rightarrow> link_spec \<Rightarrow> (string \<times> action_entry list) list \<Rightarrow> (string \<times> action_entry list) list" where
  "link_targets nodes l ts =
     (if has_shaping (attrs_of l)
      then fold (\<lambda>(pod, i). add_target pod (shaping_action (attrs_of l) i)) (shaped_ends nodes l) ts else ts)"

definition link_attribute_actions :: "link_spec list \<Rightarrow> node_spec list \<Rightarrow> (string \<times> action_entry list) list" where
  "link_attribute_actions links nodes = fold (link_targets nodes) links []"

section \<open>The table\<close>

record link_row =
  lr_cluster :: string
  lr_ns :: string
  lr_node :: string
  lr_intf :: string
  lr_peer :: string
  lr_peer_intf :: string
  lr_delay :: string
  lr_jitter :: string
  lr_loss :: string
  lr_bandwidth :: string
  lr_mtu :: int
  lr_local :: "json option"
  lr_peer_addrs :: "json option"

type_synonym 'a attr_op = "(link_row store, db_error, 'a) op"

definition in_namespace :: "string \<Rightarrow> string \<Rightarrow> link_row \<Rightarrow> bool" where
  "in_namespace cid ns r \<longleftrightarrow> lr_cluster r = cid \<and> lr_ns r = ns"

definition at_end :: "string \<Rightarrow> string \<Rightarrow> link_row \<Rightarrow> bool" where
  "at_end pod i r \<longleftrightarrow> lr_node r = pod \<and> lr_intf r = i"

definition peer_of :: "node_spec list \<Rightarrow> link_spec \<Rightarrow> string" where
  "peer_of nodes l = (if l_peer l \<noteq> external_node_name then resolve_pod_name (l_peer l) nodes else l_peer l)"

definition row_of :: "string \<Rightarrow> string \<Rightarrow> node_spec list \<Rightarrow> link_spec \<Rightarrow> link_row" where
  "row_of cid ns nodes l =
     (let a = attrs_of l in
      \<lparr>lr_cluster = cid, lr_ns = ns, lr_node = resolve_pod_name (l_node l) nodes, lr_intf = l_intf l,
       lr_peer = peer_of nodes l, lr_peer_intf = l_peer_intf l, lr_delay = la_delay a, lr_jitter = la_jitter a,
       lr_loss = la_loss a, lr_bandwidth = la_bandwidth a, lr_mtu = la_mtu a,
       lr_local = encode_addrs (la_local a), lr_peer_addrs = encode_addrs (la_peer a)\<rparr>)"

text \<open>The row of one link: deleted when it declares nothing, else \<open>INSERT OR REPLACE\<close> under the primary key.\<close>

definition put_row :: "string \<Rightarrow> string \<Rightarrow> node_spec list \<Rightarrow> link_spec \<Rightarrow> link_row list \<Rightarrow> link_row list" where
  "put_row cid ns nodes l rows =
     filter (\<lambda>r. \<not> (in_namespace cid ns r \<and> at_end (resolve_pod_name (l_node l) nodes) (l_intf l) r)) rows @
     (if attrs_empty (attrs_of l) then [] else [row_of cid ns nodes l])"

definition save_link_attributes :: "string \<Rightarrow> link_spec list \<Rightarrow> node_spec list \<Rightarrow> unit attr_op" where
  "save_link_attributes ns links nodes =
     op_bind need_open (\<lambda>_. op_bind need_cluster (\<lambda>cid.
     op_each (\<lambda>l. db_exec ''save'' (put_row cid ns nodes l)) links))"

definition attrs_of_row :: "link_row \<Rightarrow> link_attrs" where
  "attrs_of_row r =
     \<lparr>la_delay = lr_delay r, la_jitter = lr_jitter r, la_loss = lr_loss r, la_bandwidth = lr_bandwidth r,
      la_mtu = lr_mtu r, la_local = decode_addrs (lr_local r), la_peer = decode_addrs (lr_peer_addrs r)\<rparr>"

text \<open>The entries a row makes: its own end, and the other one seen from there.\<close>

definition row_entries :: "link_row \<Rightarrow> (string \<times> link_attrs) list" where
  "row_entries r =
     (crd_end (lr_node r) (lr_intf r), attrs_of_row r) #
     (if lr_peer r \<noteq> external_node_name then [(crd_end (lr_peer r) (lr_peer_intf r), swapped (attrs_of_row r))] else [])"

definition attrs_map :: "link_row list \<Rightarrow> (string \<times> link_attrs) list" where
  "attrs_map rows = fold (\<lambda>(k, a). AList.update k a) (concat (map row_entries rows)) []"

text \<open>An operation that does nothing when the database is closed.\<close>

definition if_open :: "'a \<Rightarrow> (string \<Rightarrow> 'a attr_op) \<Rightarrow> 'a attr_op" where
  "if_open d f = (\<lambda>s. if st_open s then op_bind need_cluster f s else (Inr d, s))"

definition load_link_attributes :: "string \<Rightarrow> (string \<times> link_attrs) list attr_op" where
  "load_link_attributes ns =
     if_open [] (\<lambda>cid. db_query ''load'' (\<lambda>rows. attrs_map (filter (in_namespace cid ns) rows)))"

definition delete_link_attributes_for_links :: "string \<Rightarrow> link_spec list \<Rightarrow> node_spec list \<Rightarrow> unit attr_op" where
  "delete_link_attributes_for_links ns links nodes =
     if_open () (\<lambda>cid. op_each (\<lambda>l. db_exec ''delete'' (filter (\<lambda>r. \<not> (in_namespace cid ns r \<and>
        (at_end (resolve_pod_name (l_node l) nodes) (l_intf l) r \<or> at_end (peer_of nodes l) (l_peer_intf l) r))))) links)"

definition delete_link_attributes_for_pods :: "string \<Rightarrow> string list \<Rightarrow> unit attr_op" where
  "delete_link_attributes_for_pods ns pods =
     if_open () (\<lambda>cid. op_each (\<lambda>p. db_exec ''delete'' (filter (\<lambda>r. \<not> (in_namespace cid ns r \<and>
        (lr_node r = p \<or> lr_peer r = p))))) pods)"

definition delete_namespace_link_attributes :: "string \<Rightarrow> unit attr_op" where
  "delete_namespace_link_attributes ns = if_open () (\<lambda>cid. db_exec ''delete'' (filter (\<lambda>r. \<not> in_namespace cid ns r)))"

definition with_attrs :: "link_spec \<Rightarrow> link_attrs \<Rightarrow> link_spec" where
  "with_attrs l a =
     l\<lparr>l_delay := la_delay a, l_jitter := la_jitter a, l_loss := la_loss a, l_bandwidth := la_bandwidth a,
       l_mtu := la_mtu a, l_ip := l_ip l @ la_local a, l_peer_ip := l_peer_ip l @ la_peer a\<rparr>"

definition fill_link_attributes :: "(string \<times> link_attrs) list \<Rightarrow> string \<Rightarrow> string \<Rightarrow> link_spec \<Rightarrow> link_spec" where
  "fill_link_attributes attrs pod peer l =
     (let found = (case map_of attrs (crd_end pod (l_intf l)) of
            Some a \<Rightarrow> Some a
          | None \<Rightarrow> if peer \<noteq> external_node_name then map_option swapped (map_of attrs (crd_end peer (l_peer_intf l))) else None)
      in case found of None \<Rightarrow> l | Some a \<Rightarrow> with_attrs l a)"

text \<open>The update counts the rows it touched; an insert follows when there were none and the MTU is not cleared.\<close>

definition set_link_mtu :: "string \<Rightarrow> string \<Rightarrow> string \<Rightarrow> string \<Rightarrow> string \<Rightarrow> int \<Rightarrow> unit attr_op" where
  "set_link_mtu ns pod iface peer peer_intf mtu =
     op_bind need_open (\<lambda>_. op_bind need_cluster (\<lambda>cid. (\<lambda>s.
     let hit = (\<lambda>r. in_namespace cid ns r \<and> (at_end pod iface r \<or> at_end peer peer_intf r)); n = length (filter hit (st_rows s)) in
     op_bind (db_exec ''update'' (map (\<lambda>r. if hit r then r\<lparr>lr_mtu := mtu\<rparr> else r))) (\<lambda>_.
     if n > 0 \<or> mtu = 0 then op_ret ()
     else db_exec ''insert'' (\<lambda>rows. rows @ [\<lparr>lr_cluster = cid, lr_ns = ns, lr_node = pod, lr_intf = iface, lr_peer = peer,
        lr_peer_intf = peer_intf, lr_delay = [], lr_jitter = [], lr_loss = [], lr_bandwidth = [], lr_mtu = mtu,
        lr_local = None, lr_peer_addrs = None\<rparr>])) s)))"

section \<open>What is saved reads back from either end\<close>

lemma decode_encode [simp]: "decode_addrs (encode_addrs addrs) = addrs"
  by (simp add: decode_addrs_def encode_addrs_def list_all_iff comp_def)

lemma attrs_of_row_of [simp]: "attrs_of_row (row_of cid ns nodes l) = attrs_of l"
  by (simp add: attrs_of_row_def row_of_def attrs_of_def Let_def)

definition first_end :: "node_spec list \<Rightarrow> link_spec \<Rightarrow> string \<times> string" where
  "first_end nodes l = (resolve_pod_name (l_node l) nodes, l_intf l)"

definition declares :: "link_spec \<Rightarrow> bool" where
  "declares l \<longleftrightarrow> \<not> attrs_empty (attrs_of l)"

lemma filter_put_row:
  "filter (in_namespace cid ns) (put_row cid ns nodes l rows) =
     filter (\<lambda>r. (lr_node r, lr_intf r) \<noteq> first_end nodes l) (filter (in_namespace cid ns) rows) @
     (if declares l then [row_of cid ns nodes l] else [])"
  by (auto simp: put_row_def filter_filter declares_def in_namespace_def at_end_def first_end_def row_of_def Let_def
      intro!: filter_cong)

lemma row_of_end [simp]: "(lr_node (row_of cid ns nodes l), lr_intf (row_of cid ns nodes l)) = first_end nodes l"
  by (simp add: row_of_def first_end_def Let_def)

lemma put_rows:
  assumes "distinct (map (first_end nodes) links)"
  shows "filter (in_namespace cid ns) (fold (put_row cid ns nodes) links rows) =
    filter (\<lambda>r. (lr_node r, lr_intf r) \<notin> first_end nodes ` set links) (filter (in_namespace cid ns) rows) @
    map (row_of cid ns nodes) (filter declares links)"
  using assms
proof (induction links arbitrary: rows)
  case (Cons l links)
  have one: "filter (\<lambda>r. (lr_node r, lr_intf r) \<notin> first_end nodes ` set links) (if declares l then [row_of cid ns nodes l] else []) =
      (if declares l then [row_of cid ns nodes l] else [])"
    using Cons.prems by auto
  have "filter (\<lambda>r. (lr_node r, lr_intf r) \<notin> first_end nodes ` set links)
        (filter (\<lambda>r. (lr_node r, lr_intf r) \<noteq> first_end nodes l) (filter (in_namespace cid ns) rows)) =
      filter (\<lambda>r. (lr_node r, lr_intf r) \<notin> first_end nodes ` set (l # links)) (filter (in_namespace cid ns) rows)"
    unfolding filter_filter by (rule filter_cong) auto
  then show ?case
    using Cons by (simp only: fold_Cons_rev comp_def fold.simps filter_put_row filter_append one distinct.simps list.map)
      (simp add: filter_put_row one)
qed (simp add: filter_id_conv)

lemma map_of_update_keys: "x \<notin> fst ` set kvs \<Longrightarrow> map_of (fold (\<lambda>(k, a). AList.update k a) kvs m) x = map_of m x"
  by (induction kvs arbitrary: m) (auto simp: update_conv')

lemma map_of_updates:
  "distinct (map fst kvs) \<Longrightarrow> map_of (fold (\<lambda>(k, a). AList.update k a) kvs m) x = (case map_of kvs x of None \<Rightarrow> map_of m x | Some a \<Rightarrow> Some a)"
proof (induction kvs arbitrary: m)
  case (Cons kv kvs)
  obtain k v where kv: "kv = (k, v)" by (cases kv)
  with Cons.prems have "map_of kvs k = None" "distinct (map fst kvs)" by (simp_all add: map_of_eq_None_iff)
  with Cons.IH [of "AList.update k v m"] kv show ?case by (auto simp: update_conv' split: option.split)
qed simp

lemma crd_end_inj: "CHR ''/'' \<notin> set p \<Longrightarrow> CHR ''/'' \<notin> set q \<Longrightarrow> crd_end p i = crd_end q j \<longleftrightarrow> p = q \<and> i = j"
proof -
  assume "CHR ''/'' \<notin> set p" "CHR ''/'' \<notin> set q"
  then have "takeWhile (\<lambda>c. c \<noteq> CHR ''/'') (crd_end p i) = p" "takeWhile (\<lambda>c. c \<noteq> CHR ''/'') (crd_end q j) = q"
    by (simp_all add: crd_end_def takeWhile_append)
  then show ?thesis by (auto simp: crd_end_def)
qed

lemma ends_of_filter: "set (ends_of nodes (filter P links)) \<subseteq> set (ends_of nodes links)"
  by (auto simp: ends_of_def)

lemma distinct_ends_filter: "distinct (ends_of nodes links) \<Longrightarrow> distinct (ends_of nodes (filter P links))"
proof (induction links)
  case (Cons l links)
  then show ?case using ends_of_filter [of nodes P links] by (auto simp: ends_of_Cons)
qed simp

lemma ends_of_other:
  "distinct (ends_of nodes links) \<Longrightarrow> l \<in> set links \<Longrightarrow> \<not> P l \<Longrightarrow> set (own_ends nodes l) \<inter> set (ends_of nodes (filter P links)) = {}"
proof (induction links)
  case (Cons x links)
  have f: "set (ends_of nodes (filter P links)) \<subseteq> set (ends_of nodes links)" by (rule ends_of_filter)
  show ?case
  proof (cases "l = x")
    case True
    with Cons.prems f show ?thesis by (auto simp: ends_of_Cons)
  next
    case False
    with Cons.prems(2) have l: "l \<in> set links" by simp
    from own_ends_subset [OF this] have "set (own_ends nodes l) \<subseteq> set (ends_of nodes links)" .
    with Cons.prems Cons.IH l False show ?thesis by (auto simp: ends_of_Cons)
  qed
qed simp

lemma ends_of_Nil [simp]: "ends_of nodes [] = []" by (simp add: ends_of_def)

text \<open>The entries of a link are those of its ends, named from the pod's side.\<close>

definition seen_entries :: "node_spec list \<Rightarrow> link_spec \<Rightarrow> (string \<times> link_attrs) list" where
  "seen_entries nodes l =
     (crd_end (resolve_pod_name (l_node l) nodes) (l_intf l), attrs_of l) #
     (if l_peer l \<noteq> external_node_name
      then [(crd_end (resolve_pod_name (l_peer l) nodes) (l_peer_intf l), swapped (attrs_of l))] else [])"

lemma row_of_sel [simp]:
  "lr_node (row_of cid ns nodes l) = resolve_pod_name (l_node l) nodes" "lr_intf (row_of cid ns nodes l) = l_intf l"
  "lr_peer (row_of cid ns nodes l) = peer_of nodes l" "lr_peer_intf (row_of cid ns nodes l) = l_peer_intf l"
  by (simp_all add: row_of_def Let_def)

lemma row_entries_row_of: "row_entries (row_of cid ns nodes l) = seen_entries nodes l"
  by (simp add: row_entries_def seen_entries_def peer_of_def resolve_eq_external)

lemma seen_keys: "l_node l \<noteq> external_node_name \<Longrightarrow> map fst (seen_entries nodes l) = map (\<lambda>(p, i). crd_end p i) (own_ends nodes l)"
  by (simp add: seen_entries_def own_ends_def end_of_def)

lemma seen_keys_all:
  "\<forall>l \<in> set links. l_node l \<noteq> external_node_name \<Longrightarrow>
   map fst (concat (map (seen_entries nodes) links)) = map (\<lambda>(p, i). crd_end p i) (ends_of nodes links)"
  by (induction links) (simp_all add: ends_of_Cons seen_keys)

lemma safe_ends:
  assumes "plain_nodes nodes" and "\<forall>l \<in> set links. wirable nodes l" and "(p, i) \<in> set (ends_of nodes links)"
  shows "CHR ''/'' \<notin> set p"
proof -
  obtain l where "l \<in> set links" "(p, i) \<in> set (own_ends nodes l)" using assms(3) by (auto simp: ends_of_def own_ends_def)
  then have "p \<in> set (pods_of nodes)" using assms(2) wirable_end_cases [of nodes l]
    by (auto simp: own_ends_def end_of_def resolve_eq_external split: if_splits)
  with pod_name_safe_chars [OF assms(1)] show ?thesis by blast
qed

lemma join_ends_inj:
  assumes "plain_nodes nodes" and "\<forall>l \<in> set links. wirable nodes l"
  shows "inj_on (\<lambda>(p, i). crd_end p i) (set (ends_of nodes links))"
  using safe_ends [OF assms] by (auto simp: inj_on_def crd_end_inj)

lemma seen_entries_map:
  assumes "plain_nodes nodes" and "\<forall>l \<in> set links. wirable nodes l \<and> l_node l \<noteq> external_node_name"
    and "distinct (ends_of nodes links)" and "l \<in> set links" and "(k, a) \<in> set (seen_entries nodes l)"
  shows "map_of (concat (map (seen_entries nodes) (filter declares links))) k = (if declares l then Some a else None)"
proof -
  let ?es = "concat (map (seen_entries nodes) (filter declares links))"
  have w: "\<forall>l \<in> set links. wirable nodes l" "\<forall>l \<in> set (filter declares links). l_node l \<noteq> external_node_name" "l_node l \<noteq> external_node_name"
    using assms(2,4) by auto
  have keys: "map fst ?es = map (\<lambda>(p, i). crd_end p i) (ends_of nodes (filter declares links))" by (rule seen_keys_all [OF w(2)])
  have inj: "inj_on (\<lambda>(p, i). crd_end p i) (set (ends_of nodes links))" by (rule join_ends_inj [OF assms(1) w(1)])
  show ?thesis
  proof (cases "declares l")
    case True
    have "distinct (map fst ?es)"
      unfolding keys distinct_map using distinct_ends_filter [OF assms(3)] inj_on_subset [OF inj ends_of_filter] by blast
    moreover have "(k, a) \<in> set ?es" using assms(4,5) True by auto
    ultimately show ?thesis using True by simp
  next
    case False
    have "k \<in> set (map fst (seen_entries nodes l))" using assms(5) by force
    then have "k \<in> (\<lambda>(p, i). crd_end p i) ` set (own_ends nodes l)" unfolding seen_keys [OF w(3)] set_map .
    then obtain e where e: "e \<in> set (own_ends nodes l)" "k = (\<lambda>(p, i). crd_end p i) e" by blast
    have "(\<lambda>(p, i). crd_end p i) e \<in> (\<lambda>(p, i). crd_end p i) ` set (ends_of nodes (filter declares links)) \<longleftrightarrow>
        e \<in> set (ends_of nodes (filter declares links))"
      by (rule inj_on_image_mem_iff [OF inj subsetD [OF own_ends_subset [OF assms(4)] e(1)] ends_of_filter])
    moreover have "e \<notin> set (ends_of nodes (filter declares links))"
      using ends_of_other [where P = declares, OF assms(3,4) False] e(1) by blast
    ultimately have "k \<notin> set (map fst ?es)" unfolding keys set_map e(2) by simp
    with False show ?thesis by (simp add: map_of_eq_None_iff)
  qed
qed

text \<open>
  A row that is there before: it is keyed at the first end of one of the links, or it shares no end
  with them.
\<close>

definition fits :: "node_spec list \<Rightarrow> link_spec list \<Rightarrow> link_row \<Rightarrow> bool" where
  "fits nodes links r \<longleftrightarrow>
     (lr_node r, lr_intf r) \<in> first_end nodes ` set links \<or>
     CHR ''/'' \<notin> set (lr_node r) \<and> CHR ''/'' \<notin> set (lr_peer r) \<and> (lr_node r, lr_intf r) \<notin> set (ends_of nodes links) \<and>
     (lr_peer r \<noteq> external_node_name \<longrightarrow> (lr_peer r, lr_peer_intf r) \<notin> set (ends_of nodes links))"

lemma fits_keys:
  assumes "fits nodes links r" and "(lr_node r, lr_intf r) \<notin> first_end nodes ` set links"
    and "\<forall>(p, i) \<in> set (ends_of nodes links). CHR ''/'' \<notin> set p"
  shows "fst ` set (row_entries r) \<inter> (\<lambda>(p, i). crd_end p i) ` set (ends_of nodes links) = {}"
  using assms crd_end_inj by (fastforce simp: fits_def row_entries_def split: if_splits)

lemma saved_map:
  assumes "save_link_attributes ns links nodes s = (Inr (), t)" and "load_link_attributes ns t = (Inr m, u)"
    and "\<forall>r \<in> set (st_rows s). st_cluster s = Some (lr_cluster r) \<and> lr_ns r = ns \<longrightarrow> fits nodes links r"
    and "distinct (map (first_end nodes) links)" and "\<forall>(p, i) \<in> set (ends_of nodes links). CHR ''/'' \<notin> set p"
    and "distinct (map fst (concat (map (seen_entries nodes) (filter declares links))))"
    and "e \<in> set (ends_of nodes links)"
  shows "map_of m (crd_end (fst e) (snd e)) = map_of (concat (map (seen_entries nodes) (filter declares links))) (crd_end (fst e) (snd e))"
proof -
  let ?k = "crd_end (fst e) (snd e)" and ?new = "concat (map (seen_entries nodes) (filter declares links))"
  obtain cid s1 where c: "st_cluster s = Some cid" "st_open s"
    "op_each (\<lambda>l. db_exec ''save'' (put_row cid ns nodes l)) links s = (Inr (), t)"
    using assms(1) by (auto simp: save_link_attributes_def op_bind_Inr)
  have rows: "st_rows t = fold (put_row cid ns nodes) links (st_rows s)" by (rule op_each_exec_rows [OF c(3)])
  have k: "st_cluster t = Some cid \<and> st_open t"
    by (rule op_each_invariant [where P = "\<lambda>s. st_cluster s = Some cid \<and> st_open s", OF c(3)]) (use c(1,2) in \<open>auto dest: db_exec_Inr\<close>)
  define old where "old = filter (\<lambda>r. (lr_node r, lr_intf r) \<notin> first_end nodes ` set links) (filter (in_namespace cid ns) (st_rows s))"
  have "filter (in_namespace cid ns) (st_rows t) = old @ map (row_of cid ns nodes) (filter declares links)"
    unfolding rows put_rows [OF assms(4)] old_def ..
  moreover have "m = attrs_map (filter (in_namespace cid ns) (st_rows t))"
    using assms(2) k by (auto simp: load_link_attributes_def if_open_def op_bind_Inr dest!: db_query_Inr)
  ultimately have m: "m = fold (\<lambda>(k, a). AList.update k a) ?new (fold (\<lambda>(k, a). AList.update k a) (concat (map row_entries old)) [])"
    by (simp add: attrs_map_def comp_def row_entries_row_of)
  have "?k \<in> (\<lambda>(p, i). crd_end p i) ` set (ends_of nodes links)" using assms(7) by (force simp: case_prod_beta)
  then have "?k \<notin> fst ` set (row_entries r)" if "r \<in> set old" for r
    using fits_keys [of nodes links r] assms(3,5) that c(1) by (fastforce simp: old_def in_namespace_def)
  then have "?k \<notin> fst ` set (concat (map row_entries old))" by auto
  then have "map_of (fold (\<lambda>(k, a). AList.update k a) (concat (map row_entries old)) []) ?k = None"
    by (simp add: map_of_update_keys)
  then show ?thesis by (simp add: m map_of_updates [OF assms(6)] split: option.split)
qed

lemma first_end_own: "l_node l \<noteq> external_node_name \<Longrightarrow> first_end nodes l \<in> set (own_ends nodes l)"
  by (simp add: first_end_def own_ends_def end_of_def)

lemma distinct_first_ends:
  "distinct (ends_of nodes links) \<Longrightarrow> \<forall>l \<in> set links. l_node l \<noteq> external_node_name \<Longrightarrow> distinct (map (first_end nodes) links)"
proof (induction links)
  case (Cons x links)
  have "first_end nodes ` set links \<subseteq> set (ends_of nodes links)"
  proof (rule image_subsetI)
    fix y assume "y \<in> set links"
    then show "first_end nodes y \<in> set (ends_of nodes links)"
      using own_ends_subset [of y links nodes] first_end_own [of y nodes] Cons.prems(2) by auto
  qed
  moreover have "first_end nodes x \<in> set (own_ends nodes x)" using Cons.prems(2) first_end_own by simp
  moreover have "set (own_ends nodes x) \<inter> set (ends_of nodes links) = {}" using Cons.prems(1) by (simp add: ends_of_Cons)
  ultimately have "first_end nodes x \<notin> first_end nodes ` set links" by blast
  with Cons show ?case by (simp add: ends_of_Cons)
qed simp

text \<open>A link as the cluster gives it back, without declared properties, and the same link from its other end.\<close>

definition bare :: "link_spec \<Rightarrow> bool" where
  "bare k \<longleftrightarrow> l_delay k = [] \<and> l_jitter k = [] \<and> l_loss k = [] \<and> l_bandwidth k = [] \<and> l_mtu k = 0"

definition from_end :: "string \<Rightarrow> string \<Rightarrow> link_spec \<Rightarrow> bool" where
  "from_end i j k \<longleftrightarrow> bare k \<and> l_intf k = i \<and> l_peer_intf k = j"

lemma with_nothing: "attrs_empty a \<Longrightarrow> bare k \<Longrightarrow> with_attrs k a = k" "attrs_empty a \<Longrightarrow> bare k \<Longrightarrow> with_attrs k (swapped a) = k"
  by (simp_all add: with_attrs_def attrs_empty_def has_shaping_def bare_def swapped_def)

lemma swapped_swapped [simp]: "swapped (swapped a) = a" by (simp add: swapped_def)

text \<open>
  C29: what a request declares on its links is read back from the table from whichever end a reader
  has, and a link that declares nothing comes back as the cluster gave it: the delay, jitter, loss,
  bandwidth and MTU, and the addresses beyond the first on each side. The links are those a deploy
  can wire, each naming a pod first. The namespace may have rows already: a row keyed at the first
  end of one of the links is replaced or removed, whatever it says, and any other row shares no end
  with them.
\<close>

theorem link_attributes_read_back:
  assumes "save_link_attributes ns links nodes s = (Inr (), t)" and "load_link_attributes ns t = (Inr m, u)"
    and "\<forall>r \<in> set (st_rows s). st_cluster s = Some (lr_cluster r) \<and> lr_ns r = ns \<longrightarrow> fits nodes links r"
    and "plain_nodes nodes"
    and "\<forall>l \<in> set links. wirable nodes l \<and> l_node l \<noteq> external_node_name"
    and "distinct (ends_of nodes links)" and "l \<in> set links"
    and "from_end (l_intf l) (l_peer_intf l) k" and "from_end (l_peer_intf l) (l_intf l) k'"
  shows "fill_link_attributes m (resolve_pod_name (l_node l) nodes) (peer_of nodes l) k = with_attrs k (attrs_of l) \<and>
    (l_peer l \<noteq> external_node_name \<longrightarrow>
      fill_link_attributes m (peer_of nodes l) (resolve_pod_name (l_node l) nodes) k' = with_attrs k' (swapped (attrs_of l)))"
proof -
  let ?p = "resolve_pod_name (l_node l) nodes" and ?q = "resolve_pod_name (l_peer l) nodes"
  let ?es = "concat (map (seen_entries nodes) (filter declares links))"
  have w: "\<forall>l \<in> set links. l_node l \<noteq> external_node_name" "\<forall>l \<in> set links. wirable nodes l" using assms(5) by auto
  have "map fst ?es = map (\<lambda>(p, i). crd_end p i) (ends_of nodes (filter declares links))"
    by (rule seen_keys_all) (use w in auto)
  then have d: "distinct (map fst ?es)"
    using distinct_ends_filter [OF assms(6)] inj_on_subset [OF join_ends_inj [OF assms(4) w(2)] ends_of_filter] by (simp add: distinct_map)
  have f: "distinct (map (first_end nodes) links)" by (rule distinct_first_ends [OF assms(6) w(1)])
  have sl: "\<forall>(p, i) \<in> set (ends_of nodes links). CHR ''/'' \<notin> set p" using safe_ends [OF assms(4) w(2)] by blast
  note m = saved_map [OF assms(1-3) f sl d subsetD [OF own_ends_subset [OF assms(7)]]]
  have e: "map_of ?es x = (if declares l then Some a else None)" if "(x, a) \<in> set (seen_entries nodes l)" for x a
    by (rule seen_entries_map [OF assms(4-7) that])
  have ln: "l_node l \<noteq> external_node_name" using w(1) assms(7) by blast
  have near: "map_of m (crd_end ?p (l_intf l)) = (if declares l then Some (attrs_of l) else None)"
    using m [of "(?p, l_intf l)"] e [of "crd_end ?p (l_intf l)" "attrs_of l"] ln
    by (simp add: seen_entries_def own_ends_def end_of_def)
  have far: "map_of m (crd_end ?q (l_peer_intf l)) = (if declares l then Some (swapped (attrs_of l)) else None)"
    if "l_peer l \<noteq> external_node_name"
    using m [of "(?q, l_peer_intf l)"] e [of "crd_end ?q (l_peer_intf l)" "swapped (attrs_of l)"] that
    by (simp add: seen_entries_def own_ends_def end_of_def)
  have "fill_link_attributes m ?p (peer_of nodes l) k = with_attrs k (attrs_of l)"
    using assms(8) near far by (auto simp: fill_link_attributes_def from_end_def peer_of_def declares_def with_nothing resolve_eq_external)
  moreover have "fill_link_attributes m (peer_of nodes l) ?p k' = with_attrs k' (swapped (attrs_of l))"
    if "l_peer l \<noteq> external_node_name"
    using that assms(9) near far by (auto simp: fill_link_attributes_def from_end_def peer_of_def declares_def with_nothing)
  ultimately show ?thesis by blast
qed

definition shaped_link :: link_spec where
  "shaped_link = (basic_link ''a'' ''eth1'' ''r-1'' ''eth2'')\<lparr>l_delay := ''10ms'', l_mtu := 1400, l_ip := [''10.0.0.1/24'', ''2001:db8::1/64'']\<rparr>"

definition empty_table :: "link_row store" where
  "empty_table = \<lparr>st_open = True, st_cluster = Some ''c1'', st_faults = [], st_rows = []\<rparr>"

text \<open>A table with an older row at the first end of the link, towards another peer.\<close>

definition used_table :: "link_row store" where
  "used_table = empty_table\<lparr>st_rows := [row_of ''c1'' ''lab'' demo_nodes
     ((basic_link ''a'' ''eth1'' ''r-0'' ''eth9'')\<lparr>l_delay := ''99ms''\<rparr>)]\<rparr>"

theorem link_attributes_read_back_witness:
  "let m = projr (fst (load_link_attributes ''lab'' (snd (save_link_attributes ''lab'' [shaped_link] demo_nodes used_table))));
       k = basic_link ''r-1'' ''eth2'' ''a-0'' ''eth1'' in
   fill_link_attributes m ''r-1'' ''a-0'' k = with_attrs k (swapped (attrs_of shaped_link))"
proof -
  let ?t = "snd (save_link_attributes ''lab'' [shaped_link] demo_nodes used_table)"
  let ?k = "basic_link ''a-0'' ''eth1'' ''r-1'' ''eth2''" and ?k' = "basic_link ''r-1'' ''eth2'' ''a-0'' ''eth1''"
  have c: "save_link_attributes ''lab'' [shaped_link] demo_nodes used_table = (Inr (), ?t)" by code_simp
  have b: "load_link_attributes ''lab'' ?t = (Inr (projr (fst (load_link_attributes ''lab'' ?t))), ?t)" by code_simp
  have h: "\<forall>r \<in> set (st_rows used_table). st_cluster used_table = Some (lr_cluster r) \<and> lr_ns r = ''lab'' \<longrightarrow>
      fits demo_nodes [shaped_link] r" "plain_nodes demo_nodes"
    "\<forall>l \<in> set [shaped_link]. wirable demo_nodes l \<and> l_node l \<noteq> external_node_name"
    "distinct (ends_of demo_nodes [shaped_link])" "from_end (l_intf shaped_link) (l_peer_intf shaped_link) ?k"
    "from_end (l_peer_intf shaped_link) (l_intf shaped_link) ?k'" "l_peer shaped_link \<noteq> external_node_name" by code_simp+
  have n: "resolve_pod_name (l_node shaped_link) demo_nodes = ''a-0''" "peer_of demo_nodes shaped_link = ''r-1''" by code_simp+
  from link_attributes_read_back [OF c b h(1-4) _ h(5,6)] h(7) show ?thesis by (simp add: Let_def n)
qed

definition uplinks :: "link_spec list" where
  "uplinks = [(basic_link ''external'' ''ens3'' ''r1'' ''eth1'')\<lparr>l_delay := ''10ms''\<rparr>,
     (basic_link ''external'' ''ens3'' ''r2'' ''eth1'')\<lparr>l_delay := ''50ms''\<rparr>]"

definition uplink_nodes :: "node_spec list" where
  "uplink_nodes = [basic_node ''r1'' ''router'' 1, basic_node ''r2'' ''router'' 1]"

text \<open>
  A link may name the host first, and two pods may share an interface of the host. Both links
  are then kept under the host's interface: validation accepts them, the row of the second replaces
  that of the first, the first link comes back without what it declared, and the shaping of both is
  addressed to a pod called \<open>external\<close> as well.
\<close>

theorem uplink_attributes_collide:
  "validate_link_attributes [] uplinks = None \<and> check_interface_conflicts uplinks uplink_nodes [] = None \<and>
   validate_external_label_consistency uplinks empty_kube = None \<and> validate_links_for_modify uplinks uplink_nodes = None \<and>
   map lr_delay (st_rows (snd (save_link_attributes ''lab'' uplinks uplink_nodes empty_table))) = [''50ms''] \<and>
   l_delay (fill_link_attributes
     (projr (fst (load_link_attributes ''lab'' (snd (save_link_attributes ''lab'' uplinks uplink_nodes empty_table)))))
     ''r1-0'' ''external'' (basic_link ''r1-0'' ''eth1'' ''external'' ''ens3'')) = [] \<and>
   map fst (link_attribute_actions uplinks uplink_nodes) = [''external'', ''r1-0'', ''r2-0'']"
proof (intro conjI)
qed code_simp+

section \<open>Shaping actions\<close>

text \<open>The ends that a list of targets shapes, each with its action.\<close>

definition target_ends :: "(string \<times> action_entry list) list \<Rightarrow> (string \<times> action_entry) list" where
  "target_ends ts = concat (map (\<lambda>(p, as). map (Pair p) as) ts)"

definition end_actions :: "node_spec list \<Rightarrow> link_spec \<Rightarrow> (string \<times> action_entry) list" where
  "end_actions nodes l =
     (if has_shaping (attrs_of l) then map (\<lambda>(p, i). (p, shaping_action (attrs_of l) i)) (shaped_ends nodes l) else [])"

lemma add_target_ends: "mset (target_ends (add_target pod a ts)) = add_mset (pod, a) (mset (target_ends ts))"
  by (induction pod a ts rule: add_target.induct) (auto simp: target_ends_def)

lemma fold_add_target:
  "mset (target_ends (fold (\<lambda>(pod, i). add_target pod (f i)) xs ts)) = mset (target_ends ts) + mset (map (\<lambda>(p, i). (p, f i)) xs)"
  by (induction xs arbitrary: ts) (auto simp: add_target_ends)

lemma link_targets_ends: "mset (target_ends (link_targets nodes l ts)) = mset (target_ends ts) + mset (end_actions nodes l)"
  by (simp add: link_targets_def end_actions_def fold_add_target)

lemma fold_link_targets:
  "mset (target_ends (fold (link_targets nodes) links ts)) = mset (target_ends ts) + mset (concat (map (end_actions nodes) links))"
  by (induction links arbitrary: ts) (auto simp: link_targets_ends)

lemma add_target_pods: "fst ` set (add_target pod a ts) = insert pod (fst ` set ts)"
  by (induction pod a ts rule: add_target.induct) auto

lemma distinct_add_target: "distinct (map fst ts) \<Longrightarrow> distinct (map fst (add_target pod a ts))"
  by (induction pod a ts rule: add_target.induct) (auto simp: add_target_pods)

lemma distinct_fold_targets: "distinct (map fst ts) \<Longrightarrow> distinct (map fst (fold (\<lambda>(pod, i). add_target pod (f i)) xs ts))"
  by (induction xs arbitrary: ts) (auto simp: distinct_add_target)

lemma distinct_link_targets: "distinct (map fst ts) \<Longrightarrow> distinct (map fst (fold (link_targets nodes) links ts))"
  by (induction links arbitrary: ts) (auto simp: link_targets_def distinct_fold_targets)

lemma shaping_builds:
  assumes "build_tc_params (shaping a) = Inr p"
  shows "\<exists>rows. build_shaping_commands iface (Some (shaping a)) = Inr rows \<and> rows \<noteq> []"
proof -
  have "trim_space ''netem'' \<noteq> ''htb''" by code_simp
  with assms show ?thesis by (cases p) (simp add: build_shaping_commands_def shaping_def build_add_qdisc_command_def)
qed

lemma validated_shaping:
  assumes "validate_link_attributes env links = None" and "l \<in> set links" and "has_shaping (attrs_of l)"
  shows "\<exists>p. build_tc_params (shaping (attrs_of l)) = Inr p"
proof -
  obtain j where "j < length links" "links ! j = l" using assms(2) by (auto simp: in_set_conv_nth)
  with assms(1) have "validate_link_attribute env l = None"
    unfolding validate_link_attributes_def first_error_None by auto
  with assms(3) show ?thesis
    by (cases "build_tc_params (shaping (attrs_of l))") (simp_all add: validate_link_attribute_def Let_def)
qed

text \<open>
  The links of an accepted request become exactly one shaping action for each end of each link
  that declares some shaping, grouped under pairwise different pods, and every one of them has
  commands to run.
\<close>

theorem link_shaping_actions_exact:
  assumes "validate_link_attributes env links = None"
  shows "distinct (map fst (link_attribute_actions links nodes)) \<and>
    mset (target_ends (link_attribute_actions links nodes)) = mset (concat (map (end_actions nodes) links)) \<and>
    (\<forall>(pod, a) \<in> set (target_ends (link_attribute_actions links nodes)).
       \<exists>rows. build_shaping_commands (e_iface a) (e_tcparams a) = Inr rows \<and> rows \<noteq> [])"
proof -
  have m: "mset (target_ends (link_attribute_actions links nodes)) = mset (concat (map (end_actions nodes) links))"
    unfolding link_attribute_actions_def fold_link_targets by (simp add: target_ends_def)
  have "\<exists>rows. build_shaping_commands (e_iface a) (e_tcparams a) = Inr rows \<and> rows \<noteq> []"
    if "(pod, a) \<in> set (target_ends (link_attribute_actions links nodes))" for pod a
  proof -
    from that have "(pod, a) \<in> set (concat (map (end_actions nodes) links))" using mset_eq_setD [OF m] by simp
    then obtain l i where l: "l \<in> set links" "has_shaping (attrs_of l)" "a = shaping_action (attrs_of l) i"
      by (auto simp: end_actions_def split: if_splits)
    from validated_shaping [OF assms l(1,2)] shaping_builds show ?thesis by (auto simp: l(3) shaping_action_def)
  qed
  moreover have "distinct (map fst (link_attribute_actions links nodes))"
    unfolding link_attribute_actions_def by (rule distinct_link_targets) simp
  ultimately show ?thesis using m by blast
qed

theorem link_shaping_actions_exact_witness:
  "map fst (link_attribute_actions [shaped_link] demo_nodes) = [''a-0'', ''r-1''] \<and>
   distinct (map fst (link_attribute_actions [shaped_link] demo_nodes))"
proof -
  have "validate_link_attributes [] [shaped_link] = None" by code_simp
  from link_shaping_actions_exact [OF this, of demo_nodes] have "distinct (map fst (link_attribute_actions [shaped_link] demo_nodes))" by blast
  moreover have "map fst (link_attribute_actions [shaped_link] demo_nodes) = [''a-0'', ''r-1'']" by code_simp
  ultimately show ?thesis by blast
qed

end
