(* ===== verification/Link_MTU.thy ===== *)
theory Link_MTU
  imports Link_Attributes Operation_History Topology_Updates
begin

text \<open>
  The MTU pass, \<open>helpers/mtu.go\<close>: after each wiring it settles one MTU for the namespace from what
  the workers carry over VXLAN, and writes it, or the one a link declares, on both ends of every
  link, with the addresses a link declares beyond its first. Executing a command in a pod is the
  record \<open>mtu_env\<close> of parameters on a state, so are the driver of a VM guest and the history of a
  pod; pods are visited one after another in an order that is a parameter (the code bounds the
  number in flight). A write that meets a restarting container is one attempt here.
\<close>

section \<open>Ends of links\<close>

record mtu_end =
  me_pod :: string
  me_iface :: string
  me_worker :: string
  me_peer :: string
  me_peer_if :: string
  me_cross :: bool
  me_fresh :: bool
  me_want :: int
  me_addrs :: "string list"

text \<open>What the pass reads of a pod: its worker, whether it runs, whether it is younger than the backend, whether it is a VM.\<close>

record mtu_pod =
  mp_worker :: string
  mp_running :: bool
  mp_young :: bool
  mp_guest :: bool

definition target_of :: "mtu_end \<Rightarrow> int \<Rightarrow> int" where
  "target_of e eff = (if me_want e > 0 then me_want e else eff)"

definition no_attrs :: link_attrs where
  "no_attrs = \<lparr>la_delay = [], la_jitter = [], la_loss = [], la_bandwidth = [], la_mtu = 0, la_local = [], la_peer = []\<rparr>"

definition attrs_at :: "(string \<times> link_attrs) list \<Rightarrow> link_spec \<Rightarrow> link_attrs" where
  "attrs_at attrs l =
     (case map_of attrs (crd_end (l_node l) (l_intf l)) of
        Some a \<Rightarrow> a
      | None \<Rightarrow> swapped (case map_of attrs (crd_end (l_peer l) (l_peer_intf l)) of Some a \<Rightarrow> a | None \<Rightarrow> no_attrs))"

definition ends_of_link ::
  "(string \<times> mtu_pod) list \<Rightarrow> (string \<times> link_attrs) list \<Rightarrow> string list option \<Rightarrow> link_spec \<Rightarrow> mtu_end list" where
  "ends_of_link pods attrs only l =
     (if l_node l = external_node_name \<or> l_peer l = external_node_name then []
      else if (case only of None \<Rightarrow> False | Some ps \<Rightarrow> l_node l \<notin> set ps \<and> l_peer l \<notin> set ps) then []
      else case (map_of pods (l_node l), map_of pods (l_peer l)) of
        (Some a, Some b) \<Rightarrow>
          if \<not> mp_running a \<or> \<not> mp_running b then []
          else let cross = mp_worker a \<noteq> mp_worker b; fresh = mp_young a \<or> mp_young b; la = attrs_at attrs l in
            [\<lparr>me_pod = l_node l, me_iface = l_intf l, me_worker = mp_worker a, me_peer = l_peer l, me_peer_if = l_peer_intf l,
              me_cross = cross, me_fresh = fresh, me_want = la_mtu la, me_addrs = la_local la\<rparr>,
             \<lparr>me_pod = l_peer l, me_iface = l_peer_intf l, me_worker = mp_worker b, me_peer = l_node l, me_peer_if = l_intf l,
              me_cross = cross, me_fresh = fresh, me_want = la_mtu la, me_addrs = la_peer la\<rparr>]
      | _ \<Rightarrow> [])"

definition link_ends_mtu ::
  "link_spec list \<Rightarrow> (string \<times> mtu_pod) list \<Rightarrow> (string \<times> link_attrs) list \<Rightarrow> string list option \<Rightarrow> mtu_end list \<times> nat" where
  "link_ends_mtu links pods attrs only =
     (concat (map (ends_of_link pods attrs only) links), length (filter (\<lambda>l. ends_of_link pods attrs only l \<noteq> []) links))"

section \<open>The value of the namespace\<close>

type_synonym ceilings = "(string \<times> int) list"

definition ceiling_of :: "ceilings \<Rightarrow> string \<Rightarrow> int" where
  "ceiling_of m w = (case map_of m w of None \<Rightarrow> 0 | Some c \<Rightarrow> c)"

definition record_worker_ceiling :: "string \<Rightarrow> int \<Rightarrow> ceilings \<Rightarrow> ceilings" where
  "record_worker_ceiling w mtu m =
     (if w = [] \<or> mtu \<le> 0 then m else if mtu > ceiling_of m w then AList.update w mtu m else m)"

datatype mtu_warning =
    MWLowered int int string
  | MWWrite string "string list"
  | MWNotSet string string
  | MWAddress string string string
  | MWGuest string string

datatype mtu_error =
    MBadPlatform attr_error
  | MNoLinks
  | MNoPods
  | MWantTooBig mtu_end int
  | MPlatformTooBig mtu_end int
  | MWantRefused mtu_end int
  | MPlatformRefused mtu_end int

fun settle_from :: "bool \<Rightarrow> ceilings \<Rightarrow> mtu_end list \<Rightarrow> int \<Rightarrow> string list \<Rightarrow> mtu_warning list \<Rightarrow> mtu_error + int \<times> mtu_warning list" where
  "settle_from explicit m [] eff seen ws = Inr (eff, ws)"
| "settle_from explicit m (e # es) eff seen ws =
     (let c = ceiling_of m (me_worker e) in
      if \<not> me_cross e then settle_from explicit m es eff seen ws
      else if me_want e > 0 then
        (if c > 0 \<and> me_want e > c then Inl (MWantTooBig e c) else settle_from explicit m es eff seen ws)
      else if c = 0 \<or> eff \<le> c then settle_from explicit m es eff seen ws
      else if explicit then Inl (MPlatformTooBig e c)
      else settle_from explicit m es c
             (if me_worker e \<in> set seen then seen else me_worker e # seen)
             (if me_worker e \<in> set seen then ws else ws @ [MWLowered eff c (me_worker e)]))"

definition settle_mtu :: "int \<Rightarrow> bool \<Rightarrow> ceilings \<Rightarrow> mtu_end list \<Rightarrow> mtu_error + int \<times> mtu_warning list" where
  "settle_mtu target explicit m ends = settle_from explicit m ends target [] []"

section \<open>Reading the interfaces\<close>

text \<open>\<open>bufio.Scanner\<close>: lines without their end, no last empty one, a carriage return dropped.\<close>

definition drop_cr :: "string \<Rightarrow> string" where
  "drop_cr l = (if l \<noteq> [] \<and> last l = CHR 0x0D then butlast l else l)"

definition scan_lines :: "string \<Rightarrow> string list" where
  "scan_lines s = (let ls = split_on CHR 0x0A s in map drop_cr (if last ls = [] then butlast ls else ls))"

fun mtu_word :: "string list \<Rightarrow> int option" where
  "mtu_word (a # b # fs) = (if a = ''mtu'' then atoi b else mtu_word (b # fs))"
| "mtu_word fs = None"

definition parse_link_line :: "string \<Rightarrow> (string \<times> int) list \<Rightarrow> (string \<times> int) list" where
  "parse_link_line line m =
     (case Go_Prelude.fields line of
        num # dev # rest \<Rightarrow>
          if length rest < 2 \<or> \<not> has_suffix num '':'' then m
          else (case mtu_word rest of
              None \<Rightarrow> m
            | Some n \<Rightarrow> AList.update (fst (cut_at CHR ''@'' (if has_suffix dev '':'' then butlast dev else dev))) n m)
      | _ \<Rightarrow> m)"

definition parse_link_mtus :: "string \<Rightarrow> (string \<times> int) list" where
  "parse_link_mtus out = fold parse_link_line (scan_lines out) []"

definition parse_sysfs_line :: "string \<Rightarrow> (string \<times> int) list \<Rightarrow> (string \<times> int) list" where
  "parse_sysfs_line line m =
     (case Go_Prelude.fields line of [name, n] \<Rightarrow> (case atoi n of None \<Rightarrow> m | Some k \<Rightarrow> AList.update name k m) | _ \<Rightarrow> m)"

definition parse_sysfs_mtus :: "string \<Rightarrow> (string \<times> int) list" where
  "parse_sysfs_mtus out = fold parse_sysfs_line (scan_lines out) []"

definition tap_for :: "string \<Rightarrow> string" where
  "tap_for iface = (if \<not> has_prefix iface ''eth'' \<or> length iface = 3 then [] else ''tap'' @ drop 3 iface)"

section \<open>The script of a pod\<close>

record set_item =
  si_name :: string
  si_mtu :: int
  si_addr :: string

definition item_key :: "set_item \<Rightarrow> string" where
  "item_key it = (if si_addr it \<noteq> [] then si_name it @ '' '' @ si_addr it else si_name it)"

definition set_line :: "set_item \<Rightarrow> string" where
  "set_line it =
     (if si_addr it \<noteq> []
      then ''ip addr replace '' @ si_addr it @ '' dev '' @ si_name it @ '' 2>/dev/null || echo FAIL '' @ item_key it
      else ''ip link set dev '' @ si_name it @ '' mtu '' @ int_str (si_mtu it) @ '' 2>/dev/null || echo FAIL '' @ si_name it)"

definition set_script :: "set_item list \<Rightarrow> string" where
  "set_script items = join_with ''; '' (map set_line items)"

definition failure_of :: "string \<Rightarrow> string option" where
  "failure_of line =
     (case Go_Prelude.fields line of f # g # fs \<Rightarrow> if f = ''FAIL'' then Some (join_with '' '' (g # fs)) else None | _ \<Rightarrow> None)"

definition parse_set_failures :: "string \<Rightarrow> string list" where
  "parse_set_failures out =
     concat (map (\<lambda>l. case failure_of l of None \<Rightarrow> [] | Some k \<Rightarrow> [k]) (split_on CHR 0x0A out))"

definition note_address :: "operation \<Rightarrow> string list \<Rightarrow> string list" where
  "note_address op removed =
     (let a = op_action op; key = e_iface a @ '' '' @ e_cidr a in
      if e_type a = ''remove_ip'' then add_new key removed
      else if e_type a \<in> {''set_ip'', ''replace_ip''} then filter (\<lambda>k. k \<noteq> key) removed
      else removed)"

definition addresses_removed_by :: "operation list \<Rightarrow> string list" where
  "addresses_removed_by ops = fold note_address ops []"

definition have_mtu :: "(string \<times> int) list \<Rightarrow> string \<Rightarrow> int" where
  "have_mtu have i = (case map_of have i of None \<Rightarrow> 0 | Some n \<Rightarrow> n)"

definition end_items :: "bool \<Rightarrow> (string \<times> int) list \<Rightarrow> string list \<Rightarrow> int \<Rightarrow> mtu_end \<Rightarrow> set_item list" where
  "end_items guest have removed eff e =
     (let want = target_of e eff; tap = tap_for (me_iface e) in
      (if have_mtu have (me_iface e) \<noteq> want then [\<lparr>si_name = me_iface e, si_mtu = want, si_addr = []\<rparr>] else []) @
      (if guest
       then (case map_of have tap of
               Some mtu \<Rightarrow> if tap \<noteq> [] \<and> mtu \<noteq> want then [\<lparr>si_name = tap, si_mtu = want, si_addr = []\<rparr>] else []
             | None \<Rightarrow> [])
       else map (\<lambda>a. \<lparr>si_name = me_iface e, si_mtu = 0, si_addr = a\<rparr>)
              (filter (\<lambda>a. (me_iface e @ '' '' @ a) \<notin> set removed) (me_addrs e))))"

definition pod_items :: "bool \<Rightarrow> (string \<times> int) list \<Rightarrow> string list \<Rightarrow> int \<Rightarrow> mtu_end list \<Rightarrow> set_item list" where
  "pod_items guest have removed eff ends =
     sort_by (\<lambda>a b. str_le (item_key a) (item_key b)) (concat (map (end_items guest have removed eff) ends))"

section \<open>The guest of a VM pod\<close>

type_synonym guest_entry = "(string \<times> string) list"

definition entry_field :: "guest_entry \<Rightarrow> string \<Rightarrow> string" where
  "entry_field e k = (case map_of e k of None \<Rightarrow> [] | Some v \<Rightarrow> v)"

definition guest_addresses :: "guest_entry list \<Rightarrow> string \<Rightarrow> string list" where
  "guest_addresses entries i =
     (case map_of (rev (map (\<lambda>e. (entry_field e ''interface'', split_on CHR '','' (entry_field e ''addresses''))) entries)) i of
        None \<Rightarrow> [] | Some as \<Rightarrow> filter (\<lambda>a. a \<noteq> []) as)"

definition guest_missing_addrs :: "guest_entry list \<Rightarrow> bool \<Rightarrow> mtu_end list \<Rightarrow> string list \<Rightarrow> set_item list" where
  "guest_missing_addrs entries inspected ends removed =
     concat (map (\<lambda>e. map (\<lambda>a. \<lparr>si_name = me_iface e, si_mtu = 0, si_addr = a\<rparr>)
       (filter (\<lambda>a. \<not> ((me_iface e @ '' '' @ a) \<in> set removed \<or> inspected \<and> a \<in> set (guest_addresses entries (me_iface e))))
         (me_addrs e))) ends)"

definition note_guest_mtu :: "guest_entry \<Rightarrow> (string \<times> int) list \<Rightarrow> (string \<times> int) list" where
  "note_guest_mtu e m = (case atoi (entry_field e ''mtu'') of None \<Rightarrow> m | Some n \<Rightarrow> AList.update (entry_field e ''interface'') n m)"

definition guest_needs_mtu :: "guest_entry list \<Rightarrow> mtu_end list \<Rightarrow> int \<Rightarrow> bool" where
  "guest_needs_mtu entries ends eff =
     (let have = fold note_guest_mtu entries [] in list_ex (\<lambda>e. have_mtu have (me_iface e) \<noteq> target_of e eff) ends)"

text \<open>
  What the pass uses of a driver: the inspection of the guest, the commands for an MTU, those of
  \<open>SetIP\<close>, and its executor; each may be missing.
\<close>

record 's guest_driver =
  gd_inspect :: "('s \<Rightarrow> guest_entry list option \<times> 's) option"
  gd_mtu_commands :: "(string \<Rightarrow> int \<Rightarrow> string list list) option"
  gd_set_ip :: "(string \<Rightarrow> string \<Rightarrow> string list list) option"
  gd_commit :: "(string list \<Rightarrow> 's \<Rightarrow> bool \<times> 's) option"

type_synonym reply = "string \<times> string \<times> string option"

record 's mtu_env =
  mv_netns :: "string \<Rightarrow> string list \<Rightarrow> 's \<Rightarrow> reply \<times> 's"
  mv_in_pod :: "string \<Rightarrow> string list \<Rightarrow> 's \<Rightarrow> reply \<times> 's"
  mv_driver :: "string \<Rightarrow> 's guest_driver option"
  mv_history :: "string \<Rightarrow> operation list option"

definition removed_addresses :: "'s mtu_env \<Rightarrow> string \<Rightarrow> string list" where
  "removed_addresses env pod = (case mv_history env pod of None \<Rightarrow> [] | Some ops \<Rightarrow> addresses_removed_by ops)"

definition lines_of :: "string list list \<Rightarrow> string list" where
  "lines_of cmds = map (join_with '' '') cmds"

definition set_guest_links ::
  "'s mtu_env \<Rightarrow> string \<Rightarrow> mtu_end list \<Rightarrow> int \<Rightarrow> string list \<Rightarrow> 's \<Rightarrow> (nat \<times> mtu_warning list) \<times> 's" where
  "set_guest_links env pod ends eff removed s =
     (case mv_driver env pod of
        None \<Rightarrow> ((0, [MWGuest pod ''no driver'']), s)
      | Some d \<Rightarrow>
        let (seen, s1) = (case gd_inspect d of None \<Rightarrow> (None, s) | Some f \<Rightarrow> f s);
            entries = (case seen of None \<Rightarrow> [] | Some es \<Rightarrow> es); inspected = seen \<noteq> None;
            need = (\<not> inspected \<or> guest_needs_mtu entries ends eff);
            mtu_lines = (if need then (case gd_mtu_commands d of None \<Rightarrow> []
              | Some f \<Rightarrow> concat (map (\<lambda>e. lines_of (f (me_iface e) (target_of e eff))) ends)) else []);
            w1 = (if need \<and> gd_mtu_commands d = None then [MWGuest pod ''mtu''] else []);
            missing = guest_missing_addrs entries inspected ends removed;
            addr_lines = (case gd_set_ip d of None \<Rightarrow> []
              | Some f \<Rightarrow> concat (map (\<lambda>it. lines_of (f (si_name it) (si_addr it))) missing));
            n = (if gd_set_ip d = None then 0 else length missing);
            ws = w1 @ (if missing \<noteq> [] \<and> gd_set_ip d = None then [MWGuest pod ''addresses''] else []);
            lines = mtu_lines @ addr_lines
        in if lines = [] then ((0, ws), s1)
           else case gd_commit d of
             None \<Rightarrow> ((0, ws @ [MWGuest pod ''executor'']), s1)
           | Some commit \<Rightarrow> (case commit lines s1 of
               (True, s2) \<Rightarrow> ((n, ws), s2) | (False, s2) \<Rightarrow> ((0, ws @ [MWGuest pod ''commit'']), s2)))"

section \<open>One round\<close>

record refused_end =
  rf_end :: mtu_end
  rf_current :: int

definition end_named :: "mtu_end list \<Rightarrow> string \<Rightarrow> mtu_end option" where
  "end_named ends i = map_of (rev (map (\<lambda>e. (me_iface e, e)) ends)) i"

text \<open>What the failure of an item means: a VXLAN end that is known sits at the most its worker carries.\<close>

definition classify ::
  "string \<Rightarrow> mtu_end list \<Rightarrow> (string \<times> int) list \<Rightarrow> set_item \<Rightarrow> refused_end list \<times> mtu_warning list" where
  "classify pod ends have it =
     (if si_addr it \<noteq> [] then ([], [MWAddress pod (si_addr it) (si_name it)])
      else case end_named ends (si_name it) of
        Some e \<Rightarrow> if me_cross e \<and> have_mtu have (si_name it) > 0
            then ([\<lparr>rf_end = e, rf_current = have_mtu have (si_name it)\<rparr>], [])
            else ([], [MWNotSet pod (si_name it)])
      | None \<Rightarrow> ([], [MWNotSet pod (si_name it)]))"

record round_result =
  rr_changed :: nat
  rr_addressed :: nat
  rr_refused :: "refused_end list"
  rr_warnings :: "mtu_warning list"

definition written_result ::
  "string \<Rightarrow> mtu_end list \<Rightarrow> (string \<times> int) list \<Rightarrow> set_item list \<Rightarrow> string list \<Rightarrow> round_result" where
  "written_result pod ends have items failed =
     (let ok = filter (\<lambda>it. item_key it \<notin> set failed) items; bad = filter (\<lambda>it. item_key it \<in> set failed) items in
      \<lparr>rr_changed = length (filter (\<lambda>it. si_addr it = []) ok), rr_addressed = length (filter (\<lambda>it. si_addr it \<noteq> []) ok),
       rr_refused = concat (map (fst \<circ> classify pod ends have) bad),
       rr_warnings = concat (map (snd \<circ> classify pod ends have) bad)\<rparr>)"

definition write_items ::
  "'s mtu_env \<Rightarrow> string \<Rightarrow> mtu_end list \<Rightarrow> (string \<times> int) list \<Rightarrow> set_item list \<Rightarrow> 's \<Rightarrow> round_result \<times> 's" where
  "write_items env pod ends have items s =
     (if items = [] then (\<lparr>rr_changed = 0, rr_addressed = 0, rr_refused = [], rr_warnings = []\<rparr>, s)
      else case mv_netns env pod [''sh'', ''-c'', set_script items] s of
        ((_, _, Some e), t) \<Rightarrow>
          (\<lparr>rr_changed = 0, rr_addressed = 0, rr_refused = [], rr_warnings = [MWWrite pod (map item_key items)]\<rparr>, t)
      | ((out, _, None), t) \<Rightarrow> (written_result pod ends have items (parse_set_failures out), t))"

definition set_pod_mtus ::
  "'s mtu_env \<Rightarrow> (string \<times> mtu_pod) list \<Rightarrow> (string \<times> (string \<times> int) list) list \<Rightarrow> int \<Rightarrow>
    string \<times> mtu_end list \<Rightarrow> 's \<Rightarrow> round_result \<times> 's" where
  "set_pod_mtus env pods current eff pe s =
     (case pe of (pod, ends) \<Rightarrow>
        let guest = (case map_of pods pod of Some p \<Rightarrow> mp_guest p | None \<Rightarrow> False);
            have = (case map_of current pod of Some m \<Rightarrow> m | None \<Rightarrow> []); removed = removed_addresses env pod;
            (r, t) = write_items env pod ends have (pod_items guest have removed eff ends) s
        in if guest \<and> rr_refused r = []
           then (case set_guest_links env pod ends eff removed t of
             ((n, ws), u) \<Rightarrow> (r\<lparr>rr_addressed := rr_addressed r + n, rr_warnings := rr_warnings r @ ws\<rparr>, u))
           else (r, t))"

definition ends_by_pod :: "mtu_end list \<Rightarrow> (string \<times> mtu_end list) list" where
  "ends_by_pod ends = group_entries (map (\<lambda>e. (me_pod e, e)) ends)"

definition join_results :: "round_result \<Rightarrow> round_result \<Rightarrow> round_result" where
  "join_results a b =
     \<lparr>rr_changed = rr_changed a + rr_changed b, rr_addressed = rr_addressed a + rr_addressed b,
      rr_refused = rr_refused a @ rr_refused b, rr_warnings = rr_warnings a @ rr_warnings b\<rparr>"

fun each_pod :: "(string \<times> mtu_end list \<Rightarrow> 's \<Rightarrow> round_result \<times> 's) \<Rightarrow> (string \<times> mtu_end list) list \<Rightarrow> 's \<Rightarrow> round_result \<times> 's" where
  "each_pod f [] s = (\<lparr>rr_changed = 0, rr_addressed = 0, rr_refused = [], rr_warnings = []\<rparr>, s)"
| "each_pod f (p # ps) s = (let (r, t) = f p s; (r', u) = each_pod f ps t in (join_results r r', u))"

definition refused_le :: "refused_end \<Rightarrow> refused_end \<Rightarrow> bool" where
  "refused_le a b =
     (if me_pod (rf_end a) \<noteq> me_pod (rf_end b) then str_less (me_pod (rf_end a)) (me_pod (rf_end b))
      else str_le (me_iface (rf_end a)) (me_iface (rf_end b)))"

definition set_link_mtus ::
  "'s mtu_env \<Rightarrow> ((string \<times> mtu_end list) list \<Rightarrow> (string \<times> mtu_end list) list) \<Rightarrow> (string \<times> mtu_pod) list \<Rightarrow>
    (string \<times> (string \<times> int) list) list \<Rightarrow> mtu_end list \<Rightarrow> int \<Rightarrow> 's \<Rightarrow> round_result \<times> 's" where
  "set_link_mtus env order pods current ends eff s =
     (case each_pod (set_pod_mtus env pods current eff) (order (ends_by_pod ends)) s of
        (r, t) \<Rightarrow> (r\<lparr>rr_refused := sort_by refused_le (rr_refused r)\<rparr>, t))"

section \<open>The pass\<close>

text \<open>The interfaces of a pod: \<open>ip -o link show\<close>, or sysfs when that does not parse.\<close>

definition sysfs_script :: "mtu_end list \<Rightarrow> string" where
  "sysfs_script ends =
     ''for i in '' @
     join_with '' '' (concat (map (\<lambda>e. me_iface e # (if tap_for (me_iface e) \<noteq> [] then [tap_for (me_iface e)] else [])) ends)) @
     ''; do [ -r /sys/class/net/$i/mtu ] && echo '' @ [CHR 0x22] @ ''$i $(cat /sys/class/net/$i/mtu)'' @ [CHR 0x22] @ ''; done''"

definition pod_link_mtus :: "'s mtu_env \<Rightarrow> string \<Rightarrow> mtu_end list \<Rightarrow> 's \<Rightarrow> (string \<times> int) list \<times> 's" where
  "pod_link_mtus env pod ends s =
     (case mv_netns env pod [''ip'', ''-o'', ''link'', ''show''] s of ((out, _, err), t) \<Rightarrow>
        if err = None \<and> parse_link_mtus out \<noteq> [] then (parse_link_mtus out, t)
        else case mv_in_pod env pod [''sh'', ''-c'', sysfs_script ends] t of
          ((out', _, None), u) \<Rightarrow> (parse_sysfs_mtus out', u)
        | ((_, _, Some _), u) \<Rightarrow> ([], u))"

fun read_pod_mtus ::
  "'s mtu_env \<Rightarrow> (string \<times> (string \<times> int) list) list \<Rightarrow> (string \<times> mtu_end list) list \<Rightarrow> 's \<Rightarrow>
    (string \<times> (string \<times> int) list) list \<times> 's" where
  "read_pod_mtus env known [] s = ([], s)"
| "read_pod_mtus env known ((pod, ends) # ps) s =
     (let (m, t) = (case map_of known pod of Some m \<Rightarrow> (m, s) | None \<Rightarrow> pod_link_mtus env pod ends s);
          (ms, u) = read_pod_mtus env known ps t
      in ((pod, m) # ms, u))"

definition learn_ceilings :: "(string \<times> (string \<times> int) list) list \<Rightarrow> mtu_end list \<Rightarrow> ceilings \<Rightarrow> ceilings" where
  "learn_ceilings current ends m =
     fold (\<lambda>e m. if me_cross e \<and> me_fresh e
       then record_worker_ceiling (me_worker e)
              (have_mtu (case map_of current (me_pod e) of Some h \<Rightarrow> h | None \<Rightarrow> []) (me_iface e)) m
       else m) ends m"

record pass_result =
  pr_mtu :: int
  pr_links :: nat
  pr_changed :: nat
  pr_addresses :: nat
  pr_warnings :: "mtu_warning list"

record mtu_memory =
  mm_ceilings :: ceilings
  mm_namespaces :: "(string \<times> int) list"

definition lowest :: "int \<Rightarrow> refused_end list \<Rightarrow> int" where
  "lowest eff rs = fold (\<lambda>r low. if rf_current r < low then rf_current r else low) rs eff"

text \<open>The rounds of the loop, with what is left of it; the value after the last one is kept as it is.\<close>

fun mtu_rounds ::
  "nat \<Rightarrow> bool \<Rightarrow> (int \<Rightarrow> 's \<Rightarrow> round_result \<times> 's) \<Rightarrow> int \<Rightarrow> pass_result \<Rightarrow> ceilings \<Rightarrow> 's \<Rightarrow>
    (mtu_error + int \<times> pass_result) \<times> ceilings \<times> 's" where
  "mtu_rounds 0 explicit f eff acc m s = (Inr (eff, acc), m, s)"
| "mtu_rounds (Suc k) explicit f eff acc m s =
     (case f eff s of (r, t) \<Rightarrow>
       let acc1 = acc\<lparr>pr_changed := pr_changed acc + rr_changed r, pr_addresses := pr_addresses acc + rr_addressed r,
             pr_warnings := pr_warnings acc @ rr_warnings r\<rparr>
       in case rr_refused r of
         [] \<Rightarrow> (Inr (eff, acc1), m, t)
       | r0 # _ \<Rightarrow>
         (case find (\<lambda>x. me_want (rf_end x) > 0) (rr_refused r) of
            Some x \<Rightarrow> (Inl (MWantRefused (rf_end x) (rf_current x)), m, t)
          | None \<Rightarrow>
            if explicit then (Inl (MPlatformRefused (rf_end r0) (rf_current r0)), m, t)
            else let low = lowest eff (rr_refused r) in
              mtu_rounds k explicit f low (acc1\<lparr>pr_warnings := pr_warnings acc1 @ [MWLowered eff low (me_worker (rf_end r0))]\<rparr>)
                (fold (\<lambda>x. record_worker_ceiling (me_worker (rf_end x)) (rf_current x)) (rr_refused r) m) t))"

definition apply_platform_mtu ::
  "'s mtu_env \<Rightarrow> ((string \<times> mtu_end list) list \<Rightarrow> (string \<times> mtu_end list) list) \<Rightarrow> string \<Rightarrow> string \<Rightarrow>
    topo_error + link_spec list \<Rightarrow> db_error + (string \<times> link_attrs) list \<Rightarrow> (string \<times> mtu_pod) list option \<Rightarrow>
    (string \<times> (string \<times> int) list) list \<Rightarrow> string list option \<Rightarrow> mtu_memory \<Rightarrow> 's \<Rightarrow>
    (mtu_error + pass_result) \<times> mtu_memory \<times> 's" where
  "apply_platform_mtu env order raw ns links attrs pods known only mem s =
     (case parse_platform_link_mtu raw of
        Inl e \<Rightarrow> (Inl (MBadPlatform e), mem, s)
      | Inr (target, explicit) \<Rightarrow>
        (case (links, pods) of
          (Inl _, _) \<Rightarrow> (Inl MNoLinks, mem, s)
        | (Inr _, None) \<Rightarrow> (Inl MNoPods, mem, s)
        | (Inr ls, Some ps) \<Rightarrow>
          let (ends, n) = link_ends_mtu ls ps (case attrs of Inr a \<Rightarrow> a | Inl _ \<Rightarrow> []) only in
          if ends = [] then (Inr \<lparr>pr_mtu = target, pr_links = 0, pr_changed = 0, pr_addresses = 0, pr_warnings = []\<rparr>, mem, s)
          else let (current, t) = read_pod_mtus env known (order (ends_by_pod ends)) s;
                   m = learn_ceilings current ends (mm_ceilings mem)
               in (case settle_mtu target explicit m ends of
                 Inl e \<Rightarrow> (Inl e, mem\<lparr>mm_ceilings := m\<rparr>, t)
               | Inr (eff, ws) \<Rightarrow>
                 (case mtu_rounds 2 explicit (set_link_mtus env order ps current ends) eff
                     \<lparr>pr_mtu = eff, pr_links = n, pr_changed = 0, pr_addresses = 0, pr_warnings = ws\<rparr> m t of
                   (Inl e, m', u) \<Rightarrow> (Inl e, mem\<lparr>mm_ceilings := m'\<rparr>, u)
                 | (Inr (eff', acc), m', u) \<Rightarrow>
                   (Inr (acc\<lparr>pr_mtu := eff'\<rparr>), \<lparr>mm_ceilings = m', mm_namespaces = AList.update ns eff' (mm_namespaces mem)\<rparr>, u)))))"

section \<open>What sh and ip do with a script\<close>

text \<open>
  The documented behaviour of the pod's shell, apart from how the pass writes its scripts: the
  commands of a script are its texts between semicolons, cut into words. The two commands of \<open>ip\<close>
  the model knows set an MTU or an address; when \<open>ip\<close> refuses one, the words after \<open>echo\<close> are
  printed as a line.
\<close>

definition commands_of :: "string \<Rightarrow> string list list" where
  "commands_of script = map Go_Prelude.fields (split_on CHR '';'' script)"

definition clean_word :: "string \<Rightarrow> bool" where
  "clean_word w \<longleftrightarrow> w \<noteq> [] \<and> shell_inert w"

definition ip_command :: "string list \<Rightarrow> bool" where
  "ip_command ws \<longleftrightarrow>
     (\<exists>n m es. ws = [''ip'', ''link'', ''set'', ''dev'', n, ''mtu'', m, ''2>/dev/null'', ''||'', ''echo''] @ es \<and>
        atoi m \<noteq> None \<and> list_all clean_word (n # es)) \<or>
     (\<exists>a n es. ws = [''ip'', ''addr'', ''replace'', a, ''dev'', n, ''2>/dev/null'', ''||'', ''echo''] @ es \<and>
        list_all clean_word (a # n # es))"

definition read_words :: "string list \<Rightarrow> set_item" where
  "read_words ws =
     (if take 2 ws = [''ip'', ''addr''] then \<lparr>si_name = ws ! 5, si_mtu = 0, si_addr = ws ! 3\<rparr>
      else \<lparr>si_name = ws ! 4, si_mtu = (case atoi (ws ! 6) of None \<Rightarrow> 0 | Some n \<Rightarrow> n), si_addr = []\<rparr>)"

definition echoed :: "string list \<Rightarrow> string" where
  "echoed ws = join_with '' '' (if take 2 ws = [''ip'', ''addr''] then drop 9 ws else drop 10 ws) @ [CHR 0x0A]"

definition effect :: "(string \<Rightarrow> set_item \<Rightarrow> bool) \<Rightarrow> string \<Rightarrow> set_item \<Rightarrow> (string \<times> string \<Rightarrow> int) \<Rightarrow> string \<times> string \<Rightarrow> int" where
  "effect no pod it v = (if si_addr it = [] \<and> \<not> no pod it then v((pod, si_name it) := si_mtu it) else v)"

text \<open>\<open>view\<close> is the MTU of each interface of each pod, \<open>no\<close> what the kernel refuses.\<close>

definition kernel_sets_links ::
  "'s mtu_env \<Rightarrow> ('s \<Rightarrow> string \<times> string \<Rightarrow> int) \<Rightarrow> ('s \<Rightarrow> string \<Rightarrow> set_item \<Rightarrow> bool) \<Rightarrow> bool" where
  "kernel_sets_links env view no \<longleftrightarrow>
     (\<forall>pod script s. list_all ip_command (commands_of script) \<longrightarrow>
        (case mv_netns env pod [''sh'', ''-c'', script] s of ((out, _, err), t) \<Rightarrow>
           err = None \<and> out = concat (map echoed (filter (\<lambda>ws. no s pod (read_words ws)) (commands_of script))) \<and>
           view t = fold (effect (no s) pod) (map read_words (commands_of script)) (view s)))"

subsection \<open>A machine that does so\<close>

record ip_machine =
  im_mtus :: "((string \<times> string) \<times> int) list"
  im_most :: "((string \<times> string) \<times> int) list"

definition refuses :: "((string \<times> string) \<times> int) list \<Rightarrow> string \<Rightarrow> set_item \<Rightarrow> bool" where
  "refuses most pod it \<longleftrightarrow>
     si_addr it = [] \<and> (case map_of most (pod, si_name it) of None \<Rightarrow> False | Some c \<Rightarrow> si_mtu it > c)"

definition set_one :: "((string \<times> string) \<times> int) list \<Rightarrow> string \<Rightarrow> set_item \<Rightarrow> ((string \<times> string) \<times> int) list \<Rightarrow> ((string \<times> string) \<times> int) list" where
  "set_one most pod it m = (if si_addr it = [] \<and> \<not> refuses most pod it then AList.update (pod, si_name it) (si_mtu it) m else m)"

definition machine_sh :: "string \<Rightarrow> string list \<Rightarrow> ip_machine \<Rightarrow> reply \<times> ip_machine" where
  "machine_sh pod argv s =
     (case argv of
        [_, _, script] \<Rightarrow>
          ((concat (map echoed (filter (\<lambda>ws. refuses (im_most s) pod (read_words ws)) (commands_of script))), [], None),
           s\<lparr>im_mtus := fold (set_one (im_most s) pod) (map read_words (commands_of script)) (im_mtus s)\<rparr>)
      | _ \<Rightarrow> (([], [], Some ''usage''), s))"

definition machine_env :: "ip_machine mtu_env" where
  "machine_env = \<lparr>mv_netns = machine_sh, mv_in_pod = machine_sh, mv_driver = (\<lambda>_. None), mv_history = (\<lambda>_. None)\<rparr>"

definition machine_view :: "ip_machine \<Rightarrow> string \<times> string \<Rightarrow> int" where
  "machine_view s x = (case map_of (im_mtus s) x of None \<Rightarrow> 0 | Some n \<Rightarrow> n)"

lemma fold_set_one: "(\<lambda>x. case map_of (fold (set_one most pod) items m) x of None \<Rightarrow> 0 | Some n \<Rightarrow> n) =
    fold (effect (refuses most) pod) items (\<lambda>x. case map_of m x of None \<Rightarrow> 0 | Some n \<Rightarrow> n)"
proof (induction items arbitrary: m)
  case (Cons it items)
  have "(\<lambda>x. case map_of (set_one most pod it m) x of None \<Rightarrow> 0 | Some n \<Rightarrow> n) =
      effect (refuses most) pod it (\<lambda>x. case map_of m x of None \<Rightarrow> 0 | Some n \<Rightarrow> n)"
    by (auto simp: set_one_def effect_def update_conv' fun_eq_iff)
  with Cons.IH [of "set_one most pod it m"] show ?case by simp
qed simp

lemma machine_sets_links: "kernel_sets_links machine_env machine_view (\<lambda>s. refuses (im_most s))"
  unfolding kernel_sets_links_def machine_env_def machine_sh_def
  using fold_set_one by (simp add: machine_view_def [abs_def])

definition lab_pods :: "(string \<times> mtu_pod) list" where
  "lab_pods = [(''r1-0'', \<lparr>mp_worker = ''w1'', mp_running = True, mp_young = False, mp_guest = False\<rparr>),
     (''r2-0'', \<lparr>mp_worker = ''w1'', mp_running = True, mp_young = False, mp_guest = False\<rparr>),
     (''r3-0'', \<lparr>mp_worker = ''w2'', mp_running = True, mp_young = False, mp_guest = False\<rparr>)]"

definition lab_links :: "link_spec list" where
  "lab_links = [basic_link ''r1-0'' ''eth1'' ''r2-0'' ''eth1'', basic_link ''r2-0'' ''eth2'' ''r3-0'' ''eth1'']"

definition lab_known :: "(string \<times> (string \<times> int) list) list" where
  "lab_known = [(''r1-0'', [(''eth1'', 1400)]), (''r2-0'', [(''eth1'', 1400), (''eth2'', 1400)]), (''r3-0'', [(''eth1'', 1400)])]"

definition lab_machine :: ip_machine where
  "lab_machine = \<lparr>im_mtus = [((''r1-0'', ''eth1''), 1400), ((''r2-0'', ''eth1''), 1400), ((''r2-0'', ''eth2''), 1400), ((''r3-0'', ''eth1''), 1400)],
     im_most = [((''r2-0'', ''eth2''), 1400), ((''r3-0'', ''eth1''), 1400)]\<rparr>"

definition no_memory :: mtu_memory where "no_memory = \<lparr>mm_ceilings = [], mm_namespaces = []\<rparr>"

section \<open>The value of the namespace is the least any VXLAN end allows\<close>

definition bounding :: "ceilings \<Rightarrow> mtu_end \<Rightarrow> bool" where
  "bounding m e \<longleftrightarrow> me_cross e \<and> me_want e \<le> 0 \<and> ceiling_of m (me_worker e) \<noteq> 0"

definition fits_worker :: "ceilings \<Rightarrow> mtu_end \<Rightarrow> bool" where
  "fits_worker m e \<longleftrightarrow> (me_cross e \<and> me_want e > 0 \<and> ceiling_of m (me_worker e) > 0 \<longrightarrow> me_want e \<le> ceiling_of m (me_worker e))"

definition least_ceiling :: "ceilings \<Rightarrow> int \<Rightarrow> mtu_end list \<Rightarrow> int" where
  "least_ceiling m target ends = Min (insert target ((\<lambda>e. ceiling_of m (me_worker e)) ` {e \<in> set ends. bounding m e}))"

lemma Min_insert_two: "finite S \<Longrightarrow> Min (insert a (insert b S)) = Min (insert (min a b :: int) S)"
  by (cases "S = {}") (simp_all add: min.assoc)

lemma least_ceiling_fold:
  "least_ceiling m target (e # es) = (if bounding m e then least_ceiling m (min target (ceiling_of m (me_worker e))) es else least_ceiling m target es)"
proof -
  have "{x \<in> set (e # es). bounding m x} = (if bounding m e then insert e else (\<lambda>S. S)) {x \<in> set es. bounding m x}" by auto
  then have "least_ceiling m target (e # es) = Min (insert target ((\<lambda>e. ceiling_of m (me_worker e)) `
      (if bounding m e then insert e else (\<lambda>S. S)) {x \<in> set es. bounding m x}))" by (simp only: least_ceiling_def)
  then show ?thesis by (simp only: least_ceiling_def if_distrib image_insert) (simp add: Min_insert_two del: Min_insert)
qed

lemma settle_from_Inr:
  assumes "settle_from explicit m es eff seen ws = Inr (eff', ws')"
  shows "eff' = least_ceiling m eff es \<and> list_all (fits_worker m) es \<and> (explicit \<longrightarrow> eff' = eff)"
  using assms
proof (induction explicit m es eff seen ws rule: settle_from.induct)
  case (1 explicit m eff seen ws)
  then show ?case by (simp add: least_ceiling_def)
next
  case (2 explicit m e es eff seen ws)
  then show ?case
    by (auto simp: least_ceiling_fold Let_def bounding_def fits_worker_def min_def not_le split: if_splits)
qed

lemma settle_from_Inl:
  assumes "settle_from explicit m es eff seen ws = Inl x"
  shows "(\<exists>e \<in> set es. \<not> fits_worker m e) \<or> explicit \<and> (\<exists>e \<in> set es. bounding m e \<and> ceiling_of m (me_worker e) < eff)"
  using assms
proof (induction explicit m es eff seen ws rule: settle_from.induct)
  case (2 explicit m e es eff seen ws)
  then show ?case
    by (auto simp: Let_def bounding_def fits_worker_def not_le split: if_splits)
qed simp

text \<open>
  C30: the MTU a namespace settles on is the least of the platform's and of what the workers of its
  undeclared VXLAN ends carry; every declared MTU fits its worker; the operator's own value is
  never lowered, and the settlement fails exactly when a declared MTU does not fit or the
  operator's value is above what some undeclared VXLAN end carries.
\<close>

theorem settle_mtu_exact:
  "(case settle_mtu target explicit m ends of
      Inr (eff, _) \<Rightarrow> eff = least_ceiling m target ends \<and> (explicit \<longrightarrow> eff = target)
    | Inl _ \<Rightarrow> True) \<and>
   ((\<exists>e. settle_mtu target explicit m ends = Inl e) \<longleftrightarrow>
      \<not> list_all (fits_worker m) ends \<or> explicit \<and> least_ceiling m target ends < target)"
proof (cases "settle_mtu target explicit m ends")
  case (Inr p)
  obtain eff ws where p: "p = (eff, ws)" by (cases p)
  with Inr have "settle_from explicit m ends target [] [] = Inr (eff, ws)" by (simp add: settle_mtu_def)
  from settle_from_Inr [OF this] Inr p show ?thesis by auto
next
  case (Inl x)
  then have "settle_from explicit m ends target [] [] = Inl x" by (simp add: settle_mtu_def)
  from settle_from_Inl [OF this] have "\<not> list_all (fits_worker m) ends \<or> explicit \<and> least_ceiling m target ends < target"
    by (fastforce simp: list_all_iff least_ceiling_def Min_less_iff)
  with Inl show ?thesis by simp
qed

theorem settle_mtu_exact_witness:
  "\<exists>e. settle_mtu 1450 True [(''w1'', 1400)]
     [\<lparr>me_pod = ''r1-0'', me_iface = ''eth1'', me_worker = ''w1'', me_peer = ''r2-0'', me_peer_if = ''eth1'',
       me_cross = True, me_fresh = False, me_want = 0, me_addrs = []\<rparr>] = Inl e"
proof -
  let ?e = "\<lparr>me_pod = ''r1-0'', me_iface = ''eth1'', me_worker = ''w1'', me_peer = ''r2-0'', me_peer_if = ''eth1'',
       me_cross = True, me_fresh = False, me_want = 0, me_addrs = []\<rparr>"
  have "{x \<in> set [?e]. bounding [(''w1'', 1400)] x} = {?e}" by (auto simp: bounding_def ceiling_of_def)
  then have "least_ceiling [(''w1'', 1400)] 1450 [?e] < 1450" unfolding least_ceiling_def by (simp add: ceiling_of_def)
  with settle_mtu_exact [where target = 1450 and explicit = True and m = "[(''w1'', 1400)]" and ends = "[?e]"] show ?thesis by blast
qed

section \<open>The scripts of a round\<close>

definition clean_item :: "set_item \<Rightarrow> bool" where
  "clean_item it \<longleftrightarrow> clean_word (si_name it) \<and>
     (if si_addr it = [] then 0 \<le> si_mtu it \<and> si_mtu it < 2 ^ 63 else clean_word (si_addr it) \<and> si_mtu it = 0)"

definition item_words :: "set_item \<Rightarrow> string list" where
  "item_words it =
     (if si_addr it \<noteq> []
      then [''ip'', ''addr'', ''replace'', si_addr it, ''dev'', si_name it, ''2>/dev/null'', ''||'', ''echo'', ''FAIL'', si_name it, si_addr it]
      else [''ip'', ''link'', ''set'', ''dev'', si_name it, ''mtu'', int_str (si_mtu it), ''2>/dev/null'', ''||'', ''echo'', ''FAIL'', si_name it])"

text \<open>A word the script can be cut at.\<close>

definition cut_word :: "string \<Rightarrow> bool" where
  "cut_word w \<longleftrightarrow> token w \<and> CHR '';'' \<notin> set w"

lemma clean_word_cut: "clean_word w \<Longrightarrow> cut_word w"
  by (auto simp: clean_word_def cut_word_def shell_inert_def inert_char_def token_def list_all_iff sh_special_def)

lemma set_line_words: "set_line it = join_with '' '' (item_words it)"
  by (simp add: set_line_def item_words_def item_key_def)

lemma int_str_cut: "0 \<le> n \<Longrightarrow> cut_word (int_str n)"
  using nat_str_digits [of "nat n"] nat_str_word [of "nat n"]
  by (auto simp: int_str_def cut_word_def token_def list_all_iff is_digit_def)

lemma item_words_cut: "clean_item it \<Longrightarrow> list_all cut_word (item_words it)"
proof -
  assume c: "clean_item it"
  have "list_all cut_word [''ip'', ''addr'', ''replace'', ''dev'', ''2>/dev/null'', ''||'', ''echo'', ''FAIL'', ''link'', ''set'', ''mtu'']"
    by code_simp
  with c int_str_cut show ?thesis by (simp add: item_words_def clean_item_def clean_word_cut split: if_splits)
qed

lemma join_no_semi: "list_all cut_word ws \<Longrightarrow> CHR '';'' \<notin> set (join_with '' '' ws)"
  by (induction ws rule: induct_list012) (auto simp: cut_word_def)

lemma cut_tokens: "list_all cut_word ws \<Longrightarrow> tokens ws"
  by (auto simp: cut_word_def list_all_iff)

lemma fields_space: "Go_Prelude.fields (CHR '' '' # s) = Go_Prelude.fields s"
  by (subst (1 2) Go_Prelude.fields.simps) (simp add: is_space_def)

lemma split_space: "map Go_Prelude.fields (split_on CHR '';'' (CHR '' '' # s)) = map Go_Prelude.fields (split_on CHR '';'' s)"
  by (cases "split_on CHR '';'' s") (simp_all add: fields_space)

lemma split_script:
  "ls \<noteq> [] \<Longrightarrow> \<forall>l \<in> set ls. CHR '';'' \<notin> set l \<Longrightarrow>
   map Go_Prelude.fields (split_on CHR '';'' (join_with ''; '' ls)) = map Go_Prelude.fields ls"
  by (induction ls rule: induct_list012) (simp_all add: split_on_no_sep split_on_append split_space del: split_on.simps(2))

text \<open>The shell reads the script of a pod back into the words of its items.\<close>

lemma commands_of_script: "items \<noteq> [] \<Longrightarrow> list_all clean_item items \<Longrightarrow> commands_of (set_script items) = map item_words items"
proof -
  assume i: "items \<noteq> []" "list_all clean_item items"
  have "CHR '';'' \<notin> set (set_line it)" if "it \<in> set items" for it
    unfolding set_line_words using i(2) that by (intro join_no_semi item_words_cut) (simp add: list_all_iff)
  then have "commands_of (set_script items) = map (Go_Prelude.fields \<circ> set_line) items"
    unfolding commands_of_def set_script_def using i(1) by (subst split_script) auto
  moreover have "Go_Prelude.fields (set_line it) = item_words it" if "it \<in> set items" for it
    unfolding set_line_words using i(2) that by (intro fields_join_tokens cut_tokens item_words_cut) (simp add: list_all_iff)
  ultimately show ?thesis by simp
qed

lemma int_str_reads: "0 \<le> n \<Longrightarrow> n < 2 ^ 63 \<Longrightarrow> atoi (int_str n) = Some n"
  using atoi_nat_str [of "nat n"] by (simp add: int_str_def)

lemma fail_clean: "clean_word ''FAIL''"
  by code_simp

lemma item_ip_command: "clean_item it \<Longrightarrow> ip_command (item_words it)"
  using fail_clean by (auto simp: ip_command_def item_words_def clean_item_def int_str_reads split: if_splits)

lemma read_item_words: "clean_item it \<Longrightarrow> read_words (item_words it) = it"
  by (cases it) (auto simp: read_words_def item_words_def clean_item_def int_str_reads split: if_splits)

lemma echoed_item: "clean_item it \<Longrightarrow> echoed (item_words it) = ''FAIL '' @ item_key it @ [CHR 0x0A]"
  by (simp add: echoed_def item_words_def item_key_def)

lemma split_output:
  "\<forall>l \<in> set ls. CHR 0x0A \<notin> set l \<Longrightarrow> split_on CHR 0x0A (concat (map (\<lambda>l. l @ [CHR 0x0A]) ls)) = ls @ [[]]"
  by (induction ls) (simp_all add: split_on_append del: split_on.simps(2))

lemma failure_of_item:
  assumes "clean_item it"
  shows "failure_of (''FAIL '' @ item_key it) = Some (item_key it)" and "CHR 0x0A \<notin> set (''FAIL '' @ item_key it)"
proof -
  let ?ws = "if si_addr it = [] then [si_name it] else [si_name it, si_addr it]"
  have k: "''FAIL '' @ item_key it = join_with '' '' (''FAIL'' # ?ws)" "item_key it = join_with '' '' ?ws"
    by (simp_all add: item_key_def)
  have c: "list_all cut_word (''FAIL'' # ?ws)"
    using assms clean_word_cut [OF fail_clean] by (auto simp: clean_item_def clean_word_cut)
  have "Go_Prelude.fields (join_with '' '' (''FAIL'' # ?ws)) = ''FAIL'' # ?ws" by (rule fields_join_tokens [OF cut_tokens [OF c]])
  then show "failure_of (''FAIL '' @ item_key it) = Some (item_key it)" unfolding k(1) by (simp add: failure_of_def k(2))
  have "CHR 0x0A \<notin> set w" if "token w" for w using that by (auto simp: token_def list_all_iff is_space_def)
  then show "CHR 0x0A \<notin> set (''FAIL '' @ item_key it)"
    using cut_tokens [OF c] by (auto simp: item_key_def)
qed

text \<open>What the script prints reads back as the keys of the items that were refused.\<close>

lemma read_failures:
  assumes "list_all clean_item items"
  shows "parse_set_failures (concat (map echoed (map item_words items))) = map item_key items"
proof -
  have o: "concat (map echoed (map item_words items)) = concat (map (\<lambda>l. l @ [CHR 0x0A]) (map (\<lambda>it. ''FAIL '' @ item_key it) items))"
    using assms by (induction items) (simp_all add: echoed_item)
  have n: "\<forall>l \<in> set (map (\<lambda>it. ''FAIL '' @ item_key it) items). CHR 0x0A \<notin> set l"
    using assms failure_of_item(2) by (auto simp: list_all_iff)
  have "failure_of [] = None" by (simp add: failure_of_def Go_Prelude.fields.simps)
  then show ?thesis
    unfolding parse_set_failures_def o split_output [OF n] using assms
    by (induction items) (use failure_of_item(1) in simp_all)
qed

lemma write_items_runs:
  assumes k: "kernel_sets_links env view no" and w: "write_items env pod ends have items s = (r, t)" and c: "list_all clean_item items"
  shows "view t = fold (effect (no s) pod) items (view s)"
    and "items \<noteq> [] \<Longrightarrow> r = written_result pod ends have items (map item_key (filter (no s pod) items))"
proof -
  have "view t = fold (effect (no s) pod) items (view s) \<and>
      (items \<noteq> [] \<longrightarrow> r = written_result pod ends have items (map item_key (filter (no s pod) items)))"
  proof (cases "items = []")
    case True
    with w show ?thesis by (simp add: write_items_def)
  next
    case False
    obtain out e err u where x: "mv_netns env pod [''sh'', ''-c'', set_script items] s = ((out, e, err), u)" by (metis surj_pair)
    have cs: "commands_of (set_script items) = map item_words items" by (rule commands_of_script [OF False c])
    have cmd: "list_all ip_command (commands_of (set_script items))"
      unfolding cs using c item_ip_command by (auto simp: list_all_iff)
    have kx: "err = None" "out = concat (map echoed (filter (\<lambda>ws. no s pod (read_words ws)) (map item_words items)))"
      "view u = fold (effect (no s) pod) (map read_words (map item_words items)) (view s)"
      using k [unfolded kernel_sets_links_def, rule_format, OF cmd, where pod = pod and s = s] by (simp_all add: x cs)
    have rw: "map read_words (map item_words items) = items"
      using c by (induction items) (simp_all add: read_item_words)
    have "filter (\<lambda>ws. no s pod (read_words ws)) (map item_words items) = map item_words (filter (no s pod) items)"
      using c by (induction items) (simp_all add: read_item_words)
    moreover have "list_all clean_item (filter (no s pod) items)" using c by (auto simp: list_all_iff)
    ultimately have "parse_set_failures out = map item_key (filter (no s pod) items)" unfolding kx(2) by (simp only: read_failures)
    with w False x kx(1,3) show ?thesis by (auto simp: write_items_def rw [unfolded map_map])
  qed
  then show "view t = fold (effect (no s) pod) items (view s)"
    and "items \<noteq> [] \<Longrightarrow> r = written_result pod ends have items (map item_key (filter (no s pod) items))" by blast+
qed

section \<open>A round that meets no refusal\<close>

lemma classify_some: "fst (classify pod ends have it) \<noteq> [] \<or> snd (classify pod ends have it) \<noteq> []"
  by (auto simp: classify_def split: option.splits)

lemma written_clean:
  assumes "rr_refused (written_result pod ends have items failed) = []" and "rr_warnings (written_result pod ends have items failed) = []"
  shows "\<forall>it \<in> set items. item_key it \<notin> set failed"
proof
  fix it assume it: "it \<in> set items"
  show "item_key it \<notin> set failed"
  proof
    assume "item_key it \<in> set failed"
    with it assms have "fst (classify pod ends have it) = []" "snd (classify pod ends have it) = []"
      by (auto simp: written_result_def Let_def)
    with classify_some show False by blast
  qed
qed

lemma write_items_clean:
  assumes k: "kernel_sets_links env view no" and w: "write_items env pod ends have items s = (r, t)"
    and c: "list_all clean_item items" and r: "rr_refused r = []" "rr_warnings r = []"
  shows "view t = fold (\<lambda>it v. if si_addr it = [] then v((pod, si_name it) := si_mtu it) else v) items (view s)"
proof -
  have "\<not> no s pod it" if it: "it \<in> set items" for it
  proof -
    have "items \<noteq> []" using it by auto
    note w2 = write_items_runs(2) [OF k w c this]
    from r have "\<forall>it \<in> set items. item_key it \<notin> set (map item_key (filter (no s pod) items))" unfolding w2 by (rule written_clean)
    with it show ?thesis by auto
  qed
  then have "fold (effect (no s) pod) items v = fold (\<lambda>it v. if si_addr it = [] then v((pod, si_name it) := si_mtu it) else v) items v" for v
    by (intro fold_cong) (auto simp: effect_def)
  with write_items_runs(1) [OF k w c] show ?thesis by simp
qed

lemma fold_set_other:
  "\<forall>it \<in> set items. \<not> (si_addr it = [] \<and> (pod, si_name it) = x) \<Longrightarrow>
   fold (\<lambda>it v. if si_addr it = [] then v((pod, si_name it) := si_mtu it) else v) items v x = v x"
  by (induction items arbitrary: v) auto

lemma fold_set_all:
  "\<forall>it \<in> set items. si_addr it = [] \<and> (pod, si_name it) = x \<longrightarrow> si_mtu it = n \<Longrightarrow>
   v x = n \<or> (\<exists>it \<in> set items. si_addr it = [] \<and> (pod, si_name it) = x) \<Longrightarrow>
   fold (\<lambda>it v. if si_addr it = [] then v((pod, si_name it) := si_mtu it) else v) items v x = n"
  by (induction items arbitrary: v) auto

definition clean_end :: "int \<Rightarrow> mtu_end \<Rightarrow> bool" where
  "clean_end eff e \<longleftrightarrow> clean_word (me_iface e) \<and> list_all clean_word (me_addrs e) \<and> 0 \<le> target_of e eff \<and> target_of e eff < 2 ^ 63"

lemma end_items_clean: "clean_end eff e \<Longrightarrow> list_all clean_item (end_items False have removed eff e)"
proof -
  assume c: "clean_end eff e"
  have a: "clean_item \<lparr>si_name = me_iface e, si_mtu = 0, si_addr = a\<rparr>" if "a \<in> set (me_addrs e)" for a
    using c that by (auto simp: clean_end_def clean_item_def list_all_iff clean_word_def)
  have m: "clean_item \<lparr>si_name = me_iface e, si_mtu = target_of e eff, si_addr = []\<rparr>"
    using c by (simp add: clean_end_def clean_item_def)
  show ?thesis using a m by (auto simp: end_items_def list_all_iff Let_def)
qed

lemma pod_items_clean: "list_all (clean_end eff) es \<Longrightarrow> list_all clean_item (pod_items False have removed eff es)"
  using end_items_clean by (auto simp: pod_items_def list_all_iff)

lemma pod_items_mtu:
  assumes "it \<in> set (pod_items False have removed eff es)" and "si_addr it = []" and "list_all (clean_end eff) es"
  shows "\<exists>e \<in> set es. si_name it = me_iface e \<and> si_mtu it = target_of e eff \<and> have_mtu have (me_iface e) \<noteq> target_of e eff"
  using assms by (fastforce simp: pod_items_def end_items_def Let_def clean_end_def list_all_iff clean_word_def split: if_splits)

lemma pod_items_has:
  "e \<in> set es \<Longrightarrow> have_mtu have (me_iface e) \<noteq> target_of e eff \<Longrightarrow>
   \<exists>it \<in> set (pod_items False have removed eff es). si_addr it = [] \<and> si_name it = me_iface e"
  by (rule bexI [of _ "\<lparr>si_name = me_iface e, si_mtu = target_of e eff, si_addr = []\<rparr>"])
    (auto simp: pod_items_def end_items_def Let_def)

text \<open>The ends of one pod that a visit covers.\<close>

definition pod_ready ::
  "(string \<times> mtu_pod) list \<Rightarrow> (string \<times> (string \<times> int) list) list \<Rightarrow> int \<Rightarrow> (string \<times> string \<Rightarrow> int) \<Rightarrow> string \<times> mtu_end list \<Rightarrow> bool" where
  "pod_ready pods current eff v pe \<longleftrightarrow>
     (case map_of pods (fst pe) of Some p \<Rightarrow> \<not> mp_guest p | None \<Rightarrow> True) \<and> list_all (clean_end eff) (snd pe) \<and>
     distinct (map me_iface (snd pe)) \<and>
     (\<forall>e \<in> set (snd pe). v (fst pe, me_iface e) = have_mtu (case map_of current (fst pe) of Some m \<Rightarrow> m | None \<Rightarrow> []) (me_iface e))"

lemma set_pod_mtus_clean:
  assumes k: "kernel_sets_links env view no" and p: "pod_ready pods current eff (view s) (pod, es)"
    and w: "set_pod_mtus env pods current eff (pod, es) s = (r, t)" and r: "rr_refused r = []" "rr_warnings r = []"
  shows "(\<forall>e \<in> set es. view t (pod, me_iface e) = target_of e eff) \<and> (\<forall>x. fst x \<noteq> pod \<longrightarrow> view t x = view s x)"
proof -
  let ?have = "case map_of current pod of Some m \<Rightarrow> m | None \<Rightarrow> []"
  let ?items = "pod_items False ?have (removed_addresses env pod) eff es"
  have g: "(case map_of pods pod of Some p \<Rightarrow> mp_guest p | None \<Rightarrow> False) = False"
    using p by (auto simp: pod_ready_def split: option.splits)
  have c: "list_all (clean_end eff) es" "distinct (map me_iface es)"
    "\<forall>e \<in> set es. view s (pod, me_iface e) = have_mtu ?have (me_iface e)" using p by (auto simp: pod_ready_def)
  have wi: "write_items env pod es ?have ?items s = (r, t)"
    using w by (simp add: set_pod_mtus_def g Let_def split: prod.splits)
  have v: "view t = fold (\<lambda>it v. if si_addr it = [] then v((pod, si_name it) := si_mtu it) else v) ?items (view s)"
    by (rule write_items_clean [OF k wi pod_items_clean [OF c(1)] r])
  have "view t (pod, me_iface e) = target_of e eff" if e: "e \<in> set es" for e
    unfolding v
  proof (rule fold_set_all)
    show "\<forall>it \<in> set ?items. si_addr it = [] \<and> (pod, si_name it) = (pod, me_iface e) \<longrightarrow> si_mtu it = target_of e eff"
    proof (intro ballI impI)
      fix it assume it: "it \<in> set ?items" "si_addr it = [] \<and> (pod, si_name it) = (pod, me_iface e)"
      then obtain e' where e': "e' \<in> set es" "si_name it = me_iface e'" "si_mtu it = target_of e' eff"
        using pod_items_mtu [OF it(1) _ c(1)] by blast
      with it(2) e c(2) have "e' = e" by (auto simp: distinct_map inj_on_def)
      with e' show "si_mtu it = target_of e eff" by simp
    qed
    show "view s (pod, me_iface e) = target_of e eff \<or> (\<exists>it \<in> set ?items. si_addr it = [] \<and> (pod, si_name it) = (pod, me_iface e))"
      using pod_items_has [OF e] c(3) e by fastforce
  qed
  moreover have "view t x = view s x" if "fst x \<noteq> pod" for x
    unfolding v by (rule fold_set_other) (use that in auto)
  ultimately show ?thesis by blast
qed

lemma each_pod_clean:
  assumes "kernel_sets_links env view no" and "each_pod (set_pod_mtus env pods current eff) pes s = (r, t)"
    and "rr_refused r = []" and "rr_warnings r = []" and "distinct (map fst pes)"
    and "\<forall>pe \<in> set pes. pod_ready pods current eff (view s) pe"
  shows "(\<forall>(pod, es) \<in> set pes. \<forall>e \<in> set es. view t (pod, me_iface e) = target_of e eff) \<and>
    (\<forall>x. fst x \<notin> fst ` set pes \<longrightarrow> view t x = view s x)"
  using assms(2-6)
proof (induction pes arbitrary: s r)
  case (Cons pe pes)
  obtain pod es where pe: "pe = (pod, es)" by (cases pe)
  obtain r1 s1 where r1: "set_pod_mtus env pods current eff pe s = (r1, s1)" by (meson surj_pair)
  obtain r2 s2 where r2: "each_pod (set_pod_mtus env pods current eff) pes s1 = (r2, s2)" by (meson surj_pair)
  from Cons.prems(1) r1 r2 have r: "r = join_results r1 r2" "t = s2" by auto
  with Cons.prems(2,3) have e: "rr_refused r1 = []" "rr_warnings r1 = []" "rr_refused r2 = []" "rr_warnings r2 = []"
    by (auto simp: join_results_def)
  have one: "(\<forall>e \<in> set es. view s1 (pod, me_iface e) = target_of e eff) \<and> (\<forall>x. fst x \<noteq> pod \<longrightarrow> view s1 x = view s x)"
    by (rule set_pod_mtus_clean [OF assms(1) _ r1 [unfolded pe] e(1,2)]) (use Cons.prems(5) pe in auto)
  have "pod_ready pods current eff (view s1) q" if "q \<in> set pes" for q
  proof -
    have "fst q \<noteq> pod" using that Cons.prems(4) pe by force
    with one Cons.prems(5) that show ?thesis by (simp add: pod_ready_def)
  qed
  with Cons.IH [OF r2 [folded r(2)] e(3,4)] Cons.prems(4) pe one show ?case by force
qed simp

lemma ends_by_pod_set:
  "(pod, es) \<in> set (ends_by_pod ends) \<longleftrightarrow> pod \<in> me_pod ` set ends \<and> es = filter (\<lambda>e. me_pod e = pod) ends"
proof -
  have "(pod, es) \<in> set (ends_by_pod ends) \<longleftrightarrow> map_of (ends_by_pod ends) pod = Some es"
    unfolding ends_by_pod_def by (simp add: map_of_eq_Some_iff distinct_group_entries)
  then show ?thesis
    by (auto simp: ends_by_pod_def map_of_group_entries filter_map comp_def image_image)
qed

text \<open>The ends of a pass: no VM, each interface once, read as it is, with names and values a script can carry.\<close>

definition ends_ready ::
  "(string \<times> mtu_pod) list \<Rightarrow> (string \<times> (string \<times> int) list) list \<Rightarrow> int \<Rightarrow> (string \<times> string \<Rightarrow> int) \<Rightarrow> mtu_end list \<Rightarrow> bool" where
  "ends_ready pods current eff v ends \<longleftrightarrow>
     distinct (map (\<lambda>e. (me_pod e, me_iface e)) ends) \<and> list_all (clean_end eff) ends \<and>
     list_all (\<lambda>e. (case map_of pods (me_pod e) of Some p \<Rightarrow> \<not> mp_guest p | None \<Rightarrow> True) \<and>
       v (me_pod e, me_iface e) = have_mtu (case map_of current (me_pod e) of Some m \<Rightarrow> m | None \<Rightarrow> []) (me_iface e)) ends"

lemma ends_ready_pod:
  assumes "ends_ready pods current eff v ends" and "(pod, es) \<in> set (ends_by_pod ends)"
  shows "pod_ready pods current eff v (pod, es)"
proof -
  have es: "pod \<in> me_pod ` set ends" "es = filter (\<lambda>e. me_pod e = pod) ends" using assms(2) by (simp_all add: ends_by_pod_set)
  have "distinct (map me_iface es)"
    using assms(1) unfolding es(2) by (auto simp: ends_ready_def distinct_map inj_on_def)
  with assms(1) es show ?thesis by (auto simp: ends_ready_def pod_ready_def list_all_iff)
qed

text \<open>
  C31: a round over pods that are no VMs, whose interfaces are as they were read: when none of its
  writes is refused or fails, every end of every link has the MTU it should, the one its link
  declares or the namespace's, and no interface of a pod without links is touched, in whatever
  order the pods are visited. Names and addresses are words the shell takes as they are, and the
  pods' shell runs a script as \<open>kernel_sets_links\<close> says. A second round does not read again, which
  is what \<open>lowered_pass_leaves_raised_ends\<close> is about.
\<close>

theorem mtu_round_sets_every_end:
  assumes "kernel_sets_links env view no" and "permutes order" and "ends_ready pods current eff (view s) ends"
    and "set_link_mtus env order pods current ends eff s = (r, t)" and "rr_refused r = []" and "rr_warnings r = []"
  shows "(\<forall>e \<in> set ends. view t (me_pod e, me_iface e) = target_of e eff) \<and>
    (\<forall>x. fst x \<notin> me_pod ` set ends \<longrightarrow> view t x = view s x)"
proof -
  obtain r0 where e: "each_pod (set_pod_mtus env pods current eff) (order (ends_by_pod ends)) s = (r0, t)"
    and r0: "rr_refused r = sort_by refused_le (rr_refused r0)" "rr_warnings r = rr_warnings r0"
    using assms(4) by (auto simp: set_link_mtus_def split: prod.splits)
  have r1: "rr_refused r0 = []" "rr_warnings r0 = []"
    using assms(5,6) r0 by (metis length_sort_by length_0_conv) (use assms(6) r0 in simp)
  have d: "distinct (map fst (order (ends_by_pod ends)))"
    using distinct_group_entries permutes_distinct [OF assms(2)] by (simp add: ends_by_pod_def)
  have ready: "\<forall>pe \<in> set (order (ends_by_pod ends)). pod_ready pods current eff (view s) pe"
    using ends_ready_pod [OF assms(3)] permutes_set [OF assms(2)] by auto
  from each_pod_clean [OF assms(1) e r1 d ready]
  have c: "\<forall>(pod, es) \<in> set (ends_by_pod ends). \<forall>e \<in> set es. view t (pod, me_iface e) = target_of e eff"
    "\<forall>x. fst x \<notin> fst ` set (ends_by_pod ends) \<longrightarrow> view t x = view s x" by (auto simp: permutes_set [OF assms(2)])
  have "view t (me_pod e, me_iface e) = target_of e eff" if "e \<in> set ends" for e
  proof -
    have "(me_pod e, filter (\<lambda>x. me_pod x = me_pod e) ends) \<in> set (ends_by_pod ends)" using that by (simp add: ends_by_pod_set)
    from bspec [OF c(1) this] that show ?thesis by simp
  qed
  moreover have "fst ` set (ends_by_pod ends) \<subseteq> me_pod ` set ends" by (auto simp: ends_by_pod_set)
  ultimately show ?thesis using c(2) by blast
qed

theorem mtu_round_sets_every_end_witness:
  "let ends = fst (link_ends_mtu lab_links lab_pods [(''r1-0/eth1'', no_attrs\<lparr>la_mtu := 1280\<rparr>)] None);
       t = snd (set_link_mtus machine_env (\<lambda>x. x) lab_pods lab_known ends 1390 lab_machine) in
   machine_view t (''r1-0'', ''eth1'') = 1280 \<and> machine_view t (''r3-0'', ''eth1'') = 1390"
proof -
  let ?ends = "fst (link_ends_mtu lab_links lab_pods [(''r1-0/eth1'', no_attrs\<lparr>la_mtu := 1280\<rparr>)] None)"
  let ?r = "set_link_mtus machine_env (\<lambda>x. x) lab_pods lab_known ?ends 1390 lab_machine"
  have o: "permutes (\<lambda>x. x)" by (simp add: permutes_def)
  have y: "ends_ready lab_pods lab_known 1390 (machine_view lab_machine) ?ends" by code_simp
  have c: "?r = (fst ?r, snd ?r)" "rr_refused (fst ?r) = []" "rr_warnings (fst ?r) = []" by (simp, code_simp+)
  have a: "\<forall>e \<in> set ?ends. machine_view (snd ?r) (me_pod e, me_iface e) = target_of e 1390"
    using mtu_round_sets_every_end [OF machine_sets_links o y c] by blast
  have "?ends ! 0 \<in> set ?ends" "?ends ! 3 \<in> set ?ends" by (rule nth_mem, code_simp)+
  moreover have "me_pod (?ends ! 0) = ''r1-0''" "me_iface (?ends ! 0) = ''eth1''" "target_of (?ends ! 0) 1390 = 1280"
    "me_pod (?ends ! 3) = ''r3-0''" "me_iface (?ends ! 3) = ''eth1''" "target_of (?ends ! 3) 1390 = 1390" by code_simp+
  ultimately show ?thesis using a by (metis (no_types, lifting))
qed

section \<open>A round after a refusal\<close>

lemma fold_effect_other:
  "\<forall>it \<in> set items. \<not> (si_addr it = [] \<and> (pod, si_name it) = x) \<Longrightarrow> fold (effect no pod) items v x = v x"
  by (induction items arbitrary: v) (auto simp: effect_def)

text \<open>An end of a pod that is read at the value it should have is not written.\<close>

definition no_guests :: "(string \<times> mtu_pod) list \<Rightarrow> mtu_end list \<Rightarrow> bool" where
  "no_guests pods ends \<longleftrightarrow> (\<forall>e \<in> set ends. case map_of pods (me_pod e) of None \<Rightarrow> True | Some p \<Rightarrow> \<not> mp_guest p)"

definition read_at :: "(string \<times> (string \<times> int) list) list \<Rightarrow> mtu_end \<Rightarrow> int" where
  "read_at current e = have_mtu (case map_of current (me_pod e) of Some m \<Rightarrow> m | None \<Rightarrow> []) (me_iface e)"

lemma set_pod_mtus_keeps:
  assumes k: "kernel_sets_links env view no" and w: "set_pod_mtus env pods current eff (pod, es) s = (r, t)"
    and g: "\<forall>p. map_of pods pod = Some p \<longrightarrow> \<not> mp_guest p" and c: "list_all (clean_end eff) es"
    and x: "pod = me_pod e \<longrightarrow> (\<forall>e' \<in> set es. me_iface e' = me_iface e \<longrightarrow> e' = e)" and h: "read_at current e = target_of e eff"
  shows "view t (me_pod e, me_iface e) = view s (me_pod e, me_iface e)"
proof -
  let ?have = "case map_of current pod of Some m \<Rightarrow> m | None \<Rightarrow> []"
  let ?items = "pod_items False ?have (removed_addresses env pod) eff es"
  have gf: "(case map_of pods pod of Some p \<Rightarrow> mp_guest p | None \<Rightarrow> False) = False"
    using g by (auto split: option.splits)
  have wi: "write_items env pod es ?have ?items s = (r, t)"
    using w by (simp add: set_pod_mtus_def gf Let_def split: prod.splits)
  have "\<not> (si_addr it = [] \<and> (pod, si_name it) = (me_pod e, me_iface e))" if it: "it \<in> set ?items" for it
  proof
    assume a: "si_addr it = [] \<and> (pod, si_name it) = (me_pod e, me_iface e)"
    then obtain e' where e': "e' \<in> set es" "si_name it = me_iface e'" "have_mtu ?have (me_iface e') \<noteq> target_of e' eff"
      using pod_items_mtu [OF it _ c] by blast
    with a x have "e' = e" by auto
    with e'(3) h a show False by (simp add: read_at_def)
  qed
  then show ?thesis
    unfolding write_items_runs(1) [OF k wi pod_items_clean [OF c]] by (intro fold_effect_other) blast
qed

lemma each_pod_keeps:
  assumes "kernel_sets_links env view no" and "each_pod (set_pod_mtus env pods current eff) pes s = (r, t)"
    and "\<forall>(pod, es) \<in> set pes. (\<forall>p. map_of pods pod = Some p \<longrightarrow> \<not> mp_guest p) \<and> list_all (clean_end eff) es \<and>
      (pod = me_pod e \<longrightarrow> (\<forall>e' \<in> set es. me_iface e' = me_iface e \<longrightarrow> e' = e))"
    and "read_at current e = target_of e eff"
  shows "view t (me_pod e, me_iface e) = view s (me_pod e, me_iface e)"
  using assms(2,3)
proof (induction pes arbitrary: s r)
  case (Cons pe pes)
  obtain pod es where pe: "pe = (pod, es)" by (cases pe)
  obtain r1 s1 where r1: "set_pod_mtus env pods current eff pe s = (r1, s1)" by (meson surj_pair)
  obtain r2 s2 where r2: "each_pod (set_pod_mtus env pods current eff) pes s1 = (r2, s2)" by (meson surj_pair)
  from Cons.prems(1) r1 r2 have t: "t = s2" by auto
  have "view s1 (me_pod e, me_iface e) = view s (me_pod e, me_iface e)"
    by (rule set_pod_mtus_keeps [OF assms(1) r1 [unfolded pe] _ _ _ assms(4)]) (use Cons.prems(2) pe in auto)
  moreover have "view t (me_pod e, me_iface e) = view s1 (me_pod e, me_iface e)"
    by (rule Cons.IH [OF r2 [folded t]]) (use Cons.prems(2) in auto)
  ultimately show ?case by simp
qed simp

lemma round_keeps:
  assumes "kernel_sets_links env view no" and "permutes order" and "set_link_mtus env order pods current ends eff s = (r, t)"
    and "distinct (map (\<lambda>e. (me_pod e, me_iface e)) ends)" and "no_guests pods ends" and "list_all (clean_end eff) ends"
    and "e \<in> set ends" and "read_at current e = target_of e eff"
  shows "view t (me_pod e, me_iface e) = view s (me_pod e, me_iface e)"
proof -
  obtain r0 where r0: "each_pod (set_pod_mtus env pods current eff) (order (ends_by_pod ends)) s = (r0, t)"
    using assms(3) by (auto simp: set_link_mtus_def split: prod.splits)
  have "(\<forall>p. map_of pods pod = Some p \<longrightarrow> \<not> mp_guest p) \<and> list_all (clean_end eff) es \<and>
      (pod = me_pod e \<longrightarrow> (\<forall>e' \<in> set es. me_iface e' = me_iface e \<longrightarrow> e' = e))"
    if pe: "(pod, es) \<in> set (order (ends_by_pod ends))" for pod es
  proof -
    have es: "pod \<in> me_pod ` set ends" "es = filter (\<lambda>e. me_pod e = pod) ends"
      using pe by (simp_all add: permutes_set [OF assms(2)] ends_by_pod_set)
    have "e' = e" if "e' \<in> set ends" "me_pod e' = me_pod e" "me_iface e' = me_iface e" for e'
      using assms(4,7) that by (auto simp: distinct_map inj_on_def)
    with es assms(5,6) show ?thesis by (auto simp: no_guests_def list_all_iff split: option.splits)
  qed
  then show ?thesis by (intro each_pod_keeps [OF assms(1) r0 _ assms(8)]) auto
qed

lemma fold_lowest: "fold (\<lambda>r low. if rf_current r < low then rf_current r else low) rs eff \<le> (eff :: int)"
proof (induction rs arbitrary: eff)
  case (Cons r rs)
  from Cons.IH [of "if rf_current r < eff then rf_current r else eff"] show ?case by (simp split: if_splits)
qed simp




end
