(* ===== verification/Network_Scale.thy ===== *)
theory Network_Scale
  imports Operation_History Topology_Updates Link_Attributes
begin

text \<open>
  Scaling the nodes of a deployed topology: \<open>helpers/network_scale.go\<close>, with the skip entries of
  \<open>helpers/pods.go\<close> and the interface counts of \<open>helpers/iface_counts.go\<close> that a scale-up writes
  before the new pods start. The state is the cluster as these functions see it: the Topology
  resources (\<open>kube\<close>) with their \<open>status.skipped\<close>, the StatefulSets with the resources they refer to,
  the names of the ConfigMaps and Secrets, the data of the interface-count ConfigMap, the operation
  history and the table of link attributes. The API server is one: its faults are those of
  \<open>kube\<close>, whatever resource a call is for.
\<close>

section \<open>The plans of a request\<close>

record scale_plan =
  p_node :: node_spec
  p_current :: int
  p_new :: int

datatype scale_error =
    SMissingName nat
  | SIndexedName nat string
  | SDuplicate string
  | SUnknownNode string
  | SAlsoDeleted string
  | SAlsoAdded string
  | STooFew string
  | STooMany string int
  | SRemoveLinks topo_error
  | SDeleteTopology string
  | SReadSet string
  | SPatchSet string
  | SHistory string history_error
  | SCreateTopology string topo_error
  | SUpdatePeers topo_error

definition scale_direction :: "scale_plan \<Rightarrow> int" where
  "scale_direction p = (if p_new p < p_current p then -1 else if p_new p > p_current p then 1 else 0)"

definition current_replicas :: "node_spec \<Rightarrow> int" where
  "current_replicas n = (if n_replicas n = 0 then 1 else n_replicas n)"

text \<open>The node a name stands for: a later one of the same name replaces an earlier one in the map.\<close>

definition nodes_by_name :: "node_spec list \<Rightarrow> string \<rightharpoonup> node_spec" where
  "nodes_by_name nodes = map_of (rev (map (\<lambda>n. (n_name n, n)) nodes))"

fun scale_plans_from ::
  "node_spec list \<Rightarrow> string list \<Rightarrow> string list \<Rightarrow> string list \<Rightarrow> nat \<Rightarrow> scale_spec list \<Rightarrow> scale_error + scale_plan list" where
  "scale_plans_from nodes adds dels seen i [] = Inr []"
| "scale_plans_from nodes adds dels seen i (e # es) =
     (let name = trim_space (s_name e) in
      if name = [] then Inl (SMissingName i)
      else if split_indexed_pod_name name \<noteq> None then Inl (SIndexedName i name)
      else if name \<in> set seen then Inl (SDuplicate name)
      else case nodes_by_name nodes name of
        None \<Rightarrow> Inl (SUnknownNode name)
      | Some n \<Rightarrow>
          if name \<in> set dels then Inl (SAlsoDeleted name)
          else if name \<in> set adds then Inl (SAlsoAdded name)
          else if s_replicas e < 1 then Inl (STooFew name)
          else if s_replicas e > max_replicas then Inl (STooMany name (s_replicas e))
          else bindR (scale_plans_from nodes adds dels (name # seen) (Suc i) es) (\<lambda>ps.
            Inr (if s_replicas e = current_replicas n then ps
                 else \<lparr>p_node = n, p_current = current_replicas n, p_new = s_replicas e\<rparr> # ps)))"

definition build_scale_plans ::
  "scale_spec list \<Rightarrow> node_spec list \<Rightarrow> string list \<Rightarrow> string list \<Rightarrow> scale_error + scale_plan list" where
  "build_scale_plans scale nodes adds dels = scale_plans_from nodes adds dels [] 0 scale"

definition split_scale_plans :: "scale_plan list \<Rightarrow> scale_plan list \<times> scale_plan list" where
  "split_scale_plans plans =
     (filter (\<lambda>p. scale_direction p = -1) plans, filter (\<lambda>p. scale_direction p = 1) plans)"

definition apply_effective_replicas :: "node_spec list \<Rightarrow> scale_plan list \<Rightarrow> node_spec list" where
  "apply_effective_replicas nodes plans =
     (if plans = [] then nodes
      else map (\<lambda>n. case map_of (rev (map (\<lambda>p. (n_name (p_node p), p_new p)) plans)) (n_name n) of
                  Some r \<Rightarrow> n\<lparr>n_replicas := r\<rparr> | None \<Rightarrow> n) nodes)"

section \<open>The cluster\<close>

text \<open>An entry of \<open>status.skipped\<close>: an object with a link id and a pod name, or something else.\<close>

datatype skip_entry = Skip "int option" "string option" | SkipJunk

text \<open>A StatefulSet: its replicas and the names its containers and volumes refer to, empty ones included.\<close>

record stateful_set =
  ss_replicas :: int
  ss_env_maps :: "string list"
  ss_maps :: "string list"
  ss_secrets :: "string list"

record cluster =
  cl_kube :: kube
  cl_skipped :: "(string \<times> skip_entry list) list"
  cl_sets :: "(string \<times> stateful_set) list"
  cl_maps :: "string list"
  cl_secrets :: "string list"
  cl_counts :: "(string \<times> string) list option"
  cl_history :: history
  cl_attrs :: "link_row store"

definition on_kube :: "(kube, 'f, 'a) op \<Rightarrow> (cluster, 'f, 'a) op" where
  "on_kube m = (\<lambda>c. case m (cl_kube c) of (r, k) \<Rightarrow> (r, c\<lparr>cl_kube := k\<rparr>))"

definition on_history :: "(history, 'f, 'a) op \<Rightarrow> (cluster, 'f, 'a) op" where
  "on_history m = (\<lambda>c. case m (cl_history c) of (r, h) \<Rightarrow> (r, c\<lparr>cl_history := h\<rparr>))"

text \<open>A call on a resource other than a Topology: it may fail, and acts on the cluster.\<close>

definition api_call :: "(cluster, kube_error, 'a) op \<Rightarrow> (cluster, kube_error, 'a) op" where
  "api_call m = (\<lambda>c. let (bad, k) = kube_fault (cl_kube c) in
     if bad then (Inl KFault, c\<lparr>cl_kube := k\<rparr>) else m (c\<lparr>cl_kube := k\<rparr>))"

text \<open>Deleting a Topology takes its status with it; one that is not there is no error.\<close>

definition delete_topology :: "string \<Rightarrow> (cluster, scale_error, unit) op" where
  "delete_topology pod = (\<lambda>c. case on_kube (topo_delete pod) c of
      (Inr _, c1) \<Rightarrow> (Inr (), c1\<lparr>cl_skipped := AList.delete pod (cl_skipped c1)\<rparr>)
    | (Inl KNotFound, c1) \<Rightarrow> (Inr (), c1)
    | (Inl _, c1) \<Rightarrow> (Inl (SDeleteTopology pod), c1))"

definition get_set :: "string \<Rightarrow> (cluster, kube_error, stateful_set) op" where
  "get_set name = api_call (\<lambda>c. case map_of (cl_sets c) name of None \<Rightarrow> (Inl KNotFound, c) | Some x \<Rightarrow> (Inr x, c))"

definition update_set :: "string \<Rightarrow> stateful_set \<Rightarrow> (cluster, kube_error, unit) op" where
  "update_set name x = api_call (\<lambda>c.
     if map_of (cl_sets c) name = None then (Inl KNotFound, c)
     else (Inr (), c\<lparr>cl_sets := AList.update name x (cl_sets c)\<rparr>))"

text \<open>The target is stored in 32 bits.\<close>

definition patch_stateful_set_replicas :: "string \<Rightarrow> int \<Rightarrow> (cluster, scale_error, unit) op" where
  "patch_stateful_set_replicas name r =
     op_bind (op_map_err (\<lambda>_. SReadSet name) (get_set name)) (\<lambda>x.
       op_map_err (\<lambda>_. SPatchSet name) (update_set name (x\<lparr>ss_replicas := signed_take_bit 31 r\<rparr>)))"

section \<open>Scale down\<close>

text \<open>The pods of a node with an index in an interval.\<close>

definition pods_between :: "node_spec \<Rightarrow> int \<Rightarrow> int \<Rightarrow> string list" where
  "pods_between n lo hi = map (\<lambda>i. n_name n @ ''-'' @ int_str i) [lo..hi - 1]"

definition orphans_of :: "scale_plan \<Rightarrow> string list" where
  "orphans_of p = pods_between (p_node p) (p_new p) (p_current p)"

definition scale_down_one ::
  "(string list \<Rightarrow> string list) \<Rightarrow> string \<Rightarrow> scale_plan \<Rightarrow> (cluster, scale_error, string list) op" where
  "scale_down_one order ns p =
     (let gone = orphans_of p in
      op_bind (op_map_err SRemoveLinks (on_kube (remove_links_referencing_deleted_pods gone))) (\<lambda>touched.
      op_bind (op_each delete_topology (order gone)) (\<lambda>_.
      op_bind (patch_stateful_set_replicas (n_name (p_node p)) (p_new p)) (\<lambda>_.
      op_bind (op_each (\<lambda>pod. op_map_err (SHistory pod) (on_history (delete_driver_operation_history_for_pod ns pod))) (order gone)) (\<lambda>_.
      op_ret (filter (\<lambda>q. q \<notin> set gone) touched))))))"

fun scale_downs_from ::
  "(string list \<Rightarrow> string list) \<Rightarrow> string \<Rightarrow> string list \<Rightarrow> string list \<Rightarrow> scale_plan list \<Rightarrow>
   (cluster, scale_error, string list \<times> string list) op" where
  "scale_downs_from order ns touched gone [] = op_ret (sort_strings touched, sort_strings gone)"
| "scale_downs_from order ns touched gone (p # ps) =
     op_bind (scale_down_one order ns p) (\<lambda>t.
       scale_downs_from order ns (fold add_new t touched) (fold add_new (orphans_of p) gone) ps)"

definition apply_scale_downs ::
  "(string list \<Rightarrow> string list) \<Rightarrow> string \<Rightarrow> scale_plan list \<Rightarrow> (cluster, scale_error, string list \<times> string list) op" where
  "apply_scale_downs order ns plans = (if plans = [] then op_ret ([], []) else scale_downs_from order ns [] [] plans)"

section \<open>What a new pod needs before it starts\<close>

definition skips_of :: "cluster \<Rightarrow> string \<Rightarrow> skip_entry list" where
  "skips_of c pod = (case map_of (cl_skipped c) pod of None \<Rightarrow> [] | Some es \<Rightarrow> es)"

text \<open>The entry is there already; one without a link id counts as one for link 0.\<close>

definition skip_present :: "int \<Rightarrow> string \<Rightarrow> skip_entry \<Rightarrow> bool" where
  "skip_present uid pod e = (case e of SkipJunk \<Rightarrow> False
     | Skip i p \<Rightarrow> (case i of None \<Rightarrow> 0 | Some u \<Rightarrow> u) = uid \<and> p = Some pod)"

definition update_status :: "string \<Rightarrow> skip_entry list \<Rightarrow> (cluster, kube_error, unit) op" where
  "update_status pod es = api_call (\<lambda>c.
     if map_of (kb_topos (cl_kube c)) pod = None then (Inl KNotFound, c)
     else (Inr (), c\<lparr>cl_skipped := AList.update pod es (cl_skipped c)\<rparr>))"

definition add_topology_skip_entry :: "string \<Rightarrow> int \<Rightarrow> string \<Rightarrow> (cluster, kube_error, unit) op" where
  "add_topology_skip_entry pod uid for_pod =
     op_bind (on_kube (topo_get pod)) (\<lambda>_ c.
       if list_ex (skip_present uid for_pod) (skips_of c pod) then (Inr (), c)
       else update_status pod (skips_of c pod @ [Skip (Some uid) (Some for_pod)]) c)"

definition non_creator_links :: "skip_entry list \<Rightarrow> int list" where
  "non_creator_links es = concat (map (\<lambda>e. case e of Skip (Some u) _ \<Rightarrow> [u] | _ \<Rightarrow> []) es)"

text \<open>A peer that cannot be updated is logged, and the next one is tried.\<close>

definition best_effort :: "(cluster, 'f, unit) op \<Rightarrow> (cluster, 'g, unit) op" where
  "best_effort m = (\<lambda>c. (Inr (), snd (m c)))"

definition inject_skip_for_link :: "string \<Rightarrow> int list \<Rightarrow> crd_link \<Rightarrow> (cluster, kube_error, unit) op" where
  "inject_skip_for_link pod others c =
     (if c_peer_pod c = [] \<or> c_peer_pod c = crd_external_peer_pod then op_ret ()
      else case c_uid c of
        None \<Rightarrow> op_ret ()
      | Some uid \<Rightarrow>
          if uid \<in> set others then op_ret ()
          else best_effort (add_topology_skip_entry (c_peer_pod c) uid pod))"

definition inject_peer_skip_entries :: "string \<Rightarrow> (cluster, kube_error, unit) op" where
  "inject_peer_skip_entries pod =
     op_bind (on_kube (topo_get pod)) (\<lambda>t c.
       op_each (inject_skip_for_link pod (non_creator_links (skips_of c pod))) (links_of t) c)"

text \<open>\<open>UpdateIfaceCountsConfigMap\<close>: the links of every pod of a QEMU node.\<close>

definition qemu_pod :: "node_spec list \<Rightarrow> string \<Rightarrow> bool" where
  "qemu_pod nodes pod =
     (let base = (case split_indexed_pod_name pod of Some (b, _) \<Rightarrow> b | None \<Rightarrow> pod) in
      case nodes_by_name nodes base of Some n \<Rightarrow> n_qemu n | None \<Rightarrow> False)"

definition iface_counts :: "node_spec list \<Rightarrow> (string \<times> topology) list \<Rightarrow> (string \<times> string) list" where
  "iface_counts nodes items =
     map (\<lambda>(pod, t). (pod, nat_str (length (items_of t)))) (filter (\<lambda>(pod, _). qemu_pod nodes pod) items)"

definition get_counts :: "(cluster, kube_error, (string \<times> string) list) op" where
  "get_counts = api_call (\<lambda>c. case cl_counts c of None \<Rightarrow> (Inl KNotFound, c) | Some d \<Rightarrow> (Inr d, c))"

definition create_counts :: "(string \<times> string) list \<Rightarrow> (cluster, kube_error, unit) op" where
  "create_counts d = api_call (\<lambda>c. if cl_counts c \<noteq> None then (Inl KExists, c) else (Inr (), c\<lparr>cl_counts := Some d\<rparr>))"

definition update_counts :: "(string \<times> string) list \<Rightarrow> (cluster, kube_error, unit) op" where
  "update_counts d = api_call (\<lambda>c. if cl_counts c = None then (Inl KNotFound, c) else (Inr (), c\<lparr>cl_counts := Some d\<rparr>))"

definition update_iface_counts :: "node_spec list \<Rightarrow> (cluster, kube_error, unit) op" where
  "update_iface_counts nodes =
     op_bind (on_kube topo_list) (\<lambda>items c.
       let data = iface_counts nodes items in
       case get_counts c of
         (Inl KNotFound, c1) \<Rightarrow> create_counts data c1
       | (Inl e, c1) \<Rightarrow> (Inl e, c1)
       | (Inr _, c1) \<Rightarrow> update_counts data c1)"

definition delete_iface_counts :: "(cluster, kube_error, unit) op" where
  "delete_iface_counts = (\<lambda>c.
     case api_call (\<lambda>c. if cl_counts c = None then (Inl KNotFound, c) else (Inr (), c\<lparr>cl_counts := None\<rparr>)) c of
       (Inl KNotFound, c1) \<Rightarrow> (Inr (), c1) | r \<Rightarrow> r)"

section \<open>Scale up\<close>

definition new_pods_of :: "scale_plan \<Rightarrow> string list" where
  "new_pods_of p = pods_between (p_node p) (p_current p) (p_new p)"

definition involves :: "node_spec list \<Rightarrow> string list \<Rightarrow> link_spec \<Rightarrow> bool" where
  "involves nodes pods l \<longleftrightarrow>
     resolve_pod_name (l_node l) nodes \<in> set pods \<or> resolve_pod_name (l_peer l) nodes \<in> set pods"

text \<open>
  \<open>rnd pod\<close> draws the ids of the links without one for the Topology of a pod; under the name of
  the node it draws those of the update of the peers.
\<close>

definition create_topology_for_new_pod ::
  "(string \<Rightarrow> nat \<Rightarrow> int) \<Rightarrow> link_spec list \<Rightarrow> node_spec list \<Rightarrow> string \<Rightarrow> (kube, topo_error, unit) op" where
  "create_topology_for_new_pod rnd links nodes pod =
     (let ls = sanitize_links_for_qemu links nodes in
      create_topology_for_pod nodes ls (resolve_link_uids (rnd pod) ls) pod)"

type_synonym entry_order = "(string \<times> crd_link list) list \<Rightarrow> (string \<times> crd_link list) list"

definition scale_up_one ::
  "entry_order \<Rightarrow> (string \<Rightarrow> nat \<Rightarrow> int) \<Rightarrow> link_spec list \<Rightarrow> node_spec list \<Rightarrow> scale_plan \<Rightarrow>
   (cluster, scale_error, string list) op" where
  "scale_up_one order rnd links nodes p =
     (let fresh = new_pods_of p; relevant = filter (involves nodes fresh) links in
      op_bind (op_each (\<lambda>pod. op_map_err (SCreateTopology pod)
                  (on_kube (create_topology_for_new_pod rnd relevant nodes pod))) fresh) (\<lambda>_.
      op_bind (if relevant = [] then op_ret []
               else op_map_err SUpdatePeers
                      (on_kube (upsert_append_links order (rnd (n_name (p_node p))) relevant nodes))) (\<lambda>touched.
      op_bind (op_each (\<lambda>pod. best_effort (inject_peer_skip_entries pod)) fresh) (\<lambda>_.
      op_bind (best_effort (update_iface_counts nodes)) (\<lambda>_.
      op_bind (patch_stateful_set_replicas (n_name (p_node p)) (p_new p)) (\<lambda>_.
      op_ret (filter (\<lambda>q. q \<notin> set fresh) touched)))))))"

definition consumed_of :: "node_spec list \<Rightarrow> link_spec list \<Rightarrow> scale_plan \<Rightarrow> int list" where
  "consumed_of nodes links p =
     concat (map (\<lambda>l. case l_uid l of Some u \<Rightarrow> [u] | None \<Rightarrow> []) (filter (involves nodes (new_pods_of p)) links))"

fun scale_ups_from ::
  "entry_order \<Rightarrow> (string \<Rightarrow> nat \<Rightarrow> int) \<Rightarrow> link_spec list \<Rightarrow> node_spec list \<Rightarrow>
   string list \<Rightarrow> string list \<Rightarrow> int list \<Rightarrow> scale_plan list \<Rightarrow>
   (cluster, scale_error, string list \<times> string list \<times> int list) op" where
  "scale_ups_from order rnd links nodes created touched consumed [] =
     op_ret (sort_strings created, sort_strings touched, consumed)"
| "scale_ups_from order rnd links nodes created touched consumed (p # ps) =
     op_bind (scale_up_one order rnd links nodes p) (\<lambda>t.
       scale_ups_from order rnd links nodes (created @ new_pods_of p) (fold add_new t touched)
         (fold add_new (consumed_of nodes links p) consumed) ps)"

definition apply_scale_ups ::
  "entry_order \<Rightarrow> (string \<Rightarrow> nat \<Rightarrow> int) \<Rightarrow> scale_plan list \<Rightarrow> link_spec list \<Rightarrow> node_spec list \<Rightarrow>
   (cluster, scale_error, string list \<times> string list \<times> int list) op" where
  "apply_scale_ups order rnd plans links nodes =
     (if plans = [] then op_ret ([], [], []) else scale_ups_from order rnd links nodes [] [] [] plans)"

section \<open>What the operations leave\<close>

lemma on_kube_Inr: "on_kube m c = (Inr a, c') \<longleftrightarrow> (\<exists>k. m (cl_kube c) = (Inr a, k) \<and> c' = c\<lparr>cl_kube := k\<rparr>)"
  by (auto simp: on_kube_def split: prod.splits)

lemma on_history_Inr: "on_history m c = (Inr a, c') \<longleftrightarrow> (\<exists>h. m (cl_history c) = (Inr a, h) \<and> c' = c\<lparr>cl_history := h\<rparr>)"
  by (auto simp: on_history_def split: prod.splits)

lemma api_call_Inr:
  "api_call m c = (Inr a, c') \<Longrightarrow> \<exists>k. kb_topos k = kb_topos (cl_kube c) \<and> m (c\<lparr>cl_kube := k\<rparr>) = (Inr a, c')"
  by (auto simp: api_call_def Let_def split: prod.splits if_splits dest!: kube_faultD)

abbreviation topos :: "cluster \<Rightarrow> string \<rightharpoonup> topology" where
  "topos c \<equiv> map_of (kb_topos (cl_kube c))"

abbreviation ops_of :: "cluster \<Rightarrow> operation list" where
  "ops_of c \<equiv> st_rows (hs_store (cl_history c))"

abbreviation cluster_id :: "cluster \<Rightarrow> string option" where
  "cluster_id c \<equiv> st_cluster (hs_store (cl_history c))"

text \<open>No Topology is listed twice.\<close>

definition one_listing :: "cluster \<Rightarrow> bool" where
  "one_listing c \<longleftrightarrow> distinct (map fst (kb_topos (cl_kube c)))"

lemma delete_topology_leaves:
  assumes "delete_topology pod c = (Inr u, c')" and "one_listing c"
  shows "topos c' = (topos c)(pod := None) \<and> one_listing c' \<and> cl_sets c' = cl_sets c \<and> cl_history c' = cl_history c"
proof (cases "topo_delete pod (cl_kube c)")
  case (Pair r k)
  then have d: "on_kube (topo_delete pod) c = (r, c\<lparr>cl_kube := k\<rparr>)" by (simp add: on_kube_def)
  have "(r = Inl KNotFound \<and> kb_topos k = kb_topos (cl_kube c) \<and> topos c pod = None) \<or>
      (\<exists>u. r = Inr u \<and> kb_topos k = AList.delete pod (kb_topos (cl_kube c)))"
    using assms(1) d Pair
    by (auto simp: delete_topology_def topo_delete_def Let_def split: sum.splits kube_error.splits prod.splits if_splits
        dest!: kube_faultD)
  then show ?thesis
  proof
    assume n: "r = Inl KNotFound \<and> kb_topos k = kb_topos (cl_kube c) \<and> topos c pod = None"
    with assms(1) d have "c' = c\<lparr>cl_kube := k\<rparr>" by (simp add: delete_topology_def)
    with n assms(2) show ?thesis by (auto simp: one_listing_def fun_upd_idem)
  next
    assume n: "\<exists>u. r = Inr u \<and> kb_topos k = AList.delete pod (kb_topos (cl_kube c))"
    with assms(1) d have "c' = c\<lparr>cl_kube := k, cl_skipped := AList.delete pod (cl_skipped c)\<rparr>"
      by (auto simp: delete_topology_def)
    with n assms(2) show ?thesis by (simp add: one_listing_def delete_conv' distinct_delete)
  qed
qed

lemma delete_topologies_leave:
  assumes "op_each delete_topology pods c = (Inr u, c')" and "one_listing c"
  shows "(\<forall>q. topos c' q = (if q \<in> set pods then None else topos c q)) \<and> one_listing c' \<and>
    cl_sets c' = cl_sets c \<and> cl_history c' = cl_history c"
  using assms
proof (induction pods arbitrary: c)
  case (Cons p pods)
  then obtain u' c1 where c1: "delete_topology p c = (Inr u', c1)" "op_each delete_topology pods c1 = (Inr u, c')"
    by (auto simp: op_bind_Inr)
  from delete_topology_leaves [OF c1(1) Cons.prems(2)]
  have l: "topos c1 = (topos c)(p := None)" "one_listing c1" "cl_sets c1 = cl_sets c" "cl_history c1 = cl_history c" by auto
  with Cons.IH [OF c1(2) l(2)] show ?case by auto
qed simp

definition replicas_of :: "cluster \<Rightarrow> string \<rightharpoonup> int" where
  "replicas_of c n = map_option ss_replicas (map_of (cl_sets c) n)"

lemma patch_leaves:
  assumes "patch_stateful_set_replicas name r c = (Inr u, c')"
  shows "kb_topos (cl_kube c') = kb_topos (cl_kube c) \<and> replicas_of c' = (replicas_of c)(name \<mapsto> signed_take_bit 31 r) \<and>
    cl_history c' = cl_history c \<and> cl_skipped c' = cl_skipped c"
proof -
  obtain x c1 where g: "get_set name c = (Inr x, c1)"
    and p: "update_set name (x\<lparr>ss_replicas := signed_take_bit 31 r\<rparr>) c1 = (Inr u, c')"
    using assms by (auto simp: patch_stateful_set_replicas_def op_bind_Inr op_map_err_Inr)
  obtain k where k: "kb_topos k = kb_topos (cl_kube c)" "c1 = c\<lparr>cl_kube := k\<rparr>"
    using api_call_Inr [OF g [unfolded get_set_def]] by (auto split: option.splits)
  obtain k' where k': "kb_topos k' = kb_topos (cl_kube c1)"
    "c' = c1\<lparr>cl_kube := k', cl_sets := AList.update name (x\<lparr>ss_replicas := signed_take_bit 31 r\<rparr>) (cl_sets c1)\<rparr>"
    using api_call_Inr [OF p [unfolded update_set_def]] by (auto split: if_splits)
  show ?thesis using k k' by (auto simp: update_conv' replicas_of_def fun_eq_iff)
qed

lemma delete_history_leaves:
  assumes "delete_driver_operation_history_for_pod ns pod h = (Inr u, h')"
  shows "st_rows (hs_store h') = filter (\<lambda>r. \<not> (Some (o_cluster r) = st_cluster (hs_store h) \<and> o_ns r = ns \<and> o_pod r = pod))
      (st_rows (hs_store h)) \<and> st_cluster (hs_store h') = st_cluster (hs_store h)"
proof -
  obtain cid where c: "st_cluster (hs_store h) = Some cid"
    and e: "on_table (db_exec ''delete'' (filter (\<lambda>r. \<not> of_pod cid ns pod r))) h = (Inr u, h')"
    using assms by (auto simp: delete_driver_operation_history_for_pod_def delete_where_def op_bind_Inr)
  from table_exec_Inr [OF e] c show ?thesis by (auto simp: of_pod_def same_env_def intro!: filter_cong)
qed

definition history_of :: "string option \<Rightarrow> string \<Rightarrow> string set \<Rightarrow> operation \<Rightarrow> bool" where
  "history_of cid ns pods r \<longleftrightarrow> Some (o_cluster r) = cid \<and> o_ns r = ns \<and> o_pod r \<in> pods"

lemma delete_histories_leave:
  assumes "op_each (\<lambda>pod. op_map_err (SHistory pod) (on_history (delete_driver_operation_history_for_pod ns pod))) pods c = (Inr u, c')"
  shows "ops_of c' = filter (\<lambda>r. \<not> history_of (cluster_id c) ns (set pods) r) (ops_of c) \<and>
    cluster_id c' = cluster_id c \<and> cl_kube c' = cl_kube c \<and> cl_sets c' = cl_sets c"
  using assms
proof (induction pods arbitrary: c)
  case Nil
  then show ?case by (simp add: history_of_def)
next
  case (Cons p pods)
  then obtain u' c1 h where
    h: "delete_driver_operation_history_for_pod ns p (cl_history c) = (Inr u', h)" "c1 = c\<lparr>cl_history := h\<rparr>"
    "op_each (\<lambda>pod. op_map_err (SHistory pod) (on_history (delete_driver_operation_history_for_pod ns pod))) pods c1 = (Inr u, c')"
    by (auto simp: op_bind_Inr op_map_err_Inr on_history_Inr)
  from delete_history_leaves [OF h(1)] h(2)
  have l: "ops_of c1 = filter (\<lambda>r. \<not> (Some (o_cluster r) = cluster_id c \<and> o_ns r = ns \<and> o_pod r = p)) (ops_of c)"
    "cluster_id c1 = cluster_id c" by auto
  from Cons.IH [OF h(3)] l h(2) show ?case by (auto simp: history_of_def intro!: filter_cong)
qed

lemma op_touch_invariant:
  assumes "op_touch f xs s = (Inr rs, t)" and "P s"
    and "\<And>x s r t. x \<in> set xs \<Longrightarrow> P s \<Longrightarrow> f x s = (Inr r, t) \<Longrightarrow> P t"
  shows "P t"
  using assms
proof (induction xs arbitrary: s rs)
  case (Cons x xs)
  then obtain r s1 rs' where s1: "f x s = (Inr r, s1)" "op_touch f xs s1 = (Inr rs', t)" by (auto simp: op_bind_Inr)
  have "P s1" by (rule Cons.prems(3) [of x s r s1]) (use Cons.prems(2) s1(1) in simp_all)
  then show ?case using Cons.IH [OF s1(2)] Cons.prems(3) by (meson list.set_intros(2))
qed simp

lemma remove_deleted_keeps_listing:
  assumes "remove_links_referencing_deleted_pods gone k = (Inr t, k')" and "distinct (map fst (kb_topos k))"
  shows "distinct (map fst (kb_topos k'))"
proof -
  obtain items k1 where l: "topo_list k = (Inr items, k1)" and o: "op_touch (remove_deleted_step gone) items k1 = (Inr t, k')"
    using assms(1) by (auto simp: remove_links_referencing_deleted_pods_def op_bind_Inr op_map_err_Inr)
  from topo_list_Inr [OF l] assms(2) have "distinct (map fst (kb_topos k1))" by simp
  then show ?thesis
    by (rule op_touch_invariant [OF o])
      (auto simp: remove_deleted_step_def Let_def op_bind_Inr op_map_err_Inr distinct_update
        split: if_splits option.splits dest!: topo_update_Inr)
qed

section \<open>Scale down leaves no trace of the orphans\<close>

definition cut_links :: "string set \<Rightarrow> topology \<Rightarrow> crd_link list" where
  "cut_links gone t = filter (\<lambda>x. c_peer_pod x \<notin> gone) (links_of t)"

lemma cut_links_eq: "cut_links gone = (\<lambda>t. filter (\<lambda>x. c_peer_pod x \<notin> gone) (links_of t))"
  by (rule ext) (simp add: cut_links_def)

lemma cut_links_none: "cut_links {} = links_of"
  by (rule ext) (simp add: cut_links_def)

definition refers_to :: "cluster \<Rightarrow> string \<Rightarrow> string set \<Rightarrow> bool" where
  "refers_to c q gone \<longleftrightarrow> (\<exists>x e. topos c q = Some x \<and> e \<in> set (links_of x) \<and> c_peer_pod e \<in> gone)"

text \<open>What a cluster has become once the pods of a set are gone from it.\<close>

definition without_pods :: "string set \<Rightarrow> string \<Rightarrow> cluster \<Rightarrow> cluster \<Rightarrow> bool" where
  "without_pods gone ns c c' \<longleftrightarrow>
     (\<forall>q. map_option links_of (topos c' q) = (if q \<in> gone then None else map_option (cut_links gone) (topos c q))) \<and>
     ops_of c' = filter (\<lambda>r. \<not> history_of (cluster_id c) ns gone r) (ops_of c) \<and> cluster_id c' = cluster_id c"

lemma scale_down_one_leaves:
  assumes "scale_down_one order ns p c = (Inr t, c')" and "one_listing c" and "permutes order"
  shows "without_pods (set (orphans_of p)) ns c c'" and "one_listing c'"
    and "replicas_of c' = (replicas_of c)(n_name (p_node p) \<mapsto> signed_take_bit 31 (p_new p))"
    and "q \<notin> set (orphans_of p) \<Longrightarrow> q \<in> set t \<longleftrightarrow> refers_to c q (set (orphans_of p))"
proof -
  let ?G = "orphans_of p"
  obtain k t0 c2 c3 where
    r: "remove_links_referencing_deleted_pods ?G (cl_kube c) = (Inr t0, k)"
    and d: "op_each delete_topology (order ?G) (c\<lparr>cl_kube := k\<rparr>) = (Inr (), c2)"
    and s: "patch_stateful_set_replicas (n_name (p_node p)) (p_new p) c2 = (Inr (), c3)"
    and h: "op_each (\<lambda>pod. op_map_err (SHistory pod) (on_history (delete_driver_operation_history_for_pod ns pod))) (order ?G) c3 = (Inr (), c')"
    and t: "t = filter (\<lambda>q. q \<notin> set ?G) t0"
    using assms(1) by (auto simp: scale_down_one_def Let_def op_bind_Inr op_map_err_Inr on_kube_Inr)
  have so: "set (order ?G) = set ?G" by (rule permutes_set [OF assms(3)])
  have dk: "distinct (map fst (kb_topos (cl_kube c)))" using assms(2) by (simp add: one_listing_def)
  have lk: "one_listing (c\<lparr>cl_kube := k\<rparr>)" using remove_deleted_keeps_listing [OF r dk] by (simp add: one_listing_def)
  note v = remove_deleted_view [OF r dk]
  note dl = delete_topologies_leave [OF d lk, unfolded so]
  note pl = patch_leaves [OF s]
  note hl = delete_histories_leave [OF h, unfolded so]
  have t': "topos c' q = (if q \<in> set ?G then None else map_of (kb_topos k) q)" for q using dl pl hl by simp
  have "map_option links_of (map_of (kb_topos k) q) = map_option (cut_links (set ?G)) (topos c q)" if "q \<notin> set ?G" for q
    using v [of q] that by (simp add: cut_links_eq)
  with t' have "map_option links_of (topos c' q) = (if q \<in> set ?G then None else map_option (cut_links (set ?G)) (topos c q))" for q
    by simp
  moreover have "cluster_id c3 = cluster_id c" "ops_of c3 = ops_of c" using dl pl by auto
  ultimately show "without_pods (set ?G) ns c c'" using hl by (simp add: without_pods_def)
  show "one_listing c'" using dl pl hl by (simp add: one_listing_def)
  show "replicas_of c' = (replicas_of c)(n_name (p_node p) \<mapsto> signed_take_bit 31 (p_new p))" using dl pl hl by (simp add: replicas_of_def fun_eq_iff)
  show "q \<notin> set ?G \<Longrightarrow> q \<in> set t \<longleftrightarrow> refers_to c q (set ?G)" using v [of q] by (auto simp: t refers_to_def)
qed

lemma without_pods_trans:
  assumes "without_pods a ns c1 c2" and "without_pods b ns c2 c3"
  shows "without_pods (a \<union> b) ns c1 c3"
proof -
  have "map_option links_of (topos c3 q) = (if q \<in> a \<union> b then None else map_option (cut_links (a \<union> b)) (topos c1 q))" for q
  proof -
    have 1: "map_option links_of (topos c2 q) = (if q \<in> a then None else map_option (cut_links a) (topos c1 q))"
      and 2: "map_option links_of (topos c3 q) = (if q \<in> b then None else map_option (cut_links b) (topos c2 q))"
      using assms by (simp_all add: without_pods_def)
    have f: "map_option (cut_links b) x = map_option (filter (\<lambda>x. c_peer_pod x \<notin> b)) (map_option links_of x)" for x
      by (simp add: option.map_comp o_def cut_links_eq)
    have "filter (\<lambda>x. c_peer_pod x \<notin> b) (cut_links a x) = cut_links (a \<union> b) x" for x
      by (auto simp: cut_links_def intro!: filter_cong)
    then show ?thesis by (simp only: 2 f 1) (auto simp: option.map_comp o_def)
  qed
  moreover have "filter (\<lambda>r. \<not> history_of (cluster_id c2) ns b r) (ops_of c2) =
      filter (\<lambda>r. \<not> history_of (cluster_id c1) ns (a \<union> b) r) (ops_of c1)"
    using assms(1) by (auto simp: without_pods_def history_of_def intro!: filter_cong)
  ultimately show ?thesis using assms by (simp add: without_pods_def)
qed

lemma refers_to_after:
  assumes "without_pods a ns c1 c2" and "q \<notin> a"
  shows "refers_to c1 q a \<or> refers_to c2 q b \<longleftrightarrow> refers_to c1 q (a \<union> b)"
proof -
  have "map_option links_of (topos c2 q) = map_option (cut_links a) (topos c1 q)"
    using assms by (simp add: without_pods_def)
  then have "refers_to c2 q b \<longleftrightarrow> (\<exists>x e. topos c1 q = Some x \<and> e \<in> set (cut_links a x) \<and> c_peer_pod e \<in> b)"
    by (cases "topos c1 q"; cases "topos c2 q") (simp_all add: refers_to_def)
  then show ?thesis by (auto simp: refers_to_def cut_links_def)
qed

definition all_orphans :: "scale_plan list \<Rightarrow> string set" where
  "all_orphans plans =
     (\<Union>p \<in> set plans. {n_name (p_node p) @ ''-'' @ int_str i |i. p_new p \<le> i \<and> i < p_current p})"

lemma set_orphans_of: "set (orphans_of p) = {n_name (p_node p) @ ''-'' @ int_str i |i. p_new p \<le> i \<and> i < p_current p}"
  by (auto simp: orphans_of_def pods_between_def)

lemma scale_downs_from_leave:
  assumes "scale_downs_from order ns touched gone plans c = (Inr (ts, os), c')" and "one_listing c" and "permutes order"
  shows "without_pods (all_orphans plans) ns c c' \<and> set os = set gone \<union> all_orphans plans \<and>
    replicas_of c' = fold (\<lambda>p m. m(n_name (p_node p) \<mapsto> signed_take_bit 31 (p_new p))) plans (replicas_of c) \<and>
    (\<forall>q. q \<notin> all_orphans plans \<longrightarrow> (q \<in> set ts \<longleftrightarrow> q \<in> set touched \<or> refers_to c q (all_orphans plans)))"
  using assms(1,2)
proof (induction plans arbitrary: c touched gone)
  case Nil
  then show ?case by (auto simp: all_orphans_def without_pods_def refers_to_def cut_links_none history_of_def)
next
  case (Cons p ps)
  then obtain t c1 where c1: "scale_down_one order ns p c = (Inr t, c1)"
    "scale_downs_from order ns (fold add_new t touched) (fold add_new (orphans_of p) gone) ps c1 = (Inr (ts, os), c')"
    by (auto simp: op_bind_Inr)
  note l = scale_down_one_leaves [OF c1(1) Cons.prems(2) assms(3)]
  note ih = Cons.IH [OF c1(2) l(2)]
  have a: "all_orphans (p # ps) = set (orphans_of p) \<union> all_orphans ps" by (simp add: all_orphans_def set_orphans_of)
  have "without_pods (all_orphans (p # ps)) ns c c'" unfolding a by (rule without_pods_trans [OF l(1)]) (use ih in blast)
  moreover have "q \<in> set ts \<longleftrightarrow> q \<in> set touched \<or> refers_to c q (all_orphans (p # ps))" if "q \<notin> all_orphans (p # ps)" for q
  proof -
    have q: "q \<notin> set (orphans_of p)" "q \<notin> all_orphans ps" using that a by auto
    have "q \<in> set ts \<longleftrightarrow> q \<in> set touched \<or> q \<in> set t \<or> refers_to c1 q (all_orphans ps)" using ih q(2) by auto
    then show ?thesis using l(4) [OF q(1)] refers_to_after [OF l(1) q(1)] unfolding a by blast
  qed
  moreover have "replicas_of c' = fold (\<lambda>p m. m(n_name (p_node p) \<mapsto> signed_take_bit 31 (p_new p))) (p # ps) (replicas_of c)"
    using ih unfolding l(3) fold.simps comp_apply by blast
  moreover have "set os = set gone \<union> all_orphans (p # ps)" using ih unfolding a by auto
  ultimately show ?case by blast
qed

lemma fold_upd_distinct:
  assumes "p \<in> set ps" and "distinct (map f ps)"
  shows "fold (\<lambda>p m. m(f p \<mapsto> g p)) ps m (f p) = Some (g p)"
proof -
  have "x \<notin> f ` set ps \<Longrightarrow> fold (\<lambda>p m. m(f p \<mapsto> g p)) ps m x = m x" for x m ps by (induction ps arbitrary: m) auto
  then show ?thesis using assms by (induction ps arbitrary: m) auto
qed

text \<open>
  C34: a scale-down that succeeds leaves no trace of the pods it removes, whatever order Go iterates
  them in and however many nodes shrink: their Topologies and their operation history are gone, a
  surviving pod keeps exactly its entries towards pods that survive, in their order, other history
  is as it was; the pods reported as removed are those, and a survivor is reported as touched, to be
  restarted, if and only if it lost an entry. The StatefulSet of every node has the replicas of its plan.
\<close>

theorem scale_down_leaves_no_trace:
  assumes "apply_scale_downs order ns plans c = (Inr (touched, gone), c')"
    and "distinct (map fst (kb_topos (cl_kube c)))" and "permutes order"
  shows "set gone = all_orphans plans \<and>
    map_option links_of (topos c' q) =
      (if q \<in> set gone then None else map_option (\<lambda>t. filter (\<lambda>e. c_peer_pod e \<notin> set gone) (links_of t)) (topos c q)) \<and>
    ops_of c' = filter (\<lambda>r. \<not> (Some (o_cluster r) = cluster_id c \<and> o_ns r = ns \<and> o_pod r \<in> set gone)) (ops_of c) \<and>
    (q \<in> set touched - set gone \<longleftrightarrow> q \<notin> set gone \<and>
       (\<exists>t e. topos c q = Some t \<and> e \<in> set (links_of t) \<and> c_peer_pod e \<in> set gone)) \<and>
    (p \<in> set plans \<and> distinct (map (\<lambda>p. n_name (p_node p)) plans) \<and> 1 \<le> p_new p \<and> p_new p \<le> max_replicas \<longrightarrow>
       replicas_of c' (n_name (p_node p)) = Some (p_new p))"
proof (cases "plans = []")
  case True
  with assms(1) show ?thesis by (simp add: apply_scale_downs_def all_orphans_def option.map_ident)
next
  case False
  with assms(1) have ok: "scale_downs_from order ns [] [] plans c = (Inr (touched, gone), c')" by (simp add: apply_scale_downs_def)
  from scale_downs_from_leave [OF ok _ assms(3)] assms(2)
  have l: "without_pods (set gone) ns c c'" "set gone = all_orphans plans"
    "\<forall>q. q \<notin> set gone \<longrightarrow> (q \<in> set touched \<longleftrightarrow> refers_to c q (set gone))"
    by (simp_all add: one_listing_def)
  have r: "replicas_of c' = fold (\<lambda>p m. m(n_name (p_node p) \<mapsto> signed_take_bit 31 (p_new p))) plans (replicas_of c)"
    using scale_downs_from_leave [OF ok _ assms(3)] assms(2) by (simp add: one_listing_def)
  have "replicas_of c' (n_name (p_node p)) = Some (p_new p)"
    if "p \<in> set plans" "distinct (map (\<lambda>p. n_name (p_node p)) plans)" "1 \<le> p_new p" "p_new p \<le> max_replicas"
  proof -
    have "signed_take_bit 31 (p_new p) = p_new p"
      using that(3,4) by (intro signed_take_bit_int_eq_self) (simp_all add: max_replicas_def)
    then show ?thesis unfolding r fold_upd_distinct [OF that(1,2)] by simp
  qed
  with l(1,2) show ?thesis unfolding without_pods_def cut_links_eq history_of_def using l(3) [unfolded refers_to_def] by blast
qed

text \<open>A router and two hosts, each host linked to the router; history of the second host.\<close>

definition star_nodes :: "node_spec list" where
  "star_nodes = [basic_node ''h'' ''host'' 2, basic_node ''r'' ''router'' 1]"

definition star_links :: "link_spec list" where
  "star_links = [(basic_link ''h-0'' ''eth1'' ''r'' ''eth1'')\<lparr>l_uid := Some 7\<rparr>,
                 (basic_link ''h-1'' ''eth1'' ''r'' ''eth2'')\<lparr>l_uid := Some 8\<rparr>]"

definition star_history :: history where
  "star_history = \<lparr>hs_store = \<lparr>st_open = True, st_cluster = Some ''c1'', st_faults = [], st_rows =
     [\<lparr>o_id = 1, o_cluster = ''c1'', o_ns = ''lab'', o_pod = ''h-1'', o_driver = ''d'', o_type = ''set_ip'', o_action = None, o_at = []\<rparr>,
      \<lparr>o_id = 2, o_cluster = ''c1'', o_ns = ''lab'', o_pod = ''h-0'', o_driver = ''d'', o_type = ''set_ip'', o_action = None, o_at = []\<rparr>]\<rparr>,
     hs_next = 3\<rparr>"

definition plain_set :: "int \<Rightarrow> stateful_set" where
  "plain_set r = \<lparr>ss_replicas = r, ss_env_maps = [], ss_maps = [], ss_secrets = []\<rparr>"

definition star_cluster :: cluster where
  "star_cluster = \<lparr>cl_kube = snd (create_topologies (\<lambda>_. 0) star_nodes star_links \<lparr>kb_topos = [], kb_faults = []\<rparr>),
     cl_skipped = [], cl_sets = [(''h'', plain_set 2), (''r'', plain_set 1)], cl_maps = [], cl_secrets = [],
     cl_counts = None, cl_history = star_history, cl_attrs = empty_table\<rparr>"

definition shrink_h :: scale_plan where
  "shrink_h = \<lparr>p_node = basic_node ''h'' ''host'' 2, p_current = 2, p_new = 1\<rparr>"

theorem scale_down_leaves_no_trace_witness:
  "let c' = snd (apply_scale_downs rev ''lab'' [shrink_h] star_cluster) in
     map_option links_of (topos c' ''h-1'') = None \<and> map o_id (ops_of c') = [2] \<and>
     map_option (\<lambda>t. map c_peer_pod (links_of t)) (topos c' ''r-0'') = Some [''h-0'']"
proof -
  let ?r = "apply_scale_downs rev ''lab'' [shrink_h] star_cluster"
  have r: "?r = (Inr ([''r-0''], [''h-1'']), snd ?r)" by code_simp
  have d: "distinct (map fst (kb_topos (cl_kube star_cluster)))" and p: "permutes rev" by (code_simp, simp add: permutes_def)
  note s = scale_down_leaves_no_trace [OF r d p]
  have "map o_id (ops_of (snd ?r)) = map o_id (filter (\<lambda>r. \<not> (Some (o_cluster r) = cluster_id star_cluster \<and> o_ns r = ''lab'' \<and> o_pod r \<in> set [''h-1''])) (ops_of star_cluster))"
    using s by (simp only:)
  also have "\<dots> = [2]" by code_simp
  finally have h: "map o_id (ops_of (snd ?r)) = [2]" .
  have "map_option links_of (topos (snd ?r) ''r-0'') =
      (if ''r-0'' \<in> set [''h-1''] then None
       else map_option (\<lambda>t. filter (\<lambda>e. c_peer_pod e \<notin> set [''h-1'']) (links_of t)) (topos star_cluster ''r-0''))"
    using s [of "''r-0''"] by blast
  also have "\<dots> = map_option (\<lambda>t. filter (\<lambda>e. c_peer_pod e \<notin> set [''h-1'']) (links_of t)) (topos star_cluster ''r-0'')"
    by (rule if_not_P) simp
  finally have "map_option links_of (topos (snd ?r) ''r-0'') = \<dots>" .
  then have "map_option (map c_peer_pod) (map_option links_of (topos (snd ?r) ''r-0'')) =
      map_option (map c_peer_pod) (map_option (\<lambda>t. filter (\<lambda>e. c_peer_pod e \<notin> set [''h-1'']) (links_of t)) (topos star_cluster ''r-0''))"
    by (rule arg_cong)
  also have "\<dots> = Some [''h-0'']" by code_simp
  finally have "map_option (\<lambda>t. map c_peer_pod (links_of t)) (topos (snd ?r) ''r-0'') = Some [''h-0'']"
    by (simp add: option.map_comp o_def)
  moreover have "map_option links_of (topos (snd ?r) ''h-1'') = None" using s [of "''h-1''"] by simp
  ultimately show ?thesis using h by (simp add: Let_def)
qed

section \<open>The plans carry out the request\<close>

definition asked_name :: "scale_spec \<Rightarrow> string" where
  "asked_name e = trim_space (s_name e)"

definition plan_for :: "node_spec list \<Rightarrow> scale_spec \<Rightarrow> scale_plan" where
  "plan_for nodes e =
     (let n = the (nodes_by_name nodes (asked_name e)) in
      \<lparr>p_node = n, p_current = current_replicas n, p_new = s_replicas e\<rparr>)"

definition entry_ok :: "node_spec list \<Rightarrow> string list \<Rightarrow> string list \<Rightarrow> scale_spec \<Rightarrow> bool" where
  "entry_ok nodes adds dels e \<longleftrightarrow>
     nodes_by_name nodes (asked_name e) \<noteq> None \<and> split_indexed_pod_name (asked_name e) = None \<and> asked_name e \<noteq> [] \<and>
     asked_name e \<notin> set dels \<union> set adds \<and> 1 \<le> s_replicas e \<and> s_replicas e \<le> max_replicas"

lemma scale_plans_from_exact:
  "scale_plans_from nodes adds dels seen i es = Inr ps \<Longrightarrow>
     (\<forall>e \<in> set es. entry_ok nodes adds dels e) \<and> distinct (map asked_name es) \<and> set (map asked_name es) \<inter> set seen = {} \<and>
     ps = filter (\<lambda>p. p_new p \<noteq> p_current p) (map (plan_for nodes) es)"
proof (induction es arbitrary: seen i ps)
  case (Cons e es)
  have ok: "entry_ok nodes adds dels e" "asked_name e \<notin> set seen"
    using Cons.prems
    by (cases "split_indexed_pod_name (trim_space (s_name e))";
        auto simp: Let_def asked_name_def entry_ok_def split: if_splits option.splits)+
  then obtain n where n: "nodes_by_name nodes (asked_name e) = Some n" by (auto simp: entry_ok_def)
  have "bindR (scale_plans_from nodes adds dels (asked_name e # seen) (Suc i) es) (\<lambda>ps.
      Inr (if s_replicas e = current_replicas n then ps
           else \<lparr>p_node = n, p_current = current_replicas n, p_new = s_replicas e\<rparr> # ps)) = Inr ps"
    using Cons.prems ok n by (simp add: Let_def asked_name_def entry_ok_def)
  then obtain qs where r: "scale_plans_from nodes adds dels (asked_name e # seen) (Suc i) es = Inr qs"
    and ps: "ps = (if s_replicas e = current_replicas n then qs
                   else \<lparr>p_node = n, p_current = current_replicas n, p_new = s_replicas e\<rparr> # qs)"
    unfolding bindR_Inr by auto
  from Cons.IH [OF r] ok n ps show ?case by (auto simp: plan_for_def)
qed simp

lemma nodes_by_name_SomeD: "nodes_by_name nodes s = Some n \<Longrightarrow> n \<in> set nodes \<and> n_name n = s"
  by (auto simp: nodes_by_name_def dest!: map_of_SomeD)

lemma map_of_rev_distinct: "distinct (map fst xs) \<Longrightarrow> map_of (rev xs) = map_of xs"
  by (rule map_of_eqI) (auto simp: rev_map [symmetric])

text \<open>
  C33: a scale section that is accepted asks for distinct nodes of the namespace, each to between 1
  and 128 replicas, none of them added or deleted by the same request. There is one plan for each
  entry that changes the number, in their order, shrinking or growing it, and with the plans applied
  every node of the request has the replicas asked for and every other node is as it was.
\<close>

theorem scale_plans_exact:
  assumes "build_scale_plans scale nodes adds dels = Inr plans" and "distinct (node_names nodes)"
  shows "distinct (map (\<lambda>p. n_name (p_node p)) plans) \<and>
    (\<forall>p \<in> set plans. p_node p \<in> set nodes \<and> p_current p = current_replicas (p_node p) \<and>
       1 \<le> p_new p \<and> p_new p \<le> 128 \<and> n_name (p_node p) \<notin> set adds \<union> set dels) \<and>
    set plans = set (fst (split_scale_plans plans)) \<union> set (snd (split_scale_plans plans)) \<and>
    map n_name (apply_effective_replicas nodes plans) = map n_name nodes \<and>
    (\<forall>e \<in> set scale. \<exists>n \<in> set (apply_effective_replicas nodes plans).
       n_name n = trim_space (s_name e) \<and> current_replicas n = s_replicas e) \<and>
    (\<forall>n \<in> set nodes. n_name n \<notin> trim_space ` s_name ` set scale \<longrightarrow> n \<in> set (apply_effective_replicas nodes plans))"
proof -
  have b: "\<forall>e \<in> set scale. entry_ok nodes adds dels e" "distinct (map asked_name scale)"
    "plans = filter (\<lambda>p. p_new p \<noteq> p_current p) (map (plan_for nodes) scale)"
    using scale_plans_from_exact [OF assms(1) [unfolded build_scale_plans_def]] by auto
  let ?k = "\<lambda>p. n_name (p_node p)"
  have key: "?k (plan_for nodes e) = asked_name e \<and> p_node (plan_for nodes e) \<in> set nodes \<and> p_new (plan_for nodes e) = s_replicas e
      \<and> p_current (plan_for nodes e) = current_replicas (p_node (plan_for nodes e))" if "e \<in> set scale" for e
    using b(1) that nodes_by_name_SomeD by (fastforce simp: entry_ok_def plan_for_def Let_def)
  have "map ?k (map (plan_for nodes) scale) = map asked_name scale" using key by simp
  then have d: "distinct (map ?k plans)" using b(2,3) distinct_map_filter by metis
  have pl: "p_node p \<in> set nodes \<and> p_current p = current_replicas (p_node p) \<and>
       1 \<le> p_new p \<and> p_new p \<le> 128 \<and> ?k p \<notin> set adds \<union> set dels" if "p \<in> set plans" for p
    using that b(1,3) key by (auto simp: entry_ok_def max_replicas_def)
  let ?m = "map_of (rev (map (\<lambda>p. (?k p, p_new p)) plans))"
  let ?f = "\<lambda>n. case ?m (n_name n) of Some r \<Rightarrow> n\<lparr>n_replicas := r\<rparr> | None \<Rightarrow> n"
  have ap: "apply_effective_replicas nodes plans = map ?f nodes"
    by (cases "plans = []") (simp_all add: apply_effective_replicas_def)
  have m: "?m = map_of (map (\<lambda>p. (?k p, p_new p)) plans)" by (rule map_of_rev_distinct) (use d in \<open>simp add: o_def\<close>)
  have ms: "?m s = Some r \<longleftrightarrow> (\<exists>p \<in> set plans. ?k p = s \<and> p_new p = r)" for s r
    unfolding m using d by (subst map_of_eq_Some_iff) (auto simp: o_def)
  have A: "\<exists>n \<in> set (map ?f nodes). n_name n = asked_name e \<and> current_replicas n = s_replicas e" if e: "e \<in> set scale" for e
  proof -
    let ?p = "plan_for nodes e" and ?n = "p_node (plan_for nodes e)"
    note k = key [OF e]
    have pos: "1 \<le> s_replicas e" using b(1) e by (simp add: entry_ok_def)
    show ?thesis
    proof (cases "s_replicas e = current_replicas ?n")
      case True
      have "?m (asked_name e) = None"
      proof (rule ccontr)
        assume "?m (asked_name e) \<noteq> None"
        then obtain p where "p \<in> set plans" "?k p = asked_name e" using ms by auto
        then obtain e' where "e' \<in> set scale" "p = plan_for nodes e'" "asked_name e' = asked_name e" "p_new p \<noteq> p_current p"
          using b(3) key by auto
        moreover from this have "e' = e" using b(2) e by (metis distinct_map inj_onD)
        ultimately show False using True k by simp
      qed
      then have "?f ?n = ?n" using k by simp
      moreover have "?f ?n \<in> set (map ?f nodes)" unfolding list.set_map by (rule imageI) (use k in blast)
      ultimately have "?n \<in> set (map ?f nodes)" by simp
      then show ?thesis by (rule bexI [rotated]) (use k True in simp)
    next
      case False
      then have "?p \<in> set plans" using b(3) e k by simp
      then have "?m (asked_name e) = Some (s_replicas e)" using ms k by blast
      then have "?f ?n = ?n\<lparr>n_replicas := s_replicas e\<rparr>" using k by simp
      moreover have "?f ?n \<in> set (map ?f nodes)" unfolding list.set_map by (rule imageI) (use k in blast)
      ultimately have "?n\<lparr>n_replicas := s_replicas e\<rparr> \<in> set (map ?f nodes)" by simp
      then show ?thesis by (rule bexI [rotated]) (use k pos in \<open>simp add: current_replicas_def\<close>)
    qed
  qed
  have B: "n \<in> set (map ?f nodes)" if "n \<in> set nodes" "n_name n \<notin> asked_name ` set scale" for n
  proof -
    have "?m (n_name n) = None"
    proof (rule ccontr)
      assume "?m (n_name n) \<noteq> None"
      then obtain p where "p \<in> set plans" "?k p = n_name n" using ms by auto
      then obtain e where "e \<in> set scale" "asked_name e = n_name n" using b(3) key by auto
      with that(2) show False by (metis imageI)
    qed
    then have "n = ?f n" by simp
    then show ?thesis using that(1) unfolding list.set_map by (rule image_eqI)
  qed
  have C: "map n_name (map ?f nodes) = map n_name nodes" by (auto split: option.splits)
  have D: "set plans = set (fst (split_scale_plans plans)) \<union> set (snd (split_scale_plans plans))"
    using b(3) by (auto simp: split_scale_plans_def scale_direction_def)
  have A': "\<forall>e \<in> set scale. \<exists>n \<in> set (apply_effective_replicas nodes plans).
       n_name n = trim_space (s_name e) \<and> current_replicas n = s_replicas e"
    unfolding ap asked_name_def [symmetric] by (rule ballI, rule A)
  have B': "\<forall>n \<in> set nodes. n_name n \<notin> trim_space ` s_name ` set scale \<longrightarrow> n \<in> set (apply_effective_replicas nodes plans)"
    unfolding ap image_image asked_name_def [symmetric] by (intro ballI impI, rule B)
  have C': "map n_name (apply_effective_replicas nodes plans) = map n_name nodes" unfolding ap by (rule C)
  have P: "\<forall>p \<in> set plans. p_node p \<in> set nodes \<and> p_current p = current_replicas (p_node p) \<and>
       1 \<le> p_new p \<and> p_new p \<le> 128 \<and> ?k p \<notin> set adds \<union> set dels"
    by (rule ballI, rule pl)
  show ?thesis by (rule conjI, rule d, rule conjI, rule P, rule conjI, rule D, rule conjI, rule C', rule conjI, rule A', rule B')
qed

definition lab_nodes :: "node_spec list" where
  "lab_nodes = [basic_node ''host'' ''host'' 3, basic_node ''r'' ''router'' 1, basic_node ''sw'' ''switch'' 0]"

definition lab_scale :: "scale_spec list" where
  "lab_scale = [\<lparr>s_name = '' host'', s_replicas = 1\<rparr>, \<lparr>s_name = ''r'', s_replicas = 2\<rparr>, \<lparr>s_name = ''sw'', s_replicas = 1\<rparr>]"

theorem scale_plans_exact_witness:
  "let plans = projr (build_scale_plans lab_scale lab_nodes [''x''] []) in
     map (\<lambda>p. n_name (p_node p)) plans = [''host'', ''r''] \<and>
     map n_name (apply_effective_replicas lab_nodes plans) = map n_name lab_nodes"
proof -
  let ?p = "projr (build_scale_plans lab_scale lab_nodes [''x''] [])"
  have "build_scale_plans lab_scale lab_nodes [''x''] [] = Inr ?p" "distinct (node_names lab_nodes)" by code_simp+
  from scale_plans_exact [OF this] have "map n_name (apply_effective_replicas lab_nodes ?p) = map n_name lab_nodes" by blast
  moreover have "map (\<lambda>p. n_name (p_node p)) ?p = [''host'', ''r'']" by code_simp
  ultimately show ?thesis by (simp add: Let_def)
qed

section \<open>Two linked nodes in one scale-up\<close>

lemma dom_topo_create: "topo_create p x k = (Inr u, k') \<Longrightarrow> dom (map_of (kb_topos k')) = insert p (dom (map_of (kb_topos k)))"
  by (drule topo_create_Inr) (auto simp: map_of_append dom_map_add)

lemma create_new_pod_dom:
  assumes "create_topology_for_new_pod rnd links nodes pod k = (Inr u, k')"
  shows "pod \<notin> dom (map_of (kb_topos k)) \<and> dom (map_of (kb_topos k')) = insert pod (dom (map_of (kb_topos k)))"
proof -
  obtain x where x: "topo_create pod x k = (Inr u, k')"
    using assms by (auto simp: create_topology_for_new_pod_def create_topology_for_pod_def Let_def op_map_err_Inr)
  from topo_create_Inr [OF x] dom_topo_create [OF x] show ?thesis by (auto simp: dom_map_of_conv_image_fst)
qed

lemma create_new_pods_dom:
  assumes "op_each (\<lambda>pod. op_map_err (SCreateTopology pod) (on_kube (create_topology_for_new_pod rnd links nodes pod))) pods c = (Inr u, c')"
  shows "set pods \<inter> dom (topos c) = {} \<and> dom (topos c') = dom (topos c) \<union> set pods"
  using assms
proof (induction pods arbitrary: c)
  case (Cons p pods)
  then obtain u' k where k: "create_topology_for_new_pod rnd links nodes p (cl_kube c) = (Inr u', k)"
    and r: "op_each (\<lambda>pod. op_map_err (SCreateTopology pod) (on_kube (create_topology_for_new_pod rnd links nodes pod))) pods (c\<lparr>cl_kube := k\<rparr>) = (Inr u, c')"
    by (auto simp: op_bind_Inr op_map_err_Inr on_kube_Inr)
  from create_new_pod_dom [OF k] Cons.IH [OF r] show ?case by auto
qed simp

text \<open>Skip entries and interface counts leave the links alone, whatever happens.\<close>

definition keeps_topos :: "(cluster, 'e, 'a) op \<Rightarrow> bool" where
  "keeps_topos m \<longleftrightarrow> (\<forall>c. kb_topos (cl_kube (snd (m c))) = kb_topos (cl_kube c))"

lemma keeps_toposD: "keeps_topos m \<Longrightarrow> m c = (r, c') \<Longrightarrow> kb_topos (cl_kube c') = kb_topos (cl_kube c)"
  unfolding keeps_topos_def by (metis snd_conv)

lemma keeps_topos_ret [intro]: "keeps_topos (op_ret a)" by (simp add: keeps_topos_def)

lemma keeps_topos_bind [intro]: "keeps_topos m \<Longrightarrow> (\<And>a. keeps_topos (f a)) \<Longrightarrow> keeps_topos (op_bind m f)"
  by (auto simp: keeps_topos_def op_bind_def split: prod.splits sum.splits) (metis snd_conv)+

lemma keeps_topos_best [intro]: "keeps_topos m \<Longrightarrow> keeps_topos (best_effort m)"
  by (simp add: keeps_topos_def best_effort_def)

lemma keeps_topos_each [intro]: "(\<And>x. keeps_topos (f x)) \<Longrightarrow> keeps_topos (op_each f xs)"
  by (induction xs) auto

lemma keeps_topos_get [intro]: "keeps_topos (on_kube (topo_get p))"
  by (auto simp: keeps_topos_def on_kube_def topo_get_def Let_def split: prod.splits option.splits dest!: kube_faultD)

lemma keeps_topos_list [intro]: "keeps_topos (on_kube topo_list)"
  by (auto simp: keeps_topos_def on_kube_def topo_list_def Let_def split: prod.splits dest!: kube_faultD)

lemma keeps_topos_call [intro]: "keeps_topos m \<Longrightarrow> keeps_topos (api_call m)"
  by (auto simp: keeps_topos_def api_call_def Let_def split: prod.splits dest!: kube_faultD)

lemma keeps_topos_add_skip [intro]: "keeps_topos (add_topology_skip_entry pod uid for_pod)"
  unfolding add_topology_skip_entry_def update_status_def
  by (rule keeps_topos_bind [OF keeps_topos_get]) (auto simp: keeps_topos_def api_call_def Let_def split: prod.splits dest!: kube_faultD)

lemma keeps_topos_inject [intro]: "keeps_topos (inject_peer_skip_entries pod)"
proof -
  have "keeps_topos (inject_skip_for_link pod others l)" for others l
    by (auto simp: inject_skip_for_link_def split: option.splits)
  then have "keeps_topos (op_each (inject_skip_for_link pod others) ls)" for others ls by auto
  then have "keeps_topos (\<lambda>c. op_each (inject_skip_for_link pod (non_creator_links (skips_of c pod))) (links_of t) c)" for t
    by (simp add: keeps_topos_def)
  then show ?thesis unfolding inject_peer_skip_entries_def by auto
qed

lemma keeps_topos_counts [intro]: "keeps_topos (update_iface_counts nodes)"
proof -
  have a: "keeps_topos get_counts" "keeps_topos (create_counts d)" "keeps_topos (update_counts d)" for d
    by (auto simp: get_counts_def create_counts_def update_counts_def keeps_topos_def api_call_def Let_def
        split: prod.splits option.splits dest!: kube_faultD)
  have "keeps_topos (\<lambda>c. let data = iface_counts nodes items in
       case get_counts c of (Inl KNotFound, c1) \<Rightarrow> create_counts data c1 | (Inl e, c1) \<Rightarrow> (Inl e, c1)
       | (Inr _, c1) \<Rightarrow> update_counts data c1)" for items
    unfolding keeps_topos_def
  proof
    fix c
    show "kb_topos (cl_kube (snd (let data = iface_counts nodes items in
       case get_counts c of (Inl KNotFound, c1) \<Rightarrow> create_counts data c1 | (Inl e, c1) \<Rightarrow> (Inl e, c1)
       | (Inr _, c1) \<Rightarrow> update_counts data c1))) = kb_topos (cl_kube c)"
      using a(1) a(2,3) [of "iface_counts nodes items"] unfolding keeps_topos_def Let_def
      by (auto split: prod.splits sum.splits kube_error.splits) (metis snd_conv)+
  qed
  then show ?thesis unfolding update_iface_counts_def by auto
qed

lemma wanted_of_link:
  assumes "l \<in> set links" and "(q, u) \<in> set (end_of nodes (l_node l) i @ end_of nodes (l_peer l) j)" and "q \<noteq> external_node_name"
  shows "wanted rnd links nodes q \<noteq> []"
proof -
  obtain n where n: "n < length links" "links ! n = l" using assms(1) by (auto simp: in_set_conv_nth)
  let ?u = "resolve_link_uids rnd links ! n"
  have "length (resolve_link_uids rnd links) = length links" by (simp add: resolve_link_uids_def)
  then have "(l, ?u) \<in> set (zip links (resolve_link_uids rnd links))" using n by (auto simp: set_zip)
  moreover have "\<exists>c. (q, c) \<in> set (link_entries nodes l (Some ?u))"
    using assms(2,3) by (auto simp: link_entries_def end_of_def Let_def split: if_splits)
  ultimately obtain c where "(q, c) \<in> set (request_entries nodes (zip links (resolve_link_uids rnd links)))"
    unfolding request_entries_def set_concat set_map by fastforce
  then show ?thesis unfolding wanted_def by (force simp: filter_empty_conv)
qed

lemma upsert_dom:
  assumes "upsert_append_links order rnd links nodes k = (Inr t, k')" and "permutes order"
  shows "q \<in> dom (map_of (kb_topos k')) \<longleftrightarrow> q \<in> dom (map_of (kb_topos k)) \<or> wanted rnd links nodes q \<noteq> []"
  using upsert_append_links_view [OF assms, of q] by (auto simp: dom_def split: if_splits) (metis map_option_eq_Some)+

lemma scale_up_one_dom:
  assumes "scale_up_one order rnd links nodes p c = (Inr t, c')" and "permutes order"
  shows "set (new_pods_of p) \<inter> dom (topos c) = {}" and "dom (topos c) \<subseteq> dom (topos c')"
    and "l \<in> set links \<Longrightarrow> involves nodes (new_pods_of p) l \<Longrightarrow> (q, u) \<in> set (end_of nodes (l_node l) i @ end_of nodes (l_peer l) j) \<Longrightarrow>
      q \<noteq> external_node_name \<Longrightarrow> q \<in> dom (topos c')"
proof -
  let ?N = "new_pods_of p" and ?R = "filter (involves nodes (new_pods_of p)) links"
  obtain t0 u1 u2 u3 u4 c1 c2 c3 c4 c5 where
    a: "op_each (\<lambda>pod. op_map_err (SCreateTopology pod) (on_kube (create_topology_for_new_pod rnd ?R nodes pod))) ?N c = (Inr u1, c1)"
    and b: "(if ?R = [] then op_ret [] else op_map_err SUpdatePeers
               (on_kube (upsert_append_links order (rnd (n_name (p_node p))) ?R nodes))) c1 = (Inr t0, c2)"
    and i: "op_each (\<lambda>pod. best_effort (inject_peer_skip_entries pod)) ?N c2 = (Inr u2 :: scale_error + unit, c3)"
    and n: "best_effort (update_iface_counts nodes) c3 = (Inr u3 :: scale_error + unit, c4)"
    and s: "patch_stateful_set_replicas (n_name (p_node p)) (p_new p) c4 = (Inr u4, c5)"
    and e: "op_ret (filter (\<lambda>q. q \<notin> set ?N) t0) c5 = (Inr t :: scale_error + string list, c')"
    using assms(1) unfolding scale_up_one_def Let_def op_bind_Inr
    by - (elim exE conjE, rule that)
  from e have e: "c5 = c'" by simp
  note s = s [unfolded e]
  note d = create_new_pods_dom [OF a]
  then show "set ?N \<inter> dom (topos c) = {}" by blast
  have "keeps_topos (op_each (\<lambda>pod. best_effort (inject_peer_skip_entries pod)) ?N)" by auto
  from keeps_toposD [OF this i] have k3: "topos c3 = topos c2" by simp
  have "keeps_topos (best_effort (update_iface_counts nodes))" by auto
  from keeps_toposD [OF this n] patch_leaves [OF s] k3 have k: "topos c' = topos c2" by simp
  have u: "q \<in> dom (topos c2) \<longleftrightarrow> q \<in> dom (topos c1) \<or> ?R \<noteq> [] \<and> wanted (rnd (n_name (p_node p))) ?R nodes q \<noteq> []" for q
  proof (cases "?R = []")
    case True
    with b have "c2 = c1" by (simp only: if_True) simp
    with True show ?thesis by simp
  next
    case False
    with b obtain k where "upsert_append_links order (rnd (n_name (p_node p))) ?R nodes (cl_kube c1) = (Inr t0, k)" "c2 = c1\<lparr>cl_kube := k\<rparr>"
      by (simp only: if_False op_map_err_Inr on_kube_Inr) blast
    with upsert_dom [OF this(1) assms(2), of q] False show ?thesis by simp
  qed
  show "dom (topos c) \<subseteq> dom (topos c')" using d u unfolding k by blast
  show "q \<in> dom (topos c')" if "l \<in> set links" "involves nodes ?N l"
    "(q, u) \<in> set (end_of nodes (l_node l) i @ end_of nodes (l_peer l) j)" "q \<noteq> external_node_name"
  proof -
    have l: "l \<in> set ?R" using that(1,2) by simp
    then have "?R \<noteq> []" by (rule length_pos_if_in_set [THEN length_greater_0_conv [THEN iffD1]])
    with u [of q] wanted_of_link [OF l that(3,4)] show ?thesis unfolding k by blast
  qed
qed

lemma scale_ups_from_dom:
  assumes "scale_ups_from order rnd links nodes cr to co (ps @ qs) c = (Inr r, c')" and "permutes order"
  shows "\<exists>c1 cr1 to1 co1. scale_ups_from order rnd links nodes cr1 to1 co1 qs c1 = (Inr r, c') \<and>
    dom (topos c) \<subseteq> dom (topos c1) \<and>
    (\<forall>p \<in> set ps. \<forall>l \<in> set links. \<forall>q u i j. involves nodes (new_pods_of p) l \<longrightarrow>
       (q, u) \<in> set (end_of nodes (l_node l) i @ end_of nodes (l_peer l) j) \<longrightarrow> q \<noteq> external_node_name \<longrightarrow> q \<in> dom (topos c1))"
  using assms(1)
proof (induction ps arbitrary: c cr to co)
  case (Cons p ps)
  then obtain t c1 where c1: "scale_up_one order rnd links nodes p c = (Inr t, c1)"
    "scale_ups_from order rnd links nodes (cr @ new_pods_of p) (fold add_new t to)
       (fold add_new (consumed_of nodes links p) co) (ps @ qs) c1 = (Inr r, c')"
    by (auto simp: op_bind_Inr)
  from Cons.IH [OF c1(2)] scale_up_one_dom(2,3) [OF c1(1) assms(2)] show ?case
    by (elim exE conjE) (intro exI conjI, assumption, blast, simp, blast)
qed fastforce

text \<open>
  C35: a link between new pods of two nodes that grow in one request makes the scale-up fail, with
  whatever the cluster, the other links, the ids drawn and the order of iteration: writing the peers
  of the node that comes first creates the Topology of the other's pod, whose own creation, later in
  the same call, then finds it there.
\<close>

theorem linked_scale_ups_fail:
  assumes "plans = before @ p # between @ p' # after" and "l \<in> set links" and "permutes order"
    and "resolve_pod_name (l_node l) nodes \<in> set (new_pods_of p) \<and> resolve_pod_name (l_peer l) nodes \<in> set (new_pods_of p')
      \<and> l_peer l \<noteq> external_node_name \<or>
      resolve_pod_name (l_peer l) nodes \<in> set (new_pods_of p) \<and> resolve_pod_name (l_node l) nodes \<in> set (new_pods_of p')
      \<and> l_node l \<noteq> external_node_name"
  shows "\<exists>e. fst (apply_scale_ups order rnd plans links nodes c) = Inl e"
proof (rule ccontr)
  assume "\<nexists>e. fst (apply_scale_ups order rnd plans links nodes c) = Inl e"
  then obtain r c' where "apply_scale_ups order rnd plans links nodes c = (Inr r, c')"
    by (cases "apply_scale_ups order rnd plans links nodes c"; cases "fst (apply_scale_ups order rnd plans links nodes c)") auto
  then have "scale_ups_from order rnd links nodes [] [] [] ((before @ p # between) @ (p' # after)) c = (Inr r, c')"
    using assms(1) by (simp add: apply_scale_ups_def)
  from scale_ups_from_dom [OF this assms(3)] obtain c1 cr1 to1 co1 where
    c1: "scale_ups_from order rnd links nodes cr1 to1 co1 (p' # after) c1 = (Inr r, c')"
    and d: "\<forall>p \<in> set (before @ p # between). \<forall>l \<in> set links. \<forall>q u i j. involves nodes (new_pods_of p) l \<longrightarrow>
       (q, u) \<in> set (end_of nodes (l_node l) i @ end_of nodes (l_peer l) j) \<longrightarrow> q \<noteq> external_node_name \<longrightarrow> q \<in> dom (topos c1)"
    by blast
  from c1 obtain t c2 where "scale_up_one order rnd links nodes p' c1 = (Inr t, c2)" by (auto simp: op_bind_Inr)
  note n = scale_up_one_dom(1) [OF this assms(3)]
  have e: "\<exists>q u i j. q \<in> set (new_pods_of p') \<and> involves nodes (new_pods_of p) l \<and>
      (q, u) \<in> set (end_of nodes (l_node l) i @ end_of nodes (l_peer l) j)"
    using assms(4) by (elim disjE conjE) (auto simp: involves_def end_of_def)
  have x: "q \<noteq> external_node_name" if "q \<in> set (new_pods_of p')" for q
  proof -
    have "CHR ''-'' \<in> set q" using that by (auto simp: new_pods_of_def pods_between_def)
    moreover have "CHR ''-'' \<notin> set external_node_name" by (simp add: external_node_name_def)
    ultimately show ?thesis by auto
  qed
  from e d assms(2) x have "\<exists>q. q \<in> set (new_pods_of p') \<and> q \<in> dom (topos c1)" by (metis in_set_conv_decomp)
  with n show False by blast
qed

definition grow :: "string \<Rightarrow> scale_plan" where
  "grow name = \<lparr>p_node = basic_node name ''host'' 1, p_current = 1, p_new = 2\<rparr>"

theorem linked_scale_ups_fail_witness:
  "\<exists>e. fst (apply_scale_ups rev (\<lambda>_ _. 0) [grow ''h'', grow ''r''] [(basic_link ''h-1'' ''eth1'' ''r-1'' ''eth1'')\<lparr>l_uid := Some 9\<rparr>]
     [basic_node ''h'' ''host'' 2, basic_node ''r'' ''router'' 2] star_cluster) = Inl e"
proof (rule linked_scale_ups_fail [where before = "[]" and between = "[]" and after = "[]" and p = "grow ''h''" and p' = "grow ''r''"])
  show "permutes rev" by (simp add: permutes_def)
  show "resolve_pod_name (l_node ((basic_link ''h-1'' ''eth1'' ''r-1'' ''eth1'')\<lparr>l_uid := Some 9\<rparr>))
       [basic_node ''h'' ''host'' 2, basic_node ''r'' ''router'' 2] \<in> set (new_pods_of (grow ''h'')) \<and>
     resolve_pod_name (l_peer ((basic_link ''h-1'' ''eth1'' ''r-1'' ''eth1'')\<lparr>l_uid := Some 9\<rparr>))
       [basic_node ''h'' ''host'' 2, basic_node ''r'' ''router'' 2] \<in> set (new_pods_of (grow ''r'')) \<and>
     l_peer ((basic_link ''h-1'' ''eth1'' ''r-1'' ''eth1'')\<lparr>l_uid := Some 9\<rparr>) \<noteq> external_node_name \<or>
     resolve_pod_name (l_peer ((basic_link ''h-1'' ''eth1'' ''r-1'' ''eth1'')\<lparr>l_uid := Some 9\<rparr>))
       [basic_node ''h'' ''host'' 2, basic_node ''r'' ''router'' 2] \<in> set (new_pods_of (grow ''h'')) \<and>
     resolve_pod_name (l_node ((basic_link ''h-1'' ''eth1'' ''r-1'' ''eth1'')\<lparr>l_uid := Some 9\<rparr>))
       [basic_node ''h'' ''host'' 2, basic_node ''r'' ''router'' 2] \<in> set (new_pods_of (grow ''r'')) \<and>
     l_node ((basic_link ''h-1'' ''eth1'' ''r-1'' ''eth1'')\<lparr>l_uid := Some 9\<rparr>) \<noteq> external_node_name" by code_simp
qed simp_all

section \<open>One creator for every link\<close>

definition skips :: "cluster \<Rightarrow> string \<Rightarrow> int \<Rightarrow> bool" where
  "skips c pod uid \<longleftrightarrow> uid \<in> set (non_creator_links (skips_of c pod))"

text \<open>A link of a pod as its Topology has it: the peer and the id.\<close>

definition wired :: "cluster \<Rightarrow> string \<Rightarrow> string \<Rightarrow> int \<Rightarrow> bool" where
  "wired c pod peer uid \<longleftrightarrow> (\<exists>t e. topos c pod = Some t \<and> e \<in> set (links_of t) \<and> c_peer_pod e = peer \<and> c_uid e = Some uid)"

definition one_creator :: "cluster \<Rightarrow> bool" where
  "one_creator c \<longleftrightarrow> (\<forall>p q u. wired c p q u \<longrightarrow> p \<noteq> q \<longrightarrow> \<not> (skips c p u \<and> skips c q u))"

definition uids_name_pairs :: "cluster \<Rightarrow> bool" where
  "uids_name_pairs c \<longleftrightarrow> (\<forall>p q p' q' u. wired c p q u \<longrightarrow> wired c p' q' u \<longrightarrow> {p, q} = {p', q'})"

lemma non_creator_links_append [simp]: "non_creator_links (xs @ ys) = non_creator_links xs @ non_creator_links ys"
  by (simp add: non_creator_links_def)

lemma non_creator_links_single [simp]: "non_creator_links [Skip (Some u) p] = [u]"
  by (simp add: non_creator_links_def)

lemma add_skip_cases:
  assumes "add_topology_skip_entry q u pod c = (r, c')"
  shows "kb_topos (cl_kube c') = kb_topos (cl_kube c) \<and>
    (cl_skipped c' = cl_skipped c \<or>
     cl_skipped c' = AList.update q (skips_of c q @ [Skip (Some u) (Some pod)]) (cl_skipped c))"
proof -
  have k: "keeps_topos (add_topology_skip_entry q u pod)" by auto
  show ?thesis using keeps_toposD [OF k assms] assms
    by (auto simp: add_topology_skip_entry_def update_status_def op_bind_def on_kube_def api_call_def Let_def skips_of_def
        split: prod.splits sum.splits if_splits)
qed

lemma add_skip_clean:
  assumes "kb_faults (cl_kube c) = []" and "topos c q \<noteq> None"
  shows "add_topology_skip_entry q u pod c =
    (Inr (), if list_ex (skip_present u pod) (skips_of c q) then c
             else c\<lparr>cl_skipped := AList.update q (skips_of c q @ [Skip (Some u) (Some pod)]) (cl_skipped c)\<rparr>)"
proof -
  have "kube_fault (cl_kube c) = (False, cl_kube c)" using assms(1) by (simp add: kube_fault_def)
  then show ?thesis using assms(2)
    by (auto simp: add_topology_skip_entry_def update_status_def op_bind_def on_kube_def api_call_def Let_def topo_get_def)
qed

text \<open>What holds while the links of a pod are gone through; \<open>others\<close> are the links it skipped before.\<close>

definition injecting :: "string \<Rightarrow> int list \<Rightarrow> cluster \<Rightarrow> bool" where
  "injecting pod others c \<longleftrightarrow> one_creator c \<and> (\<forall>q u. wired c pod q u \<longrightarrow> pod \<noteq> q \<longrightarrow> (skips c pod u \<longleftrightarrow> u \<in> set others))"

lemma injecting_add:
  assumes i: "injecting pod others c" and w: "wired c pod q u" and n: "u \<notin> set others" and up: "uids_name_pairs c"
    and k: "kb_topos (cl_kube c') = kb_topos (cl_kube c)"
    and s: "cl_skipped c' = AList.update q (skips_of c q @ [Skip (Some u) (Some pod)]) (cl_skipped c)"
  shows "injecting pod others c'"
proof -
  have w': "wired c' = wired c" using k by (simp add: wired_def fun_eq_iff)
  have sk: "skips c' p v \<longleftrightarrow> skips c p v \<or> p = q \<and> v = u" for p v
    using s by (auto simp: skips_def skips_of_def update_conv')
  have pr: "{p, p'} = {pod, q}" if "wired c p p' u" for p p'
    by (rule up [unfolded uids_name_pairs_def, rule_format, OF that w])
  have "\<not> (skips c' p v \<and> skips c' p' v)" if p: "wired c p p' v" "p \<noteq> p'" for p p' v
  proof (cases "v = u")
    case True
    then have e: "{p, p'} = {pod, q}" using pr p(1) by simp
    then have e: "p = pod \<and> p' = q \<or> p = q \<and> p' = pod" by (rule doubleton_eq_iff [THEN iffD1])
    with p(2) have "pod \<noteq> q" by metis
    with i w n have "\<not> skips c pod u" by (simp add: injecting_def)
    with \<open>pod \<noteq> q\<close> e show ?thesis unfolding sk True by metis
  next
    case False
    then show ?thesis using i p unfolding sk by (auto simp: injecting_def one_creator_def)
  qed
  moreover have "skips c' pod v \<longleftrightarrow> v \<in> set others" if "wired c pod p v" "pod \<noteq> p" for p v
  proof -
    have False if a: "pod = q" "v = u"
    proof -
      have "{pod, p} = {pod, q}" by (rule pr) (use \<open>wired c pod p v\<close> a(2) in simp)
      with a(1) \<open>pod \<noteq> p\<close> show False by (metis doubleton_eq_iff)
    qed
    then show ?thesis using i that unfolding sk by (auto simp: injecting_def)
  qed
  ultimately show ?thesis by (simp add: injecting_def one_creator_def w')
qed

lemma injecting_keep:
  assumes "injecting pod others c" and "kb_topos (cl_kube c') = kb_topos (cl_kube c)" and "cl_skipped c' = cl_skipped c"
  shows "injecting pod others c'"
  using assms by (simp add: injecting_def one_creator_def wired_def skips_def skips_of_def)

lemma inject_link_injecting:
  assumes "inject_skip_for_link pod others e c = (r, c')" and "injecting pod others c" and "uids_name_pairs c"
    and "\<forall>u. c_uid e = Some u \<longrightarrow> wired c pod (c_peer_pod e) u"
  shows "injecting pod others c' \<and> kb_topos (cl_kube c') = kb_topos (cl_kube c)"
proof (cases "\<exists>u. c_uid e = Some u \<and> u \<notin> set others \<and> c_peer_pod e \<noteq> [] \<and> c_peer_pod e \<noteq> crd_external_peer_pod")
  case False
  then have "c' = c" using assms(1) by (auto simp: inject_skip_for_link_def split: if_splits option.splits)
  with assms(2) show ?thesis by simp
next
  case True
  then obtain u where u: "c_uid e = Some u" "u \<notin> set others" "c_peer_pod e \<noteq> []" "c_peer_pod e \<noteq> crd_external_peer_pod" by auto
  then have "c' = snd (add_topology_skip_entry (c_peer_pod e) u pod c)"
    using assms(1) by (simp add: inject_skip_for_link_def best_effort_def)
  then obtain x where "add_topology_skip_entry (c_peer_pod e) u pod c = (x, c')" by (metis prod.collapse)
  from add_skip_cases [OF this] injecting_keep [OF assms(2)] injecting_add [OF assms(2) _ u(2) assms(3)] assms(4) u(1)
  show ?thesis by blast
qed

lemma inject_links_injecting:
  assumes "op_each (inject_skip_for_link pod others) es c = (r, c')" and "injecting pod others c" and "uids_name_pairs c"
    and "\<forall>e \<in> set es. \<forall>u. c_uid e = Some u \<longrightarrow> wired c pod (c_peer_pod e) u"
  shows "injecting pod others c' \<and> kb_topos (cl_kube c') = kb_topos (cl_kube c)"
  using assms
proof (induction es arbitrary: c)
  case (Cons e es)
  obtain x c1 where x: "inject_skip_for_link pod others e c = (x, c1)" by (cases "inject_skip_for_link pod others e c")
  have i: "injecting pod others c1" "kb_topos (cl_kube c1) = kb_topos (cl_kube c)"
    using inject_link_injecting [OF x Cons.prems(2,3)] Cons.prems(4) by auto
  then have w: "wired c1 = wired c" by (simp add: wired_def fun_eq_iff)
  show ?case
  proof (cases x)
    case (Inl err)
    with Cons.prems(1) x have "c' = c1" by (simp add: op_bind_err)
    with i show ?thesis by simp
  next
    case (Inr u)
    with Cons.prems(1) x have "op_each (inject_skip_for_link pod others) es c1 = (r, c')" by (simp add: op_bind_ok)
    moreover have "uids_name_pairs c1" using Cons.prems(3) unfolding uids_name_pairs_def w .
    moreover have "\<forall>e \<in> set es. \<forall>u. c_uid e = Some u \<longrightarrow> wired c1 pod (c_peer_pod e) u" using Cons.prems(4) unfolding w by simp
    ultimately show ?thesis using Cons.IH [of c1] i by simp
  qed
qed simp

lemma inject_link_clean:
  assumes "kb_faults (cl_kube c) = []" and "c_uid e = Some u \<and> u \<noteq> 0 \<and> u \<notin> set others"
    and "c_peer_pod e \<noteq> [] \<and> c_peer_pod e \<noteq> crd_external_peer_pod" and "topos c (c_peer_pod e) \<noteq> None"
  shows "skips (snd (inject_skip_for_link pod others e c)) (c_peer_pod e) u"
proof -
  let ?q = "c_peer_pod e"
  have s: "snd (inject_skip_for_link pod others e c) =
     (if list_ex (skip_present u pod) (skips_of c ?q) then c
      else c\<lparr>cl_skipped := AList.update ?q (skips_of c ?q @ [Skip (Some u) (Some pod)]) (cl_skipped c)\<rparr>)"
    using assms add_skip_clean [OF assms(1,4)] by (simp add: inject_skip_for_link_def best_effort_def)
  show ?thesis
  proof (cases "list_ex (skip_present u pod) (skips_of c ?q)")
    case True
    then obtain x where x: "x \<in> set (skips_of c ?q)" "skip_present u pod x" by (auto simp: list_ex_iff)
    then obtain p where "x = Skip (Some u) p"
      using assms(2) by (auto simp: skip_present_def split: skip_entry.splits option.splits)
    with x(1) have "skips c ?q u" by (force simp: skips_def non_creator_links_def)
    then show ?thesis unfolding s using True by simp
  next
    case False
    then show ?thesis unfolding s by (simp add: skips_def skips_of_def update_conv')
  qed
qed

lemma inject_link_keeps_clean:
  assumes "kb_faults (cl_kube c) = []"
  shows "kb_faults (cl_kube (snd (inject_skip_for_link pod others e c))) = [] \<and>
    (\<exists>u. fst (inject_skip_for_link pod others e c) = Inr u) \<and>
    (skips c q v \<longrightarrow> skips (snd (inject_skip_for_link pod others e c)) q v)"
proof -
  have "kb_faults (cl_kube (snd (add_topology_skip_entry p u pod c))) = [] \<and>
      (skips c q v \<longrightarrow> skips (snd (add_topology_skip_entry p u pod c)) q v)" for p u
  proof (cases "topos c p")
    case None
    then show ?thesis using assms by (simp add: add_topology_skip_entry_def op_bind_def on_kube_def topo_get_def Let_def kube_fault_def)
  next
    case (Some t)
    then show ?thesis using assms add_skip_clean [OF assms, of p u pod] by (auto simp: skips_def skips_of_def update_conv')
  qed
  then show ?thesis using assms by (auto simp: inject_skip_for_link_def best_effort_def split: option.splits)
qed

lemma inject_links_clean:
  assumes "kb_faults (cl_kube c) = []" and "e \<in> set es" and "c_uid e = Some u \<and> u \<noteq> 0 \<and> u \<notin> set others"
    and "c_peer_pod e \<noteq> [] \<and> c_peer_pod e \<noteq> crd_external_peer_pod" and "topos c (c_peer_pod e) \<noteq> None"
  shows "skips (snd (op_each (inject_skip_for_link pod others) es c)) (c_peer_pod e) u"
proof -
  have mono: "kb_faults (cl_kube c) = [] \<Longrightarrow> skips c q v \<Longrightarrow> skips (snd (op_each (inject_skip_for_link pod others) es c)) q v" for c q v es
  proof (induction es arbitrary: c)
    case (Cons x es)
    obtain r c1 where r: "inject_skip_for_link pod others x c = (r, c1)" by (cases "inject_skip_for_link pod others x c")
    with inject_link_keeps_clean [OF Cons.prems(1), of pod others x q v] Cons.prems(2) obtain w where
      "r = Inr w" "kb_faults (cl_kube c1) = []" "skips c1 q v" by auto
    with Cons.IH r show ?case by (simp add: op_bind_ok)
  qed simp
  show ?thesis using assms(1,2,5)
  proof (induction es arbitrary: c)
    case (Cons x es)
    obtain r c1 where r: "inject_skip_for_link pod others x c = (r, c1)" by (cases "inject_skip_for_link pod others x c")
    with inject_link_keeps_clean [OF Cons.prems(1), of pod others x] obtain w where
      w: "r = Inr w" "kb_faults (cl_kube c1) = []" by auto
    have "keeps_topos (inject_skip_for_link pod others x)" by (auto simp: inject_skip_for_link_def split: option.splits)
    from keeps_toposD [OF this r] have t: "topos c1 = topos c" by simp
    show ?case
    proof (cases "x = e")
      case True
      with inject_link_clean [OF Cons.prems(1) assms(3,4) Cons.prems(3), where pod = pod] r have "skips c1 (c_peer_pod e) u" by simp
      with mono [OF w(2)] w(1) r show ?thesis by (simp add: op_bind_ok)
    next
      case False
      with Cons.IH [OF w(2)] Cons.prems(2,3) t w(1) r show ?thesis by (simp add: op_bind_ok)
    qed
  qed simp
qed

text \<open>
  C36: a link never has both its ends skipping it. When ids name one link each and no link had both
  of its ends skip it, none has after \<open>injectPeerSkipEntries\<close>, whatever calls failed; and when none
  fails, exactly one end of every link of the pod to a pod that has a Topology skips it, so exactly
  one end creates it.
\<close>

theorem inject_keeps_one_creator:
  assumes "inject_peer_skip_entries pod c = (r, c')" and "one_creator c" and "uids_name_pairs c"
  shows "one_creator c' \<and>
    (kb_faults (cl_kube c) = [] \<and> wired c pod q u \<and> topos c q \<noteq> None \<and> q \<noteq> pod \<and> u \<noteq> 0 \<and> q \<noteq> [] \<and> q \<noteq> crd_external_peer_pod \<longrightarrow>
       skips c' pod u \<noteq> skips c' q u)"
proof (cases "on_kube (topo_get pod) c")
  case (Pair g c1)
  then have keep: "kb_topos (cl_kube c1) = kb_topos (cl_kube c)" "cl_skipped c1 = cl_skipped c"
    using keeps_toposD [OF keeps_topos_get Pair] by (auto simp: on_kube_def split: prod.splits)
  then have w: "wired c1 = wired c" "skips c1 = skips c" "skips_of c1 = skips_of c"
    by (simp_all add: wired_def skips_def skips_of_def fun_eq_iff)
  show ?thesis
  proof (cases g)
    case (Inl e)
    then have c': "c' = c1" using assms(1) Pair by (simp add: inject_peer_skip_entries_def op_bind_err)
    have "kb_faults (cl_kube c) = [] \<Longrightarrow> topos c pod = None"
      using Pair Inl by (auto simp: on_kube_def topo_get_def kube_fault_def split: option.splits)
    then have "\<not> (kb_faults (cl_kube c) = [] \<and> wired c pod q u)" by (auto simp: wired_def)
    with assms(2) show ?thesis unfolding c' one_creator_def w by blast
  next
    case (Inr t)
    let ?o = "non_creator_links (skips_of c pod)"
    have t: "topos c pod = Some t" using Pair Inr by (auto simp: on_kube_Inr dest!: topo_get_Inr)
    have o: "op_each (inject_skip_for_link pod ?o) (links_of t) c1 = (r, c')"
      using assms(1) Pair Inr w(3) by (simp add: inject_peer_skip_entries_def op_bind_ok)
    have i: "injecting pod ?o c1" using assms(2) unfolding injecting_def one_creator_def w by (simp add: skips_def)
    have u: "uids_name_pairs c1" using assms(3) unfolding uids_name_pairs_def w .
    have ws: "\<forall>e \<in> set (links_of t). \<forall>u. c_uid e = Some u \<longrightarrow> wired c1 pod (c_peer_pod e) u"
      using t unfolding w by (auto simp: wired_def)
    note j = inject_links_injecting [OF o i u ws]
    have "wired c' = wired c" using j keep by (simp add: wired_def fun_eq_iff)
    have "skips c' pod u \<noteq> skips c' q u" if a: "kb_faults (cl_kube c) = []" "wired c pod q u" "topos c q \<noteq> None" "q \<noteq> pod"
      "u \<noteq> 0" "q \<noteq> []" "q \<noteq> crd_external_peer_pod"
    proof -
      have one: "\<not> (skips c' pod u \<and> skips c' q u)"
        using j a(2,4) unfolding injecting_def one_creator_def \<open>wired c' = wired c\<close> by metis
      have p: "skips c' pod u \<longleftrightarrow> u \<in> set ?o"
        using j a(2,4) unfolding injecting_def \<open>wired c' = wired c\<close> by metis
      show ?thesis
      proof (cases "u \<in> set ?o")
        case True
        with one p show ?thesis by blast
      next
        case False
        obtain e where e: "e \<in> set (links_of t)" "c_peer_pod e = q" "c_uid e = Some u" using a(2) t by (auto simp: wired_def)
        have "kb_faults (cl_kube c1) = []" using Pair a(1) t by (auto simp: on_kube_def topo_get_def kube_fault_def)
        from inject_links_clean [OF this e(1), of u ?o pod] e(2,3) a False keep(1) o have "skips c' q u" by simp
        with one show ?thesis by blast
      qed
    qed
    with j show ?thesis by (auto simp: injecting_def)
  qed
qed

definition star_entry :: "string \<Rightarrow> string \<Rightarrow> string \<Rightarrow> int \<Rightarrow> crd_link" where
  "star_entry i p j u = \<lparr>c_local_intf = i, c_local_ip = [], c_peer_pod = p, c_peer_intf = j, c_peer_ip = [], c_uid = Some u\<rparr>"

theorem inject_keeps_one_creator_witness:
  "let c' = snd (inject_peer_skip_entries ''h-1'' star_cluster) in
     one_creator c' \<and> \<not> skips c' ''h-1'' 8 \<and> skips c' ''r-0'' 8"
proof -
  let ?r = "inject_peer_skip_entries ''h-1'' star_cluster"
  have n: "\<not> skips star_cluster p v" for p v by (simp add: skips_def skips_of_def star_cluster_def non_creator_links_def)
  then have o: "one_creator star_cluster" by (simp add: one_creator_def)
  obtain ta tb tc where ks: "kb_topos (cl_kube star_cluster) = [(''h-0'', ta), (''h-1'', tb), (''r-0'', tc)]"
    and l: "links_of ta = [star_entry ''eth1'' ''r-0'' ''eth1'' 7]" "links_of tb = [star_entry ''eth1'' ''r-0'' ''eth2'' 8]"
      "links_of tc = [star_entry ''eth1'' ''h-0'' ''eth1'' 7, star_entry ''eth2'' ''h-1'' ''eth1'' 8]"
  proof
    let ?t = "\<lambda>p. pod_topology star_nodes p (zip star_links [7, 8])"
    show "kb_topos (cl_kube star_cluster) = [(''h-0'', ?t ''h-0''), (''h-1'', ?t ''h-1''), (''r-0'', ?t ''r-0'')]" by code_simp
    show "links_of (?t ''h-0'') = [star_entry ''eth1'' ''r-0'' ''eth1'' 7]" "links_of (?t ''h-1'') = [star_entry ''eth1'' ''r-0'' ''eth2'' 8]"
      "links_of (?t ''r-0'') = [star_entry ''eth1'' ''h-0'' ''eth1'' 7, star_entry ''eth2'' ''h-1'' ''eth1'' 8]" by code_simp+
  qed
  have w: "(p, q, v) \<in> {(''h-0'', ''r-0'', 7), (''h-1'', ''r-0'', 8), (''r-0'', ''h-0'', 7), (''r-0'', ''h-1'', 8)}"
    if "wired star_cluster p q v" for p q v
  proof -
    from that obtain x e where x: "topos star_cluster p = Some x" and e: "e \<in> set (links_of x)" "c_peer_pod e = q" "c_uid e = Some v"
      by (auto simp: wired_def)
    from x have "(p, x) \<in> set [(''h-0'', ta), (''h-1'', tb), (''r-0'', tc)]" unfolding ks by (rule map_of_SomeD)
    then consider "p = ''h-0''" "x = ta" | "p = ''h-1''" "x = tb" | "p = ''r-0''" "x = tc" by auto
    then show ?thesis using e by cases (auto simp: l star_entry_def)
  qed
  have u: "uids_name_pairs star_cluster"
    unfolding uids_name_pairs_def
  proof (intro allI impI)
    fix p q p' q' v assume "wired star_cluster p q v" "wired star_cluster p' q' v"
    from this [THEN w] show "{p, q} = {p', q'}" by (simp only: insert_iff empty_iff prod.inject, elim disjE) auto
  qed
  have "topos star_cluster ''h-1'' = Some tb" by (simp add: ks)
  with l have w8: "wired star_cluster ''h-1'' ''r-0'' 8" by (simp add: wired_def star_entry_def)
  have t: "kb_faults (cl_kube star_cluster) = []" "topos star_cluster ''r-0'' \<noteq> None" by code_simp+
  note i = inject_keeps_one_creator [OF prod.collapse [symmetric, of ?r] o u, of "''r-0''" 8]
  have "\<not> skips (snd ?r) ''h-1'' 8" by code_simp
  moreover from i t have "skips (snd ?r) ''h-1'' 8 \<noteq> skips (snd ?r) ''r-0'' 8" by (simp add: w8 crd_external_peer_pod_def)
  ultimately show ?thesis using i by (simp add: Let_def)
qed

end
