(* ===== verification/Network_Modify.thy ===== *)
theory Network_Modify
  imports Network_Scale
begin

text \<open>
  The modify handler (\<open>ModifyNetwork\<close> of \<open>handlers/network.go\<close>) around the scale phases of
  \<open>Network_Scale\<close>: its delete phase, \<open>ApplyDeleteOnExistingTopology\<close> and
  \<open>DeleteNodeStatefulSetAndTopologies\<close> of \<open>helpers/network_modify.go\<close>, the links it keeps for the add
  phase after a scale-up, and the pods it restarts at the end (\<open>helpers/link_restart.go\<close> and the
  choice of an endpoint in \<open>helpers/heal.go\<close>).
\<close>

section \<open>Deleting a node\<close>

datatype modify_error =
    MEmptyName
  | MIndexedName string
  | MUnknownNode string
  | MLinks link_error
  | MLinkNotThere topo_error
  | MRemove topo_error
  | MDeleteSet string
  | MTopology scale_error
  | MHistory string history_error

definition delete_set :: "string \<Rightarrow> (cluster, modify_error, unit) op" where
  "delete_set name = (\<lambda>c.
     case api_call (\<lambda>c. if map_of (cl_sets c) name = None then (Inl KNotFound, c)
                      else (Inr (), c\<lparr>cl_sets := AList.delete name (cl_sets c)\<rparr>)) c of
       (Inr _, c1) \<Rightarrow> (Inr (), c1)
     | (Inl KNotFound, c1) \<Rightarrow> (Inr (), c1)
     | (Inl _, c1) \<Rightarrow> (Inl (MDeleteSet name), c1))"

definition list_sets :: "(cluster, kube_error, (string \<times> stateful_set) list) op" where
  "list_sets = api_call (\<lambda>c. (Inr (cl_sets c), c))"

definition delete_map :: "string \<Rightarrow> (cluster, kube_error, unit) op" where
  "delete_map name = api_call (\<lambda>c. if name \<notin> set (cl_maps c) then (Inl KNotFound, c)
     else (Inr (), c\<lparr>cl_maps := removeAll name (cl_maps c)\<rparr>))"

definition delete_secret :: "string \<Rightarrow> (cluster, kube_error, unit) op" where
  "delete_secret name = api_call (\<lambda>c. if name \<notin> set (cl_secrets c) then (Inl KNotFound, c)
     else (Inr (), c\<lparr>cl_secrets := removeAll name (cl_secrets c)\<rparr>))"

definition iface_counts_config_map :: string where
  "iface_counts_config_map = ''kubendt-internal-iface-counts''"

text \<open>What the StatefulSets left in the namespace mount; a list that fails counts as no StatefulSet at all.\<close>

definition sets_in_use :: "kube_error + (string \<times> stateful_set) list \<Rightarrow> (stateful_set \<Rightarrow> string list) \<Rightarrow> string list" where
  "sets_in_use r refs = (case r of Inl _ \<Rightarrow> [] | Inr xs \<Rightarrow> filter (\<lambda>n. n \<noteq> []) (concat (map (refs \<circ> snd) xs)))"

definition collect_mounts :: "string list \<Rightarrow> string list \<Rightarrow> (cluster, modify_error, unit) op" where
  "collect_mounts maps secrets =
     (if maps = [] \<and> secrets = [] then op_ret ()
      else (\<lambda>c. case list_sets c of (r, c1) \<Rightarrow>
        op_bind (op_each (\<lambda>m. if m = iface_counts_config_map \<or> m \<in> set (sets_in_use r ss_maps) then op_ret ()
                              else best_effort (delete_map m)) maps) (\<lambda>_.
          op_each (\<lambda>m. if m \<in> set (sets_in_use r ss_secrets) then op_ret () else best_effort (delete_secret m)) secrets) c1))"

text \<open>The names are read before the StatefulSet goes; one that cannot be read has none.\<close>

definition delete_node :: "node_spec \<Rightarrow> (cluster, modify_error, unit) op" where
  "delete_node n = (\<lambda>c. case get_set (n_name n) c of (r, c1) \<Rightarrow>
     (let refs = (\<lambda>f. case r of Inl _ \<Rightarrow> [] | Inr x \<Rightarrow> filter (\<lambda>m. m \<noteq> []) (f x)) in
      op_bind (delete_set (n_name n)) (\<lambda>_.
      op_bind (op_each (\<lambda>pod. op_map_err MTopology (delete_topology pod)) (pods_of_node n)) (\<lambda>_.
      op_bind (op_each (\<lambda>m. best_effort (delete_map m)) (refs ss_env_maps)) (\<lambda>_.
      collect_mounts (refs ss_maps) (refs ss_secrets)))) c1))"

section \<open>The delete phase\<close>

fun delete_names :: "node_spec list \<Rightarrow> string list \<Rightarrow> string list \<Rightarrow> modify_error + string list" where
  "delete_names nodes acc [] = Inr acc"
| "delete_names nodes acc (x # xs) =
     (let name = trim_space x in
      if name = [] then Inl MEmptyName
      else if split_indexed_pod_name name \<noteq> None then Inl (MIndexedName name)
      else if nodes_by_name nodes name = None then Inl (MUnknownNode name)
      else delete_names nodes (add_new name acc) xs)"

definition on_attrs :: "(link_row store, 'f, 'a) op \<Rightarrow> (cluster, 'f, 'a) op" where
  "on_attrs m = (\<lambda>c. case m (cl_attrs c) of (r, s) \<Rightarrow> (r, c\<lparr>cl_attrs := s\<rparr>))"

definition pods_of_names :: "node_spec list \<Rightarrow> string list \<Rightarrow> string list" where
  "pods_of_names nodes names = concat (map (\<lambda>n. pods_of_node (the (nodes_by_name nodes n))) names)"

definition delete_links_phase :: "entry_order \<Rightarrow> string \<Rightarrow> link_spec list \<Rightarrow> node_spec list \<Rightarrow> (cluster, modify_error, string list) op" where
  "delete_links_phase eo ns links nodes =
     (if links = [] then op_ret []
      else op_bind (op_map_err MRemove (on_kube (remove_specific_links eo links nodes))) (\<lambda>t.
           op_bind (best_effort (on_attrs (delete_link_attributes_for_links ns links nodes))) (\<lambda>_. op_ret t)))"

definition apply_delete_on_existing_topology ::
  "entry_order \<Rightarrow> (string list \<Rightarrow> string list) \<Rightarrow> string \<Rightarrow> string list \<Rightarrow> link_spec list \<Rightarrow> node_spec list \<Rightarrow>
   (cluster, modify_error, string list \<times> string list) op" where
  "apply_delete_on_existing_topology eo so ns names links nodes =
     (if names = [] \<and> links = [] then op_ret ([], [])
      else op_bind (op_lift (delete_names nodes [] names)) (\<lambda>doomed_nodes.
      op_bind (op_lift (case validate_links_for_modify links nodes of Some e \<Rightarrow> Inl (MLinks e) | None \<Rightarrow> Inr ())) (\<lambda>_.
      op_bind (if links = [] then op_ret ()
               else op_map_err MLinkNotThere (on_kube (validate_delete_links_exist eo links nodes))) (\<lambda>_.
      op_bind (delete_links_phase eo ns links nodes) (\<lambda>t1.
      let gone = pods_of_names nodes doomed_nodes in
      op_bind (if gone = [] then op_ret []
               else op_map_err MRemove (on_kube (remove_links_referencing_deleted_pods gone))) (\<lambda>t2.
      op_bind (op_each (\<lambda>n. delete_node (the (nodes_by_name nodes n))) (so doomed_nodes)) (\<lambda>_.
      op_bind (op_each (\<lambda>pod. op_map_err (MHistory pod)
                 (on_history (delete_driver_operation_history_for_pod ns pod))) (so gone)) (\<lambda>_.
      op_bind (if gone = [] then op_ret () else best_effort (on_attrs (delete_link_attributes_for_pods ns (so gone)))) (\<lambda>_.
      op_ret (sort_strings (filter (\<lambda>p. p \<notin> set gone) (fold add_new t2 (fold add_new t1 []))),
              sort_strings doomed_nodes))))))))))"

section \<open>The rest of the handler\<close>

text \<open>The links left for the add phase once a scale-up has written some.\<close>

definition drop_consumed :: "int list \<Rightarrow> link_spec list \<Rightarrow> link_spec list" where
  "drop_consumed consumed links = filter (\<lambda>l. case l_uid l of Some u \<Rightarrow> u \<notin> set consumed | None \<Rightarrow> True) links"

definition peers_to_restart ::
  "node_spec list \<Rightarrow> string list \<Rightarrow> string list \<Rightarrow> string list \<Rightarrow> string list \<Rightarrow> string list" where
  "peers_to_restart nodes always if_qemu new gone =
     filter (\<lambda>p. p \<notin> set new \<and> p \<notin> set gone) (fold add_new (filter (qemu_pod nodes) if_qemu) (fold add_new always []))"

definition pod_type_map :: "node_spec list \<Rightarrow> (string \<times> string) list" where
  "pod_type_map nodes =
     rev (concat (map (\<lambda>n. map (\<lambda>p. (p, n_type n))
        (pods_of_node (n\<lparr>n_replicas := (if n_replicas n \<le> 0 then 1 else n_replicas n)\<rparr>))) nodes))"

definition pod_type_or_unknown :: "(string \<times> string) list \<Rightarrow> string \<Rightarrow> string" where
  "pod_type_or_unknown m pod = (case map_of m pod of Some t \<Rightarrow> t | None \<Rightarrow> ''unknown'')"

definition type_rank :: "string \<Rightarrow> int" where
  "type_rank t = (if t = ''host'' then 1 else if t = ''router'' then 2 else if t = ''switch'' then 3 else 9)"

definition choose_restart_endpoint ::
  "string \<Rightarrow> string \<Rightarrow> string list \<Rightarrow> string list \<Rightarrow> (string \<Rightarrow> int) \<Rightarrow> (string \<times> string) list \<Rightarrow> string" where
  "choose_restart_endpoint a b miss_a miss_b missing types =
     (if a = external_node_name \<and> b \<noteq> external_node_name then b
      else if b = external_node_name \<and> a \<noteq> external_node_name then a
      else if miss_a \<noteq> [] \<and> miss_b = [] then a
      else if miss_b \<noteq> [] \<and> miss_a = [] then b
      else let ta = pod_type_or_unknown types a; tb = pod_type_or_unknown types b; both = (miss_a \<noteq> [] \<and> miss_b \<noteq> []) in
        if both \<and> ta = ''switch'' \<and> tb \<noteq> ''switch'' then a
        else if both \<and> tb = ''switch'' \<and> ta \<noteq> ''switch'' then b
        else if both \<and> missing a > missing b then a
        else if both \<and> missing b > missing a then b
        else if type_rank ta < type_rank tb then a
        else if type_rank tb < type_rank ta then b
        else if str_le a b then a else b)"

definition endpoint_step :: "node_spec list \<Rightarrow> string list \<Rightarrow> string list \<Rightarrow> link_spec \<Rightarrow> string list \<Rightarrow> string list" where
  "endpoint_step nodes new restarting l chosen =
     (let a = resolve_pod_name (l_node l) nodes; b = resolve_pod_name (l_peer l) nodes;
          covered = (\<lambda>p. p \<in> set restarting \<or> p \<in> set chosen) in
      if a = [] \<or> b = [] \<or> a \<in> set new \<or> b \<in> set new \<or> covered a \<or> covered b then chosen
      else if a = external_node_name \<and> b = external_node_name then chosen
      else if a = external_node_name then add_new b chosen
      else if b = external_node_name then add_new a chosen
      else add_new (choose_restart_endpoint a b [l_intf l] [l_peer_intf l] (\<lambda>_. 0) (pod_type_map nodes)) chosen)"

definition endpoints_to_restart :: "link_spec list \<Rightarrow> node_spec list \<Rightarrow> string list \<Rightarrow> string list \<Rightarrow> string list" where
  "endpoints_to_restart links nodes new restarting =
     sort_strings (fold (endpoint_step nodes new restarting) links [])"

definition restarted_pods ::
  "link_spec list \<Rightarrow> node_spec list \<Rightarrow> string list \<Rightarrow> string list \<Rightarrow> string list \<Rightarrow> string list \<Rightarrow> string list" where
  "restarted_pods links nodes always if_qemu new gone =
     (let peers = peers_to_restart nodes always if_qemu new gone in
      sort_strings (fold add_new (if links = [] then [] else endpoints_to_restart links nodes new peers) peers))"

section \<open>The restarts wire every new link\<close>

lemma choose_restart_endpoint_end: "choose_restart_endpoint a b ma mb missing types \<in> {a, b}"
  by (simp add: choose_restart_endpoint_def Let_def)

text \<open>What one link asks of the pods to restart, and what a pod is chosen for.\<close>

definition wired_by :: "node_spec list \<Rightarrow> string list \<Rightarrow> string list \<Rightarrow> link_spec \<Rightarrow> bool" where
  "wired_by nodes new ps l \<longleftrightarrow>
     (let a = resolve_pod_name (l_node l) nodes; b = resolve_pod_name (l_peer l) nodes in
      {a, b} \<inter> (set new \<union> set ps) \<noteq> {} \<or> [] \<in> {a, b} \<or> {a, b} = {external_node_name})"

definition chosen_for :: "node_spec list \<Rightarrow> string list \<Rightarrow> link_spec \<Rightarrow> string \<Rightarrow> bool" where
  "chosen_for nodes new l p \<longleftrightarrow>
     (let a = resolve_pod_name (l_node l) nodes; b = resolve_pod_name (l_peer l) nodes in
      p \<in> {a, b} \<and> p \<noteq> external_node_name \<and> p \<noteq> [] \<and> a \<notin> set new \<and> b \<notin> set new)"

lemma endpoint_step_cases:
  "set chosen \<subseteq> set (endpoint_step nodes new rs l chosen) \<and>
   wired_by nodes new (rs @ endpoint_step nodes new rs l chosen) l \<and>
   (\<forall>p \<in> set (endpoint_step nodes new rs l chosen). p \<in> set chosen \<or> chosen_for nodes new l p)"
proof -
  obtain a b where ab: "resolve_pod_name (l_node l) nodes = a" "resolve_pod_name (l_peer l) nodes = b" by blast
  have c: "choose_restart_endpoint a b [l_intf l] [l_peer_intf l] (\<lambda>_. 0) (pod_type_map nodes) = a \<or>
      choose_restart_endpoint a b [l_intf l] [l_peer_intf l] (\<lambda>_. 0) (pod_type_map nodes) = b"
    using choose_restart_endpoint_end [of a b] by blast
  show ?thesis
    using c by (auto simp: endpoint_step_def wired_by_def chosen_for_def Let_def ab)
qed

lemma wired_by_mono: "wired_by nodes new ps l \<Longrightarrow> set ps \<subseteq> set qs \<Longrightarrow> wired_by nodes new qs l"
  unfolding wired_by_def Let_def by blast

lemma endpoints_fold:
  "set chosen \<subseteq> set (fold (endpoint_step nodes new rs) links chosen) \<and>
   (\<forall>l \<in> set links. wired_by nodes new (rs @ fold (endpoint_step nodes new rs) links chosen) l) \<and>
   (\<forall>p \<in> set (fold (endpoint_step nodes new rs) links chosen). p \<in> set chosen \<or> (\<exists>l \<in> set links. chosen_for nodes new l p))"
proof (induction links arbitrary: chosen)
  case (Cons l links)
  let ?c = "endpoint_step nodes new rs l chosen"
  note s = endpoint_step_cases [of chosen nodes new rs l] and ih = Cons.IH [of ?c]
  have "wired_by nodes new (rs @ fold (endpoint_step nodes new rs) links ?c) l"
    by (rule wired_by_mono [of nodes new "rs @ ?c"]) (use s ih in auto)
  moreover have "set chosen \<subseteq> set (fold (endpoint_step nodes new rs) links ?c)" using s ih by blast
  moreover have "p \<in> set chosen \<or> (\<exists>l \<in> set (l # links). chosen_for nodes new l p)"
    if "p \<in> set (fold (endpoint_step nodes new rs) links ?c)" for p
  proof -
    from that ih consider "p \<in> set ?c" | "\<exists>l \<in> set links. chosen_for nodes new l p" by blast
    then show ?thesis by cases (use s in auto)
  qed
  ultimately show ?case using ih by simp
qed simp

text \<open>
  C38: Meshnet wires a link only when one of its pods is created, and the restarts of a modify see
  to that: every new link whose ends resolve, and are not both the external network, has an end that
  is new or restarted. No pod made by this request is restarted, and a pod is restarted only because
  a delete or a scale-down touched it, because it is a QEMU pod whose links changed, or because it is
  an end of a new link none of whose ends is new.
\<close>

theorem restarts_wire_new_links:
  "(\<forall>l \<in> set links. let a = resolve_pod_name (l_node l) nodes; b = resolve_pod_name (l_peer l) nodes in
      a \<noteq> [] \<and> b \<noteq> [] \<and> \<not> (a = external_node_name \<and> b = external_node_name) \<longrightarrow>
      {a, b} \<inter> (set new \<union> set (restarted_pods links nodes always if_qemu new gone)) \<noteq> {}) \<and>
   set new \<inter> set (restarted_pods links nodes always if_qemu new gone) = {} \<and>
   (\<forall>p \<in> set (restarted_pods links nodes always if_qemu new gone).
      (p \<in> set always \<or> p \<in> set if_qemu \<and> qemu_pod nodes p) \<and> p \<notin> set gone \<or>
      (\<exists>l \<in> set links. (p = resolve_pod_name (l_node l) nodes \<or> p = resolve_pod_name (l_peer l) nodes) \<and> p \<noteq> external_node_name \<and>
         resolve_pod_name (l_node l) nodes \<notin> set new \<and> resolve_pod_name (l_peer l) nodes \<notin> set new))"
proof -
  let ?p = "peers_to_restart nodes always if_qemu new gone"
  let ?c = "fold (endpoint_step nodes new ?p) links []"
  have r: "set (restarted_pods links nodes always if_qemu new gone) = set ?p \<union> set ?c"
    by (cases links) (auto simp: restarted_pods_def endpoints_to_restart_def Let_def)
  note f = endpoints_fold [of "[]" nodes new ?p links]
  have w: "wired_by nodes new (?p @ ?c) l" if "l \<in> set links" for l using f that by blast
  have ch: "\<exists>l \<in> set links. chosen_for nodes new l p" if "p \<in> set ?c" for p using f that by auto
  have p: "p \<notin> set new \<and> p \<notin> set gone \<and> (p \<in> set always \<or> p \<in> set if_qemu \<and> qemu_pod nodes p)" if "p \<in> set ?p" for p
    using that by (auto simp: peers_to_restart_def)
  show ?thesis
  proof (intro conjI ballI)
    fix l assume "l \<in> set links"
    from w [OF this] show "let a = resolve_pod_name (l_node l) nodes; b = resolve_pod_name (l_peer l) nodes in
      a \<noteq> [] \<and> b \<noteq> [] \<and> \<not> (a = external_node_name \<and> b = external_node_name) \<longrightarrow>
      {a, b} \<inter> (set new \<union> set (restarted_pods links nodes always if_qemu new gone)) \<noteq> {}"
      unfolding r wired_by_def Let_def by (auto simp: set_eq_iff)
  next
    show "set new \<inter> set (restarted_pods links nodes always if_qemu new gone) = {}"
      unfolding r using p ch unfolding chosen_for_def Let_def by blast
  next
    fix q assume "q \<in> set (restarted_pods links nodes always if_qemu new gone)"
    then consider "q \<in> set ?p" | "q \<in> set ?c" unfolding r by blast
    then show "(q \<in> set always \<or> q \<in> set if_qemu \<and> qemu_pod nodes q) \<and> q \<notin> set gone \<or>
      (\<exists>l \<in> set links. (q = resolve_pod_name (l_node l) nodes \<or> q = resolve_pod_name (l_peer l) nodes) \<and> q \<noteq> external_node_name \<and>
         resolve_pod_name (l_node l) nodes \<notin> set new \<and> resolve_pod_name (l_peer l) nodes \<notin> set new)"
      by cases (use p ch in \<open>unfold chosen_for_def Let_def, blast+\<close>)
  qed
qed

definition line_nodes :: "node_spec list" where
  "line_nodes = [basic_node ''h'' ''host'' 2, basic_node ''r'' ''router'' 1]"

theorem restarts_wire_new_links_witness:
  "''h-1'' \<in> set (restarted_pods [basic_link ''h-1'' ''eth2'' ''r'' ''eth3''] line_nodes [] [] [] [])"
proof -
  let ?R = "restarted_pods [basic_link ''h-1'' ''eth2'' ''r'' ''eth3''] line_nodes [] [] [] []"
  note c = restarts_wire_new_links [of "[basic_link ''h-1'' ''eth2'' ''r'' ''eth3'']" line_nodes "[]" "[]" "[]" "[]"]
  have r: "resolve_pod_name ''h-1'' line_nodes = ''h-1''" "resolve_pod_name ''r'' line_nodes = ''r-0''"
    "''r-0'' \<notin> set ?R" by code_simp+
  from c have "{''h-1'', ''r-0''} \<inter> set ?R \<noteq> {}"
    by (simp add: basic_link_def r(1,2) Let_def external_node_name_def)
  with r(3) show ?thesis by blast
qed

section \<open>What deleting a node takes with it\<close>

lemma api_call_clean: "kb_faults (cl_kube c) = [] \<Longrightarrow> api_call m c = m c"
  by (simp add: api_call_def kube_fault_def Let_def)

definition core :: "cluster \<Rightarrow> (string \<times> topology) list \<times> (string \<times> stateful_set) list \<times> history \<times> link_row store" where
  "core c = (kb_topos (cl_kube c), cl_sets c, cl_history c, cl_attrs c)"

definition keeps_core :: "(cluster, 'e, 'a) op \<Rightarrow> bool" where
  "keeps_core m \<longleftrightarrow> (\<forall>c. core (snd (m c)) = core c)"

lemma keeps_coreD: "keeps_core m \<Longrightarrow> m c = (r, c') \<Longrightarrow> core c' = core c"
  unfolding keeps_core_def by (metis snd_conv)

lemma keeps_core_ret [intro]: "keeps_core (op_ret a)" by (simp add: keeps_core_def)

lemma keeps_core_bind [intro]: "keeps_core m \<Longrightarrow> (\<And>a. keeps_core (f a)) \<Longrightarrow> keeps_core (op_bind m f)"
  by (auto simp: keeps_core_def op_bind_def split: prod.splits sum.splits) (metis snd_conv)+

lemma keeps_core_best [intro]: "keeps_core m \<Longrightarrow> keeps_core (best_effort m)"
  by (simp add: keeps_core_def best_effort_def)

lemma keeps_core_each [intro]: "(\<And>x. keeps_core (f x)) \<Longrightarrow> keeps_core (op_each f xs)"
  by (induction xs) auto

lemma keeps_core_call: "(\<And>c. core (snd (m c)) = core c) \<Longrightarrow> keeps_core (api_call m)"
  by (auto simp: keeps_core_def core_def api_call_def Let_def split: prod.splits dest!: kube_faultD)

lemma keeps_core_reads [intro]:
  "keeps_core (get_set n)" "keeps_core list_sets" "keeps_core (delete_map m)" "keeps_core (delete_secret m)"
  unfolding get_set_def list_sets_def delete_map_def delete_secret_def
  by (rule keeps_core_call; auto simp: core_def split: option.splits)+

lemma keeps_core_mounts [intro]: "keeps_core (collect_mounts maps secrets)"
proof -
  have "core (snd (collect_mounts maps secrets c)) = core c" for c
  proof (cases "maps = [] \<and> secrets = []")
    case False
    obtain r c1 where l: "list_sets c = (r, c1)" by (cases "list_sets c")
    let ?m = "op_bind (op_each (\<lambda>m. if m = iface_counts_config_map \<or> m \<in> set (sets_in_use r ss_maps) then op_ret ()
        else best_effort (delete_map m)) maps) (\<lambda>_.
        op_each (\<lambda>m. if m \<in> set (sets_in_use r ss_secrets) then op_ret () else best_effort (delete_secret m)) secrets) :: (cluster, modify_error, unit) op"
    have "keeps_core ?m" by (intro keeps_core_bind keeps_core_each) auto
    then have "core (snd (?m c1)) = core c1" by (simp add: keeps_core_def)
    also have "\<dots> = core c" using l by (rule keeps_coreD [OF keeps_core_reads(2)])
    finally show ?thesis using False l by (simp add: collect_mounts_def)
  qed (simp add: collect_mounts_def)
  then show ?thesis by (simp add: keeps_core_def)
qed

lemma delete_set_leaves:
  assumes "delete_set n c = (Inr u, c')"
  shows "kb_topos (cl_kube c') = kb_topos (cl_kube c) \<and> cl_sets c' = AList.delete n (cl_sets c) \<and>
    cl_history c' = cl_history c \<and> cl_attrs c' = cl_attrs c"
proof -
  have d: "map_of (cl_sets c) n = None \<Longrightarrow> AList.delete n (cl_sets c) = cl_sets c"
    by (simp add: map_of_eq_None_iff delete_id)
  show ?thesis
    using assms by (auto simp: delete_set_def api_call_def Let_def d split: prod.splits sum.splits kube_error.splits if_splits dest!: kube_faultD)
qed

lemma delete_topology_attrs: "delete_topology pod c = (r, c') \<Longrightarrow> cl_attrs c' = cl_attrs c"
  by (auto simp: delete_topology_def on_kube_def split: prod.splits sum.splits kube_error.splits)

lemma delete_topologies_map_err:
  assumes "op_each (\<lambda>pod. op_map_err MTopology (delete_topology pod)) pods c = (Inr u, c')"
  shows "op_each delete_topology pods c = (Inr u, c') \<and> cl_attrs c' = cl_attrs c"
  using assms
proof (induction pods arbitrary: c)
  case (Cons p pods)
  then obtain u' c1 where c1: "delete_topology p c = (Inr u', c1)"
    "op_each (\<lambda>pod. op_map_err MTopology (delete_topology pod)) pods c1 = (Inr u, c')"
    by (auto simp: op_bind_Inr op_map_err_Inr)
  with Cons.IH [OF c1(2)] delete_topology_attrs [OF c1(1)] show ?case by (simp add: op_bind_ok)
qed simp

lemma delete_node_leaves:
  assumes "delete_node n c = (Inr u, c')" and "one_listing c"
  shows "topos c' q = (if q \<in> set (pods_of_node n) then None else topos c q) \<and> one_listing c' \<and>
    cl_sets c' = AList.delete (n_name n) (cl_sets c) \<and> cl_history c' = cl_history c \<and> cl_attrs c' = cl_attrs c"
proof -
  obtain r c1 where g: "get_set (n_name n) c = (r, c1)" by (cases "get_set (n_name n) c")
  let ?refs = "\<lambda>f. case r of Inl _ \<Rightarrow> [] | Inr x \<Rightarrow> filter (\<lambda>m. m \<noteq> []) (f x)"
  have g': "core c1 = core c" using g by (rule keeps_coreD [OF keeps_core_reads(1)])
  obtain u1 u2 u3 c2 c3 c4 where
    s: "delete_set (n_name n) c1 = (Inr u1, c2)"
    and t: "op_each (\<lambda>pod. op_map_err MTopology (delete_topology pod)) (pods_of_node n) c2 = (Inr u2, c3)"
    and e: "op_each (\<lambda>m. best_effort (delete_map m)) (?refs ss_env_maps) c3 = (Inr (u3 :: unit) :: modify_error + unit, c4)"
    and m: "collect_mounts (?refs ss_maps) (?refs ss_secrets) c4 = (Inr u, c')"
    using assms(1) g unfolding delete_node_def Let_def by (auto simp: op_bind_Inr)
  have "keeps_core (op_each (\<lambda>m. best_effort (delete_map m) :: (cluster, modify_error, unit) op) (?refs ss_env_maps))" by auto
  from keeps_coreD [OF this e] keeps_coreD [OF keeps_core_mounts m] have c: "core c' = core c3" by simp
  note s = delete_set_leaves [OF s]
  have "one_listing c2" using s g' assms(2) by (simp add: one_listing_def core_def)
  note t = delete_topologies_map_err [OF t] delete_topologies_leave [OF conjunct1 [OF delete_topologies_map_err [OF t]] this]
  show ?thesis using s t c g' by (simp add: core_def one_listing_def)
qed

lemma delete_nodes_leave:
  assumes "op_each (\<lambda>n. delete_node (f n)) ns c = (Inr u, c')" and "one_listing c"
  shows "topos c' q = (if q \<in> (\<Union>n \<in> set ns. set (pods_of_node (f n))) then None else topos c q) \<and> one_listing c' \<and>
    map_of (cl_sets c') s = (if s \<in> (n_name \<circ> f) ` set ns then None else map_of (cl_sets c) s) \<and>
    cl_history c' = cl_history c \<and> cl_attrs c' = cl_attrs c"
  using assms
proof (induction ns arbitrary: c)
  case (Cons n ns)
  then obtain u' c1 where c1: "delete_node (f n) c = (Inr u', c1)" "op_each (\<lambda>n. delete_node (f n)) ns c1 = (Inr u, c')"
    by (auto simp: op_bind_Inr)
  note l = delete_node_leaves [OF c1(1) Cons.prems(2)]
  then have "one_listing c1" by blast
  from Cons.IH [OF c1(2) this] l show ?case by (auto simp: delete_conv')
qed simp

text \<open>What the other StatefulSets mount once the set of a node is gone.\<close>

definition mounted_elsewhere :: "cluster \<Rightarrow> string \<Rightarrow> (stateful_set \<Rightarrow> string list) \<Rightarrow> string set" where
  "mounted_elsewhere c name refs = {m. m \<noteq> [] \<and> (\<exists>(k, x) \<in> set (cl_sets c). k \<noteq> name \<and> m \<in> set (refs x))}"

lemma delete_maps_clean:
  assumes "kb_faults (cl_kube c) = []"
  shows "op_each (\<lambda>m. if P m then op_ret () else best_effort (delete_map m)) ms c =
    (Inr (), c\<lparr>cl_maps := filter (\<lambda>m. P m \<or> m \<notin> set ms) (cl_maps c)\<rparr>)"
  using assms
proof (induction ms arbitrary: c)
  case Nil
  have "filter (\<lambda>m. True) (cl_maps c) = cl_maps c" by (simp add: filter_True)
  then show ?case by simp
next
  case (Cons m ms)
  show ?case
  proof (cases "P m")
    case True
    then have "filter (\<lambda>x. P x \<or> x \<notin> set ms) (cl_maps c) = filter (\<lambda>x. P x \<or> x \<notin> set (m # ms)) (cl_maps c)"
      by (auto intro!: filter_cong)
    with True show ?thesis by (simp add: op_bind_ok Cons)
  next
    case False
    have b: "best_effort (delete_map m) c = (Inr (), c\<lparr>cl_maps := removeAll m (cl_maps c)\<rparr>)"
      by (simp add: best_effort_def delete_map_def api_call_clean [OF Cons.prems])
    have "filter (\<lambda>x. P x \<or> x \<notin> set ms) (removeAll m (cl_maps c)) = filter (\<lambda>x. P x \<or> x \<notin> set (m # ms)) (cl_maps c)"
      using False by (auto simp: removeAll_filter_not_eq intro!: filter_cong)
    then show ?thesis using False Cons.prems by (simp add: op_bind_def b Cons.IH)
  qed
qed

lemma delete_secrets_clean:
  assumes "kb_faults (cl_kube c) = []"
  shows "op_each (\<lambda>m. if P m then op_ret () else best_effort (delete_secret m)) ms c =
    (Inr (), c\<lparr>cl_secrets := filter (\<lambda>m. P m \<or> m \<notin> set ms) (cl_secrets c)\<rparr>)"
  using assms
proof (induction ms arbitrary: c)
  case Nil
  have "filter (\<lambda>m. True) (cl_secrets c) = cl_secrets c" by (simp add: filter_True)
  then show ?case by simp
next
  case (Cons m ms)
  show ?case
  proof (cases "P m")
    case True
    then have "filter (\<lambda>x. P x \<or> x \<notin> set ms) (cl_secrets c) = filter (\<lambda>x. P x \<or> x \<notin> set (m # ms)) (cl_secrets c)"
      by (auto intro!: filter_cong)
    with True show ?thesis by (simp add: op_bind_ok Cons)
  next
    case False
    have b: "best_effort (delete_secret m) c = (Inr (), c\<lparr>cl_secrets := removeAll m (cl_secrets c)\<rparr>)"
      by (simp add: best_effort_def delete_secret_def api_call_clean [OF Cons.prems])
    have "filter (\<lambda>x. P x \<or> x \<notin> set ms) (removeAll m (cl_secrets c)) = filter (\<lambda>x. P x \<or> x \<notin> set (m # ms)) (cl_secrets c)"
      using False by (auto simp: removeAll_filter_not_eq intro!: filter_cong)
    then show ?thesis using False Cons.prems by (simp add: op_bind_def b Cons.IH)
  qed
qed

lemma delete_topologies_clean:
  assumes "kb_faults (cl_kube c) = []"
  shows "\<exists>c'. op_each (\<lambda>pod. op_map_err MTopology (delete_topology pod)) pods c = (Inr (), c') \<and> kb_faults (cl_kube c') = [] \<and>
    cl_sets c' = cl_sets c \<and> cl_maps c' = cl_maps c \<and> cl_secrets c' = cl_secrets c"
  using assms
proof (induction pods arbitrary: c)
  case (Cons p pods)
  obtain c1 where c1: "delete_topology p c = (Inr (), c1)" "kb_faults (cl_kube c1) = []"
    "cl_sets c1 = cl_sets c" "cl_maps c1 = cl_maps c" "cl_secrets c1 = cl_secrets c"
    using Cons.prems
    by (cases "topos c p") (auto simp: delete_topology_def on_kube_def topo_delete_def kube_fault_def Let_def)
  then have "op_map_err MTopology (delete_topology p) c = (Inr (), c1)" by (simp add: op_map_err_Inr)
  with Cons.IH [OF c1(2)] c1(3-5) show ?case by (simp add: op_bind_ok)
qed simp

lemma in_use_elsewhere:
  "m \<in> set (sets_in_use (Inr (AList.delete name (cl_sets c))) refs) \<longleftrightarrow> m \<in> mounted_elsewhere c name refs"
proof -
  have "set (AList.delete name (cl_sets c)) = {kx \<in> set (cl_sets c). fst kx \<noteq> name}"
    by (auto simp: AList.delete_eq)
  then show ?thesis by (auto simp: sets_in_use_def mounted_elsewhere_def Bex_def)
qed

text \<open>
  C39: when no call fails, deleting a node takes the ConfigMaps its containers read their environment
  from, and of the files it mounts exactly the ConfigMaps and Secrets that no other StatefulSet of
  the namespace mounts; the ConfigMap of the interface counts stays.
\<close>

theorem delete_node_frees_unshared:
  assumes "kb_faults (cl_kube c) = []" and "map_of (cl_sets c) (n_name n) = Some x"
  shows "\<exists>c'. delete_node n c = (Inr (), c') \<and>
    (\<forall>m. m \<in> set (cl_maps c') \<longleftrightarrow> m \<in> set (cl_maps c) \<and> \<not> (m \<noteq> [] \<and> (m \<in> set (ss_env_maps x) \<or>
       m \<in> set (ss_maps x) \<and> m \<noteq> iface_counts_config_map \<and> m \<notin> mounted_elsewhere c (n_name n) ss_maps))) \<and>
    (\<forall>m. m \<in> set (cl_secrets c') \<longleftrightarrow> m \<in> set (cl_secrets c) \<and>
       \<not> (m \<noteq> [] \<and> m \<in> set (ss_secrets x) \<and> m \<notin> mounted_elsewhere c (n_name n) ss_secrets))"
proof -
  let ?e = "filter (\<lambda>m. m \<noteq> []) (ss_env_maps x)" and ?m = "filter (\<lambda>m. m \<noteq> []) (ss_maps x)"
    and ?s = "filter (\<lambda>m. m \<noteq> []) (ss_secrets x)"
  let ?sets = "AList.delete (n_name n) (cl_sets c)"
  define c1 where "c1 = c\<lparr>cl_sets := ?sets\<rparr>"
  have g: "get_set (n_name n) c = (Inr x, c)" using assms by (simp add: get_set_def api_call_clean)
  have d: "delete_set (n_name n) c = (Inr (), c1)" using assms by (simp add: delete_set_def api_call_clean c1_def)
  have f1: "kb_faults (cl_kube c1) = []" using assms(1) by (simp add: c1_def)
  obtain c2 where t: "op_each (\<lambda>pod. op_map_err MTopology (delete_topology pod)) (pods_of_node n) c1 = (Inr (), c2)"
    and c2: "kb_faults (cl_kube c2) = []" "cl_sets c2 = ?sets" "cl_maps c2 = cl_maps c" "cl_secrets c2 = cl_secrets c"
    using delete_topologies_clean [OF f1, of "pods_of_node n"] by (auto simp: c1_def)
  define c3 where "c3 = c2\<lparr>cl_maps := filter (\<lambda>m. m \<notin> set ?e) (cl_maps c)\<rparr>"
  have e: "op_each (\<lambda>m. best_effort (delete_map m)) ?e c2 = (Inr (), c3)"
    using delete_maps_clean [OF c2(1), of "\<lambda>_. False" ?e] by (simp add: c3_def c2(3))
  have f3: "kb_faults (cl_kube c3) = []" "cl_sets c3 = ?sets" "cl_secrets c3 = cl_secrets c" by (simp_all add: c3_def c2)
  let ?Pm = "\<lambda>m. m = iface_counts_config_map \<or> m \<in> set (sets_in_use (Inr ?sets) ss_maps)"
  let ?Ps = "\<lambda>m. m \<in> set (sets_in_use (Inr ?sets) ss_secrets)"
  define c4 where "c4 = c3\<lparr>cl_maps := filter (\<lambda>m. ?Pm m \<or> m \<notin> set ?m) (cl_maps c3)\<rparr>"
  define c5 where "c5 = c4\<lparr>cl_secrets := filter (\<lambda>m. ?Ps m \<or> m \<notin> set ?s) (cl_secrets c)\<rparr>"
  note use = in_use_elsewhere [of _ "n_name n" c]
  have "collect_mounts ?m ?s c3 = (Inr (), if ?m = [] \<and> ?s = [] then c3 else c5)"
  proof (cases "?m = [] \<and> ?s = []")
    case False
    have l: "list_sets c3 = (Inr ?sets, c3)" using f3 by (simp add: list_sets_def api_call_clean)
    have 1: "op_each (\<lambda>m. if ?Pm m then op_ret () else best_effort (delete_map m)) ?m c3 = (Inr (), c4)"
      unfolding c4_def by (rule delete_maps_clean [OF f3(1)])
    have "kb_faults (cl_kube c4) = []" "cl_secrets c4 = cl_secrets c" by (simp_all add: c4_def f3)
    then have 2: "op_each (\<lambda>m. if ?Ps m then op_ret () else best_effort (delete_secret m)) ?s c4 = (Inr (), c5)"
      using delete_secrets_clean [of c4 ?Ps ?s] by (simp add: c5_def)
    have "collect_mounts ?m ?s c3 =
        op_bind (op_each (\<lambda>m. if ?Pm m then op_ret () else best_effort (delete_map m)) ?m) (\<lambda>_.
          op_each (\<lambda>m. if ?Ps m then op_ret () else best_effort (delete_secret m)) ?s) c3"
      unfolding collect_mounts_def if_not_P [OF False] l prod.case ..
    also have "\<dots> = (Inr (), c5)" unfolding op_bind_def 1 by (simp only: prod.case sum.case 2)
    finally show ?thesis unfolding if_not_P [OF False] .
  qed (simp add: collect_mounts_def)
  moreover have "delete_node n c = collect_mounts ?m ?s c3"
    unfolding delete_node_def g by (simp add: Let_def op_bind_def d t e)
  ultimately have dn: "delete_node n c = (Inr (), if ?m = [] \<and> ?s = [] then c3 else c5)" by simp
  have s3: "cl_maps c3 = filter (\<lambda>m. m \<notin> set ?e) (cl_maps c)" by (simp add: c3_def)
  have s5: "cl_maps c5 = filter (\<lambda>m. ?Pm m \<or> m \<notin> set ?m) (cl_maps c3)"
    "cl_secrets c5 = filter (\<lambda>m. ?Ps m \<or> m \<notin> set ?s) (cl_secrets c)" by (simp_all add: c4_def c5_def)
  show ?thesis
  proof (intro exI conjI allI, rule dn)
    fix m
    show "m \<in> set (cl_maps (if ?m = [] \<and> ?s = [] then c3 else c5)) \<longleftrightarrow> m \<in> set (cl_maps c) \<and> \<not> (m \<noteq> [] \<and> (m \<in> set (ss_env_maps x) \<or>
       m \<in> set (ss_maps x) \<and> m \<noteq> iface_counts_config_map \<and> m \<notin> mounted_elsewhere c (n_name n) ss_maps))"
      by (cases "?m = [] \<and> ?s = []") (auto simp: s3 s5 use filter_empty_conv)
    show "m \<in> set (cl_secrets (if ?m = [] \<and> ?s = [] then c3 else c5)) \<longleftrightarrow> m \<in> set (cl_secrets c) \<and>
       \<not> (m \<noteq> [] \<and> m \<in> set (ss_secrets x) \<and> m \<notin> mounted_elsewhere c (n_name n) ss_secrets)"
      by (cases "?m = [] \<and> ?s = []") (auto simp: f3 s5 use filter_empty_conv)
  qed
qed

text \<open>Two nodes that mount one file, each with its own environment.\<close>

definition shared_cluster :: "bool list \<Rightarrow> cluster" where
  "shared_cluster faults = star_cluster\<lparr>cl_kube := (cl_kube star_cluster)\<lparr>kb_faults := faults\<rparr>,
     cl_sets := [(''r'', \<lparr>ss_replicas = 1, ss_env_maps = [''r-env''], ss_maps = [''file-a'', ''file-b''], ss_secrets = []\<rparr>),
                 (''h'', \<lparr>ss_replicas = 2, ss_env_maps = [''h-env''], ss_maps = [''file-a''], ss_secrets = []\<rparr>)],
     cl_maps := [''r-env'', ''h-env'', ''file-a'', ''file-b'']\<rparr>"

theorem delete_node_frees_unshared_witness:
  "let c' = snd (delete_node (basic_node ''r'' ''router'' 1) (shared_cluster [])) in
     ''file-a'' \<in> set (cl_maps c') \<and> ''file-b'' \<notin> set (cl_maps c') \<and> ''r-env'' \<notin> set (cl_maps c')"
proof -
  let ?x = "\<lparr>ss_replicas = 1, ss_env_maps = [''r-env''], ss_maps = [''file-a'', ''file-b''], ss_secrets = []\<rparr>"
  have "kb_faults (cl_kube (shared_cluster [])) = []" "map_of (cl_sets (shared_cluster [])) (n_name (basic_node ''r'' ''router'' 1)) = Some ?x"
    by (simp_all add: shared_cluster_def basic_node_def)
  then obtain c' where r: "delete_node (basic_node ''r'' ''router'' 1) (shared_cluster []) = (Inr (), c')"
    and m: "\<forall>m. m \<in> set (cl_maps c') \<longleftrightarrow> m \<in> set (cl_maps (shared_cluster [])) \<and> \<not> (m \<noteq> [] \<and> (m \<in> set (ss_env_maps ?x) \<or>
       m \<in> set (ss_maps ?x) \<and> m \<noteq> iface_counts_config_map \<and> m \<notin> mounted_elsewhere (shared_cluster []) (n_name (basic_node ''r'' ''router'' 1)) ss_maps))"
    using delete_node_frees_unshared by blast
  have e: "''file-a'' \<in> mounted_elsewhere (shared_cluster []) (n_name (basic_node ''r'' ''router'' 1)) ss_maps"
    "''file-b'' \<notin> mounted_elsewhere (shared_cluster []) (n_name (basic_node ''r'' ''router'' 1)) ss_maps"
    by (auto simp: mounted_elsewhere_def shared_cluster_def basic_node_def)
  have "cl_maps (shared_cluster []) = [''r-env'', ''h-env'', ''file-a'', ''file-b'']" by (simp add: shared_cluster_def)
  then have "''file-a'' \<in> set (cl_maps c')" "''file-b'' \<notin> set (cl_maps c')" "''r-env'' \<notin> set (cl_maps c')"
    unfolding m [rule_format] using e by (simp_all add: iface_counts_config_map_def)
  with r show ?thesis by (simp add: Let_def)
qed

text \<open>
  When the list of the StatefulSets left fails, which is not reported, every file the deleted
  node mounted is deleted, here one that a node of the namespace still mounts.
\<close>

theorem failed_list_frees_shared_mounts:
  "let (r, c') = delete_node (basic_node ''r'' ''router'' 1) (shared_cluster [False, False, False, False, True]) in
     r = Inr () \<and> ''file-a'' \<notin> set (cl_maps c') \<and>
     map_of (cl_sets c') ''h'' \<noteq> None \<and> ''file-a'' \<in> set (ss_maps (the (map_of (cl_sets c') ''h'')))"
  by code_simp

section \<open>What the delete phase leaves\<close>

lemma remove_specific_keeps_listing:
  assumes "remove_specific_links eo links nodes k = (Inr t, k')" and "distinct (map fst (kb_topos k))"
  shows "distinct (map fst (kb_topos k'))"
  using assms(1) [unfolded remove_specific_links_def] assms(2)
  by (rule op_touch_invariant)
    (auto simp: remove_specific_step_def Let_def op_bind_Inr op_map_err_Inr distinct_update
      split: if_splits prod.splits dest!: topo_update_Inr topo_get_Inr)

lemma validate_delete_keeps:
  assumes "validate_delete_links_exist eo links nodes k = (Inr u, k')"
  shows "kb_topos k' = kb_topos k"
  by (rule op_each_invariant [OF assms [unfolded validate_delete_links_exist_def], of "\<lambda>k'. kb_topos k' = kb_topos k"])
    (auto simp: op_bind_Inr op_map_err_Inr Let_def dest!: topo_get_Inr split: option.splits)

text \<open>What becomes of the links of a surviving pod.\<close>

definition kept_links :: "link_spec list \<Rightarrow> node_spec list \<Rightarrow> string set \<Rightarrow> string \<Rightarrow> topology \<Rightarrow> crd_link list" where
  "kept_links links nodes gone q t =
     filter (\<lambda>e. \<not> named_by links nodes q e \<and> c_peer_pod e \<notin> gone) (links_of t)"

lemma filter_changes: "filter P xs \<noteq> xs \<longleftrightarrow> (\<exists>x \<in> set xs. \<not> P x)"
  by (metis filter_id_conv)

lemma delete_links_phase_leaves:
  assumes "delete_links_phase eo ns links nodes c = (Inr t, c')" and "one_listing c" and "permutes eo"
  shows "map_option links_of (topos c' q) =
      map_option (\<lambda>x. filter (\<lambda>e. \<not> named_by links nodes q e) (links_of x)) (topos c q) \<and>
    (q \<in> set t \<longleftrightarrow> (\<exists>x e. topos c q = Some x \<and> e \<in> set (links_of x) \<and> named_by links nodes q e)) \<and>
    one_listing c' \<and> cl_sets c' = cl_sets c \<and> cl_history c' = cl_history c"
proof (cases "links = []")
  case True
  then have "c' = c" "t = []" using assms(1) by (auto simp: delete_links_phase_def)
  moreover have "\<not> named_by links nodes q e" for e
    using True by (simp add: named_by_def)
  ultimately show ?thesis using assms(2) by simp
next
  case False
  then obtain k u where r: "remove_specific_links eo links nodes (cl_kube c) = (Inr t, k)"
    and b: "best_effort (on_attrs (delete_link_attributes_for_links ns links nodes)) (c\<lparr>cl_kube := k\<rparr>) = (Inr u :: modify_error + unit, c')"
    using assms(1) by (auto simp: delete_links_phase_def op_bind_Inr op_map_err_Inr on_kube_Inr)
  have c': "cl_kube c' = k" "cl_sets c' = cl_sets c" "cl_history c' = cl_history c"
    using b by (auto simp: best_effort_def on_attrs_def split: prod.splits)
  from remove_specific_view [OF r assms(3), of q, unfolded doomed_named_by] remove_specific_keeps_listing [OF r] assms(2) c' show ?thesis
    by (simp add: one_listing_def)
qed

lemma remove_deleted_phase_leaves:
  assumes "(if gone = [] then op_ret [] else op_map_err MRemove (on_kube (remove_links_referencing_deleted_pods gone))) c = (Inr t, c')"
    and "one_listing c"
  shows "map_option links_of (topos c' q) =
      map_option (\<lambda>x. filter (\<lambda>e. q \<in> set gone \<or> c_peer_pod e \<notin> set gone) (links_of x)) (topos c q) \<and>
    (q \<in> set t \<longleftrightarrow> q \<notin> set gone \<and> (\<exists>x e. topos c q = Some x \<and> e \<in> set (links_of x) \<and> c_peer_pod e \<in> set gone)) \<and>
    one_listing c' \<and> cl_sets c' = cl_sets c \<and> cl_history c' = cl_history c"
proof (cases "gone = []")
  case True
  then have "c' = c" "t = []" using assms(1) by auto
  with True assms(2) show ?thesis by simp
next
  case False
  then obtain k where r: "remove_links_referencing_deleted_pods gone (cl_kube c) = (Inr t, k)" and c': "c' = c\<lparr>cl_kube := k\<rparr>"
    using assms(1) by (auto simp: op_map_err_Inr on_kube_Inr)
  have d: "distinct (map fst (kb_topos (cl_kube c)))" using assms(2) by (simp add: one_listing_def)
  from remove_deleted_view [OF r d, of q] remove_deleted_keeps_listing [OF r d] c' show ?thesis
    by (simp add: one_listing_def)
qed

text \<open>A run of the delete phase that succeeds, cut into its steps.\<close>

lemma delete_phase_steps:
  assumes "apply_delete_on_existing_topology eo so ns names links nodes c = (Inr (touched, deleted), c')"
    and "\<not> (names = [] \<and> links = [])"
  obtains ds t1 t2 u1 u2 c1 c2 c3 c4 c5 where
    "delete_names nodes [] names = Inr ds" and "validate_links_for_modify links nodes = None"
    and "kb_topos (cl_kube c1) = kb_topos (cl_kube c)" and "cl_sets c1 = cl_sets c" and "cl_history c1 = cl_history c"
    and "delete_links_phase eo ns links nodes c1 = (Inr t1, c2)"
    and "(if pods_of_names nodes ds = [] then op_ret []
          else op_map_err MRemove (on_kube (remove_links_referencing_deleted_pods (pods_of_names nodes ds)))) c2 = (Inr t2, c3)"
    and "op_each (\<lambda>n. delete_node (the (nodes_by_name nodes n))) (so ds) c3 = (Inr u1, c4)"
    and "op_each (\<lambda>pod. op_map_err (MHistory pod) (on_history (delete_driver_operation_history_for_pod ns pod)))
          (so (pods_of_names nodes ds)) c4 = (Inr u2, c5)"
    and "kb_topos (cl_kube c') = kb_topos (cl_kube c5)" and "cl_sets c' = cl_sets c5" and "cl_history c' = cl_history c5"
    and "set touched = (set t1 \<union> set t2) - set (pods_of_names nodes ds)" and "set deleted = set ds"
proof -
  let ?A = "\<lambda>ds t1 t2. (sort_strings (filter (\<lambda>p. p \<notin> set (pods_of_names nodes ds)) (fold add_new t2 (fold add_new t1 []))), sort_strings ds)"
  have "op_bind (op_lift (delete_names nodes [] names)) (\<lambda>doomed_nodes.
      op_bind (op_lift (case validate_links_for_modify links nodes of Some e \<Rightarrow> Inl (MLinks e) | None \<Rightarrow> Inr ())) (\<lambda>_.
      op_bind (if links = [] then op_ret ()
               else op_map_err MLinkNotThere (on_kube (validate_delete_links_exist eo links nodes))) (\<lambda>_.
      op_bind (delete_links_phase eo ns links nodes) (\<lambda>t1.
      op_bind (if pods_of_names nodes doomed_nodes = [] then op_ret []
               else op_map_err MRemove (on_kube (remove_links_referencing_deleted_pods (pods_of_names nodes doomed_nodes)))) (\<lambda>t2.
      op_bind (op_each (\<lambda>n. delete_node (the (nodes_by_name nodes n))) (so doomed_nodes)) (\<lambda>_.
      op_bind (op_each (\<lambda>pod. op_map_err (MHistory pod)
                 (on_history (delete_driver_operation_history_for_pod ns pod))) (so (pods_of_names nodes doomed_nodes))) (\<lambda>_.
      op_bind (if pods_of_names nodes doomed_nodes = [] then op_ret ()
               else best_effort (on_attrs (delete_link_attributes_for_pods ns (so (pods_of_names nodes doomed_nodes))))) (\<lambda>_.
      op_ret (?A doomed_nodes t1 t2))))))))) c = (Inr (touched, deleted), c')"
    using assms unfolding apply_delete_on_existing_topology_def Let_def by (simp only: if_False)
  then obtain ds s0 u s1 v c1 t1 c2 t2 c3 u1 c4 u2 c5 w c6 where
    1: "op_lift (delete_names nodes [] names) c = (Inr ds :: modify_error + string list, s0)"
    and 2: "op_lift (case validate_links_for_modify links nodes of Some e \<Rightarrow> Inl (MLinks e) | None \<Rightarrow> Inr ()) s0 = (Inr u, s1)"
    and 3: "(if links = [] then op_ret () else op_map_err MLinkNotThere (on_kube (validate_delete_links_exist eo links nodes))) s1 = (Inr v, c1)"
    and 4: "delete_links_phase eo ns links nodes c1 = (Inr t1, c2)"
    and 5: "(if pods_of_names nodes ds = [] then op_ret []
          else op_map_err MRemove (on_kube (remove_links_referencing_deleted_pods (pods_of_names nodes ds)))) c2 = (Inr t2, c3)"
    and 6: "op_each (\<lambda>n. delete_node (the (nodes_by_name nodes n))) (so ds) c3 = (Inr u1, c4)"
    and 7: "op_each (\<lambda>pod. op_map_err (MHistory pod) (on_history (delete_driver_operation_history_for_pod ns pod)))
          (so (pods_of_names nodes ds)) c4 = (Inr u2, c5)"
    and 8: "(if pods_of_names nodes ds = [] then op_ret ()
          else best_effort (on_attrs (delete_link_attributes_for_pods ns (so (pods_of_names nodes ds))))) c5 = (Inr w :: modify_error + unit, c6)"
    and 9: "op_ret (?A ds t1 t2) c6 = (Inr (touched, deleted) :: modify_error + string list \<times> string list, c')"
    unfolding op_bind_Inr by blast
  have s: "s0 = c" "delete_names nodes [] names = Inr ds" "s1 = c" "validate_links_for_modify links nodes = None"
    using 1 2 by (auto split: option.splits)
  have c1: "kb_topos (cl_kube c1) = kb_topos (cl_kube c)" "cl_sets c1 = cl_sets c" "cl_history c1 = cl_history c"
    using 3 s(3) by (auto simp: op_map_err_Inr on_kube_Inr split: if_splits dest: validate_delete_keeps)
  have c6: "kb_topos (cl_kube c6) = kb_topos (cl_kube c5)" "cl_sets c6 = cl_sets c5" "cl_history c6 = cl_history c5"
    using 8 by (auto simp: best_effort_def on_attrs_def split: if_splits prod.splits)
  have e: "c' = c6" "?A ds t1 t2 = (touched, deleted)" using 9 by simp_all
  have "kb_topos (cl_kube c') = kb_topos (cl_kube c5)" "cl_sets c' = cl_sets c5" "cl_history c' = cl_history c5"
    unfolding e(1) by (rule c6)+
  moreover have "set touched = (set t1 \<union> set t2) - set (pods_of_names nodes ds)" "set deleted = set ds"
    using e(2) by auto
  ultimately show thesis by (rule that [OF s(2,4) c1 4 5 6 7])
qed

lemma delete_histories_map_err:
  "op_each (\<lambda>pod. op_map_err (MHistory pod) (on_history (delete_driver_operation_history_for_pod ns pod))) pods c = (Inr u, c') \<Longrightarrow>
   op_each (\<lambda>pod. op_map_err (SHistory pod) (on_history (delete_driver_operation_history_for_pod ns pod))) pods c = (Inr u, c')"
  by (induction pods arbitrary: c) (auto simp: op_bind_Inr op_map_err_Inr)

lemma delete_names_set: "delete_names nodes acc names = Inr ds \<Longrightarrow> set ds = set acc \<union> trim_space ` set names"
  by (induction names arbitrary: acc) (auto simp: Let_def split: if_splits)

lemma delete_names_known:
  assumes "delete_names nodes acc names = Inr ds" and "\<forall>n \<in> set acc. nodes_by_name nodes n \<noteq> None"
  shows "\<forall>n \<in> set ds. nodes_by_name nodes n \<noteq> None"
  using assms
proof (induction names arbitrary: acc)
  case (Cons x names)
  let ?n = "trim_space x"
  have k: "nodes_by_name nodes ?n \<noteq> None" and r: "delete_names nodes (add_new ?n acc) names = Inr ds"
    using Cons.prems(1) by (simp_all add: Let_def split: if_splits)
  have "\<forall>n \<in> set (add_new ?n acc). nodes_by_name nodes n \<noteq> None" using Cons.prems(2) k by (simp only: set_add_new) blast
  with Cons.IH r show ?case by blast
qed simp

text \<open>
  C37: a delete phase that succeeds deletes the nodes it names and the links it names, whatever
  order Go iterates its maps in: the StatefulSets of the nodes are gone and no other, so are the
  Topologies and the history of their pods; a surviving pod keeps, in their order, exactly the
  entries that neither are of a link of the request nor point to a deleted pod; and the pods
  reported as touched, which the handler restarts, are the survivors whose links changed.
\<close>

theorem delete_phase_exact:
  assumes ok: "apply_delete_on_existing_topology eo so ns names links nodes c = (Inr (touched, deleted), c')"
    and "distinct (map fst (kb_topos (cl_kube c)))" and "permutes eo" and "permutes so"
  shows "let gone = \<Union>n \<in> trim_space ` set names. set (pods_of_node (the (nodes_by_name nodes n))) in
    set deleted = trim_space ` set names \<and>
    map_option links_of (topos c' q) = (if q \<in> gone then None else map_option (kept_links links nodes gone q) (topos c q)) \<and>
    map_of (cl_sets c') s = (if s \<in> set deleted then None else map_of (cl_sets c) s) \<and>
    ops_of c' = filter (\<lambda>r. \<not> (Some (o_cluster r) = cluster_id c \<and> o_ns r = ns \<and> o_pod r \<in> gone)) (ops_of c) \<and>
    (q \<in> set touched \<longleftrightarrow> q \<notin> gone \<and> map_option links_of (topos c' q) \<noteq> map_option links_of (topos c q))"
proof (cases "names = [] \<and> links = []")
  case True
  then have "c' = c" "touched = []" "deleted = []" using ok by (auto simp: apply_delete_on_existing_topology_def)
  moreover have "kept_links [] nodes {} q = links_of"
    by (simp add: kept_links_def fun_eq_iff named_by_def)
  ultimately show ?thesis using True by simp
next
  case False
  obtain ds t1 t2 u1 u2 c1 c2 c3 c4 c5 where
    ds: "delete_names nodes [] names = Inr ds"
    and c1: "kb_topos (cl_kube c1) = kb_topos (cl_kube c)" "cl_sets c1 = cl_sets c" "cl_history c1 = cl_history c"
    and l: "delete_links_phase eo ns links nodes c1 = (Inr t1, c2)"
    and r: "(if pods_of_names nodes ds = [] then op_ret []
          else op_map_err MRemove (on_kube (remove_links_referencing_deleted_pods (pods_of_names nodes ds)))) c2 = (Inr t2, c3)"
    and n: "op_each (\<lambda>n. delete_node (the (nodes_by_name nodes n))) (so ds) c3 = (Inr u1, c4)"
    and h: "op_each (\<lambda>pod. op_map_err (MHistory pod) (on_history (delete_driver_operation_history_for_pod ns pod)))
          (so (pods_of_names nodes ds)) c4 = (Inr u2, c5)"
    and c': "kb_topos (cl_kube c') = kb_topos (cl_kube c5)" "cl_sets c' = cl_sets c5" "cl_history c' = cl_history c5"
    and t: "set touched = (set t1 \<union> set t2) - set (pods_of_names nodes ds)" "set deleted = set ds"
    by (rule delete_phase_steps [OF ok False])
  let ?G = "set (pods_of_names nodes ds)" and ?bad = "named_by links nodes"
  have names: "set ds = trim_space ` set names" using delete_names_set [OF ds] by simp
  have known: "\<forall>n \<in> set ds. nodes_by_name nodes n \<noteq> None" using delete_names_known [OF ds] by simp
  have G: "(\<Union>n \<in> trim_space ` set names. set (pods_of_node (the (nodes_by_name nodes n)))) = ?G"
    by (simp add: pods_of_names_def names [symmetric])
  have o1: "one_listing c1" using c1 assms(2) by (simp add: one_listing_def)
  note l = delete_links_phase_leaves [OF l o1 assms(3), of q]
  then have o2: "one_listing c2" by blast
  note r = remove_deleted_phase_leaves [OF r o2, of q]
  then have o3: "one_listing c3" by blast
  note n = delete_nodes_leave [OF n o3, of q s]
  note h = delete_histories_leave [OF delete_histories_map_err [OF h], unfolded permutes_set [OF assms(4)]]
  have so: "set (so ds) = set ds" by (rule permutes_set [OF assms(4)])
  have gq: "q \<in> (\<Union>n \<in> set (so ds). set (pods_of_node (the (nodes_by_name nodes n)))) \<longleftrightarrow> q \<in> ?G"
    by (simp add: so pods_of_names_def)
  have nn: "(n_name \<circ> (\<lambda>n. the (nodes_by_name nodes n))) ` set (so ds) = set ds"
    unfolding so using known nodes_by_name_SomeD by force
  have tq: "topos c' q = (if q \<in> ?G then None else topos c3 q)" using n h c' unfolding gq by simp
  have k2: "map_option links_of (topos c2 q) = map_option (\<lambda>x. filter (\<lambda>e. \<not> ?bad q e) (links_of x)) (topos c q)"
    using l c1 by simp
  have k: "map_option links_of (topos c' q) = (if q \<in> ?G then None else map_option (kept_links links nodes ?G q) (topos c q))"
  proof (cases "q \<in> ?G")
    case False
    then have "map_option links_of (topos c' q) = map_option (filter (\<lambda>e. c_peer_pod e \<notin> ?G)) (map_option links_of (topos c2 q))"
      using r tq by (simp add: option.map_comp o_def)
    also have "\<dots> = map_option (kept_links links nodes ?G q) (topos c q)"
      unfolding k2 by (cases "topos c q") (auto simp: kept_links_def intro!: filter_cong)
    finally show ?thesis using False by simp
  qed (simp add: tq)
  have kn: "kept_links links nodes ?G q x \<noteq> links_of x \<longleftrightarrow> (\<exists>e \<in> set (links_of x). ?bad q e \<or> c_peer_pod e \<in> ?G)" for x
    unfolding kept_links_def filter_changes by blast
  have tt: "q \<in> set touched \<longleftrightarrow> q \<notin> ?G \<and> map_option links_of (topos c' q) \<noteq> map_option links_of (topos c q)"
  proof (cases "q \<in> ?G")
    case False
    have "q \<in> set t1 \<longleftrightarrow> (\<exists>x e. topos c q = Some x \<and> e \<in> set (links_of x) \<and> ?bad q e)" using l c1 by simp
    moreover have "q \<in> set t2 \<longleftrightarrow> (\<exists>x e. topos c2 q = Some x \<and> e \<in> set (links_of x) \<and> c_peer_pod e \<in> ?G)" using r False by blast
    moreover have "(\<exists>x e. topos c2 q = Some x \<and> e \<in> set (links_of x) \<and> c_peer_pod e \<in> ?G) \<longleftrightarrow>
        (\<exists>x e. topos c q = Some x \<and> e \<in> set (links_of x) \<and> \<not> ?bad q e \<and> c_peer_pod e \<in> ?G)"
      using k2 by (cases "topos c2 q"; cases "topos c q") auto
    moreover have "map_option links_of (topos c' q) \<noteq> map_option links_of (topos c q) \<longleftrightarrow>
        (\<exists>x. topos c q = Some x \<and> kept_links links nodes ?G q x \<noteq> links_of x)"
      unfolding k using False by (cases "topos c q") auto
    ultimately show ?thesis using False unfolding t(1) kn by blast
  qed (simp add: t(1))
  have "map_of (cl_sets c') s = (if s \<in> set deleted then None else map_of (cl_sets c) s)"
    using n h c' l r c1 t(2) unfolding nn by simp
  moreover have "ops_of c' = filter (\<lambda>r. \<not> (Some (o_cluster r) = cluster_id c \<and> o_ns r = ns \<and> o_pod r \<in> ?G)) (ops_of c)"
    using n h c' l r c1 by (simp add: history_of_def)
  ultimately show ?thesis unfolding Let_def G using k tt t(2) names by blast
qed

theorem delete_phase_exact_witness:
  "let r = apply_delete_on_existing_topology rev rev ''lab'' ['' r ''] [hd star_links] star_nodes star_cluster in
     fst r = Inr ([''h-0'', ''h-1''], [''r'']) \<and> topos (snd r) ''r-0'' = None \<and>
     map_option links_of (topos (snd r) ''h-1'') = Some [] \<and> map o_id (ops_of (snd r)) = [1, 2]"
proof -
  let ?r = "apply_delete_on_existing_topology rev rev ''lab'' ['' r ''] [hd star_links] star_nodes star_cluster"
  have r: "?r = (Inr ([''h-0'', ''h-1''], [''r'']), snd ?r)" by code_simp
  have d: "distinct (map fst (kb_topos (cl_kube star_cluster)))" and p: "permutes rev" by (code_simp, simp add: permutes_def)
  note e = delete_phase_exact [OF r d p p, unfolded Let_def]
  have g: "(\<Union>n \<in> trim_space ` set ['' r '']. set (pods_of_node (the (nodes_by_name star_nodes n)))) = {''r-0''}"
  proof -
    have "trim_space '' r '' = ''r''" "pods_of_node (the (nodes_by_name star_nodes ''r'')) = [''r-0'']" by code_simp+
    then show ?thesis by simp
  qed
  have "ops_of (snd ?r) = filter (\<lambda>r. \<not> (Some (o_cluster r) = cluster_id star_cluster \<and> o_ns r = ''lab'' \<and> o_pod r \<in> {''r-0''})) (ops_of star_cluster)"
    using e unfolding g by blast
  also have "\<dots> = ops_of star_cluster" by (rule filter_True) (auto simp: star_cluster_def star_history_def)
  finally have o: "map o_id (ops_of (snd ?r)) = [1, 2]" by (simp add: star_cluster_def star_history_def)
  have "map_option links_of (topos (snd ?r) ''r-0'') = (if ''r-0'' \<in> {''r-0''} then None
      else map_option (kept_links [hd star_links] star_nodes {''r-0''} ''r-0'') (topos star_cluster ''r-0''))"
    using e [of "''r-0''"] unfolding g by blast
  then have t: "topos (snd ?r) ''r-0'' = None" by simp
  have "map_option links_of (topos (snd ?r) ''h-1'') = (if ''h-1'' \<in> {''r-0''} then None
      else map_option (kept_links [hd star_links] star_nodes {''r-0''} ''h-1'') (topos star_cluster ''h-1''))"
    using e [of "''h-1''"] unfolding g by blast
  also have "\<dots> = map_option (kept_links [hd star_links] star_nodes {''r-0''} ''h-1'') (topos star_cluster ''h-1'')" by simp
  also have "\<dots> = Some []"
  proof -
    obtain x where x: "topos star_cluster ''h-1'' = Some x" "map c_peer_pod (links_of x) = [''r-0'']"
    proof
      show "topos star_cluster ''h-1'' = Some (the (topos star_cluster ''h-1''))" by code_simp
      show "map c_peer_pod (links_of (the (topos star_cluster ''h-1''))) = [''r-0'']" by code_simp
    qed
    then show ?thesis by (auto simp: kept_links_def filter_empty_conv)
  qed
  finally have h: "map_option links_of (topos (snd ?r) ''h-1'') = Some []" .
  have "fst ?r = Inr ([''h-0'', ''h-1''], [''r''])" using r by (metis fst_conv)
  with o t h show ?thesis by (simp add: Let_def)
qed

section \<open>Declared attributes and scaling\<close>

lemma scale_ups_consume:
  "scale_ups_from order rnd links nodes cr to co plans c = (Inr (created, touched, consumed), c') \<Longrightarrow>
     set consumed = set co \<union> (\<Union>p \<in> set plans. set (consumed_of nodes links p))"
  by (induction plans arbitrary: c cr to co) (auto simp: op_bind_Inr)

lemma saved_rows_ends:
  "r \<in> set (fold (put_row cid ns nodes) links rows) \<Longrightarrow>
     r \<in> set rows \<or> (\<exists>l \<in> set links. (lr_node r, lr_intf r) = first_end nodes l)"
proof (induction links arbitrary: rows)
  case (Cons l links)
  then consider "r \<in> set (put_row cid ns nodes l rows)" | "\<exists>l \<in> set links. (lr_node r, lr_intf r) = first_end nodes l"
    by auto
  then show ?case
  proof cases
    case 1
    then have "r \<in> set rows \<or> r = row_of cid ns nodes l" by (auto simp: put_row_def split: if_splits)
    then show ?thesis using row_of_end [of cid ns nodes l] by auto
  qed auto
qed simp

text \<open>
  C40: what a request declares on a link that a scale-up writes is lost. The handler takes the links
  that involve a new pod out of the request once they are written, and what it saves and applies
  later are the links that are left: the link is not among them, and no row of the table of link
  attributes holds it when none did before.
\<close>

theorem scale_up_links_lose_attributes:
  assumes "apply_scale_ups order rnd plans links nodes c = (Inr (created, touched, consumed), c')"
    and "l \<in> set links" and "l_uid l \<noteq> None" and "p \<in> set plans" and "involves nodes (new_pods_of p) l"
    and "save_link_attributes ns (drop_consumed consumed links) nodes t = (Inr (), t')"
    and "distinct (map (first_end nodes) links)" and "\<forall>r \<in> set (st_rows t). (lr_node r, lr_intf r) \<noteq> first_end nodes l"
  shows "l \<notin> set (drop_consumed consumed links) \<and> (\<forall>r \<in> set (st_rows t'). (lr_node r, lr_intf r) \<noteq> first_end nodes l)"
proof -
  obtain u where u: "l_uid l = Some u" using assms(3) by auto
  have "plans \<noteq> []" using assms(4) by auto
  then have "scale_ups_from order rnd links nodes [] [] [] plans c = (Inr (created, touched, consumed), c')"
    using assms(1) by (simp add: apply_scale_ups_def)
  from scale_ups_consume [OF this] assms(4) have "set (consumed_of nodes links p) \<subseteq> set consumed" by auto
  moreover have "u \<in> set (consumed_of nodes links p)" using assms(2,5) u by (force simp: consumed_of_def)
  ultimately have d: "l \<notin> set (drop_consumed consumed links)" using u by (auto simp: drop_consumed_def)
  obtain cid where "op_each (\<lambda>l. db_exec ''save'' (put_row cid ns nodes l)) (drop_consumed consumed links) t = (Inr (), t')"
    using assms(6) by (auto simp: save_link_attributes_def op_bind_Inr)
  from op_each_exec_rows [OF this] have rows: "st_rows t' = fold (put_row cid ns nodes) (drop_consumed consumed links) (st_rows t)" .
  have "first_end nodes l' \<noteq> first_end nodes l" if "l' \<in> set (drop_consumed consumed links)" for l'
  proof
    assume e: "first_end nodes l' = first_end nodes l"
    have "l' \<in> set links" using that by (auto simp: drop_consumed_def)
    with e assms(2,7) have "l' = l" by (metis distinct_map inj_onD)
    with that d show False by simp
  qed
  then have "\<forall>r \<in> set (st_rows t'). (lr_node r, lr_intf r) \<noteq> first_end nodes l"
    unfolding rows using saved_rows_ends assms(8) by metis
  with d show ?thesis by blast
qed

definition slow_link :: link_spec where
  "slow_link = (basic_link ''h-2'' ''eth1'' ''r'' ''eth3'')\<lparr>l_uid := Some 9, l_delay := ''50ms''\<rparr>"

definition grow_h :: scale_plan where
  "grow_h = \<lparr>p_node = basic_node ''h'' ''host'' 2, p_current = 2, p_new = 3\<rparr>"

theorem scale_up_links_lose_attributes_witness:
  "let nodes = [basic_node ''h'' ''host'' 3, basic_node ''r'' ''router'' 1];
       consumed = snd (snd (projr (fst (apply_scale_ups rev (\<lambda>_ _. 0) [grow_h] [slow_link] nodes star_cluster)))) in
   slow_link \<notin> set (drop_consumed consumed [slow_link]) \<and> \<not> attrs_empty (attrs_of slow_link)"
proof -
  let ?n = "[basic_node ''h'' ''host'' 3, basic_node ''r'' ''router'' 1]"
  let ?r = "apply_scale_ups rev (\<lambda>_ _. 0) [grow_h] [slow_link] ?n star_cluster"
  have r: "?r = (Inr ([''h-2''], [''r-0''], snd (snd (projr (fst ?r)))), snd ?r)" by code_simp
  have i: "involves ?n (new_pods_of grow_h) slow_link" by code_simp
  have s: "save_link_attributes ''lab'' (drop_consumed (snd (snd (projr (fst ?r)))) [slow_link]) ?n empty_table = (Inr (), empty_table)"
    by code_simp
  have u: "l_uid slow_link \<noteq> None" by (simp add: slow_link_def)
  have e: "\<forall>r \<in> set (st_rows empty_table). (lr_node r, lr_intf r) \<noteq> first_end ?n slow_link" by (simp add: empty_table_def)
  have "slow_link \<notin> set (drop_consumed (snd (snd (projr (fst ?r)))) [slow_link])"
    using scale_up_links_lose_attributes [OF r _ u _ i s _ e] by simp
  moreover have "\<not> attrs_empty (attrs_of slow_link)" by code_simp
  ultimately show ?thesis by (simp add: Let_def)
qed

text \<open>
  A scale-down keeps the attributes of the links it removes: a new link on the interface a survivor
  had towards a removed pod, which declares nothing, reads back with those of the old one.
\<close>

theorem scale_down_leaves_attributes:
  "let old = (basic_link ''h-1'' ''eth1'' ''r'' ''eth2'')\<lparr>l_delay := ''50ms''\<rparr>; new = basic_link ''r'' ''eth2'' ''h-0'' ''eth2'';
       c = star_cluster\<lparr>cl_attrs := snd (save_link_attributes ''lab'' [old] star_nodes empty_table)\<rparr>;
       (r, c') = apply_scale_downs rev ''lab'' [shrink_h] c;
       after = [basic_node ''h'' ''host'' 1, basic_node ''r'' ''router'' 1];
       t = snd (save_link_attributes ''lab'' [new] after (cl_attrs c'));
       m = projr (fst (load_link_attributes ''lab'' t)) in
   r = Inr ([''r-0''], [''h-1'']) \<and> l_delay new = [] \<and> l_delay (fill_link_attributes m ''r-0'' ''h-0'' new) = ''50ms''"
  by code_simp

text \<open>A name with a blank is compared as it is with the scale section and trimmed by the delete phase.\<close>

lemma blank_name_scaled_and_deleted:
  "\<exists>p. build_scale_plans [\<lparr>s_name = ''host'', s_replicas = 1\<rparr>] lab_nodes [] ['' host''] = Inr [p] \<and>
     delete_names lab_nodes [] ['' host''] = Inr [''host'']"
proof -
  have "build_scale_plans [\<lparr>s_name = ''host'', s_replicas = 1\<rparr>] lab_nodes [] ['' host''] =
      Inr [\<lparr>p_node = hd lab_nodes, p_current = 3, p_new = 1\<rparr>]" by code_simp
  moreover have "delete_names lab_nodes [] ['' host''] = Inr [''host'']" by code_simp
  ultimately show ?thesis by blast
qed

end
