(* ===== verification/Spec2Isabelle.thy ===== *)
theory Spec2Isabelle
  imports Namespace_Lock Action_Run Shaping_Trees Login_Limit Driver_Commands Link_MTU Network_Modify
begin

text \<open>
  KubeNDT: emulated networks on Kubernetes. A request describes nodes and links; the backend
  (\<open>src/backend\<close>, Go) validates it, resolves a driver for each node, writes one Topology
  resource per pod for the wiring controller, and configures pods through typed actions whose
  history it keeps and replays after a restart.

  \<^bold>\<open>Theories\<close>, each opening with what it models:
  \<^item> \<open>Go_Prelude\<close>: strings, \<open>strconv\<close>, sets and maps of Go as the code uses them, loops that
    stop at an error. \<open>Net_Addr\<close>: \<open>net.ParseIP\<close> and \<open>net.ParseCIDR\<close>.
  \<^item> \<open>Topology_Types\<close>, \<open>Pod_Names\<close>: the request (\<open>types/\<close>) and how its names resolve to pods
    (\<open>helpers/network.go\<close>, \<open>helpers/network_modify.go\<close>).
  \<^item> \<open>Drivers\<close>: the driver registry and everything a node takes from its driver.
  \<^item> \<open>Topology_Validation\<close>: \<open>helpers/topology_validation.go\<close> and \<open>helpers/placement.go\<close>.
  \<^item> \<open>Store\<close>: the database as an operation on a state, with statements that may fail.
  \<^item> \<open>Topology_CRDs\<close>, \<open>Topology_Wiring\<close>, \<open>Topology_Updates\<close>: the Topology resources, the API
    server as a state with calls that may fail, the checks that read them, the loops that
    write, rebuild, append and remove link entries.
  \<^item> \<open>Link_UIDs\<close>: \<open>helpers/network_uids.go\<close>. \<open>Namespace_Lock\<close>: \<open>helpers/namespace_state.go\<close>.
  \<^item> \<open>Actions\<close>, \<open>Action_Catalog\<close>, \<open>Action_Registry\<close>: the typed actions (\<open>actions/\<close>), all those
    the start-up registers (\<open>capabilities/\<close>), and what registration and validation guarantee.
  \<^item> \<open>Operation_History\<close>: \<open>helpers/driver_operation_history.go\<close>.
  \<^item> \<open>Executors\<close>: typed commands, the executors that carry them to a pod, and shell quoting
    (\<open>executor/\<close>). \<open>Base_Commands\<close>: the commands of the base structs and of IOS-XR.
    \<open>VyOS_Commands\<close>, \<open>FRR_Commands\<close>, \<open>Switch_Commands\<close>: those of the other drivers
    (\<open>drivers/drivers/\<close>), a definition per method. \<open>VyOS_Commits\<close>: what an action of a VyOS router
    commits and what its undo deletes. \<open>Driver_Commands\<close>: the methods of the nine drivers joined to
    the capabilities they declare.
  \<^item> \<open>Action_Pipeline\<close>, \<open>Action_Run\<close>: \<open>helpers/action_pipeline.go\<close>, how the actions of a pod are
    planned, placed in a container, grouped into commits and scripts, and run.
  \<^item> \<open>Float64\<close>, \<open>Traffic_Shaping\<close>, \<open>Shaping_Trees\<close>: \<open>helpers/tc.go\<close>, the fields of a shaping
    request with their units, the commands of netem, tbf and htb, and the tree of an htb; the
    builder is what the parameter \<open>rn_shaping\<close> of the catalog stands for.
  \<^item> \<open>Link_Attributes\<close>, \<open>Link_MTU\<close>: \<open>helpers/link_attributes.go\<close> and \<open>helpers/mtu.go\<close>, what a
    request declares on its links and the pass that sets the MTU of every end.
  \<^item> \<open>Network_Scale\<close>: \<open>helpers/network_scale.go\<close> with the skip entries and interface counts a
    scale-up writes, over a cluster of Topologies, StatefulSets and history. \<open>Network_Modify\<close>: the
    delete phase of a modify (\<open>helpers/network_modify.go\<close>) and, of the handler
    (\<open>handlers/network.go\<close>), the links it keeps after a scale-up and the pods it restarts.
  \<^item> \<open>Login_Limit\<close>: \<open>auth/loginlimit.go\<close> and the login handler around it.

  \<^bold>\<open>How the model reads.\<close> A function of the code is a definition of the same name in snake
  case; an error is the left side of a sum. Code with effects is an operation
  \<open>('s, 'e, 'a) op\<close>: it takes the state (the rows of a table, the Topology resources of a
  namespace) and returns the outcome and the state it leaves, also when it fails. Which
  statements and calls fail is part of the state, so every theorem quantifies over the points
  of failure. The iteration order of a Go map is a parameter, any permutation of the entries.
  Go's \<open>int\<close> is \<open>int\<close> with the 64-bit bound written out where text is parsed
  (\<open>Go_Prelude\<close>); the arithmetic on replicas, UIDs and VLANs stays far inside that range by the
  checks that precede it. Strings are lists of bytes.

  \<^bold>\<open>What the lemmas show.\<close> Validation theorems say what an accepted request satisfies and, for
  the conflict checks, that exactly those requests are accepted. The wiring theorems say what
  each loop leaves in the resources, and that a deploy reads back as the links it was asked
  for. The registry of UIDs and the operation history have an invariant that every operation
  keeps, and the history refines an abstract map from a piece of state to its last word. The
  lock theorem speaks of every interleaving of acquire, release and restart.

  The driver theorems say that a supported action always has commands, that a VyOS action is one
  commit, and that an undo deletes what its action set. The pipeline theorems say that running
  planned actions is running their groups in order, and that the output of a script reads back.
  The scale theorems say what plans an accepted request gives, that a scale-down leaves no trace of
  the pods it removes, and that a link always keeps one end that creates it. The modify theorems
  say what a delete phase leaves and that the restarts wire every new link.
  The MTU theorems give the value a pass settles on and what a round leaves in the pods.

  \<^bold>\<open>Bounds.\<close> Loops are structural or have a measure (\<open>scan_uid\<close>: the rest of the UID range), so
  no fuel is needed; the number of tries of a replayed command, of random draws and of rounds of
  the MTU pass are the constants of the code. Letters are folded in ASCII only.

  \<^bold>\<open>Parameters.\<close> \<open>time.Parse\<close>, \<open>rand.Intn\<close>, the YAML parser, label selectors, the presence of a
  file and the execution of a command in a pod are arguments of the definitions that use them;
  what a theorem needs of the last is a named hypothesis (\<open>kernel_sets_links\<close>).

  \<^bold>\<open>Not modelled.\<close> HTTP handlers and their progress logs, the methods of the drivers that read a
  pod back and the parsers of what it prints, the heal loop, files, packet capture, traces,
  iperf, sessions, construction of Kubernetes objects and waits on the cluster, the generated
  API documentation and the frontend.
\<close>

end
